(* ===== verification/Prelude.thy ===== *)
theory Prelude
  imports
    Main
    "HOL-Library.Word"
    "HOL-Library.Monad_Syntax"
    "HOL-Library.List_Lexorder"
    "HOL-Library.Char_ord"
    "HOL-Library.Product_Lexorder"
begin

section \<open>Conventions and generic lemmas shared by the components\<close>

text \<open>
  A Go call that may panic is a function into \<open>option\<close>: \<open>None\<close> is the panic, and the \<open>do\<close>
  notation of the option monad is Go's sequencing, in which a panic skips the rest of the
  function. A Go call that returns an \<open>error\<close> beside its value is a sum, with \<open>Inl\<close> for the
  error. Byte slices and Go strings are \<open>string\<close>: a \<open>char\<close> is a byte, and the order on strings
  is the bytewise lexicographic order that Go's \<open><\<close>, \<open>strings.Compare\<close> and \<open>bytes.Compare\<close> use.
\<close>

type_synonym bytes = string
type_synonym CUAddress = bytes
type_synonym Symbol = string
type_synonym uint32 = "32 word"
type_synonym uint64 = "64 word"

text \<open>The errors of types/errors.go that the modelled code returns; their messages are left out.\<close>

datatype sdk_error =
    ErrInternal
  | ErrUnknownRequest
  | ErrInvalidTx
  | ErrInvalidAddr
  | ErrInvalidAddress
  | ErrInputOutputMismatch
  | ErrInvalidAmount
  | ErrInvalidSymbol
  | ErrInvalidCoins
  | ErrInsufficientCoins
  | ErrInsufficientFunds
  | ErrUnSupportToken
  | ErrNotFoundOrder
  | ErrUnknownAddress
  | ErrOutOfGas
  | ErrTxDecode
  | ErrTooManySignatures
  | ErrMemoTooLarge
  | ErrInvalidPubKey
  | ErrUnauthorized
  | ErrInsufficientFee
  | ErrGasOverflow
  | ErrNoSignatures
  | ErrInvalidAccount
  | ErrSendDisabled
  | ErrNoInputs
  | ErrNoOutputs
  | ErrTransactionIsNotEnabled
  | ErrInvalidOrder
  | ErrBadAddress

named_theorems go_simps "equations that resolve the option monad"
named_theorems arith_ok "facts about checked arithmetic"
named_theorems go_eval "equations that evaluate the operations at concrete arguments"

subsection \<open>The option monad as Go's panic\<close>

lemma bind_Some_iff [go_simps]:
  "(Option.bind m f = Some y) = (\<exists>x. m = Some x \<and> f x = Some y)"
  by (cases m) auto

lemma bind_SomeE:
  assumes "Option.bind m f = Some y"
  obtains x where "m = Some x" and "f x = Some y"
  using assms by (cases m) auto

lemma guard_Some_iff [go_simps]:
  "((if b then Some x else None) = Some y) = (b \<and> x = y)"
  by simp

lemma guard_None_iff [go_simps]:
  "((if b then None else m) = Some y) = (\<not> b \<and> m = Some y)"
  by simp

lemma bind_None_iff:
  "(Option.bind m f = None) = (m = None \<or> (\<exists>x. m = Some x \<and> f x = None))"
  by (cases m) auto

text \<open>
  A call that returns an error and changes a state: the state is returned beside the error,
  because a caller that goes on after an error keeps what was written before it.  \<open>on_ok m f\<close> is
  \<open>x, err := m; if err != nil { return err }\<close> followed by \<open>f\<close>.
\<close>

type_synonym ('a, 's) outcome = "((sdk_error + 'a) \<times> 's) option"

definition on_ok :: "('a, 's) outcome \<Rightarrow> ('a \<Rightarrow> 's \<Rightarrow> ('b, 's) outcome) \<Rightarrow> ('b, 's) outcome" where
  "on_ok m f = (case m of
     None \<Rightarrow> None
   | Some (Inl e, s) \<Rightarrow> Some (Inl e, s)
   | Some (Inr x, s) \<Rightarrow> f x s)"

lemma on_ok_simps [simp]:
  "on_ok None f = None" "on_ok (Some (Inl e, s)) f = Some (Inl e, s)" "on_ok (Some (Inr x, s)) f = f x s"
  by (simp_all add: on_ok_def)

lemma on_ok_Inr_iff [go_simps]:
  "(on_ok m f = Some (Inr y, s')) = (\<exists>x s. m = Some (Inr x, s) \<and> f x s = Some (Inr y, s'))"
  by (auto simp: on_ok_def split: option.splits sum.splits)

lemma on_ok_cases:
  assumes "on_ok m f = Some (r, s')"
  obtains (err) e where "m = Some (Inl e, s')" "r = Inl e"
  | (ok) x s where "m = Some (Inr x, s)" "f x s = Some (r, s')"
  using assms by (auto simp: on_ok_def split: option.splits sum.splits)

text \<open>A property of the state kept by both parts is kept by the whole, also on the error paths.\<close>

lemma on_ok_keeps:
  assumes "on_ok m f = Some (r, s')"
    and "\<And>r1 s1. m = Some (r1, s1) \<Longrightarrow> P s1"
    and "\<And>x s1. m = Some (Inr x, s1) \<Longrightarrow> f x s1 = Some (r, s') \<Longrightarrow> P s1 \<Longrightarrow> P s'"
  shows "P s'"
  using assms(1) by (cases rule: on_ok_cases) (use assms(2,3) in blast)+

text \<open>
  For evaluation at concrete arguments: the continuation of a call is looked at only when the
  call has been evaluated.
\<close>

lemma bind_weak_cong: "m = m' \<Longrightarrow> Option.bind m f = Option.bind m' f"
  by simp

lemma on_ok_weak_cong: "m = m' \<Longrightarrow> on_ok m f = on_ok m' f"
  by simp

lemmas go_congs = bind_weak_cong on_ok_weak_cong if_weak_cong

text \<open>
  A \<open>for _, x := range xs\<close> loop that returns false at the first element failing a test that may
  itself panic, and its dual that returns true at the first element passing the test.
\<close>

fun go_all :: "('a \<Rightarrow> bool option) \<Rightarrow> 'a list \<Rightarrow> bool option" where
  "go_all p [] = Some True"
| "go_all p (x # xs) = do { b \<leftarrow> p x; if b then go_all p xs else Some False }"

fun go_any :: "('a \<Rightarrow> bool option) \<Rightarrow> 'a list \<Rightarrow> bool option" where
  "go_any p [] = Some False"
| "go_any p (x # xs) = do { b \<leftarrow> p x; if b then Some True else go_any p xs }"

lemma go_all_Some:
  "(\<And>x. x \<in> set xs \<Longrightarrow> p x = Some (q x)) \<Longrightarrow> go_all p xs = Some (\<forall>x \<in> set xs. q x)"
  by (induction xs) auto

lemma go_any_Some:
  "(\<And>x. x \<in> set xs \<Longrightarrow> p x = Some (q x)) \<Longrightarrow> go_any p xs = Some (\<exists>x \<in> set xs. q x)"
  by (induction xs) auto

subsection \<open>Integer division\<close>

lemma div_mult_le_int: "0 < (b::int) \<Longrightarrow> a div b * b \<le> a"
  using pos_mod_sign [of b a] div_mult_mod_eq [of a b] by linarith

lemma less_div_mult_int: "0 < (b::int) \<Longrightarrow> a < (a div b + 1) * b"
proof -
  assume "0 < b"
  then have "a mod b < b" by (rule pos_mod_bound)
  then show ?thesis using div_mult_mod_eq [of a b] unfolding distrib_right by linarith
qed

lemma le_div_iff_int: "0 < (b::int) \<Longrightarrow> (q \<le> a div b) = (q * b \<le> a)"
proof
  assume "0 < b" and "q \<le> a div b"
  then have "q * b \<le> a div b * b" by (simp add: mult_right_mono)
  with \<open>0 < b\<close> div_mult_le_int [of b a] show "q * b \<le> a" by linarith
next
  assume b: "0 < b" and q: "q * b \<le> a"
  have "a < (a div b + 1) * b" using b by (rule less_div_mult_int)
  with q have "q * b < (a div b + 1) * b" by linarith
  with b have "q < a div b + 1" by (simp add: mult_less_cancel_right)
  then show "q \<le> a div b" by simp
qed

lemma div_less_iff_int: "0 < (b::int) \<Longrightarrow> (a div b < q) = (a < q * b)"
  using le_div_iff_int [of b q a] by linarith

subsection \<open>Strictly ascending key lists\<close>

lemma sorted_wrt_less_distinct:
  "sorted_wrt (<) (xs :: 'a::linorder list) \<Longrightarrow> distinct xs"
  by (induction xs) auto

lemma sorted_wrt_less_unique:
  assumes "sorted_wrt (<) (xs :: 'a::linorder list)" and "sorted_wrt (<) ys"
    and "set xs = set ys"
  shows "xs = ys"
  using assms strict_sorted_equal by blast

lemma map_of_not_in: "k \<notin> fst ` set xs \<Longrightarrow> map_of xs k = None"
  by (simp add: map_of_eq_None_iff)

end
