(* ===== verification/SdkInt.thy ===== *)
theory SdkInt
  imports Prelude
begin

section \<open>Bounded big integers (types/int.go)\<close>

text \<open>
  An \<open>sdk.Int\<close> wraps a \<open>math/big.Int\<close>; here it is an \<open>int\<close>. The operations that check the
  result's bit length panic on overflow, so they return \<open>None\<close> there. \<open>big.Int.Quo\<close> truncates
  towards zero and \<open>big.Int.Mod\<close> is the Euclidean remainder, which is never negative.
\<close>

subsection \<open>The operations of math/big that the code uses\<close>

fun bit_length :: "nat \<Rightarrow> nat" where
  "bit_length n = (if n = 0 then 0 else Suc (bit_length (n div 2)))"

declare bit_length.simps [simp del]

definition BitLen :: "int \<Rightarrow> nat" where
  "BitLen x = bit_length (nat \<bar>x\<bar>)"

definition big_Quo :: "int \<Rightarrow> int \<Rightarrow> int" where
  "big_Quo a b = sgn a * sgn b * (\<bar>a\<bar> div \<bar>b\<bar>)"

definition big_Rem :: "int \<Rightarrow> int \<Rightarrow> int" where
  "big_Rem a b = a - big_Quo a b * b"

definition big_Mod :: "int \<Rightarrow> int \<Rightarrow> int" where
  "big_Mod a b = a mod \<bar>b\<bar>"

definition IsInt64 :: "int \<Rightarrow> bool" where
  "IsInt64 x = (- (2 ^ 63) \<le> x \<and> x < 2 ^ 63)"

subsection \<open>The operations of types/int.go\<close>

definition maxBitLen :: nat where
  "maxBitLen = 255"

definition min_big :: "int \<Rightarrow> int \<Rightarrow> int" where
  "min_big i i2 = (if i > i2 then i2 else i)"

definition max_big :: "int \<Rightarrow> int \<Rightarrow> int" where
  "max_big i i2 = (if i < i2 then i2 else i)"

definition NewIntFromBigInt :: "int \<Rightarrow> int option" where
  "NewIntFromBigInt i = (if BitLen i > maxBitLen then None else Some i)"

definition NewIntWithDecimal :: "int \<Rightarrow> int \<Rightarrow> int option" where
  "NewIntWithDecimal n dec =
     (if dec < 0 then None
      else let i = n * 10 ^ nat dec
           in if BitLen i > maxBitLen then None else Some i)"

definition Int_Int64 :: "int \<Rightarrow> int option" where
  "Int_Int64 i = (if \<not> IsInt64 i then None else Some i)"

definition Int_Add :: "int \<Rightarrow> int \<Rightarrow> int option" where
  "Int_Add i i2 = (let res = i + i2 in if BitLen res > maxBitLen then None else Some res)"

definition Int_Sub :: "int \<Rightarrow> int \<Rightarrow> int option" where
  "Int_Sub i i2 = (let res = i - i2 in if BitLen res > maxBitLen then None else Some res)"

definition Int_Mul :: "int \<Rightarrow> int \<Rightarrow> int option" where
  "Int_Mul i i2 =
     (if int (BitLen i) + int (BitLen i2) - 1 > int maxBitLen then None
      else let res = i * i2 in if BitLen res > maxBitLen then None else Some res)"

definition Int_Quo :: "int \<Rightarrow> int \<Rightarrow> int option" where
  "Int_Quo i i2 = (if i2 = 0 then None else Some (big_Quo i i2))"

definition Int_Mod :: "int \<Rightarrow> int \<Rightarrow> int option" where
  "Int_Mod i i2 = (if i2 = 0 then None else Some (big_Mod i i2))"

definition Int_Neg :: "int \<Rightarrow> int" where
  "Int_Neg i = - i"

definition MinInt :: "int \<Rightarrow> int \<Rightarrow> int" where
  "MinInt i1 i2 = min_big i1 i2"

definition MaxInt :: "int \<Rightarrow> int \<Rightarrow> int" where
  "MaxInt i i2 = max_big i i2"

text \<open>
  \<open>IntMedian\<close> sorts its argument and takes the middle element, or the truncated mean of the two
  middle ones. The empty slice indexes out of range.
\<close>

definition IntMedian :: "int list \<Rightarrow> int option" where
  "IntMedian xs =
     (let s = sort xs; l = length s; half = l div 2
      in if l mod 2 = 1 then Some (s ! half)
         else if l = 0 then None
         else do { t \<leftarrow> Int_Add (s ! (half - 1)) (s ! half); Int_Quo t 2 })"

subsection \<open>Bit length\<close>

lemma bit_length_le_iff: "(bit_length n \<le> k) = (n < 2 ^ k)"
proof (induction n arbitrary: k rule: bit_length.induct)
  case (1 n)
  show ?case
  proof (cases "n = 0")
    case True
    then show ?thesis by (simp add: bit_length.simps [of 0])
  next
    case False
    show ?thesis
    proof (cases k)
      case 0
      with False show ?thesis by (simp add: bit_length.simps [of n])
    next
      case (Suc j)
      have "(bit_length n \<le> k) = (bit_length (n div 2) \<le> j)"
        using False Suc by (simp add: bit_length.simps [of n])
      also have "\<dots> = (n div 2 < 2 ^ j)" using "1.IH" False by simp
      also have "\<dots> = (n < 2 ^ k)" using Suc by (simp add: div_less_iff_less_mult mult.commute)
      finally show ?thesis .
    qed
  qed
qed

lemma BitLen_le_iff: "(BitLen x \<le> k) = (\<bar>x\<bar> < 2 ^ k)"
proof -
  have "(nat \<bar>x\<bar> < 2 ^ k) = (nat \<bar>x\<bar> < nat (2 ^ k))" by (simp add: nat_power_eq)
  also have "\<dots> = (\<bar>x\<bar> < 2 ^ k)" by (simp add: nat_less_eq_zless)
  finally show ?thesis by (simp add: BitLen_def bit_length_le_iff)
qed

text \<open>The range of \<open>sdk.Int\<close>: from \<open>-(2^255 - 1)\<close> to \<open>2^255 - 1\<close>.\<close>

definition int_ok :: "int \<Rightarrow> bool" where
  "int_ok x = (\<bar>x\<bar> < 2 ^ 255)"

lemma BitLen_maxBitLen [simp]: "(maxBitLen < BitLen x) = (\<not> int_ok x)"
  using BitLen_le_iff [of x 255] by (auto simp: maxBitLen_def int_ok_def)

lemma BitLen_abs [simp]: "BitLen \<bar>x\<bar> = BitLen x" "BitLen (- x) = BitLen x"
  by (simp_all add: BitLen_def)

lemma BitLen_lower: "x \<noteq> 0 \<Longrightarrow> 2 ^ (BitLen x - 1) \<le> \<bar>x\<bar>"
  using BitLen_le_iff [of x "BitLen x - 1"] BitLen_le_iff [of x 0]
  by (cases "BitLen x") auto

lemma BitLen_upper: "\<bar>x\<bar> < 2 ^ BitLen x"
  using BitLen_le_iff [of x "BitLen x"] by simp

lemma BitLen_zero_iff: "(BitLen x = 0) = (x = 0)"
  using BitLen_le_iff [of x 0] by auto

text \<open>The first overflow test of \<open>Mul\<close> never refuses a product that fits.\<close>

lemma BitLen_mult: "i * j \<noteq> 0 \<Longrightarrow> BitLen i + BitLen j - 1 \<le> BitLen (i * j)"
proof -
  assume nz: "i * j \<noteq> 0"
  then have i: "i \<noteq> 0" and j: "j \<noteq> 0" by auto
  have "(2::int) ^ (BitLen i - 1) * 2 ^ (BitLen j - 1) \<le> \<bar>i\<bar> * \<bar>j\<bar>"
    using BitLen_lower [OF i] BitLen_lower [OF j] by (intro mult_mono) auto
  also have "\<dots> = \<bar>i * j\<bar>" by (simp add: abs_mult)
  also have "\<dots> < 2 ^ BitLen (i * j)" by (rule BitLen_upper)
  finally have "(2::int) ^ (BitLen i - 1 + (BitLen j - 1)) < 2 ^ BitLen (i * j)"
    by (simp add: power_add)
  then have "BitLen i - 1 + (BitLen j - 1) < BitLen (i * j)"
    by (simp add: power_strict_increasing_iff)
  then show ?thesis
    using BitLen_zero_iff [of i] BitLen_zero_iff [of j] i j by linarith
qed

subsection \<open>Checked arithmetic is exact arithmetic that stays in range\<close>

lemma int_ok_zero [simp]: "int_ok 0" and int_ok_one [simp]: "int_ok 1"
  and int_ok_minus [simp]: "int_ok (- x) = int_ok x"
  by (simp_all add: int_ok_def)

lemma int_ok_mono: "\<bar>x\<bar> \<le> \<bar>y\<bar> \<Longrightarrow> int_ok y \<Longrightarrow> int_ok x"
  by (simp add: int_ok_def)

lemma int_ok_between: "0 \<le> x \<Longrightarrow> x \<le> y \<Longrightarrow> int_ok y \<Longrightarrow> int_ok x"
  by (simp add: int_ok_def)

lemma NewIntFromBigInt_eq: "NewIntFromBigInt i = (if int_ok i then Some i else None)"
  by (simp add: NewIntFromBigInt_def)

lemma Int_Add_eq: "Int_Add i j = (if int_ok (i + j) then Some (i + j) else None)"
  by (simp add: Int_Add_def Let_def)

lemma Int_Sub_eq: "Int_Sub i j = (if int_ok (i - j) then Some (i - j) else None)"
  by (simp add: Int_Sub_def Let_def)

lemma Int_Mul_eq:
  assumes "int_ok i" and "int_ok j"
  shows "Int_Mul i j = (if int_ok (i * j) then Some (i * j) else None)"
proof (cases "i * j = 0")
  case True
  have "BitLen i \<le> maxBitLen" and "BitLen j \<le> maxBitLen"
    using assms by (simp_all flip: not_less)
  moreover have "BitLen i = 0 \<or> BitLen j = 0"
    using True by (auto simp: BitLen_zero_iff)
  ultimately show ?thesis
    using True by (auto simp: Int_Mul_def Let_def)
next
  case False
  have "BitLen (i * j) \<le> maxBitLen" if "int_ok (i * j)"
    using that by (simp flip: not_less)
  then have "int (BitLen i) + int (BitLen j) - 1 \<le> int maxBitLen" if "int_ok (i * j)"
    using that BitLen_mult [OF False] by linarith
  then show ?thesis
    by (auto simp: Int_Mul_def Let_def)
qed

lemma Int_Mul_Some: "Int_Mul i j = Some r \<Longrightarrow> r = i * j \<and> int_ok r"
  by (auto simp: Int_Mul_def Let_def split: if_splits)

lemmas checked_int = Int_Add_eq Int_Sub_eq NewIntFromBigInt_eq

text \<open>The same equations evaluate the operations: the bit length is not computed.\<close>

lemma int_ok_code [code]: "int_ok x = (\<bar>x\<bar> < 57896044618658097711785492504343953926634992332820282019728792003956564819968)"
  by (simp add: int_ok_def)

declare checked_int [code, go_eval] int_ok_code [go_eval]

lemma Int_Add_Some [go_simps]: "(Int_Add i j = Some r) = (r = i + j \<and> int_ok r)"
  and Int_Sub_Some [go_simps]: "(Int_Sub i j = Some r) = (r = i - j \<and> int_ok r)"
  and NewIntFromBigInt_Some [go_simps]: "(NewIntFromBigInt i = Some r) = (r = i \<and> int_ok r)"
  by (auto simp: checked_int)

subsection \<open>Truncated division\<close>

lemma big_Quo_nonneg: "0 \<le> a \<Longrightarrow> 0 < b \<Longrightarrow> big_Quo a b = a div b"
  by (cases "a = 0") (simp_all add: big_Quo_def)

lemma big_Rem_nonneg: "0 \<le> a \<Longrightarrow> 0 < b \<Longrightarrow> big_Rem a b = a mod b"
  by (simp add: big_Rem_def big_Quo_nonneg minus_div_mult_eq_mod)

lemma big_Quo_minus: "big_Quo (- a) b = - big_Quo a b"
  by (simp add: big_Quo_def sgn_minus)

lemma big_Quo_abs_le: "b \<noteq> 0 \<Longrightarrow> \<bar>big_Quo a b\<bar> \<le> \<bar>a\<bar>"
proof -
  assume "b \<noteq> 0"
  have "\<bar>a\<bar> div \<bar>b\<bar> \<le> \<bar>a\<bar>"
    using \<open>b \<noteq> 0\<close> zdiv_mono2 [of "\<bar>a\<bar>" 1 "\<bar>b\<bar>"] by auto
  then show ?thesis
    by (simp add: big_Quo_def abs_mult abs_sgn_eq pos_imp_zdiv_nonneg_iff)
qed

lemma big_Mod_nonneg: "b \<noteq> 0 \<Longrightarrow> 0 \<le> big_Mod a b \<and> big_Mod a b < \<bar>b\<bar>"
  by (simp add: big_Mod_def)

end
