(* ===== verification/SdkDec.thy ===== *)
theory SdkDec
  imports SdkInt
begin

section \<open>Fixed-point decimals (types/decimal.go)\<close>

text \<open>
  A \<open>Dec\<close> embeds a \<open>big.Int\<close> that counts units of \<open>10^-18\<close>; here it is that integer. Operations
  that check the bit length of their result, or divide, return \<open>None\<close> where the Go code panics.
  A nil \<open>Dec\<close> is not represented.
\<close>

type_synonym Dec = int

subsection \<open>Constants and constructors\<close>

definition Precision :: nat where
  "Precision = 18"

definition DecimalPrecisionBits :: nat where
  "DecimalPrecisionBits = 60"

definition precisionReuse :: int where
  "precisionReuse = 10 ^ Precision"

definition fivePrecision :: int where
  "fivePrecision = big_Quo precisionReuse 2"

definition ZeroDec :: Dec where
  "ZeroDec = 0"

definition OneDec :: Dec where
  "OneDec = precisionReuse"

definition SmallestDec :: Dec where
  "SmallestDec = 1"

definition calcPrecisionMultiplier :: "int \<Rightarrow> int option" where
  "calcPrecisionMultiplier prec =
     (if prec > int Precision then None else Some (10 ^ nat (int Precision - prec)))"

text \<open>\<open>init\<close> fills \<open>precisionMultipliers\<close> with the multipliers of 0 to \<open>Precision\<close>.\<close>

definition precisionMultipliers :: "int list" where
  "precisionMultipliers = List.map_filter (\<lambda>i. calcPrecisionMultiplier (int i)) [0..<Precision + 1]"

text \<open>A negative \<open>prec\<close> indexes the table out of range, which panics.\<close>

definition precisionMultiplier :: "int \<Rightarrow> int option" where
  "precisionMultiplier prec =
     (if prec > int Precision then None
      else if prec < 0 then None
      else Some (precisionMultipliers ! nat prec))"

definition NewDecWithPrec :: "int \<Rightarrow> int \<Rightarrow> Dec option" where
  "NewDecWithPrec i prec = do { m \<leftarrow> precisionMultiplier prec; Some (i * m) }"

definition NewDecFromBigIntWithPrec :: "int \<Rightarrow> int \<Rightarrow> Dec option" where
  "NewDecFromBigIntWithPrec i prec = do { m \<leftarrow> precisionMultiplier prec; Some (i * m) }"

definition NewDecFromIntWithPrec :: "int \<Rightarrow> int \<Rightarrow> Dec option" where
  "NewDecFromIntWithPrec i prec = do { m \<leftarrow> precisionMultiplier prec; Some (i * m) }"

text \<open>
  The constructors for whole numbers pass \<open>prec = 0\<close>, for which \<open>precisionMultiplier\<close> does not
  panic and returns the first entry of the table (lemma \<open>NewDecFromIntWithPrec_0\<close>).
\<close>

definition NewDec :: "int \<Rightarrow> Dec" where
  "NewDec i = i * precisionMultipliers ! 0"

definition NewDecFromBigInt :: "int \<Rightarrow> Dec" where
  "NewDecFromBigInt i = i * precisionMultipliers ! 0"

definition NewDecFromInt :: "int \<Rightarrow> Dec" where
  "NewDecFromInt i = i * precisionMultipliers ! 0"

definition ToDec :: "int \<Rightarrow> Dec" where
  "ToDec i = NewDecFromInt i"

subsection \<open>Rounding\<close>

definition chopPrecisionAndTruncate :: "int \<Rightarrow> int" where
  "chopPrecisionAndTruncate d = big_Quo d precisionReuse"

function chopPrecisionAndRound :: "int \<Rightarrow> int" where
  "chopPrecisionAndRound d =
     (if d < 0 then - chopPrecisionAndRound (- d)
      else let quo = big_Quo d precisionReuse; rem = big_Rem d precisionReuse
           in if rem = 0 then quo
              else if rem < fivePrecision then quo
              else if rem > fivePrecision then quo + 1
              else if even quo then quo
              else quo + 1)"
  by pat_completeness auto
termination
  by (relation "measure (\<lambda>d. if d < 0 then 1 else 0)") auto

declare chopPrecisionAndRound.simps [simp del]

definition chopPrecisionAndRoundUp :: "int \<Rightarrow> int" where
  "chopPrecisionAndRoundUp d =
     (if d < 0 then - chopPrecisionAndTruncate (- d)
      else let quo = big_Quo d precisionReuse; rem = big_Rem d precisionReuse
           in if rem = 0 then quo else quo + 1)"

definition dec_checked :: "int \<Rightarrow> Dec option" where
  "dec_checked r = (if BitLen r > 255 + DecimalPrecisionBits then None else Some r)"

subsection \<open>Arithmetic\<close>

definition Dec_Neg :: "Dec \<Rightarrow> Dec" where
  "Dec_Neg d = - d"

definition Dec_Abs :: "Dec \<Rightarrow> Dec" where
  "Dec_Abs d = \<bar>d\<bar>"

definition Dec_Add :: "Dec \<Rightarrow> Dec \<Rightarrow> Dec option" where
  "Dec_Add d d2 = dec_checked (d + d2)"

definition Dec_Sub :: "Dec \<Rightarrow> Dec \<Rightarrow> Dec option" where
  "Dec_Sub d d2 = dec_checked (d - d2)"

definition Dec_Mul :: "Dec \<Rightarrow> Dec \<Rightarrow> Dec option" where
  "Dec_Mul d d2 = dec_checked (chopPrecisionAndRound (d * d2))"

definition Dec_MulTruncate :: "Dec \<Rightarrow> Dec \<Rightarrow> Dec option" where
  "Dec_MulTruncate d d2 = dec_checked (chopPrecisionAndTruncate (d * d2))"

definition Dec_MulInt :: "Dec \<Rightarrow> int \<Rightarrow> Dec option" where
  "Dec_MulInt d i = dec_checked (d * i)"

definition Dec_MulInt64 :: "Dec \<Rightarrow> int \<Rightarrow> Dec option" where
  "Dec_MulInt64 d i = dec_checked (d * i)"

definition Dec_Quo :: "Dec \<Rightarrow> Dec \<Rightarrow> Dec option" where
  "Dec_Quo d d2 =
     (let mul = d * precisionReuse * precisionReuse
      in if d2 = 0 then None
         else dec_checked (chopPrecisionAndRound (big_Quo mul d2)))"

definition Dec_QuoTruncate :: "Dec \<Rightarrow> Dec \<Rightarrow> Dec option" where
  "Dec_QuoTruncate d d2 =
     (let mul = d * precisionReuse * precisionReuse
      in if d2 = 0 then None
         else dec_checked (chopPrecisionAndTruncate (big_Quo mul d2)))"

definition Dec_QuoRoundUp :: "Dec \<Rightarrow> Dec \<Rightarrow> Dec option" where
  "Dec_QuoRoundUp d d2 =
     (let mul = d * precisionReuse * precisionReuse
      in if d2 = 0 then None
         else dec_checked (chopPrecisionAndRoundUp (big_Quo mul d2)))"

definition Dec_QuoInt :: "Dec \<Rightarrow> int \<Rightarrow> Dec option" where
  "Dec_QuoInt d i = (if i = 0 then None else Some (big_Quo d i))"

definition Dec_QuoInt64 :: "Dec \<Rightarrow> int \<Rightarrow> Dec option" where
  "Dec_QuoInt64 d i = (if i = 0 then None else Some (big_Quo d i))"

definition Dec_IsInteger :: "Dec \<Rightarrow> bool" where
  "Dec_IsInteger d = (big_Rem d precisionReuse = 0)"

definition Dec_RoundInt64 :: "Dec \<Rightarrow> int option" where
  "Dec_RoundInt64 d =
     (let chopped = chopPrecisionAndRound d in if \<not> IsInt64 chopped then None else Some chopped)"

definition Dec_RoundInt :: "Dec \<Rightarrow> int option" where
  "Dec_RoundInt d = NewIntFromBigInt (chopPrecisionAndRound d)"

definition Dec_TruncateInt64 :: "Dec \<Rightarrow> int option" where
  "Dec_TruncateInt64 d =
     (let chopped = chopPrecisionAndTruncate d in if \<not> IsInt64 chopped then None else Some chopped)"

definition Dec_TruncateInt :: "Dec \<Rightarrow> int option" where
  "Dec_TruncateInt d = NewIntFromBigInt (chopPrecisionAndTruncate d)"

definition Dec_TruncateDec :: "Dec \<Rightarrow> Dec" where
  "Dec_TruncateDec d = NewDecFromBigInt (chopPrecisionAndTruncate d)"

definition Dec_Ceil :: "Dec \<Rightarrow> Dec" where
  "Dec_Ceil d =
     (let quo = big_Quo d precisionReuse; rem = big_Rem d precisionReuse
      in if rem = 0 then NewDecFromBigInt quo
         else if rem < 0 then NewDecFromBigInt quo
         else NewDecFromBigInt (quo + 1))"

fun DecsEqual :: "Dec list \<Rightarrow> Dec list \<Rightarrow> bool" where
  "DecsEqual d1s d2s = (if length d1s \<noteq> length d2s then False
                        else list_all (\<lambda>(d1, d2). d1 = d2) (zip d1s d2s))"

definition MinDec :: "Dec \<Rightarrow> Dec \<Rightarrow> Dec" where
  "MinDec d1 d2 = (if d1 < d2 then d1 else d2)"

definition MaxDec :: "Dec \<Rightarrow> Dec \<Rightarrow> Dec" where
  "MaxDec d1 d2 = (if d1 < d2 then d2 else d1)"

definition DecMedian :: "Dec list \<Rightarrow> Dec option" where
  "DecMedian decs =
     (let s = sort decs; l = length s; half = l div 2
      in if l mod 2 = 1 then Some (s ! half)
         else if l = 0 then None
         else do { t \<leftarrow> Dec_Add (s ! (half - 1)) (s ! half); Dec_Quo t (NewDec 2) })"


subsection \<open>Values of the constants\<close>

lemma precisionReuse_val: "precisionReuse = 1000000000000000000"
  by (simp add: precisionReuse_def Precision_def)

lemma precisionReuse_pos [simp]: "0 < precisionReuse" "0 \<le> precisionReuse"
    "precisionReuse \<noteq> 0"
  by (simp_all add: precisionReuse_val)

lemma fivePrecision_val: "fivePrecision = 500000000000000000"
  by (simp add: fivePrecision_def precisionReuse_val big_Quo_def)

lemma fivePrecision_double: "2 * fivePrecision = precisionReuse"
  by (simp add: fivePrecision_val precisionReuse_val)

lemma precisionMultipliers_nth: "i \<le> 18 \<Longrightarrow> precisionMultipliers ! i = 10 ^ (18 - i)"
proof -
  assume "i \<le> 18"
  have "precisionMultipliers = map (\<lambda>i. 10 ^ (18 - i)) [0..<19]"
    by (simp add: precisionMultipliers_def Precision_def calcPrecisionMultiplier_def
        List.map_filter_def upt_rec)
  moreover have "i < n \<Longrightarrow> map f [0..<n] ! i = f i" for n and f :: "nat \<Rightarrow> int" by simp
  moreover have "i < 19" using \<open>i \<le> 18\<close> by simp
  ultimately show ?thesis by metis
qed

lemma precisionMultiplier_eq:
  "0 \<le> prec \<Longrightarrow> prec \<le> 18 \<Longrightarrow> precisionMultiplier prec = Some (10 ^ nat (18 - prec))"
  by (simp add: precisionMultiplier_def Precision_def precisionMultipliers_nth nat_diff_distrib)

lemma NewDecFromIntWithPrec_0: "NewDecFromIntWithPrec i 0 = Some (NewDecFromInt i)"
  by (simp add: NewDecFromIntWithPrec_def NewDecFromInt_def precisionMultiplier_eq
      precisionMultipliers_nth)

lemma NewDec_eq: "NewDec i = i * precisionReuse"
  and NewDecFromBigInt_eq: "NewDecFromBigInt i = i * precisionReuse"
  and NewDecFromInt_eq: "NewDecFromInt i = i * precisionReuse"
  and ToDec_eq: "ToDec i = i * precisionReuse"
  by (simp_all add: NewDec_def NewDecFromBigInt_def NewDecFromInt_def ToDec_def
      precisionMultipliers_nth precisionReuse_val)

declare precisionReuse_val [code] ToDec_eq [code] NewDecFromInt_eq [code]

lemmas to_dec_eqs = NewDec_eq NewDecFromBigInt_eq NewDecFromInt_eq ToDec_eq

subsection \<open>The range of checked decimals\<close>

definition dec_ok :: "Dec \<Rightarrow> bool" where
  "dec_ok d = (\<bar>d\<bar> < 2 ^ 315)"

lemma dec_checked_eq: "dec_checked r = (if dec_ok r then Some r else None)"
  using BitLen_le_iff [of r 315]
  by (auto simp: dec_checked_def dec_ok_def DecimalPrecisionBits_def)

lemma dec_ok_code [code]: "dec_ok d = (\<bar>d\<bar> < 66749594872528440074844428317798503581334516323645399060845050244444366430645017188217565216768)"
  by (simp add: dec_ok_def)

declare dec_checked_eq [code, go_eval] dec_ok_code [go_eval]

lemma dec_checked_Some [go_simps]: "(dec_checked r = Some d) = (d = r \<and> dec_ok r)"
  by (auto simp: dec_checked_eq)

lemma dec_ok_mono: "\<bar>x\<bar> \<le> \<bar>y\<bar> \<Longrightarrow> dec_ok y \<Longrightarrow> dec_ok x"
  by (simp add: dec_ok_def)

lemma dec_ok_ToDec: "int_ok i \<Longrightarrow> \<bar>r\<bar> \<le> precisionReuse \<Longrightarrow> dec_ok (i * r)"
proof -
  assume i: "int_ok i" and r: "\<bar>r\<bar> \<le> precisionReuse"
  have "\<bar>i * r\<bar> = \<bar>i\<bar> * \<bar>r\<bar>" by (simp add: abs_mult)
  also have "\<dots> \<le> 2 ^ 255 * 1000000000000000000"
    using i r by (intro mult_mono) (auto simp: int_ok_def precisionReuse_val)
  also have "\<dots> < (2::int) ^ 315" by simp
  finally show ?thesis by (simp add: dec_ok_def)
qed

lemma dec_ok_ToDec' [simp]: "int_ok i \<Longrightarrow> dec_ok (ToDec i)"
  using dec_ok_ToDec [of i precisionReuse] by (simp add: ToDec_eq)

subsection \<open>Rounding\<close>

lemma chopPrecisionAndTruncate_nonneg:
  "0 \<le> d \<Longrightarrow> chopPrecisionAndTruncate d = d div precisionReuse"
  by (simp add: chopPrecisionAndTruncate_def big_Quo_nonneg)

lemma chopPrecisionAndTruncate_minus:
  "chopPrecisionAndTruncate (- d) = - chopPrecisionAndTruncate d"
  by (simp add: chopPrecisionAndTruncate_def big_Quo_minus)

lemma chopPrecisionAndRound_minus:
  "chopPrecisionAndRound (- d) = - chopPrecisionAndRound d"
proof (cases d "0::int" rule: linorder_cases)
  case less
  then show ?thesis by (simp add: chopPrecisionAndRound.simps [of d])
next
  case equal
  then show ?thesis
    by (simp add: chopPrecisionAndRound.simps [of 0] big_Quo_def big_Rem_def)
next
  case greater
  then show ?thesis by (simp add: chopPrecisionAndRound.simps [of "- d"])
qed

lemma chopPrecisionAndRound_nonneg:
  assumes "0 \<le> d"
  shows "chopPrecisionAndRound d =
    (let q = d div precisionReuse; r = d mod precisionReuse
     in if 2 * r < precisionReuse then q
        else if 2 * r > precisionReuse then q + 1
        else if even q then q else q + 1)"
  using assms fivePrecision_double
  by (simp add: chopPrecisionAndRound.simps [of d] big_Quo_nonneg big_Rem_nonneg Let_def)
    (use precisionReuse_pos in \<open>auto simp del: precisionReuse_pos\<close>)

lemma chopPrecisionAndRound_nonneg_nonneg: "0 \<le> d \<Longrightarrow> 0 \<le> chopPrecisionAndRound d"
  by (auto simp: chopPrecisionAndRound_nonneg Let_def pos_imp_zdiv_nonneg_iff)

lemma chop_nearest_nonneg:
  assumes "0 \<le> d"
  defines "c \<equiv> chopPrecisionAndRound d"
  shows "2 * \<bar>c * precisionReuse - d\<bar> \<le> precisionReuse"
    and "2 * \<bar>c * precisionReuse - d\<bar> = precisionReuse \<Longrightarrow> even c"
proof -
  define q where "q = d div precisionReuse"
  define r where "r = d mod precisionReuse"
  have d: "d = q * precisionReuse + r" by (simp add: q_def r_def)
  have r: "0 \<le> r" "r < precisionReuse" by (simp_all add: r_def)
  have c: "c = (if 2 * r < precisionReuse then q else if 2 * r > precisionReuse then q + 1
                else if even q then q else q + 1)"
    using chopPrecisionAndRound_nonneg [OF assms(1)] by (simp add: c_def q_def r_def Let_def)
  have cases: "c * precisionReuse - d = - r \<and> 2 * r \<le> precisionReuse \<or>
      c * precisionReuse - d = precisionReuse - r \<and> precisionReuse \<le> 2 * r"
    using c d by (auto simp: distrib_right)
  show "2 * \<bar>c * precisionReuse - d\<bar> \<le> precisionReuse"
    using cases r by auto
  show "even c" if tie: "2 * \<bar>c * precisionReuse - d\<bar> = precisionReuse"
  proof -
    have "2 * r = precisionReuse" using cases r tie by auto
    then show ?thesis using c by auto
  qed
qed

lemma chopPrecisionAndRound_mult [simp]: "chopPrecisionAndRound (i * precisionReuse) = i"
proof -
  have pos: "chopPrecisionAndRound (j * precisionReuse) = j" if "0 \<le> j" for j :: int
    using that by (simp add: chopPrecisionAndRound_nonneg)
  show ?thesis
    using pos [of i] pos [of "- i"] chopPrecisionAndRound_minus [of "i * precisionReuse"]
    by (cases "0 \<le> i") auto
qed

lemma chopPrecisionAndRound_mult' [simp]: "chopPrecisionAndRound (precisionReuse * i) = i"
  using chopPrecisionAndRound_mult [of i] by (simp add: mult.commute)

lemma chopPrecisionAndTruncate_mult [simp]: "chopPrecisionAndTruncate (i * precisionReuse) = i"
  by (simp add: chopPrecisionAndTruncate_def big_Quo_def abs_mult sgn_mult sgn_mult_abs)

subsection \<open>Products and quotients of whole numbers\<close>

lemma Dec_Mul_ToDec: "Dec_Mul (ToDec a) r = dec_checked (a * r)"
proof -
  have "a * precisionReuse * r = a * r * precisionReuse" by (simp only: mult_ac)
  then show ?thesis by (simp only: Dec_Mul_def ToDec_eq chopPrecisionAndRound_mult)
qed

lemma Dec_Mul_NewDecFromInt: "Dec_Mul (NewDecFromInt a) r = dec_checked (a * r)"
  using Dec_Mul_ToDec [of a r] by (simp only: ToDec_eq NewDecFromInt_eq)

declare Dec_Mul_def [go_eval] Dec_Quo_def [go_eval] ToDec_eq [go_eval] NewDecFromInt_eq [go_eval]
  chopPrecisionAndRound_nonneg [go_eval] big_Quo_def [go_eval] big_Rem_def [go_eval]

lemma Dec_Mul_commute: "Dec_Mul a b = Dec_Mul b a"
  by (simp add: Dec_Mul_def mult.commute)

lemma Dec_TruncateInt_nonneg:
  "0 \<le> d \<Longrightarrow> Dec_TruncateInt d =
     (if int_ok (d div precisionReuse) then Some (d div precisionReuse) else None)"
  by (simp add: Dec_TruncateInt_def chopPrecisionAndTruncate_nonneg NewIntFromBigInt_eq)

declare Dec_TruncateInt_nonneg [go_eval] precisionReuse_val [go_eval]

lemma trunc_mul_le: "0 \<le> a \<Longrightarrow> r \<le> precisionReuse \<Longrightarrow> a * r div precisionReuse \<le> a"
proof -
  assume "0 \<le> a" and "r \<le> precisionReuse"
  then have "a * r \<le> a * precisionReuse" by (rule mult_left_mono [rotated])
  then have "a * r div precisionReuse \<le> a * precisionReuse div precisionReuse"
    by (rule zdiv_mono1) simp
  then show ?thesis by simp
qed

text \<open>
  The share \<open>rate\<close> of a whole amount, truncated: what \<open>amount.ToDec().Mul(rate).TruncateInt()\<close>
  computes for a rate between 0 and 1, which never panics on an amount in range.
\<close>

lemma share_of_amount:
  assumes "0 \<le> a" and "int_ok a" and "0 \<le> r" and "r \<le> precisionReuse"
  shows "Option.bind (Dec_Mul (ToDec a) r) Dec_TruncateInt = Some (a * r div precisionReuse)"
proof -
  have "dec_ok (a * r)" using assms by (intro dec_ok_ToDec) auto
  moreover have "0 \<le> a * r div precisionReuse" using assms by (simp add: pos_imp_zdiv_nonneg_iff)
  moreover have "a * r div precisionReuse \<le> a" using assms by (intro trunc_mul_le) auto
  ultimately show ?thesis
    using assms int_ok_between [of "a * r div precisionReuse" a]
    by (simp add: Dec_Mul_ToDec dec_checked_eq Dec_TruncateInt_nonneg)
qed

end
