(* ===== verification/DecStr.thy ===== *)
theory DecStr
  imports SdkDec
begin

text \<open>
  The decimal text form of \<open>types/decimal.go\<close>: \<open>Dec.String\<close> and \<open>NewDecFromStr\<close>, over the
  part of Go's \<open>math/big\<close>, \<open>strings\<close> and \<open>fmt\<close> they use (\<open>MarshalText\<close>, \<open>SetString\<close> in base
  10, \<open>strings.Split\<close> at a one-byte separator, zero padding).  The main result is that parsing
  undoes printing.
\<close>

section \<open>Base 10 text of big integers\<close>

definition digit_char :: "nat \<Rightarrow> char" where
  "digit_char k = char_of (48 + k)"

definition char_digit :: "char \<Rightarrow> nat option" where
  "char_digit c = (if 48 \<le> (of_char c :: nat) \<and> (of_char c :: nat) \<le> 57
                   then Some (of_char c - 48) else None)"

fun nat_text :: "nat \<Rightarrow> string" where
  "nat_text n = (if n < 10 then [digit_char n] else nat_text (n div 10) @ [digit_char (n mod 10)])"

declare nat_text.simps [simp del]

definition MarshalText :: "int \<Rightarrow> string" where
  "MarshalText i = (if i < 0 then CHR ''-'' # nat_text (nat (- i)) else nat_text (nat i))"

fun scan_digits :: "nat \<Rightarrow> string \<Rightarrow> nat option" where
  "scan_digits acc [] = Some acc"
| "scan_digits acc (c # cs) =
     (case char_digit c of None \<Rightarrow> None | Some d \<Rightarrow> scan_digits (10 * acc + d) cs)"

text \<open>\<open>big.Int.SetString(s, 10)\<close>: one optional sign, at least one digit, and nothing else.\<close>

definition SetString10 :: "string \<Rightarrow> int option" where
  "SetString10 s =
     (let (neg, ds) = (case s of
            [] \<Rightarrow> (False, [])
          | c # cs \<Rightarrow> if c = CHR ''-'' then (True, cs)
                      else if c = CHR ''+'' then (False, cs) else (False, s))
      in if ds = [] then None
         else map_option (\<lambda>n. if neg then - int n else int n) (scan_digits 0 ds))"

fun strings_Split :: "char \<Rightarrow> string \<Rightarrow> string list" where
  "strings_Split sep [] = [[]]"
| "strings_Split sep (c # cs) =
     (if c = sep then [] # strings_Split sep cs
      else (case strings_Split sep cs of [] \<Rightarrow> [[c]] | w # ws \<Rightarrow> (c # w) # ws))"

section \<open>Printing and parsing decimals\<close>

definition Dec_String :: "Dec \<Rightarrow> string" where
  "Dec_String d =
     (let isNeg = (d < 0);
          bzInt = MarshalText (if isNeg then Dec_Neg d else d);
          inputSize = length bzInt;
          bzStr = (if inputSize \<le> Precision
                   then ''0.'' @ replicate (Precision - inputSize) (CHR ''0'') @ bzInt
                   else (let decPointPlace = inputSize - Precision
                         in take decPointPlace bzInt @ ''.'' @ drop decPointPlace bzInt))
      in if isNeg then ''-'' @ bzStr else bzStr)"

definition NewDecFromStr :: "string \<Rightarrow> sdk_error + Dec" where
  "NewDecFromStr str =
     (if str = [] then Inl ErrUnknownRequest
      else
        let neg = (hd str = CHR ''-'');
            str = (if neg then tl str else str)
        in if str = [] then Inl ErrUnknownRequest
        else
          let strs = strings_Split (CHR ''.'') str;
              lenDecs = (if length strs = 2 then length (strs ! 1) else 0);
              whole = strs ! 0
          in if length strs = 2 \<and> (lenDecs = 0 \<or> whole = []) then Inl ErrUnknownRequest
          else if length strs > 2 then Inl ErrUnknownRequest
          else if lenDecs > Precision then Inl ErrUnknownRequest
          else
            let combinedStr = (if length strs = 2 then whole @ strs ! 1 else whole);
                zerosToAdd = Precision - lenDecs
            in case SetString10 (combinedStr @ replicate zerosToAdd (CHR ''0'')) of
                 None \<Rightarrow> Inl ErrUnknownRequest
               | Some combined \<Rightarrow> Inr (if neg then - combined else combined))"

definition MustNewDecFromStr :: "string \<Rightarrow> Dec option" where
  "MustNewDecFromStr s = (case NewDecFromStr s of Inl _ \<Rightarrow> None | Inr d \<Rightarrow> Some d)"

section \<open>Lemmas\<close>

definition all_digits :: "string \<Rightarrow> bool" where
  "all_digits s = (\<forall>c \<in> set s. char_digit c \<noteq> None)"

lemma char_digit_digit_char [simp]: "k < 10 \<Longrightarrow> char_digit (digit_char k) = Some k"
  by (simp add: char_digit_def digit_char_def)

lemma char_digit_sep [simp]: "char_digit (CHR ''.'') = None" "char_digit (CHR ''-'') = None"
    "char_digit (CHR ''+'') = None" "char_digit (CHR ''0'') = Some 0"
  by (simp_all add: char_digit_def)

lemma all_digits_simps [simp]: "all_digits []"
    "all_digits (c # cs) = (char_digit c \<noteq> None \<and> all_digits cs)"
    "all_digits (xs @ ys) = (all_digits xs \<and> all_digits ys)"
    "all_digits (replicate n (CHR ''0''))"
  by (auto simp: all_digits_def)

lemma all_digits_not_in: "all_digits s \<Longrightarrow> char_digit c = None \<Longrightarrow> c \<notin> set s"
  by (auto simp: all_digits_def)

lemma all_digits_take_drop [simp]: "all_digits s \<Longrightarrow> all_digits (take n s)"
    "all_digits s \<Longrightarrow> all_digits (drop n s)"
  by (auto simp: all_digits_def dest: in_set_takeD in_set_dropD)

lemma scan_digits_append:
  "scan_digits acc (xs @ ys) = Option.bind (scan_digits acc xs) (\<lambda>a. scan_digits a ys)"
  by (induction xs arbitrary: acc) (auto split: option.splits)

lemma scan_zeros [simp]: "scan_digits 0 (replicate n (CHR ''0'')) = Some 0"
  by (induction n) auto

lemma nat_text_digits [simp]: "all_digits (nat_text n)"
  by (induction n rule: nat_text.induct) (subst nat_text.simps, auto)

lemma nat_text_nonempty [simp]: "nat_text n \<noteq> []"
  by (subst nat_text.simps) simp

lemma scan_nat_text [simp]: "scan_digits 0 (nat_text n) = Some n"
proof (induction n rule: nat_text.induct)
  case (1 n)
  show ?case
  proof (cases "n < 10")
    case True
    then show ?thesis by (simp add: nat_text.simps [of n])
  next
    case False
    then show ?thesis by (simp add: nat_text.simps [of n] scan_digits_append 1)
  qed
qed

lemma SetString10_digits:
  assumes "all_digits s" and "s \<noteq> []"
  shows "SetString10 s = map_option int (scan_digits 0 s)"
proof -
  obtain c cs where s: "s = c # cs" using assms(2) by (cases s) auto
  then have "c \<noteq> CHR ''-''" "c \<noteq> CHR ''+''" using assms(1) by auto
  then show ?thesis by (simp add: SetString10_def s)
qed

lemma strings_Split_none: "sep \<notin> set s \<Longrightarrow> strings_Split sep s = [s]"
  by (induction s) auto

lemma strings_Split_one:
  "sep \<notin> set a \<Longrightarrow> sep \<notin> set b \<Longrightarrow> strings_Split sep (a @ sep # b) = [a, b]"
  by (induction a) (auto simp: strings_Split_none)

lemma NewDecFromStr_parts:
  assumes "all_digits a" and "a \<noteq> []" and "all_digits b" and "length b = Precision"
    and "scan_digits 0 (a @ b) = Some n"
  shows "NewDecFromStr (a @ CHR ''.'' # b) = Inr (int n)"
    and "NewDecFromStr (CHR ''-'' # a @ CHR ''.'' # b) = Inr (- int n)"
proof -
  obtain c cs where a: "a = c # cs" using assms(2) by (cases a) auto
  have c: "c \<noteq> CHR ''-''" using assms(1) a by auto
  have split: "strings_Split (CHR ''.'') (a @ CHR ''.'' # b) = [a, b]"
    using assms(1,3) by (intro strings_Split_one all_digits_not_in) auto
  have b: "b \<noteq> []" "0 < Precision" using assms(4) by (auto simp: Precision_def)
  have set: "SetString10 (a @ b) = Some (int n)"
    using assms by (subst SetString10_digits) auto
  show "NewDecFromStr (a @ CHR ''.'' # b) = Inr (int n)"
    using c split b set assms(2,4) by (simp add: NewDecFromStr_def Let_def a)
  show "NewDecFromStr (CHR ''-'' # a @ CHR ''.'' # b) = Inr (- int n)"
    using c split b set assms(2,4) by (simp add: NewDecFromStr_def Let_def a)
qed

lemma Dec_String_parts:
  "\<exists>a b. all_digits a \<and> a \<noteq> [] \<and> all_digits b \<and> length b = Precision
     \<and> scan_digits 0 (a @ b) = Some (nat \<bar>d\<bar>)
     \<and> Dec_String d = (if d < 0 then CHR ''-'' # a @ CHR ''.'' # b else a @ CHR ''.'' # b)"
proof -
  define t where "t = nat_text (nat \<bar>d\<bar>)"
  have txt_eq: "MarshalText (if d < 0 then Dec_Neg d else d) = t"
    by (auto simp: MarshalText_def Dec_Neg_def t_def)
  have s: "Dec_String d =
      (let bzStr = (if length t \<le> Precision
                    then ''0.'' @ replicate (Precision - length t) (CHR ''0'') @ t
                    else take (length t - Precision) t @ ''.'' @ drop (length t - Precision) t)
       in if d < 0 then ''-'' @ bzStr else bzStr)"
    unfolding Dec_String_def Let_def txt_eq by simp
  show ?thesis
  proof (cases "length t \<le> Precision")
    case True
    let ?b = "replicate (Precision - length t) (CHR ''0'') @ t"
    have "scan_digits 0 (''0'' @ ?b) = Some (nat \<bar>d\<bar>)"
      by (simp add: scan_digits_append t_def)
    with True show ?thesis
      by (intro exI [of _ "''0''"] exI [of _ ?b])
        (simp add: s t_def)
  next
    case False
    let ?k = "length t - Precision"
    have "take ?k t \<noteq> []" using False by auto
    with False show ?thesis
      by (intro exI [of _ "take ?k t"] exI [of _ "drop ?k t"])
        (simp add: s t_def)
  qed
qed

lemma NewDecFromStr_String_aux: "NewDecFromStr (Dec_String d) = Inr d"
proof -
  obtain a b where ab: "all_digits a" "a \<noteq> []" "all_digits b" "length b = Precision"
      "scan_digits 0 (a @ b) = Some (nat \<bar>d\<bar>)"
    and s: "Dec_String d = (if d < 0 then CHR ''-'' # a @ CHR ''.'' # b else a @ CHR ''.'' # b)"
    using Dec_String_parts [of d] by blast
  show ?thesis using NewDecFromStr_parts [OF ab] by (simp add: s)
qed

end
