(* ===== verification/KVStore.thy ===== *)
theory KVStore
  imports Prelude
begin

text \<open>
  The key-value store the keepers write to.  A store is a finite map whose iterators run over the
  keys in ascending order; \<open>kv\<close> is that map as a type, so that equality of stores is equality of
  their contents.  Keepers use it at structured keys (the tuple a key function encodes), and
  \<open>CacheKV\<close> at byte strings.  \<open>kv_sum\<close> adds up a measure over all entries and is what the
  conservation theorems are stated with.
\<close>

section \<open>Sorted association lists\<close>

fun al_set :: "'k::linorder \<Rightarrow> 'v \<Rightarrow> ('k \<times> 'v) list \<Rightarrow> ('k \<times> 'v) list" where
  "al_set k v [] = [(k, v)]"
| "al_set k v ((k', v') # xs) =
     (if k < k' then (k, v) # (k', v') # xs
      else if k = k' then (k, v) # xs
      else (k', v') # al_set k v xs)"

definition al_delete :: "'k::linorder \<Rightarrow> ('k \<times> 'v) list \<Rightarrow> ('k \<times> 'v) list" where
  "al_delete k xs = filter (\<lambda>e. fst e \<noteq> k) xs"

definition ascending_keys :: "('k::linorder \<times> 'v) list \<Rightarrow> bool" where
  "ascending_keys xs = sorted_wrt (<) (map fst xs)"

lemma ascending_keys_simps [simp]:
  "ascending_keys []"
  "ascending_keys (e # xs) = ((\<forall>y \<in> set xs. fst e < fst y) \<and> ascending_keys xs)"
  by (auto simp: ascending_keys_def)

lemma ascending_keys_above:
  assumes "ascending_keys (e # xs)" and "k < fst e"
  shows "\<forall>y \<in> set (e # xs). k < fst y"
proof -
  have "k < fst y" if "y \<in> set xs" for y
    using assms that order.strict_trans [of k "fst e" "fst y"] by simp
  with assms show ?thesis by simp
qed

lemma ascending_keys_distinct: "ascending_keys xs \<Longrightarrow> distinct (map fst xs)"
  unfolding ascending_keys_def by (rule sorted_wrt_less_distinct)

lemma fst_set_al_set: "fst ` set (al_set k v xs) = insert k (fst ` set xs)"
  by (induction k v xs rule: al_set.induct) (simp_all add: insert_commute)

lemma ascending_keys_al_set [simp]: "ascending_keys xs \<Longrightarrow> ascending_keys (al_set k v xs)"
proof (induction xs)
  case (Cons e xs)
  have "fst y = k \<or> fst y \<in> fst ` set xs" if "y \<in> set (al_set k v xs)" for y
    using that fst_set_al_set [of k v xs] by blast
  with Cons show ?case by (cases e) fastforce
qed simp

lemma ascending_keys_al_delete [simp]: "ascending_keys xs \<Longrightarrow> ascending_keys (al_delete k xs)"
  by (induction xs) (auto simp: al_delete_def)

lemma map_of_al_set: "ascending_keys xs \<Longrightarrow> map_of (al_set k v xs) = (map_of xs)(k \<mapsto> v)"
  by (induction xs) (auto simp: fun_eq_iff)

lemma map_of_al_delete: "map_of (al_delete k xs) = (map_of xs)(k := None)"
  unfolding al_delete_def by (induction xs) (auto simp: fun_eq_iff)

lemma ascending_keys_ext:
  assumes "ascending_keys xs" and "ascending_keys ys" and "map_of xs = map_of ys"
  shows "xs = ys"
proof -
  have "set xs = set ys"
    using assms ascending_keys_distinct by (metis map_of_inject_set)
  then have "map fst xs = map fst ys"
    using assms(1,2) unfolding ascending_keys_def by (intro sorted_wrt_less_unique) auto
  moreover have "map (\<lambda>k. (k, the (map_of zs k))) (map fst zs) = zs"
    if "ascending_keys zs" for zs :: "('a \<times> 'b) list"
    using ascending_keys_distinct [OF that] by (auto intro!: map_idI)
  ultimately show ?thesis using assms by metis
qed

section \<open>Stores\<close>

typedef (overloaded) ('k::linorder, 'v) kv = "{xs :: ('k \<times> 'v) list. ascending_keys xs}"
  morphisms kv_entries Abs_kv
  by (rule exI [of _ "[]"]) simp

setup_lifting type_definition_kv

lift_definition kv_empty :: "('k::linorder, 'v) kv" is "[]" by simp

lift_definition kv_get :: "('k::linorder, 'v) kv \<Rightarrow> 'k \<Rightarrow> 'v option" is map_of .

lift_definition kv_set :: "'k::linorder \<Rightarrow> 'v \<Rightarrow> ('k, 'v) kv \<Rightarrow> ('k, 'v) kv" is al_set by simp

lift_definition kv_delete :: "'k::linorder \<Rightarrow> ('k, 'v) kv \<Rightarrow> ('k, 'v) kv" is al_delete by simp

instantiation kv :: (linorder, equal) equal
begin

definition equal_kv :: "('a, 'b) kv \<Rightarrow> ('a, 'b) kv \<Rightarrow> bool" where
  "equal_kv s t = (kv_entries s = kv_entries t)"

instance
  by standard (simp add: equal_kv_def kv_entries_inject)

end

lemma kv_get_empty [simp]: "kv_get kv_empty k = None"
  by transfer simp

lemma kv_get_set [simp]: "kv_get (kv_set k v s) k' = (if k' = k then Some v else kv_get s k')"
  by transfer (simp add: map_of_al_set)

lemma kv_get_delete [simp]: "kv_get (kv_delete k s) k' = (if k' = k then None else kv_get s k')"
  by transfer (simp add: map_of_al_delete)

lemma kv_ext: "(\<And>k. kv_get s k = kv_get t k) \<Longrightarrow> s = t"
  by transfer (auto intro: ascending_keys_ext)

lemma kv_entries_ascending [simp]: "ascending_keys (kv_entries s)"
  using kv_entries [of s] by simp

lemma kv_entries_distinct [simp]: "distinct (map fst (kv_entries s))"
  by (rule ascending_keys_distinct) simp

lemma kv_entries_iff: "(k, v) \<in> set (kv_entries s) \<longleftrightarrow> kv_get s k = Some v"
  by transfer (simp add: ascending_keys_distinct)

lemma kv_keys_iff: "k \<in> fst ` set (kv_entries s) \<longleftrightarrow> kv_get s k \<noteq> None"
  by (force simp flip: kv_entries_iff)

lemma kv_set_set [simp]: "kv_set k v (kv_set k w s) = kv_set k v s"
  by (rule kv_ext) simp

lemma kv_set_id: "kv_get s k = Some v \<Longrightarrow> kv_set k v s = s"
  by (rule kv_ext) simp

lemma kv_delete_set: "kv_get s k = None \<Longrightarrow> kv_delete k (kv_set k v s) = s"
  by (rule kv_ext) simp

lemma kv_delete_id: "kv_get s k = None \<Longrightarrow> kv_delete k s = s"
  by (rule kv_ext) simp

lemma kv_entries_empty [simp]: "kv_entries kv_empty = []"
  by transfer simp

lemma kv_entries_set: "kv_entries (kv_set k v s) = al_set k v (kv_entries s)"
  by (fact kv_set.rep_eq)

lemma kv_entries_delete: "kv_entries (kv_delete k s) = al_delete k (kv_entries s)"
  by (fact kv_delete.rep_eq)

subsection \<open>Sums over a store\<close>

definition kv_sum :: "('k::linorder \<Rightarrow> 'v \<Rightarrow> int) \<Rightarrow> ('k, 'v) kv \<Rightarrow> int" where
  "kv_sum f s = sum_list (map (\<lambda>(k, v). f k v) (kv_entries s))"

definition weight :: "('k \<Rightarrow> 'v \<Rightarrow> int) \<Rightarrow> 'k \<Rightarrow> 'v option \<Rightarrow> int" where
  "weight f k v = (case v of None \<Rightarrow> 0 | Some x \<Rightarrow> f k x)"

lemma weight_simps [simp]: "weight f k None = 0" "weight f k (Some x) = f k x"
  by (simp_all add: weight_def)

lemma kv_sum_empty [simp]: "kv_sum f kv_empty = 0"
  by (simp add: kv_sum_def)

lemma sum_al_set:
  "ascending_keys xs \<Longrightarrow>
   sum_list (map (\<lambda>(k, v). f k v) (al_set k v xs)) =
     sum_list (map (\<lambda>(k, v). f k v) xs) - weight f k (map_of xs k) + f k v"
  for f :: "'k::linorder \<Rightarrow> 'v \<Rightarrow> int"
proof (induction xs)
  case (Cons e xs)
  have "map_of xs k = None" if "k \<le> fst e"
    using Cons.prems that by (force simp: map_of_eq_None_iff)
  with Cons show ?case by (cases e) (auto simp: not_less order.order_iff_strict)
qed simp

lemma sum_al_delete:
  "ascending_keys xs \<Longrightarrow>
   sum_list (map (\<lambda>(k, v). f k v) (al_delete k xs)) =
     sum_list (map (\<lambda>(k, v). f k v) xs) - weight f k (map_of xs k)"
  for f :: "'k::linorder \<Rightarrow> 'v \<Rightarrow> int"
proof (induction xs)
  case (Cons e xs)
  have "map_of xs k = None" if "k = fst e"
    using Cons.prems that by (force simp: map_of_eq_None_iff)
  with Cons show ?case by (cases e) (auto simp: al_delete_def)
qed (simp add: al_delete_def)

lemma kv_sum_set [simp]:
  "kv_sum f (kv_set k v s) = kv_sum f s - weight f k (kv_get s k) + f k v"
  unfolding kv_sum_def kv_entries_set kv_get.rep_eq by (rule sum_al_set) simp

lemma kv_sum_delete [simp]:
  "kv_sum f (kv_delete k s) = kv_sum f s - weight f k (kv_get s k)"
  unfolding kv_sum_def kv_entries_delete kv_get.rep_eq by (rule sum_al_delete) simp

lemma kv_sum_nonneg:
  "(\<And>k v. kv_get s k = Some v \<Longrightarrow> 0 \<le> f k v) \<Longrightarrow> 0 \<le> kv_sum f s"
  unfolding kv_sum_def by (rule sum_list_nonneg) (auto simp: kv_entries_iff)

lemma kv_sum_ge:
  assumes "\<And>k v. kv_get s k = Some v \<Longrightarrow> 0 \<le> f k v"
  shows "weight f k (kv_get s k) \<le> kv_sum f s"
proof -
  have "0 \<le> kv_sum f (kv_delete k s)"
    by (rule kv_sum_nonneg) (use assms in \<open>auto split: if_splits\<close>)
  then show ?thesis by simp
qed

lemma kv_sum_add: "kv_sum (\<lambda>k v. f k v + g k v) s = kv_sum f s + kv_sum g s"
  unfolding kv_sum_def by (induction "kv_entries s") (auto simp: sum_list_addf split_def)

section \<open>All entries\<close>

definition kv_all :: "('k::linorder \<Rightarrow> 'v \<Rightarrow> bool) \<Rightarrow> ('k, 'v) kv \<Rightarrow> bool" where
  "kv_all P s = list_all (\<lambda>(k, v). P k v) (kv_entries s)"

lemma kv_all_iff: "kv_all P s \<longleftrightarrow> (\<forall>k v. kv_get s k = Some v \<longrightarrow> P k v)"
  by (auto simp: kv_all_def list_all_iff kv_entries_iff)

lemma kv_allD: "kv_all P s \<Longrightarrow> kv_get s k = Some v \<Longrightarrow> P k v"
  by (simp add: kv_all_iff)

lemma kv_all_empty [simp]: "kv_all P kv_empty"
  by (simp add: kv_all_iff)

lemma kv_all_set: "kv_all P s \<Longrightarrow> P k v \<Longrightarrow> kv_all P (kv_set k v s)"
  by (simp add: kv_all_iff)

lemma kv_all_delete: "kv_all P s \<Longrightarrow> kv_all P (kv_delete k s)"
  by (simp add: kv_all_iff)

end
