(* ===== verification/CacheKV.thy ===== *)
theory CacheKV
  imports KVStore
begin

text \<open>
  \<open>store/cachekv\<close>: the write-back cache that every transaction runs in.  A \<open>Store\<close> holds a map of
  cached values, the keys written since they were last sorted, a sorted list of dirty items, and
  a parent, which is any \<open>types.KVStore\<close>.  The interface \<open>types.KVStore\<close> is the record
  \<open>KVStore_ops\<close> of operations on a parent state; a nil key or value is \<open>None\<close>, and so is the
  panic of an operation.  An iterator of the parent is the list of the pairs it still has to
  yield.  \<open>IsKeyInDomain\<close> of tm-db is the parameter \<open>in_dom\<close>.

  The mutex is left out: each operation runs under the lock.
\<close>

section \<open>The KVStore interface\<close>

record 'p KVStore_ops =
  op_Get :: "'p \<Rightarrow> bytes option \<Rightarrow> (bytes option \<times> 'p) option"
  op_Set :: "'p \<Rightarrow> bytes option \<Rightarrow> bytes option \<Rightarrow> 'p option"
  op_Delete :: "'p \<Rightarrow> bytes option \<Rightarrow> 'p option"
  op_Iterator :: "'p \<Rightarrow> bytes option \<Rightarrow> bytes option \<Rightarrow> ((bytes \<times> bytes) list \<times> 'p) option"
  op_ReverseIterator ::
    "'p \<Rightarrow> bytes option \<Rightarrow> bytes option \<Rightarrow> ((bytes \<times> bytes) list \<times> 'p) option"

definition AssertValidKey :: "bytes option \<Rightarrow> bytes option" where
  "AssertValidKey key = (if key = None then None else key)"

definition AssertValidValue :: "bytes option \<Rightarrow> bytes option" where
  "AssertValidValue value = (if value = None then None else value)"

type_synonym domain_test = "bytes \<Rightarrow> bytes option \<Rightarrow> bytes option \<Rightarrow> bool"

section \<open>memIterator\<close>

type_synonym KVPair = "bytes \<times> bytes option"

record memIterator =
  mi_items :: "KVPair list"
  mi_ascending :: bool

fun newMemIterator_loop :: "(bytes \<Rightarrow> bool) \<Rightarrow> bool \<Rightarrow> KVPair list \<Rightarrow> KVPair list" where
  "newMemIterator_loop in_range entered [] = []"
| "newMemIterator_loop in_range entered (item # items) =
     (if \<not> in_range (fst item)
      then (if entered then [] else newMemIterator_loop in_range entered items)
      else item # newMemIterator_loop in_range True items)"

definition newMemIterator ::
  "domain_test \<Rightarrow> bytes option \<Rightarrow> bytes option \<Rightarrow> KVPair list \<Rightarrow> bool \<Rightarrow> memIterator" where
  "newMemIterator in_dom start end items ascending =
     \<lparr>mi_items = newMemIterator_loop (\<lambda>k. in_dom k start end) False items,
      mi_ascending = ascending\<rparr>"

definition mi_Valid :: "memIterator \<Rightarrow> bool" where
  "mi_Valid mi = (length (mi_items mi) > 0)"

definition mi_Next :: "memIterator \<Rightarrow> memIterator option" where
  "mi_Next mi =
     (if \<not> mi_Valid mi then None
      else if mi_ascending mi then Some (mi\<lparr>mi_items := drop 1 (mi_items mi)\<rparr>)
      else Some (mi\<lparr>mi_items := take (length (mi_items mi) - 1) (mi_items mi)\<rparr>))"

definition mi_Key :: "memIterator \<Rightarrow> bytes option" where
  "mi_Key mi =
     (if \<not> mi_Valid mi then None
      else if mi_ascending mi then Some (fst (mi_items mi ! 0))
      else Some (fst (mi_items mi ! (length (mi_items mi) - 1))))"

definition mi_Value :: "memIterator \<Rightarrow> bytes option option" where
  "mi_Value mi =
     (if \<not> mi_Valid mi then None
      else if mi_ascending mi then Some (snd (mi_items mi ! 0))
      else Some (snd (mi_items mi ! (length (mi_items mi) - 1))))"

section \<open>cacheMergeIterator\<close>

text \<open>The parent of a merge iterator is the list of pairs it has still to yield.\<close>

record cacheMergeIterator =
  it_parent :: "(bytes \<times> bytes) list"
  it_cache :: memIterator
  it_ascending :: bool

definition newCacheMergeIterator ::
  "(bytes \<times> bytes) list \<Rightarrow> memIterator \<Rightarrow> bool \<Rightarrow> cacheMergeIterator" where
  "newCacheMergeIterator parent cache ascending =
     \<lparr>it_parent = parent, it_cache = cache, it_ascending = ascending\<rparr>"

text \<open>\<open>compare(a, b) < 0\<close>, the only test on the result beside equality.\<close>

definition it_before :: "bool \<Rightarrow> bytes \<Rightarrow> bytes \<Rightarrow> bool" where
  "it_before ascending a b = (if ascending then a < b else b < a)"

lemma mi_Next_decreases:
  "mi_Next mi = Some mi' \<Longrightarrow> length (mi_items mi') < length (mi_items mi)"
  by (auto simp: mi_Next_def mi_Valid_def split: if_splits)

function skipCacheDeletes :: "bool \<Rightarrow> bytes option \<Rightarrow> memIterator \<Rightarrow> memIterator option" where
  "skipCacheDeletes ascending until mi =
     (if mi_Valid mi \<and> mi_Value mi = Some None \<and>
         (until = None \<or> it_before ascending (the (mi_Key mi)) (the until))
      then (case mi_Next mi of
              None \<Rightarrow> None
            | Some mi' \<Rightarrow> skipCacheDeletes ascending until mi')
      else Some mi)"
  by pat_completeness auto
termination
  by (relation "measure (\<lambda>(_, _, mi). length (mi_items mi))") (auto dest: mi_Next_decreases)

declare skipCacheDeletes.simps [simp del]

lemma skipCacheDeletes_le:
  "skipCacheDeletes ascending until mi = Some mi' \<Longrightarrow>
   length (mi_items mi') \<le> length (mi_items mi)"
proof (induction ascending until mi rule: skipCacheDeletes.induct)
  case (1 ascending until mi)
  show ?case
    using "1.prems" "1.IH" mi_Next_decreases [of mi]
    by (subst (asm) skipCacheDeletes.simps) (fastforce split: if_splits option.splits)
qed

lemma skipCacheDeletes_less:
  assumes "skipCacheDeletes ascending until mi = Some mi'" and "mi_Valid mi"
    and "mi_Value mi = Some None" and "until = None \<or> it_before ascending (the (mi_Key mi)) (the until)"
  shows "length (mi_items mi') < length (mi_items mi)"
proof -
  obtain mi1 where "mi_Next mi = Some mi1" and "skipCacheDeletes ascending until mi1 = Some mi'"
    using assms by (subst (asm) skipCacheDeletes.simps) (auto split: option.splits)
  then show ?thesis using skipCacheDeletes_le mi_Next_decreases by fastforce
qed

lemma it_before_linear: "\<not> it_before asc a b \<Longrightarrow> a \<noteq> b \<Longrightarrow> it_before asc b a"
  by (auto simp: it_before_def)

lemma skipUntil_decreases:
  assumes "skipCacheDeletes asc (Some k) mi = Some mi'" and "mi_Valid mi"
    and "the (mi_Value mi) = None" and "\<not> it_before asc k (the (mi_Key mi))"
    and "k \<noteq> the (mi_Key mi)"
  shows "length (mi_items mi') < length (mi_items mi)"
  using assms
  by (intro skipCacheDeletes_less [OF assms(1)]) (auto simp: mi_Value_def dest: it_before_linear)

function skipUntilExistsOrInvalid :: "cacheMergeIterator \<Rightarrow> (bool \<times> cacheMergeIterator) option"
where
  "skipUntilExistsOrInvalid iter =
     (case it_parent iter of
        [] \<Rightarrow> do {
          mi \<leftarrow> skipCacheDeletes (it_ascending iter) None (it_cache iter);
          Some (mi_Valid mi, iter\<lparr>it_cache := mi\<rparr>) }
      | (keyP, _) # parent' \<Rightarrow>
          if \<not> mi_Valid (it_cache iter) then Some (True, iter)
          else let keyC = the (mi_Key (it_cache iter));
                   valueC = the (mi_Value (it_cache iter))
          in if it_before (it_ascending iter) keyP keyC then Some (True, iter)
          else if keyP = keyC then
            (if valueC = None
             then (case mi_Next (it_cache iter) of
                     None \<Rightarrow> None
                   | Some mi \<Rightarrow>
                       skipUntilExistsOrInvalid (iter\<lparr>it_parent := parent', it_cache := mi\<rparr>))
             else Some (True, iter))
          else
            (if valueC = None
             then (case skipCacheDeletes (it_ascending iter) (Some keyP) (it_cache iter) of
                     None \<Rightarrow> None
                   | Some mi \<Rightarrow> skipUntilExistsOrInvalid (iter\<lparr>it_cache := mi\<rparr>))
             else Some (True, iter)))"
  by pat_completeness auto
termination
  by (relation "measure (\<lambda>iter. length (it_parent iter) + length (mi_items (it_cache iter)))")
    (auto dest: mi_Next_decreases intro!: skipUntil_decreases)

declare skipUntilExistsOrInvalid.simps [simp del]


text \<open>The methods of the iterator; each may advance it over deleted items.\<close>

definition it_Valid :: "cacheMergeIterator \<Rightarrow> (bool \<times> cacheMergeIterator) option" where
  "it_Valid iter = skipUntilExistsOrInvalid iter"

definition it_assertValid :: "cacheMergeIterator \<Rightarrow> cacheMergeIterator option" where
  "it_assertValid iter = do { (ok, iter) \<leftarrow> it_Valid iter; if \<not> ok then None else Some iter }"

definition it_Next :: "cacheMergeIterator \<Rightarrow> cacheMergeIterator option" where
  "it_Next iter = do {
     (_, iter) \<leftarrow> skipUntilExistsOrInvalid iter;
     iter \<leftarrow> it_assertValid iter;
     case it_parent iter of
       [] \<Rightarrow> do { mi \<leftarrow> mi_Next (it_cache iter); Some (iter\<lparr>it_cache := mi\<rparr>) }
     | (keyP, _) # parent' \<Rightarrow>
         if \<not> mi_Valid (it_cache iter) then Some (iter\<lparr>it_parent := parent'\<rparr>)
         else do {
           keyC \<leftarrow> mi_Key (it_cache iter);
           if it_before (it_ascending iter) keyP keyC then Some (iter\<lparr>it_parent := parent'\<rparr>)
           else if keyP = keyC then do {
             mi \<leftarrow> mi_Next (it_cache iter);
             Some (iter\<lparr>it_parent := parent', it_cache := mi\<rparr>) }
           else do { mi \<leftarrow> mi_Next (it_cache iter); Some (iter\<lparr>it_cache := mi\<rparr>) } } }"

definition it_Key :: "cacheMergeIterator \<Rightarrow> (bytes \<times> cacheMergeIterator) option" where
  "it_Key iter = do {
     (_, iter) \<leftarrow> skipUntilExistsOrInvalid iter;
     iter \<leftarrow> it_assertValid iter;
     case it_parent iter of
       [] \<Rightarrow> do { k \<leftarrow> mi_Key (it_cache iter); Some (k, iter) }
     | (keyP, _) # _ \<Rightarrow>
         if \<not> mi_Valid (it_cache iter) then Some (keyP, iter)
         else do {
           keyC \<leftarrow> mi_Key (it_cache iter);
           if it_before (it_ascending iter) keyP keyC then Some (keyP, iter)
           else if keyP = keyC then Some (keyP, iter)
           else Some (keyC, iter) } }"

definition it_Value :: "cacheMergeIterator \<Rightarrow> (bytes option \<times> cacheMergeIterator) option" where
  "it_Value iter = do {
     (_, iter) \<leftarrow> skipUntilExistsOrInvalid iter;
     iter \<leftarrow> it_assertValid iter;
     case it_parent iter of
       [] \<Rightarrow> do { v \<leftarrow> mi_Value (it_cache iter); Some (v, iter) }
     | (keyP, valueP) # _ \<Rightarrow>
         if \<not> mi_Valid (it_cache iter) then Some (Some valueP, iter)
         else do {
           keyC \<leftarrow> mi_Key (it_cache iter);
           if it_before (it_ascending iter) keyP keyC then Some (Some valueP, iter)
           else do { v \<leftarrow> mi_Value (it_cache iter); Some (v, iter) } } }"

section \<open>Store\<close>

record cValue =
  cv_value :: "bytes option"
  cv_deleted :: bool
  cv_dirty :: bool

record 'p Store =
  st_cache :: "(bytes, cValue) kv"
  st_unsortedCache :: "(bytes, unit) kv"
  st_sortedCache :: "KVPair list"
  st_parent :: 'p

definition NewStore :: "'p \<Rightarrow> 'p Store" where
  "NewStore parent =
     \<lparr>st_cache = kv_empty, st_unsortedCache = kv_empty, st_sortedCache = [], st_parent = parent\<rparr>"

definition setCacheValue ::
  "bytes \<Rightarrow> bytes option \<Rightarrow> bool \<Rightarrow> bool \<Rightarrow> 'p Store \<Rightarrow> 'p Store" where
  "setCacheValue key value deleted dirty store =
     (let store = store\<lparr>st_cache :=
            kv_set key \<lparr>cv_value = value, cv_deleted = deleted, cv_dirty = dirty\<rparr> (st_cache store)\<rparr>
      in if dirty then store\<lparr>st_unsortedCache := kv_set key () (st_unsortedCache store)\<rparr>
         else store)"

definition Store_Get ::
  "'p KVStore_ops \<Rightarrow> 'p Store \<Rightarrow> bytes option \<Rightarrow> (bytes option \<times> 'p Store) option" where
  "Store_Get ops store key = do {
     k \<leftarrow> AssertValidKey key;
     case kv_get (st_cache store) k of
       None \<Rightarrow> do {
         (value, parent) \<leftarrow> op_Get ops (st_parent store) key;
         Some (value, setCacheValue k value False False (store\<lparr>st_parent := parent\<rparr>)) }
     | Some cacheValue \<Rightarrow> Some (cv_value cacheValue, store) }"

definition Store_Set ::
  "'p Store \<Rightarrow> bytes option \<Rightarrow> bytes option \<Rightarrow> 'p Store option" where
  "Store_Set store key value = do {
     k \<leftarrow> AssertValidKey key;
     v \<leftarrow> AssertValidValue value;
     Some (setCacheValue k (Some v) False True store) }"

definition Store_Has ::
  "'p KVStore_ops \<Rightarrow> 'p Store \<Rightarrow> bytes option \<Rightarrow> (bool \<times> 'p Store) option" where
  "Store_Has ops store key = do {
     (value, store) \<leftarrow> Store_Get ops store key; Some (value \<noteq> None, store) }"

definition Store_Delete :: "'p Store \<Rightarrow> bytes option \<Rightarrow> 'p Store option" where
  "Store_Delete store key = do {
     k \<leftarrow> AssertValidKey key;
     Some (setCacheValue k None True True store) }"

text \<open>The loop of \<open>Write\<close> over the dirty keys, on the parent.\<close>

fun Write_loop ::
  "'p KVStore_ops \<Rightarrow> (bytes, cValue) kv \<Rightarrow> bytes list \<Rightarrow> 'p \<Rightarrow> 'p option" where
  "Write_loop ops cache [] parent = Some parent"
| "Write_loop ops cache (key # keys) parent = do {
     cacheValue \<leftarrow> kv_get cache key;
     parent \<leftarrow> (if cv_deleted cacheValue then op_Delete ops parent (Some key)
               else if cv_value cacheValue = None then Some parent
               else op_Set ops parent (Some key) (cv_value cacheValue));
     Write_loop ops cache keys parent }"

definition Store_Write :: "'p KVStore_ops \<Rightarrow> 'p Store \<Rightarrow> 'p Store option" where
  "Store_Write ops store = do {
     let keys = sort (map fst (filter (\<lambda>(_, dbValue). cv_dirty dbValue)
                                 (kv_entries (st_cache store))));
     parent \<leftarrow> Write_loop ops (st_cache store) keys (st_parent store);
     Some (NewStore parent) }"

text \<open>Insertion of the sorted new items into the sorted list of dirty items.\<close>

fun dirtyItems_merge :: "KVPair list \<Rightarrow> KVPair list \<Rightarrow> KVPair list" where
  "dirtyItems_merge unsorted [] = unsorted"
| "dirtyItems_merge [] items = items"
| "dirtyItems_merge (uitem # unsorted) (sitem # items) =
     (if fst uitem < fst sitem then uitem # dirtyItems_merge unsorted (sitem # items)
      else if fst sitem < fst uitem then sitem # dirtyItems_merge (uitem # unsorted) items
      else uitem # dirtyItems_merge unsorted items)"

definition dirtyItems ::
  "domain_test \<Rightarrow> bytes option \<Rightarrow> bytes option \<Rightarrow> 'p Store \<Rightarrow> 'p Store" where
  "dirtyItems in_dom start end store =
     (let keys = filter (\<lambda>key. in_dom key start end)
                   (map fst (kv_entries (st_unsortedCache store)));
          unsorted = map (\<lambda>key. (key, case kv_get (st_cache store) key of
                                        None \<Rightarrow> None | Some cacheValue \<Rightarrow> cv_value cacheValue)) keys
      in store\<lparr>st_unsortedCache := foldr kv_delete keys (st_unsortedCache store),
               st_sortedCache := dirtyItems_merge (sort_key fst unsorted) (st_sortedCache store)\<rparr>)"

definition Store_iterator ::
  "domain_test \<Rightarrow> 'p KVStore_ops \<Rightarrow> 'p Store \<Rightarrow> bytes option \<Rightarrow> bytes option \<Rightarrow> bool \<Rightarrow>
   (cacheMergeIterator \<times> 'p Store) option" where
  "Store_iterator in_dom ops store start end ascending = do {
     (parent, p) \<leftarrow> (if ascending then op_Iterator ops (st_parent store) start end
                     else op_ReverseIterator ops (st_parent store) start end);
     let store = dirtyItems in_dom start end (store\<lparr>st_parent := p\<rparr>);
     let cache = newMemIterator in_dom start end (st_sortedCache store) ascending;
     Some (newCacheMergeIterator parent cache ascending, store) }"

text \<open>
  What a client sees of an iterator: the pairs of \<open>for ; it.Valid(); it.Next()\<close> with \<open>it.Key()\<close> and
  \<open>it.Value()\<close>.  The loop is given fuel; the pairs left bound its number of rounds.
\<close>

fun drain_loop :: "nat \<Rightarrow> cacheMergeIterator \<Rightarrow> (bytes \<times> bytes) list option" where
  "drain_loop 0 iter = None"
| "drain_loop (Suc fuel) iter = do {
     (ok, iter) \<leftarrow> it_Valid iter;
     if \<not> ok then Some []
     else do {
       (k, iter) \<leftarrow> it_Key iter;
       (v, iter) \<leftarrow> it_Value iter;
       v \<leftarrow> v;
       iter \<leftarrow> it_Next iter;
       rest \<leftarrow> drain_loop fuel iter;
       Some ((k, v) # rest) } }"

definition drain :: "cacheMergeIterator \<Rightarrow> (bytes \<times> bytes) list option" where
  "drain iter = drain_loop (length (it_parent iter) + length (mi_items (it_cache iter)) + 1) iter"

definition Store_ops :: "domain_test \<Rightarrow> 'p KVStore_ops \<Rightarrow> ('p Store) KVStore_ops" where
  "Store_ops in_dom ops =
     \<lparr>op_Get = Store_Get ops, op_Set = Store_Set, op_Delete = Store_Delete,
      op_Iterator = (\<lambda>store start end. do {
        (iter, store) \<leftarrow> Store_iterator in_dom ops store start end True;
        xs \<leftarrow> drain iter; Some (xs, store) }),
      op_ReverseIterator = (\<lambda>store start end. do {
        (iter, store) \<leftarrow> Store_iterator in_dom ops store start end False;
        xs \<leftarrow> drain iter; Some (xs, store) })\<rparr>"

end
