(* ===== verification/CacheKVRefine.thy ===== *)
theory CacheKVRefine
  imports CacheKV
begin

text \<open>
  Correctness of \<open>store/cachekv\<close>.  The contract of \<open>types.KVStore\<close> is the locale \<open>kv_contract\<close>: a
  store is a finite map from bytes to bytes, its reads leave the map alone, its iterators yield
  exactly the entries of the domain in order, and nil keys and values panic.  The main result is
  that a cache over any store with this contract has the contract again, with the map that has
  the cached writes on top, and that \<open>Write\<close> moves this map into the parent.
\<close>

section \<open>The merge iterator\<close>

definition mi_of :: "bool \<Rightarrow> KVPair list \<Rightarrow> memIterator" where
  "mi_of a xs = \<lparr>mi_items = (if a then xs else rev xs), mi_ascending = a\<rparr>"

lemma mi_of_simps [simp]:
  "\<not> mi_Valid (mi_of a [])" "mi_Valid (mi_of a (c # cs))"
  "mi_Key (mi_of a (c # cs)) = Some (fst c)" "mi_Value (mi_of a (c # cs)) = Some (snd c)"
  "mi_Next (mi_of a (c # cs)) = Some (mi_of a cs)"
  "length (mi_items (mi_of a xs)) = length xs"
  by (auto simp: mi_of_def mi_Valid_def mi_Key_def mi_Value_def mi_Next_def nth_append)

lemma mi_Valid_mi_of: "mi_Valid (mi_of a xs) = (xs \<noteq> [])"
  by (cases xs) auto

lemma skipCacheDeletes_mi_of:
  "skipCacheDeletes a until (mi_of a xs) =
     Some (mi_of a (dropWhile (\<lambda>(k, v). v = None \<and> (until = None \<or> it_before a k (the until))) xs))"
  by (induction xs) (subst skipCacheDeletes.simps; simp add: split_def)+

definition it_of :: "bool \<Rightarrow> (bytes \<times> bytes) list \<Rightarrow> KVPair list \<Rightarrow> cacheMergeIterator" where
  "it_of a P C = \<lparr>it_parent = P, it_cache = mi_of a C, it_ascending = a\<rparr>"

lemma it_of_sel [simp]:
  "it_parent (it_of a P C) = P" "it_cache (it_of a P C) = mi_of a C"
  "it_ascending (it_of a P C) = a"
  "(it_of a P C)\<lparr>it_parent := P'\<rparr> = it_of a P' C"
  "(it_of a P C)\<lparr>it_cache := mi_of a C'\<rparr> = it_of a P C'"
  "(it_of a P C)\<lparr>it_parent := P', it_cache := mi_of a C'\<rparr> = it_of a P' C'"
  by (simp_all add: it_of_def)

text \<open>The sequence a merge iterator should yield: the cache shadows the parent.\<close>

fun overlay :: "bool \<Rightarrow> (bytes \<times> bytes) list \<Rightarrow> KVPair list \<Rightarrow> (bytes \<times> bytes) list" where
  "overlay a [] [] = []"
| "overlay a [] ((kc, vc) # C) =
     (case vc of None \<Rightarrow> overlay a [] C | Some v \<Rightarrow> (kc, v) # overlay a [] C)"
| "overlay a (p # P) [] = p # P"
| "overlay a ((kp, vp) # P) ((kc, vc) # C) =
     (if it_before a kp kc then (kp, vp) # overlay a P ((kc, vc) # C)
      else if kp = kc then (case vc of None \<Rightarrow> overlay a P C | Some v \<Rightarrow> (kp, v) # overlay a P C)
      else (case vc of None \<Rightarrow> overlay a ((kp, vp) # P) C
                     | Some v \<Rightarrow> (kc, v) # overlay a ((kp, vp) # P) C))"

text \<open>The iterator stands on an existing item.\<close>

definition settled :: "bool \<Rightarrow> (bytes \<times> bytes) list \<Rightarrow> KVPair list \<Rightarrow> bool" where
  "settled a P C =
     (case (P, C) of
        ([], []) \<Rightarrow> False
      | ([], (kc, vc) # _) \<Rightarrow> vc \<noteq> None
      | (_ # _, []) \<Rightarrow> True
      | ((kp, _) # _, (kc, vc) # _) \<Rightarrow> it_before a kp kc \<or> vc \<noteq> None)"

lemma overlay_dropWhile_Nil:
  "overlay a [] (dropWhile (\<lambda>(k, v). v = None \<and> q k) C) = overlay a [] C"
  by (induction C) (auto split: option.splits)

lemma it_before_irrefl [simp]: "\<not> it_before a k k"
  by (simp add: it_before_def)

lemma it_before_trans: "it_before a x y \<Longrightarrow> it_before a y z \<Longrightarrow> it_before a x z"
  by (auto simp: it_before_def split: if_splits)

lemma it_before_asym: "it_before a x y \<Longrightarrow> \<not> it_before a y x"
  by (auto simp: it_before_def split: if_splits)

lemma overlay_dropWhile_Cons:
  "overlay a ((kp, vp) # P) (dropWhile (\<lambda>(k, v). v = None \<and> it_before a k kp) C)
     = overlay a ((kp, vp) # P) C"
  by (induction C) (auto split: option.splits dest: it_before_asym)

lemma dropWhile_None_eq:
  "dropWhile (\<lambda>(k, v). v = None) C = [] \<or> (\<exists>k v cs. dropWhile (\<lambda>(k, v). v = None) C = (k, Some v) # cs)"
  by (induction C) auto

lemma overlay_settled_Nil:
  "D = [] \<or> (\<exists>k v cs. D = (k, Some v) # cs) \<Longrightarrow>
   (overlay a [] D \<noteq> []) = (D \<noteq> []) \<and> (D \<noteq> [] \<longrightarrow> settled a [] D)"
  by (auto simp: settled_def)

lemma skip_weaken:
  assumes "\<exists>P' C'. F P' C' \<and> G P' C' \<and> length P' + length C' \<le> n \<and> H P' C'" and "n \<le> m"
  shows "\<exists>P' C'. F P' C' \<and> G P' C' \<and> length P' + length C' \<le> m \<and> H P' C'"
  using assms by (meson order_trans)

lemma skipUntil_it_of:
  "\<exists>P' C'. skipUntilExistsOrInvalid (it_of a P C) = Some (overlay a P C \<noteq> [], it_of a P' C')
     \<and> overlay a P' C' = overlay a P C \<and> length P' + length C' \<le> length P + length C
     \<and> (overlay a P C \<noteq> [] \<longrightarrow> settled a P' C')"
proof (induction "length P + length C" arbitrary: P C rule: less_induct)
  case less
  show ?case
  proof (cases P)
    case Nil
    let ?C = "dropWhile (\<lambda>(k, v). v = None) C"
    have ov: "overlay a [] ?C = overlay a [] C"
      using overlay_dropWhile_Nil [of a "\<lambda>_. True" C] by simp
    have eq: "skipUntilExistsOrInvalid (it_of a P C) = Some (?C \<noteq> [], it_of a [] ?C)"
      by (subst skipUntilExistsOrInvalid.simps)
        (simp add: Nil skipCacheDeletes_mi_of mi_Valid_mi_of)
    have ne: "(overlay a [] C \<noteq> []) = (?C \<noteq> [])" and st: "?C \<noteq> [] \<longrightarrow> settled a [] ?C"
      using overlay_settled_Nil [OF dropWhile_None_eq [of C], of a] unfolding ov by blast+
    show ?thesis
      using eq ov ne st length_dropWhile_le [of _ C] by (intro exI [of _ "[]"] exI [of _ ?C])
        (simp add: Nil)
  next
    case P: (Cons p P1)
    obtain kp vp where p: "p = (kp, vp)" by force
    show ?thesis
    proof (cases C)
      case Nil
      then show ?thesis
        by (intro exI [of _ P] exI [of _ C])
          (subst skipUntilExistsOrInvalid.simps, simp add: P p settled_def)
    next
      case C: (Cons c C1)
      obtain kc vc where c: "c = (kc, vc)" by force
      let ?D = "dropWhile (\<lambda>(k, v). v = None \<and> it_before a k kp) C"
      consider (stay) "it_before a kp kc \<or> vc \<noteq> None"
        | (both) "kp = kc" "vc = None"
        | (skip) "\<not> it_before a kp kc" "kp \<noteq> kc" "vc = None" by blast
      then show ?thesis
      proof cases
        case stay
        then show ?thesis
          by (intro exI [of _ P] exI [of _ C])
            (subst skipUntilExistsOrInvalid.simps, auto simp: P p C c settled_def Let_def)
      next
        case both
        have eq: "skipUntilExistsOrInvalid (it_of a P C) = skipUntilExistsOrInvalid (it_of a P1 C1)"
          by (subst skipUntilExistsOrInvalid.simps) (simp add: P p C c both Let_def)
        have ov: "overlay a P C = overlay a P1 C1" by (simp add: P p C c both)
        show ?thesis
          unfolding eq ov by (rule skip_weaken [OF less]) (simp_all add: P C)
      next
        case skip
        then have "it_before a kc kp" using it_before_linear by blast
        then have D: "?D = dropWhile (\<lambda>(k, v). v = None \<and> it_before a k kp) C1"
          using skip by (simp add: C c)
        have len: "length ?D \<le> length C1" unfolding D by (rule length_dropWhile_le)
        have eq: "skipUntilExistsOrInvalid (it_of a P C) = skipUntilExistsOrInvalid (it_of a P ?D)"
          by (subst skipUntilExistsOrInvalid.simps)
            (use skip in \<open>simp add: P p C c Let_def skipCacheDeletes_mi_of\<close>)
        have ov: "overlay a P C = overlay a P ?D"
          using overlay_dropWhile_Cons by (simp add: P p)
        have len: "length P + length ?D < length P + length C" using len by (simp add: C)
        show ?thesis
          using skip_weaken [OF less [OF len] less_imp_le [OF len]] unfolding eq ov .
      qed
    qed
  qed
qed

lemma skipUntil_settled:
  "settled a P C \<Longrightarrow> skipUntilExistsOrInvalid (it_of a P C) = Some (True, it_of a P C)"
  by (subst skipUntilExistsOrInvalid.simps)
    (auto simp: settled_def skipCacheDeletes_mi_of mi_Valid_mi_of Let_def
      split: list.splits option.splits)

lemma settled_ops:
  assumes "settled a P C"
  obtains k v P' C' where "overlay a P C = (k, v) # overlay a P' C'"
    and "it_Key (it_of a P C) = Some (k, it_of a P C)"
    and "it_Value (it_of a P C) = Some (Some v, it_of a P C)"
    and "it_Next (it_of a P C) = Some (it_of a P' C')"
    and "length P' + length C' < length P + length C"
proof -
  note skip = skipUntil_settled [OF assms]
  show ?thesis
  proof (cases P)
    case Nil
    then obtain kc v C1 where C: "C = (kc, Some v) # C1"
      using assms by (auto simp: settled_def split: list.splits)
    show ?thesis
      by (rule that [of kc v "[]" C1])
        (use skip Nil C in \<open>simp_all add: it_Key_def it_Value_def it_Next_def it_assertValid_def it_Valid_def\<close>)
  next
    case P: (Cons p P1)
    obtain kp vp where p: "p = (kp, vp)" by force
    show ?thesis
    proof (cases C)
      case Nil
      have "overlay a P1 [] = P1" by (cases P1) auto
      then show ?thesis
        by (intro that [of kp vp P1 "[]"])
          (use skip P p Nil in \<open>simp_all add: it_Key_def it_Value_def it_Next_def it_assertValid_def it_Valid_def\<close>)
    next
      case C: (Cons c C1)
      obtain kc vc where c: "c = (kc, vc)" by force
      consider (before) "it_before a kp kc" | (same) v where "kp = kc" "vc = Some v"
        | (after) v where "\<not> it_before a kp kc" "kp \<noteq> kc" "vc = Some v"
        using assms by (cases vc) (auto simp: settled_def P p C c)
      then show ?thesis
      proof cases
        case before
        then show ?thesis
          by (intro that [of kp vp P1 C])
            (use skip P p C c in \<open>simp_all add: it_Key_def it_Value_def it_Next_def it_assertValid_def it_Valid_def\<close>)
      next
        case same
        then show ?thesis
          by (intro that [of kp v P1 C1])
            (use skip P p C c in \<open>simp_all add: it_Key_def it_Value_def it_Next_def it_assertValid_def it_Valid_def\<close>)
      next
        case after
        then show ?thesis
          by (intro that [of kc v P C1])
            (use skip P p C c in \<open>simp_all add: it_Key_def it_Value_def it_Next_def it_assertValid_def it_Valid_def\<close>)
      qed
    qed
  qed
qed

lemma drain_loop_it_of:
  "length P + length C < fuel \<Longrightarrow> drain_loop fuel (it_of a P C) = Some (overlay a P C)"
proof (induction fuel arbitrary: P C)
  case (Suc fuel)
  obtain P1 C1 where
    skip: "skipUntilExistsOrInvalid (it_of a P C) = Some (overlay a P C \<noteq> [], it_of a P1 C1)"
    and ov: "overlay a P1 C1 = overlay a P C" and len: "length P1 + length C1 \<le> length P + length C"
    and st: "overlay a P C \<noteq> [] \<longrightarrow> settled a P1 C1"
    using skipUntil_it_of by blast
  show ?case
  proof (cases "overlay a P C = []")
    case True
    then show ?thesis using skip by (simp add: it_Valid_def)
  next
    case False
    then have "settled a P1 C1" using st by blast
    then obtain k v P2 C2 where step: "overlay a P1 C1 = (k, v) # overlay a P2 C2"
      "it_Key (it_of a P1 C1) = Some (k, it_of a P1 C1)"
      "it_Value (it_of a P1 C1) = Some (Some v, it_of a P1 C1)"
      "it_Next (it_of a P1 C1) = Some (it_of a P2 C2)"
      "length P2 + length C2 < length P1 + length C1" by (rule settled_ops)
    have "drain_loop fuel (it_of a P2 C2) = Some (overlay a P2 C2)"
      using Suc.prems len step(5) by (intro Suc.IH) simp
    then show ?thesis using skip False step(1-4) ov by (simp add: it_Valid_def)
  qed
qed simp

lemma drain_it_of: "drain (it_of a P C) = Some (overlay a P C)"
  by (simp add: drain_def drain_loop_it_of del: drain_loop.simps)


subsection \<open>The overlay is the map with the cache on top\<close>

definition in_order :: "bool \<Rightarrow> (bytes \<times> 'v) list \<Rightarrow> bool" where
  "in_order a xs = sorted_wrt (it_before a) (map fst xs)"

lemma in_order_simps [simp]:
  "in_order a []"
  "in_order a (e # xs) = ((\<forall>y \<in> set xs. it_before a (fst e) (fst y)) \<and> in_order a xs)"
  by (auto simp: in_order_def)

lemma in_order_ascending: "in_order True xs = ascending_keys xs"
  by (simp add: in_order_def ascending_keys_def it_before_def [abs_def])

lemma in_order_rev: "in_order False (rev xs) = ascending_keys xs"
  unfolding in_order_def ascending_keys_def it_before_def [abs_def]
  by (simp add: rev_map [symmetric] sorted_wrt_rev)

lemma in_order_if: "in_order a (if a then xs else rev xs) = ascending_keys xs"
  by (simp add: in_order_ascending in_order_rev)

lemma overlay_keys:
  "e \<in> set (overlay a P C) \<Longrightarrow> fst e \<in> fst ` set P \<or> fst e \<in> fst ` set C"
  by (induction a P C rule: overlay.induct) (auto split: option.splits if_splits)

lemma overlay_above:
  assumes "\<forall>y \<in> set P. it_before a k (fst y)" and "\<forall>y \<in> set C. it_before a k (fst y)"
  shows "\<forall>y \<in> set (overlay a P C). it_before a k (fst y)"
proof
  fix y assume "y \<in> set (overlay a P C)"
  from overlay_keys [OF this] show "it_before a k (fst y)"
    using assms by (elim disjE imageE) simp_all
qed

lemma in_order_above_hd:
  "in_order a (e # xs) \<Longrightarrow> it_before a k (fst e) \<Longrightarrow> \<forall>y \<in> set (e # xs). it_before a k (fst y)"
  by simp (blast intro: it_before_trans)

lemma overlay_in_order:
  "in_order a P \<Longrightarrow> in_order a C \<Longrightarrow> in_order a (overlay a P C)"
proof (induction a P C rule: overlay.induct)
  case (2 a kc vc C)
  then show ?case by (auto split: option.splits dest: overlay_above [of "[]" a kc C, simplified])
next
  case (4 a kp vp P kc vc C)
  note prems = "4.prems"
  consider (before) "it_before a kp kc" | (same) "kp = kc" | (after) "it_before a kc kp"
    using it_before_linear by blast
  then show ?case
  proof cases
    case before
    have "\<forall>y \<in> set (overlay a P ((kc, vc) # C)). it_before a kp (fst y)"
      using prems before by (intro overlay_above in_order_above_hd) simp_all
    then show ?thesis using "4.IH"(1) before prems by simp
  next
    case same
    have "\<forall>y \<in> set (overlay a P C). it_before a kp (fst y)"
      using prems same by (intro overlay_above) simp_all
    then show ?thesis using "4.IH"(2,3) same prems by (simp split: option.splits)
  next
    case after
    then have n: "\<not> it_before a kp kc" "kp \<noteq> kc" using it_before_asym by auto
    have "\<forall>y \<in> set (overlay a ((kp, vp) # P) C). it_before a kc (fst y)"
      using prems after by (intro overlay_above in_order_above_hd) simp_all
    then show ?thesis using "4.IH"(4,5) n prems by (simp split: option.splits)
  qed
qed simp_all

lemma in_order_notin: "\<forall>y \<in> set xs. it_before a k (fst y) \<Longrightarrow> (k, v) \<notin> set xs"
  by force

lemma overlay_member:
  "in_order a P \<Longrightarrow> in_order a C \<Longrightarrow>
   (k, v) \<in> set (overlay a P C) \<longleftrightarrow> (k, Some v) \<in> set C \<or> (k, v) \<in> set P \<and> k \<notin> fst ` set C"
proof (induction a P C rule: overlay.induct)
  case (2 a kc vc C)
  then show ?case by (auto split: option.splits)
next
  case (4 a kp vp P kc vc C)
  note prems = "4.prems"
  have P: "(kp, w) \<notin> set P" and C: "kc \<notin> fst ` set C" for w
    using prems by force+
  consider (before) "it_before a kp kc" | (same) "kp = kc" | (after) "it_before a kc kp"
    using it_before_linear by blast
  then show ?case
  proof cases
    case before
    then have "kp \<notin> fst ` set ((kc, vc) # C)"
      using in_order_above_hd [OF prems(2), of kp] by force
    then show ?thesis using "4.IH"(1) before prems by auto
  next
    case same
    then show ?thesis using "4.IH"(2,3) prems P C by (auto split: option.splits)
  next
    case after
    then have n: "\<not> it_before a kp kc" "kp \<noteq> kc" using it_before_asym by auto
    have "kc \<notin> fst ` set ((kp, vp) # P)"
      using in_order_above_hd [OF prems(1), of kc] after by force
    then show ?thesis using "4.IH"(4,5) n prems C by (auto split: option.splits)
  qed
qed auto

section \<open>The sorted list of dirty items\<close>

lemma newMemIterator_entered:
  assumes "ascending_keys items" and "\<forall>e \<in> set items. lo < fst e" and "r lo"
    and "\<And>a b c. r a \<Longrightarrow> r c \<Longrightarrow> a < b \<Longrightarrow> b < c \<Longrightarrow> r b"
  shows "newMemIterator_loop r True items = filter (\<lambda>e. r (fst e)) items"
  using assms(1,2)
proof (induction items)
  case (Cons e items)
  show ?case
  proof (cases "r (fst e)")
    case True
    with Cons show ?thesis by simp
  next
    case False
    have "\<not> r (fst x)" if "x \<in> set items" for x
      using assms(4) [of lo "fst x" "fst e"] assms(3) Cons.prems that False by auto
    with False show ?thesis by (simp add: filter_empty_conv)
  qed
qed simp

lemma newMemIterator_filter:
  assumes "ascending_keys items"
    and "\<And>a b c. r a \<Longrightarrow> r c \<Longrightarrow> a < b \<Longrightarrow> b < c \<Longrightarrow> r b"
  shows "newMemIterator_loop r False items = filter (\<lambda>e. r (fst e)) items"
  using assms(1)
proof (induction items)
  case (Cons e items)
  show ?case
  proof (cases "r (fst e)")
    case True
    then show ?thesis using newMemIterator_entered [of items "fst e" r, OF _ _ True assms(2)] Cons.prems
      by simp
  next
    case False
    then show ?thesis using Cons by simp
  qed
qed simp

lemma dirtyItems_merge_keys:
  "fst ` set (dirtyItems_merge us items) = fst ` set us \<union> fst ` set items"
  by (induction us items rule: dirtyItems_merge.induct) (simp_all add: insert_commute)

lemma dirtyItems_merge_above:
  assumes "\<forall>y \<in> set xs. k < fst y" and "\<forall>y \<in> set ys. k < fst y"
  shows "\<forall>y \<in> set (dirtyItems_merge xs ys). k < fst y"
proof
  fix y assume "y \<in> set (dirtyItems_merge xs ys)"
  then have "fst y \<in> fst ` set xs \<union> fst ` set ys" using dirtyItems_merge_keys by (metis imageI)
  with assms show "k < fst y" by (elim UnE imageE) simp_all
qed

lemma dirtyItems_merge_ascending:
  "ascending_keys us \<Longrightarrow> ascending_keys items \<Longrightarrow> ascending_keys (dirtyItems_merge us items)"
proof (induction us items rule: dirtyItems_merge.induct)
  case (3 u us s items)
  note us = "3.prems"(1) and ss = "3.prems"(2)
  consider (lt) "fst u < fst s" | (gt) "fst s < fst u" | (eq) "fst u = fst s"
    by (meson linorder_neq_iff)
  then show ?case
  proof cases
    case lt
    have "\<forall>y \<in> set (s # items). fst u < fst y" using ss lt by (rule ascending_keys_above)
    then have "\<forall>y \<in> set (dirtyItems_merge us (s # items)). fst u < fst y"
      using us by (intro dirtyItems_merge_above) simp_all
    with lt "3.IH"(1) us ss show ?thesis by simp
  next
    case gt
    then have n: "\<not> fst u < fst s" by simp
    have "\<forall>y \<in> set (u # us). fst s < fst y" using us gt by (rule ascending_keys_above)
    then have "\<forall>y \<in> set (dirtyItems_merge (u # us) items). fst s < fst y"
      using ss by (intro dirtyItems_merge_above) simp_all
    with gt n "3.IH"(2) us ss show ?thesis by simp
  next
    case eq
    have "\<forall>y \<in> set (dirtyItems_merge us items). fst u < fst y"
      using us ss eq by (intro dirtyItems_merge_above) simp_all
    with eq "3.IH"(3) us ss show ?thesis by simp
  qed
qed simp_all

lemma map_of_above: "\<forall>y \<in> set xs. k < fst y \<Longrightarrow> map_of xs k = None"
  for k :: "'k::linorder"
  by (rule map_of_not_in) auto

lemma dirtyItems_merge_map:
  "ascending_keys us \<Longrightarrow> ascending_keys items \<Longrightarrow>
   map_of (dirtyItems_merge us items) k =
     (case map_of us k of None \<Rightarrow> map_of items k | Some v \<Rightarrow> Some v)"
proof (induction us items rule: dirtyItems_merge.induct)
  case (3 u us s items)
  note us = "3.prems"(1) and ss = "3.prems"(2)
  consider (lt) "fst u < fst s" | (gt) "fst s < fst u" | (eq) "fst u = fst s"
    by (meson linorder_neq_iff)
  then show ?case
  proof cases
    case lt
    with "3.IH"(1) us ss show ?thesis by (cases u) simp
  next
    case gt
    then have n: "\<not> fst u < fst s" by simp
    have "map_of (u # us) (fst s) = None"
      by (rule map_of_above) (rule ascending_keys_above [OF us gt])
    with gt n "3.IH"(2) us ss show ?thesis
      by (cases s; cases "k = fst s") (simp_all split: option.splits)
  next
    case eq
    with "3.IH"(3) us ss show ?thesis
      by (cases s; cases "k = fst u") (simp_all split: option.splits)
  qed
qed (simp_all split: option.splits)


section \<open>The contract of a KVStore\<close>

text \<open>An iterator yields exactly the entries of the domain, in its direction.\<close>

definition lists_domain ::
  "domain_test \<Rightarrow> (bytes \<Rightarrow> bytes option) \<Rightarrow> bytes option \<Rightarrow> bytes option \<Rightarrow> bool \<Rightarrow>
   (bytes \<times> bytes) list \<Rightarrow> bool" where
  "lists_domain in_dom m start end a xs =
     (in_order a xs \<and> (\<forall>k v. (k, v) \<in> set xs \<longleftrightarrow> in_dom k start end \<and> m k = Some v))"

locale kv_contract =
  fixes in_dom :: domain_test
    and ops :: "'p KVStore_ops"
    and ok :: "'p \<Rightarrow> bool"
    and contents :: "'p \<Rightarrow> bytes \<Rightarrow> bytes option"
  assumes get_ok: "ok p \<Longrightarrow> \<exists>p'. op_Get ops p (Some k) = Some (contents p k, p') \<and> ok p' \<and>
      contents p' = contents p"
    and set_ok: "ok p \<Longrightarrow> \<exists>p'. op_Set ops p (Some k) (Some v) = Some p' \<and> ok p' \<and>
      contents p' = (contents p)(k \<mapsto> v)"
    and delete_ok: "ok p \<Longrightarrow> \<exists>p'. op_Delete ops p (Some k) = Some p' \<and> ok p' \<and>
      contents p' = (contents p)(k := None)"
    and iterator_ok: "ok p \<Longrightarrow> \<exists>xs p'. op_Iterator ops p start end = Some (xs, p') \<and> ok p' \<and>
      contents p' = contents p \<and> lists_domain in_dom (contents p) start end True xs"
    and reverse_ok: "ok p \<Longrightarrow> \<exists>xs p'. op_ReverseIterator ops p start end = Some (xs, p') \<and> ok p' \<and>
      contents p' = contents p \<and> lists_domain in_dom (contents p) start end False xs"
    and nil_ok: "op_Get ops p None = None" "op_Set ops p None w = None"
      "op_Set ops p (Some k) None = None" "op_Delete ops p None = None"

text \<open>The domain test of tm-db is an interval test: between two keys inside lies no key outside.\<close>

definition convex_domain :: "domain_test \<Rightarrow> bool" where
  "convex_domain in_dom =
     (\<forall>a b c s e. in_dom a s e \<and> in_dom c s e \<and> a < b \<and> b < c \<longrightarrow> in_dom b s e)"

subsection \<open>The invariant of a cache and the map it stands for\<close>

definition cache_contents :: "('p \<Rightarrow> bytes \<Rightarrow> bytes option) \<Rightarrow> 'p Store \<Rightarrow> bytes \<Rightarrow> bytes option" where
  "cache_contents contents st k =
     (case kv_get (st_cache st) k of None \<Rightarrow> contents (st_parent st) k | Some cv \<Rightarrow> cv_value cv)"

definition dirty_in :: "'p Store \<Rightarrow> bytes \<Rightarrow> bool" where
  "dirty_in st k = (case kv_get (st_cache st) k of None \<Rightarrow> False | Some cv \<Rightarrow> cv_dirty cv)"

definition cached_value :: "'p Store \<Rightarrow> bytes \<Rightarrow> bytes option" where
  "cached_value st k = (case kv_get (st_cache st) k of None \<Rightarrow> None | Some cv \<Rightarrow> cv_value cv)"

text \<open>A dirty entry says whether it deletes; a clean one repeats the parent.\<close>

definition cv_ok :: "bytes option \<Rightarrow> cValue \<Rightarrow> bool" where
  "cv_ok parent_value cv =
     (if cv_dirty cv then cv_deleted cv = (cv_value cv = None)
      else \<not> cv_deleted cv \<and> cv_value cv = parent_value)"

definition unsorted_in :: "'p Store \<Rightarrow> bytes \<Rightarrow> bool" where
  "unsorted_in st k = (kv_get (st_unsortedCache st) k \<noteq> None)"

definition index_ok :: "'p Store \<Rightarrow> bool" where
  "index_ok st =
     (ascending_keys (st_sortedCache st) \<and>
      (\<forall>k. unsorted_in st k \<longrightarrow> dirty_in st k) \<and>
      (\<forall>k v. map_of (st_sortedCache st) k = Some v \<longrightarrow>
         dirty_in st k \<and> (\<not> unsorted_in st k \<longrightarrow> v = cached_value st k)) \<and>
      (\<forall>k. dirty_in st k \<longrightarrow>
         unsorted_in st k \<or> map_of (st_sortedCache st) k \<noteq> None))"

definition cache_inv :: "('p \<Rightarrow> bool) \<Rightarrow> ('p \<Rightarrow> bytes \<Rightarrow> bytes option) \<Rightarrow> 'p Store \<Rightarrow> bool" where
  "cache_inv ok contents st =
     (ok (st_parent st) \<and> index_ok st \<and>
      (\<forall>k cv. kv_get (st_cache st) k = Some cv \<longrightarrow> cv_ok (contents (st_parent st) k) cv))"

lemma cache_inv_NewStore: "ok p \<Longrightarrow> cache_inv ok contents (NewStore p)"
  by (simp add: cache_inv_def index_ok_def NewStore_def dirty_in_def unsorted_in_def)

lemma cache_contents_NewStore: "cache_contents contents (NewStore p) = contents p"
  by (simp add: cache_contents_def NewStore_def fun_eq_iff)

lemma setCacheValue_sel [simp]:
  "kv_get (st_cache (setCacheValue k v del dirty st)) k' =
     (if k' = k then Some \<lparr>cv_value = v, cv_deleted = del, cv_dirty = dirty\<rparr>
      else kv_get (st_cache st) k')"
  "st_parent (setCacheValue k v del dirty st) = st_parent st"
  "st_sortedCache (setCacheValue k v del dirty st) = st_sortedCache st"
  "unsorted_in (setCacheValue k v del dirty st) k' = (dirty \<and> k' = k \<or> unsorted_in st k')"
  by (simp_all add: setCacheValue_def Let_def unsorted_in_def)

lemma index_ok_write:
  assumes "index_ok st"
  shows "index_ok (setCacheValue k v del True st)"
  using assms unfolding index_ok_def dirty_in_def cached_value_def by (auto split: if_splits)

lemma index_ok_read:
  assumes "index_ok st" and "kv_get (st_cache st) k = None"
  shows "index_ok (setCacheValue k v del False st)"
proof -
  let ?st = "setCacheValue k v del False st"
  have d: "dirty_in ?st = dirty_in st" and nk: "\<not> dirty_in st k"
    using assms(2) by (auto simp: dirty_in_def fun_eq_iff)
  have "k' \<noteq> k \<Longrightarrow> cached_value ?st k' = cached_value st k'" for k'
    by (simp add: cached_value_def)
  with assms(1) nk show ?thesis unfolding index_ok_def d by (simp, metis)
qed

lemma index_ok_parent [simp]: "index_ok (st\<lparr>st_parent := p\<rparr>) = index_ok st"
  by (simp add: index_ok_def dirty_in_def cached_value_def unsorted_in_def)


lemma dirtyItems_sel [simp]:
  "st_cache (dirtyItems in_dom start end st) = st_cache st"
  "st_parent (dirtyItems in_dom start end st) = st_parent st"
  by (simp_all add: dirtyItems_def Let_def)

lemma dirtyItems_marks [simp]:
  "dirty_in (dirtyItems in_dom start end st) = dirty_in st"
  "cached_value (dirtyItems in_dom start end st) = cached_value st"
  by (simp_all add: dirty_in_def [abs_def] cached_value_def [abs_def])

lemma kv_get_foldr_delete:
  "kv_get (foldr kv_delete ks s) k = (if k \<in> set ks then None else kv_get s k)"
  by (induction ks) auto

lemma dirtyItems_unsorted:
  "unsorted_in (dirtyItems in_dom start end st) k = (\<not> in_dom k start end \<and> unsorted_in st k)"
proof -
  have "k \<in> set (map fst (kv_entries (st_unsortedCache st))) \<longleftrightarrow> unsorted_in st k"
    using kv_keys_iff [of k "st_unsortedCache st"] unfolding unsorted_in_def by simp
  then show ?thesis by (auto simp: unsorted_in_def dirtyItems_def Let_def kv_get_foldr_delete)
qed

lemma map_of_map_key: "map_of (map (\<lambda>k. (k, f k)) ks) k = (if k \<in> set ks then Some (f k) else None)"
  by (induction ks) auto

lemma dirtyItems_sorted:
  assumes "ascending_keys (st_sortedCache st)"
  shows "ascending_keys (st_sortedCache (dirtyItems in_dom start end st))"
    and "map_of (st_sortedCache (dirtyItems in_dom start end st)) k =
      (if in_dom k start end \<and> unsorted_in st k
       then Some (cached_value st k) else map_of (st_sortedCache st) k)"
proof -
  let ?keys = "filter (\<lambda>key. in_dom key start end) (map fst (kv_entries (st_unsortedCache st)))"
  let ?new = "map (\<lambda>key. (key, cached_value st key)) ?keys"
  have "sorted_wrt (<) ?keys"
    using kv_entries_ascending [of "st_unsortedCache st"]
    unfolding ascending_keys_def by (rule sorted_wrt_filter)
  then have asc: "ascending_keys ?new" by (simp add: ascending_keys_def comp_def)
  then have "sort_key fst ?new = ?new"
    by (intro sort_key_id_if_sorted) (simp add: ascending_keys_def strict_sorted_imp_sorted)
  then have eq: "st_sortedCache (dirtyItems in_dom start end st) =
      dirtyItems_merge ?new (st_sortedCache st)"
    by (simp add: dirtyItems_def Let_def cached_value_def)
  show "ascending_keys (st_sortedCache (dirtyItems in_dom start end st))"
    unfolding eq using asc assms by (rule dirtyItems_merge_ascending)
  have mem: "k \<in> set ?keys \<longleftrightarrow> in_dom k start end \<and> unsorted_in st k"
    using kv_keys_iff [of k "st_unsortedCache st"] unfolding unsorted_in_def by auto
  show "map_of (st_sortedCache (dirtyItems in_dom start end st)) k =
      (if in_dom k start end \<and> unsorted_in st k
       then Some (cached_value st k) else map_of (st_sortedCache st) k)"
    unfolding eq dirtyItems_merge_map [OF asc assms] map_of_map_key mem by simp
qed

lemma dirtyItems_index_ok:
  assumes "index_ok st"
  shows "index_ok (dirtyItems in_dom start end st)"
proof -
  have asc: "ascending_keys (st_sortedCache st)" using assms by (simp add: index_ok_def)
  show ?thesis
    using assms
    unfolding index_ok_def dirtyItems_marks dirtyItems_unsorted dirtyItems_sorted(2) [OF asc]
    by (auto simp: dirtyItems_sorted(1) split: if_splits)
qed

text \<open>After \<open>dirtyItems\<close> the sorted list holds, in the domain, exactly the dirty keys.\<close>

lemma dirtyItems_complete:
  assumes "index_ok st" and "in_dom k start end"
  shows "(k, v) \<in> set (st_sortedCache (dirtyItems in_dom start end st)) \<longleftrightarrow>
         dirty_in st k \<and> v = cached_value st k"
proof -
  let ?st = "dirtyItems in_dom start end st"
  have ok: "index_ok ?st" using assms(1) by (rule dirtyItems_index_ok)
  then have "distinct (map fst (st_sortedCache ?st))"
    by (simp add: index_ok_def ascending_keys_distinct)
  then have "(k, v) \<in> set (st_sortedCache ?st) \<longleftrightarrow> map_of (st_sortedCache ?st) k = Some v"
    by simp
  moreover have "\<not> unsorted_in ?st k"
    using assms(2) by (simp add: dirtyItems_unsorted)
  ultimately show ?thesis
    using ok unfolding index_ok_def dirtyItems_marks by auto
qed


section \<open>A cache over a store is a store\<close>

lemma cache_contents_cases:
  assumes "cache_inv ok contents st"
  shows "cache_contents contents st k =
    (if dirty_in st k then cached_value st k else contents (st_parent st) k)"
  using assms
  by (auto simp: cache_inv_def cache_contents_def dirty_in_def cached_value_def cv_ok_def
      split: option.splits)

lemma cache_parent_change:
  assumes "contents p = contents (st_parent st)"
  shows "cache_contents contents (st\<lparr>st_parent := p\<rparr>) = cache_contents contents st"
    and "ok p \<Longrightarrow> cache_inv ok contents st \<Longrightarrow> cache_inv ok contents (st\<lparr>st_parent := p\<rparr>)"
  using assms by (simp_all add: cache_contents_def cache_inv_def fun_eq_iff split: option.splits)

lemma cache_write_value:
  assumes "cache_inv ok contents st" and "del = (v = None)"
  shows "cache_inv ok contents (setCacheValue k v del True st)"
    and "cache_contents contents (setCacheValue k v del True st) = (cache_contents contents st)(k := v)"
  using assms
  by (auto simp: cache_inv_def index_ok_write cv_ok_def cache_contents_def fun_eq_iff
      split: if_splits option.splits)

lemma cache_read_value:
  assumes "cache_inv ok contents st" and "kv_get (st_cache st) k = None"
    and "v = contents (st_parent st) k"
  shows "cache_inv ok contents (setCacheValue k v False False st)"
    and "cache_contents contents (setCacheValue k v False False st) = cache_contents contents st"
  using assms
  by (auto simp: cache_inv_def index_ok_read cv_ok_def cache_contents_def fun_eq_iff
      split: if_splits option.splits)

lemma dirtyItems_cache:
  "cache_inv ok contents st \<Longrightarrow> cache_inv ok contents (dirtyItems in_dom start end st)"
  "cache_contents contents (dirtyItems in_dom start end st) = cache_contents contents st"
  by (simp_all add: cache_inv_def dirtyItems_index_ok cache_contents_def fun_eq_iff
      split: option.splits)

locale cached_store = kv_contract +
  assumes convex: "convex_domain in_dom"
begin

lemma cache_get_ok:
  assumes "cache_inv ok contents st"
  shows "\<exists>st'. Store_Get ops st (Some k) = Some (cache_contents contents st k, st') \<and>
     cache_inv ok contents st' \<and> cache_contents contents st' = cache_contents contents st \<and>
     contents (st_parent st') = contents (st_parent st)"
proof (cases "kv_get (st_cache st) k")
  case None
  have "ok (st_parent st)" using assms by (simp add: cache_inv_def)
  then obtain p where p: "op_Get ops (st_parent st) (Some k) = Some (contents (st_parent st) k, p)"
    "ok p" "contents p = contents (st_parent st)" using get_ok by blast
  let ?v = "contents (st_parent st) k"
  let ?st = "st\<lparr>st_parent := p\<rparr>"
  have "cache_inv ok contents ?st" "cache_contents contents ?st = cache_contents contents st"
    using cache_parent_change(1) [OF p(3)] cache_parent_change(2) [OF p(3), of ok] p assms by simp_all
  moreover have "kv_get (st_cache ?st) k = None" "?v = contents (st_parent ?st) k"
    using None p(3) by simp_all
  ultimately have "cache_inv ok contents (setCacheValue k ?v False False ?st)"
    "cache_contents contents (setCacheValue k ?v False False ?st) = cache_contents contents st"
    using cache_read_value by metis+
  then show ?thesis
    using None p by (simp add: Store_Get_def AssertValidKey_def cache_contents_def)
next
  case (Some cv)
  then show ?thesis
    using assms by (simp add: Store_Get_def AssertValidKey_def cache_contents_def)
qed

lemma cache_set_ok:
  "cache_inv ok contents st \<Longrightarrow>
   \<exists>st'. Store_Set st (Some k) (Some v) = Some st' \<and> cache_inv ok contents st' \<and>
     cache_contents contents st' = (cache_contents contents st)(k \<mapsto> v) \<and>
     st_parent st' = st_parent st"
  by (simp add: Store_Set_def AssertValidKey_def AssertValidValue_def cache_write_value)

lemma cache_delete_ok:
  "cache_inv ok contents st \<Longrightarrow>
   \<exists>st'. Store_Delete st (Some k) = Some st' \<and> cache_inv ok contents st' \<and>
     cache_contents contents st' = (cache_contents contents st)(k := None) \<and>
     st_parent st' = st_parent st"
  by (simp add: Store_Delete_def AssertValidKey_def cache_write_value)

lemma parent_iterator:
  assumes "ok p"
  obtains P p' where
    "(if a then op_Iterator ops p start end else op_ReverseIterator ops p start end) = Some (P, p')"
    and "ok p'" and "contents p' = contents p" and "lists_domain in_dom (contents p) start end a P"
  using iterator_ok [OF assms, of start "end"] reverse_ok [OF assms, of start "end"] that
  by (cases a) auto

lemma cache_items:
  assumes "cache_inv ok contents st"
  obtains C where "newMemIterator in_dom start end
      (st_sortedCache (dirtyItems in_dom start end st)) a = mi_of a C"
    and "in_order a C"
    and "\<And>k v. (k, v) \<in> set C \<longleftrightarrow> in_dom k start end \<and> dirty_in st k \<and> v = cached_value st k"
proof -
  let ?items = "st_sortedCache (dirtyItems in_dom start end st)"
  define L where "L = filter (\<lambda>e. in_dom (fst e) start end) ?items"
  define C where "C = (if a then L else rev L)"
  have idx: "index_ok st" using assms(1) by (simp add: cache_inv_def)
  then have asc: "ascending_keys ?items"
    by (intro dirtyItems_sorted(1)) (simp add: index_ok_def)
  have conv: "in_dom x start end \<Longrightarrow> in_dom z start end \<Longrightarrow> x < y \<Longrightarrow> y < z \<Longrightarrow> in_dom y start end"
    for x y z using convex unfolding convex_domain_def by blast
  have "newMemIterator_loop (\<lambda>k. in_dom k start end) False ?items = L"
    unfolding L_def using asc conv by (rule newMemIterator_filter)
  then have 1: "newMemIterator in_dom start end ?items a = mi_of a C"
    by (simp add: newMemIterator_def mi_of_def C_def)
  have "ascending_keys L"
    using asc unfolding L_def ascending_keys_def sorted_wrt_map by (rule sorted_wrt_filter)
  then have 2: "in_order a C" unfolding C_def by (simp add: in_order_if)
  have "(k, v) \<in> set C \<longleftrightarrow> in_dom k start end \<and> dirty_in st k \<and> v = cached_value st k" for k v
    using dirtyItems_complete [OF idx, of in_dom k start "end" v] by (auto simp: L_def C_def)
  with 1 2 show thesis by (rule that)
qed

lemma cache_iterator_ok:
  assumes inv: "cache_inv ok contents st"
  shows "\<exists>it st' xs. Store_iterator in_dom ops st start end a = Some (it, st') \<and>
     drain it = Some xs \<and> cache_inv ok contents st' \<and>
     cache_contents contents st' = cache_contents contents st \<and>
     contents (st_parent st') = contents (st_parent st) \<and>
     lists_domain in_dom (cache_contents contents st) start end a xs"
proof -
  have "ok (st_parent st)" using inv by (simp add: cache_inv_def)
  then obtain P p where P: "(if a then op_Iterator ops (st_parent st) start end
      else op_ReverseIterator ops (st_parent st) start end) = Some (P, p)"
    and p: "ok p" "contents p = contents (st_parent st)"
    and dom: "lists_domain in_dom (contents (st_parent st)) start end a P"
    by (rule parent_iterator)
  let ?st = "st\<lparr>st_parent := p\<rparr>"
  have inv': "cache_inv ok contents ?st"
    and same: "cache_contents contents ?st = cache_contents contents st"
    using cache_parent_change(1) [OF p(2)] cache_parent_change(2) [OF p(2), of ok] p inv by simp_all
  have marks: "dirty_in ?st = dirty_in st" "cached_value ?st = cached_value st"
    by (simp_all add: dirty_in_def [abs_def] cached_value_def [abs_def])
  obtain C where C: "newMemIterator in_dom start end
      (st_sortedCache (dirtyItems in_dom start end ?st)) a = mi_of a C" "in_order a C"
    and mem: "\<And>k v. (k, v) \<in> set C \<longleftrightarrow> in_dom k start end \<and> dirty_in st k \<and> v = cached_value st k"
    using cache_items [OF inv'] unfolding marks by blast
  have it: "Store_iterator in_dom ops st start end a =
      Some (it_of a P C, dirtyItems in_dom start end ?st)"
    using P C by (simp add: Store_iterator_def newCacheMergeIterator_def it_of_def Let_def)
  have PO: "in_order a P" and PM: "\<And>k v. (k, v) \<in> set P \<longleftrightarrow>
      in_dom k start end \<and> contents (st_parent st) k = Some v"
    using dom by (auto simp: lists_domain_def)
  have keys: "k \<in> fst ` set C \<longleftrightarrow> in_dom k start end \<and> dirty_in st k" for k
    using mem by (force simp: image_iff)
  have "lists_domain in_dom (cache_contents contents st) start end a (overlay a P C)"
    unfolding lists_domain_def cache_contents_cases [OF inv]
    using overlay_in_order [OF PO C(2)] overlay_member [OF PO C(2)] mem PM keys by auto
  then show ?thesis
    using it inv' same p(2) by (simp add: drain_it_of dirtyItems_cache)
qed

text \<open>The loop of \<open>Write\<close> puts the cached value of every listed key into the parent.\<close>

lemma Write_loop_ok:
  assumes "ok p" and "\<forall>k \<in> set keys. \<exists>cv. kv_get cache k = Some cv \<and> cv_deleted cv = (cv_value cv = None)"
  shows "\<exists>p'. Write_loop ops cache keys p = Some p' \<and> ok p' \<and>
     (\<forall>k. contents p' k = (if k \<in> set keys
        then (case kv_get cache k of None \<Rightarrow> None | Some cv \<Rightarrow> cv_value cv) else contents p k))"
  using assms
proof (induction keys arbitrary: p)
  case (Cons k keys)
  obtain cv where cv: "kv_get cache k = Some cv" "cv_deleted cv = (cv_value cv = None)"
    using Cons.prems(2) by auto
  obtain p1 where step: "(if cv_deleted cv then op_Delete ops p (Some k)
      else if cv_value cv = None then Some p else op_Set ops p (Some k) (cv_value cv)) = Some p1"
    and p1: "ok p1" "contents p1 = (contents p)(k := cv_value cv)"
  proof (cases "cv_value cv")
    case None
    then show ?thesis using that delete_ok [OF Cons.prems(1), of k] cv(2) by auto
  next
    case (Some v)
    then show ?thesis using that set_ok [OF Cons.prems(1), of k v] cv(2) by auto
  qed
  obtain p2 where p2: "Write_loop ops cache keys p1 = Some p2" "ok p2"
    "\<forall>k'. contents p2 k' = (if k' \<in> set keys
        then (case kv_get cache k' of None \<Rightarrow> None | Some cv \<Rightarrow> cv_value cv) else contents p1 k')"
    using Cons.IH [OF p1(1)] Cons.prems(2) by auto
  have "Write_loop ops cache (k # keys) p = Some p2" using cv(1) step p2(1) by simp
  then show ?case using p2(2,3) p1(2) cv(1) by auto
qed simp

lemma cache_write_ok:
  assumes inv: "cache_inv ok contents st"
  shows "\<exists>p. Store_Write ops st = Some (NewStore p) \<and> ok p \<and>
     contents p = cache_contents contents st"
proof -
  let ?keys = "sort (map fst (filter (\<lambda>(_, dbValue). cv_dirty dbValue) (kv_entries (st_cache st))))"
  have keys: "k \<in> set ?keys \<longleftrightarrow> dirty_in st k" for k
    by (force simp: dirty_in_def kv_entries_iff image_iff split: option.splits)
  have "\<forall>k \<in> set ?keys. \<exists>cv. kv_get (st_cache st) k = Some cv \<and> cv_deleted cv = (cv_value cv = None)"
    unfolding keys Ball_def using inv
    by (auto simp: dirty_in_def cache_inv_def cv_ok_def split: option.splits)
  then obtain p where p: "Write_loop ops (st_cache st) ?keys (st_parent st) = Some p" "ok p"
    "\<forall>k. contents p k = (if k \<in> set ?keys
        then (case kv_get (st_cache st) k of None \<Rightarrow> None | Some cv \<Rightarrow> cv_value cv)
        else contents (st_parent st) k)"
    using Write_loop_ok [of "st_parent st" ?keys] inv unfolding cache_inv_def by blast
  have "contents p k = cache_contents contents st k" for k
    using p(3) unfolding keys cache_contents_cases [OF inv] cached_value_def by metis
  then have "contents p = cache_contents contents st" by (rule ext)
  moreover have "Store_Write ops st = Some (NewStore p)"
    using p(1) by (simp add: Store_Write_def Let_def)
  ultimately show ?thesis using p(2) by blast
qed

end

sublocale cached_store \<subseteq> cache:
  kv_contract in_dom "Store_ops in_dom ops" "cache_inv ok contents" "cache_contents contents"
proof
  fix st k v w start "end"
  show "op_Get (Store_ops in_dom ops) st None = None"
    "op_Set (Store_ops in_dom ops) st None w = None"
    "op_Set (Store_ops in_dom ops) st (Some k) None = None"
    "op_Delete (Store_ops in_dom ops) st None = None"
    by (simp_all add: Store_ops_def Store_Get_def Store_Set_def Store_Delete_def
        AssertValidKey_def AssertValidValue_def)
  assume inv: "cache_inv ok contents st"
  show "\<exists>p'. op_Get (Store_ops in_dom ops) st (Some k) = Some (cache_contents contents st k, p') \<and>
      cache_inv ok contents p' \<and> cache_contents contents p' = cache_contents contents st"
    using cache_get_ok [OF inv] by (fastforce simp: Store_ops_def)
  show "\<exists>p'. op_Set (Store_ops in_dom ops) st (Some k) (Some v) = Some p' \<and>
      cache_inv ok contents p' \<and> cache_contents contents p' = (cache_contents contents st)(k \<mapsto> v)"
    using cache_set_ok [OF inv] by (fastforce simp: Store_ops_def)
  show "\<exists>p'. op_Delete (Store_ops in_dom ops) st (Some k) = Some p' \<and>
      cache_inv ok contents p' \<and> cache_contents contents p' = (cache_contents contents st)(k := None)"
    using cache_delete_ok [OF inv] by (fastforce simp: Store_ops_def)
  show "\<exists>xs p'. op_Iterator (Store_ops in_dom ops) st start end = Some (xs, p') \<and>
      cache_inv ok contents p' \<and> cache_contents contents p' = cache_contents contents st \<and>
      lists_domain in_dom (cache_contents contents st) start end True xs"
    using cache_iterator_ok [OF inv, of start "end" True] by (fastforce simp: Store_ops_def)
  show "\<exists>xs p'. op_ReverseIterator (Store_ops in_dom ops) st start end = Some (xs, p') \<and>
      cache_inv ok contents p' \<and> cache_contents contents p' = cache_contents contents st \<and>
      lists_domain in_dom (cache_contents contents st) start end False xs"
    using cache_iterator_ok [OF inv, of start "end" False] by (fastforce simp: Store_ops_def)
qed


section \<open>The stores of the application\<close>

text \<open>
  The base of a stack of caches: the map itself, with the half-open interval that tm-db documents
  for its domains (nil means no bound).
\<close>

definition in_range :: domain_test where
  "in_range k start end =
     ((case start of None \<Rightarrow> True | Some a \<Rightarrow> a \<le> k) \<and>
      (case end of None \<Rightarrow> True | Some b \<Rightarrow> k < b))"

definition base_ops :: "domain_test \<Rightarrow> (bytes, bytes) kv KVStore_ops" where
  "base_ops in_dom =
     \<lparr>op_Get = (\<lambda>s key. do { k \<leftarrow> AssertValidKey key; Some (kv_get s k, s) }),
      op_Set = (\<lambda>s key value. do {
        k \<leftarrow> AssertValidKey key; v \<leftarrow> AssertValidValue value; Some (kv_set k v s) }),
      op_Delete = (\<lambda>s key. do { k \<leftarrow> AssertValidKey key; Some (kv_delete k s) }),
      op_Iterator = (\<lambda>s start end.
        Some (filter (\<lambda>e. in_dom (fst e) start end) (kv_entries s), s)),
      op_ReverseIterator = (\<lambda>s start end.
        Some (rev (filter (\<lambda>e. in_dom (fst e) start end) (kv_entries s)), s))\<rparr>"

lemma in_range_convex: "convex_domain in_range"
  unfolding convex_domain_def in_range_def
  by (auto split: option.splits)

lemma base_listing:
  "lists_domain in_dom (kv_get s) start end a
     (if a then filter (\<lambda>e. in_dom (fst e) start end) (kv_entries s)
      else rev (filter (\<lambda>e. in_dom (fst e) start end) (kv_entries s)))"
proof -
  have "ascending_keys (filter (\<lambda>e. in_dom (fst e) start end) (kv_entries s))"
    using kv_entries_ascending [of s]
    unfolding ascending_keys_def sorted_wrt_map by (rule sorted_wrt_filter)
  then show ?thesis
    unfolding lists_domain_def in_order_if by (auto simp: kv_entries_iff)
qed

interpretation base_store: kv_contract in_dom "base_ops in_dom" "\<lambda>_. True" kv_get for in_dom
  by unfold_locales
    (use base_listing [of in_dom _ _ _ True] base_listing [of in_dom _ _ _ False] in
      \<open>auto simp: base_ops_def AssertValidKey_def AssertValidValue_def fun_eq_iff\<close>)

interpretation tx_cache: cached_store in_range "base_ops in_range" "\<lambda>_. True" kv_get
  by unfold_locales (rule in_range_convex)

interpretation msg_cache: cached_store in_range "Store_ops in_range (base_ops in_range)"
    "cache_inv (\<lambda>_. True) kv_get" "cache_contents kv_get"
  by unfold_locales (rule in_range_convex)


section \<open>A transaction in a cache\<close>

inductive cache_step :: "domain_test \<Rightarrow> 'p KVStore_ops \<Rightarrow> 'p Store \<Rightarrow> 'p Store \<Rightarrow> bool"
  for in_dom ops where
  step_get: "Store_Get ops st key = Some (v, st') \<Longrightarrow> cache_step in_dom ops st st'"
| step_set: "Store_Set st key value = Some st' \<Longrightarrow> cache_step in_dom ops st st'"
| step_delete: "Store_Delete st key = Some st' \<Longrightarrow> cache_step in_dom ops st st'"
| step_iterator: "Store_iterator in_dom ops st start end a = Some (it, st') \<Longrightarrow> cache_step in_dom ops st st'"

lemma nil_key_panics:
  "Store_Get ops st None = None" "Store_Set st None value = None" "Store_Set st key None = None"
  "Store_Delete st None = None"
  by (simp_all add: Store_Get_def Store_Set_def Store_Delete_def AssertValidKey_def
      AssertValidValue_def split: option.splits)

context cached_store
begin

lemma step_keeps:
  assumes "cache_step in_dom ops st st'" and inv: "cache_inv ok contents st"
  shows "cache_inv ok contents st' \<and> contents (st_parent st') = contents (st_parent st)"
  using assms(1)
proof cases
  case (step_get key v)
  then obtain k where "key = Some k" by (cases key) (simp_all add: nil_key_panics)
  then show ?thesis using step_get cache_get_ok [OF inv, of k] by auto
next
  case (step_set key w)
  then obtain k v where "key = Some k" "w = Some v"
    by (cases key; cases w) (simp_all add: nil_key_panics)
  then show ?thesis using step_set cache_set_ok [OF inv, of k v] by auto
next
  case (step_delete key)
  then obtain k where "key = Some k" by (cases key) (simp_all add: nil_key_panics)
  then show ?thesis using step_delete cache_delete_ok [OF inv, of k] by auto
next
  case (step_iterator s e a it)
  then show ?thesis using cache_iterator_ok [OF inv, of s e a] by auto
qed

lemma steps_keep:
  assumes "(cache_step in_dom ops)\<^sup>*\<^sup>* st st'" and "cache_inv ok contents st"
  shows "cache_inv ok contents st' \<and> contents (st_parent st') = contents (st_parent st)"
  using assms by (induction rule: rtranclp_induct) (auto dest: step_keeps)

lemma wrapped_contract:
  "kv_contract in_dom (Store_ops in_dom ops) (cache_inv ok contents) (cache_contents contents)"
  by unfold_locales

end

lemma cached_storeI:
  "kv_contract in_dom ops ok contents \<Longrightarrow> convex_domain in_dom \<Longrightarrow>
   cached_store in_dom ops ok contents"
  by (intro cached_store.intro cached_store_axioms.intro)

text \<open>
  C25. Wrapping any store that meets the KVStore contract in a \<open>cachekv.Store\<close> gives a store that
  meets the contract again: reads see the cached writes on top of the parent, both iterators
  yield exactly the live entries of their domain in order (merged from the parent and the sorted
  dirty items, deletions skipped), and nil keys and values panic.
\<close>

theorem CacheWrap_contract:
  assumes "kv_contract in_dom ops ok contents" and "convex_domain in_dom"
  shows "kv_contract in_dom (Store_ops in_dom ops) (cache_inv ok contents) (cache_contents contents)"
  using cached_store.wrapped_contract [OF cached_storeI [OF assms]] .

theorem CacheWrap_contract_witness:
  "kv_contract in_range (Store_ops in_range (base_ops in_range))
     (cache_inv (\<lambda>_. True) kv_get) (cache_contents kv_get)"
  using CacheWrap_contract [OF base_store.kv_contract_axioms in_range_convex] .

text \<open>
  C26. Whatever sequence of reads, writes, deletes and iterations runs in a fresh cache, the
  parent's contents stay what they were (dropping the cache undoes everything), and \<open>Write\<close>
  succeeds, empties the cache and leaves the parent with exactly the contents the cache showed.
\<close>

theorem CacheWrap_transaction:
  assumes "kv_contract in_dom ops ok contents" and "convex_domain in_dom" and "ok p"
    and "(cache_step in_dom ops)\<^sup>*\<^sup>* (NewStore p) st"
  shows "contents (st_parent st) = contents p \<and>
    (\<exists>p'. Store_Write ops st = Some (NewStore p') \<and> ok p' \<and>
          contents p' = cache_contents contents st)"
proof -
  note loc = cached_storeI [OF assms(1,2)]
  have "cache_inv ok contents (NewStore p)" using assms(3) by (rule cache_inv_NewStore)
  from cached_store.steps_keep [OF loc assms(4) this]
  have "cache_inv ok contents st" "contents (st_parent st) = contents p"
    by (simp_all add: NewStore_def)
  with cached_store.cache_write_ok [OF loc] show ?thesis by blast
qed

theorem CacheWrap_transaction_witness:
  "\<exists>st p'. Store_Set (NewStore kv_empty) (Some ''k'') (Some ''v'') = Some st \<and>
     Store_Write (base_ops in_range) st = Some (NewStore p') \<and> kv_get p' ''k'' = Some ''v''"
proof -
  let ?st = "setCacheValue ''k'' (Some ''v'') False True (NewStore (kv_empty :: (bytes, bytes) kv))"
  have set: "Store_Set (NewStore kv_empty) (Some ''k'') (Some ''v'') = Some ?st"
    by (simp add: Store_Set_def AssertValidKey_def AssertValidValue_def)
  then have "(cache_step in_range (base_ops in_range))\<^sup>*\<^sup>* (NewStore kv_empty) ?st"
    by (intro r_into_rtranclp step_set)
  from CacheWrap_transaction [OF base_store.kv_contract_axioms in_range_convex TrueI this]
  obtain p' where "Store_Write (base_ops in_range) ?st = Some (NewStore p')"
      "kv_get p' = cache_contents kv_get ?st" by blast
  with set show ?thesis by (auto simp: cache_contents_def)
qed

end
