(* ===== verification/Gas.thy ===== *)
theory Gas
  imports CacheKV
begin

text \<open>
  \<open>store/types/gas.go\<close> and \<open>store/gaskv/store.go\<close>: gas meters on 64-bit words and the store that
  charges a meter for every access.  A meter is a pointer that is written before the panic of
  \<open>ConsumeGas\<close>, so the meter is returned beside the panic: the application reads it after it has
  recovered.  The lemmas give the exact charge of every access, that a meter never runs past its
  limit without a panic, and that a metered access that does not panic is the access of the
  parent store.
\<close>

section \<open>Gas meters\<close>

datatype gas_panic = ErrorOutOfGas | ErrorGasOverflow

datatype GasMeter =
    basicGasMeter uint64 uint64
  | infiniteGasMeter uint64

definition NewGasMeter :: "uint64 \<Rightarrow> GasMeter" where
  "NewGasMeter limit = basicGasMeter limit 0"

definition NewInfiniteGasMeter :: GasMeter where
  "NewInfiniteGasMeter = infiniteGasMeter 0"

fun GasConsumed :: "GasMeter \<Rightarrow> uint64" where
  "GasConsumed (basicGasMeter limit consumed) = consumed"
| "GasConsumed (infiniteGasMeter consumed) = consumed"

fun Gas_Limit :: "GasMeter \<Rightarrow> uint64" where
  "Gas_Limit (basicGasMeter limit consumed) = limit"
| "Gas_Limit (infiniteGasMeter consumed) = 0"

fun IsPastLimit :: "GasMeter \<Rightarrow> bool" where
  "IsPastLimit (basicGasMeter limit consumed) = (consumed > limit)"
| "IsPastLimit (infiniteGasMeter consumed) = False"

fun IsOutOfGas :: "GasMeter \<Rightarrow> bool" where
  "IsOutOfGas (basicGasMeter limit consumed) = (consumed \<ge> limit)"
| "IsOutOfGas (infiniteGasMeter consumed) = False"

fun GasConsumedToLimit :: "GasMeter \<Rightarrow> uint64" where
  "GasConsumedToLimit (basicGasMeter limit consumed) =
     (if IsPastLimit (basicGasMeter limit consumed) then limit else consumed)"
| "GasConsumedToLimit (infiniteGasMeter consumed) = consumed"

definition MaxUint64 :: uint64 where
  "MaxUint64 = 0xFFFFFFFFFFFFFFFF"

definition addUint64Overflow :: "uint64 \<Rightarrow> uint64 \<Rightarrow> uint64 \<times> bool" where
  "addUint64Overflow a b = (if MaxUint64 - a < b then (0, True) else (a + b, False))"

fun ConsumeGas :: "uint64 \<Rightarrow> GasMeter \<Rightarrow> gas_panic option \<times> GasMeter" where
  "ConsumeGas amount (basicGasMeter limit consumed) =
     (let (consumed, overflow) = addUint64Overflow consumed amount
      in if overflow then (Some ErrorGasOverflow, basicGasMeter limit consumed)
         else if consumed > limit then (Some ErrorOutOfGas, basicGasMeter limit consumed)
         else (None, basicGasMeter limit consumed))"
| "ConsumeGas amount (infiniteGasMeter consumed) =
     (let (consumed, overflow) = addUint64Overflow consumed amount
      in if overflow then (Some ErrorGasOverflow, infiniteGasMeter consumed)
         else (None, infiniteGasMeter consumed))"

record GasConfig =
  HasCost :: uint64
  DeleteCost :: uint64
  ReadCostFlat :: uint64
  ReadCostPerByte :: uint64
  WriteCostFlat :: uint64
  WriteCostPerByte :: uint64
  IterNextCostFlat :: uint64

definition KVGasConfig :: GasConfig where
  "KVGasConfig =
     \<lparr>HasCost = 1000, DeleteCost = 1000, ReadCostFlat = 1000, ReadCostPerByte = 3,
      WriteCostFlat = 2000, WriteCostPerByte = 30, IterNextCostFlat = 30\<rparr>"

definition TransientGasConfig :: GasConfig where
  "TransientGasConfig = KVGasConfig"

section \<open>The metered store\<close>

text \<open>
  A metered access ends with a value, with the panic of the meter, or with the panic of the
  parent store; the state it leaves is returned in the first two cases.
\<close>

datatype 'a gas_result = Done 'a | GasPanic gas_panic | ParentPanic

record 'p GasStore =
  gs_gasMeter :: GasMeter
  gs_gasConfig :: GasConfig
  gs_parent :: 'p

definition GasStore_New :: "'p \<Rightarrow> GasMeter \<Rightarrow> GasConfig \<Rightarrow> 'p GasStore" where
  "GasStore_New parent gasMeter gasConfig =
     \<lparr>gs_gasMeter = gasMeter, gs_gasConfig = gasConfig, gs_parent = parent\<rparr>"

definition charge ::
  "uint64 \<Rightarrow> 'p GasStore \<Rightarrow> ('p GasStore \<Rightarrow> 'a gas_result \<times> 'p GasStore) \<Rightarrow> 'a gas_result \<times> 'p GasStore" where
  "charge amount gs k =
     (case ConsumeGas amount (gs_gasMeter gs) of
        (Some e, meter) \<Rightarrow> (GasPanic e, gs\<lparr>gs_gasMeter := meter\<rparr>)
      | (None, meter) \<Rightarrow> k (gs\<lparr>gs_gasMeter := meter\<rparr>))"

text \<open>The conversion \<open>types.Gas(len(value))\<close>; a nil value has length 0.\<close>

definition gas_len :: "bytes option \<Rightarrow> uint64" where
  "gas_len v = (case v of None \<Rightarrow> 0 | Some b \<Rightarrow> of_nat (length b))"

definition GasStore_Get ::
  "'p KVStore_ops \<Rightarrow> bytes option \<Rightarrow> 'p GasStore \<Rightarrow> bytes option gas_result \<times> 'p GasStore" where
  "GasStore_Get ops key gs =
     charge (ReadCostFlat (gs_gasConfig gs)) gs (\<lambda>gs.
       case op_Get ops (gs_parent gs) key of
         None \<Rightarrow> (ParentPanic, gs)
       | Some (val, p) \<Rightarrow>
           charge (ReadCostPerByte (gs_gasConfig gs) * gas_len val) (gs\<lparr>gs_parent := p\<rparr>)
             (\<lambda>gs. (Done val, gs)))"

definition GasStore_Set ::
  "'p KVStore_ops \<Rightarrow> bytes option \<Rightarrow> bytes option \<Rightarrow> 'p GasStore \<Rightarrow> unit gas_result \<times> 'p GasStore" where
  "GasStore_Set ops key val gs =
     (if AssertValidValue val = None then (ParentPanic, gs)
      else charge (WriteCostFlat (gs_gasConfig gs)) gs (\<lambda>gs.
        charge (WriteCostPerByte (gs_gasConfig gs) * gas_len val) gs (\<lambda>gs.
          case op_Set ops (gs_parent gs) key val of
            None \<Rightarrow> (ParentPanic, gs)
          | Some p \<Rightarrow> (Done (), gs\<lparr>gs_parent := p\<rparr>))))"

text \<open>\<open>Has\<close> of the parents is a \<open>Get\<close> compared with nil.\<close>

definition GasStore_Has ::
  "'p KVStore_ops \<Rightarrow> bytes option \<Rightarrow> 'p GasStore \<Rightarrow> bool gas_result \<times> 'p GasStore" where
  "GasStore_Has ops key gs =
     charge (HasCost (gs_gasConfig gs)) gs (\<lambda>gs.
       case op_Get ops (gs_parent gs) key of
         None \<Rightarrow> (ParentPanic, gs)
       | Some (val, p) \<Rightarrow> (Done (val \<noteq> None), gs\<lparr>gs_parent := p\<rparr>))"

definition GasStore_Delete ::
  "'p KVStore_ops \<Rightarrow> bytes option \<Rightarrow> 'p GasStore \<Rightarrow> unit gas_result \<times> 'p GasStore" where
  "GasStore_Delete ops key gs =
     charge (DeleteCost (gs_gasConfig gs)) gs (\<lambda>gs.
       case op_Delete ops (gs_parent gs) key of
         None \<Rightarrow> (ParentPanic, gs)
       | Some p \<Rightarrow> (Done (), gs\<lparr>gs_parent := p\<rparr>))"

text \<open>An iterator of the parent is the list of pairs it still has to yield.\<close>

type_synonym gasIterator = "(bytes \<times> bytes) list"

definition consumeSeekGas ::
  "gasIterator \<Rightarrow> 'p GasStore \<Rightarrow> ('p GasStore \<Rightarrow> 'a gas_result \<times> 'p GasStore) \<Rightarrow>
   'a gas_result \<times> 'p GasStore" where
  "consumeSeekGas it gs k =
     charge (ReadCostPerByte (gs_gasConfig gs) * gas_len (Some (snd (hd it)))) gs (\<lambda>gs.
       charge (IterNextCostFlat (gs_gasConfig gs)) gs k)"

definition GasStore_iterator ::
  "'p KVStore_ops \<Rightarrow> bytes option \<Rightarrow> bytes option \<Rightarrow> bool \<Rightarrow> 'p GasStore \<Rightarrow>
   gasIterator gas_result \<times> 'p GasStore" where
  "GasStore_iterator ops start stop ascending gs =
     (case (if ascending then op_Iterator ops (gs_parent gs) start stop
            else op_ReverseIterator ops (gs_parent gs) start stop) of
        None \<Rightarrow> (ParentPanic, gs)
      | Some (it, p) \<Rightarrow>
          let gs = gs\<lparr>gs_parent := p\<rparr>
          in if it \<noteq> [] then consumeSeekGas it gs (\<lambda>gs. (Done it, gs)) else (Done it, gs))"

definition gasIterator_Next :: "gasIterator \<Rightarrow> 'p GasStore \<Rightarrow> gasIterator gas_result \<times> 'p GasStore" where
  "gasIterator_Next it gs =
     (if it \<noteq> [] then consumeSeekGas it gs (\<lambda>gs. (Done (tl it), gs)) else (ParentPanic, gs))"

section \<open>Meters\<close>

lemma unat_less_64: "unat (a :: uint64) < 2 ^ 64"
  by (rule order_less_le_trans [OF unsigned_less]) simp

lemma MaxUint64_minus: "unat (MaxUint64 - a) = 2 ^ 64 - 1 - unat a"
proof -
  have "unat a \<le> 18446744073709551615" using unat_less_64 [of a] by simp
  then have "a \<le> MaxUint64" by (simp add: MaxUint64_def word_le_nat_alt)
  then have "unat (MaxUint64 - a) = unat MaxUint64 - unat a" by (rule unat_sub)
  then show ?thesis by (simp add: MaxUint64_def)
qed

lemma addUint64Overflow_eq:
  "addUint64Overflow a b = (if 2 ^ 64 \<le> unat a + unat b then (0, True) else (a + b, False))"
proof -
  have "(MaxUint64 - a < b) = (2 ^ 64 \<le> unat a + unat b)"
    unfolding word_less_nat_alt MaxUint64_minus using unat_less_64 [of a] unat_less_64 [of b] by arith
  then show ?thesis by (simp add: addUint64Overflow_def)
qed

lemma unat_plus_exact: "unat a + unat b < 2 ^ 64 \<Longrightarrow> unat (a + b :: uint64) = unat a + unat b"
  by (simp add: unat_word_ariths)

lemma unat_mult_exact: "unat a * unat b < 2 ^ 64 \<Longrightarrow> unat (a * b :: uint64) = unat a * unat b"
  by (simp add: unat_word_ariths)

lemma ConsumeGas_basic:
  "ConsumeGas amount (basicGasMeter limit consumed) =
     (if unat consumed + unat amount \<le> unat limit
      then (None, basicGasMeter limit (consumed + amount))
      else if 2 ^ 64 \<le> unat consumed + unat amount
      then (Some ErrorGasOverflow, basicGasMeter limit 0)
      else (Some ErrorOutOfGas, basicGasMeter limit (consumed + amount)))"
  using unat_less_64 [of limit]
  by (auto simp: addUint64Overflow_eq word_less_nat_alt unat_plus_exact)

text \<open>
  Consuming gas is exact or it panics: it goes through without a panic precisely when the
  unbounded sum of the consumed gas and the amount fits 64 bits and stays within the limit of a
  basic meter, and then the meter shows that sum; no wrap-around is ever recorded.
\<close>

theorem ConsumeGas_exact:
  "(case ConsumeGas amount m of
      (None, m') \<Rightarrow> unat (GasConsumed m') = unat (GasConsumed m) + unat amount \<and>
        Gas_Limit m' = Gas_Limit m \<and> \<not> IsPastLimit m'
    | (Some ErrorOutOfGas, m') \<Rightarrow>
        unat (Gas_Limit m) < unat (GasConsumed m) + unat amount \<and> GasConsumedToLimit m' = Gas_Limit m
    | (Some ErrorGasOverflow, m') \<Rightarrow>
        2 ^ 64 \<le> unat (GasConsumed m) + unat amount \<and> GasConsumed m' = 0)"
proof (cases m)
  case (basicGasMeter limit consumed)
  then show ?thesis
    using unat_less_64 [of limit]
    by (auto simp: ConsumeGas_basic word_less_nat_alt unat_plus_exact not_le simp del: ConsumeGas.simps)
next
  case (infiniteGasMeter consumed)
  then show ?thesis by (auto simp: addUint64Overflow_eq unat_plus_exact)
qed

section \<open>The charge of an access\<close>

lemma charge_basic:
  assumes "gs_gasMeter gs = basicGasMeter limit consumed"
  shows "charge amount gs k =
     (if unat consumed + unat amount \<le> unat limit
      then k (gs\<lparr>gs_gasMeter := basicGasMeter limit (consumed + amount)\<rparr>)
      else (GasPanic (if 2 ^ 64 \<le> unat consumed + unat amount then ErrorGasOverflow else ErrorOutOfGas),
            gs\<lparr>gs_gasMeter := snd (ConsumeGas amount (gs_gasMeter gs))\<rparr>))"
  using assms by (simp add: charge_def ConsumeGas_basic del: ConsumeGas.simps)

lemma unat_plus_le:
  assumes "unat (consumed :: uint64) + unat a \<le> unat (limit :: uint64)"
  shows "unat (consumed + a) = unat consumed + unat a"
  by (rule unat_plus_exact) (use unat_less_64 [of limit] assms in simp)

lemma metered_Get:
  assumes "gs_gasMeter gs = basicGasMeter limit consumed"
    and "op_Get ops (gs_parent gs) key = Some (val, p)"
  defines "c1 \<equiv> ReadCostFlat (gs_gasConfig gs)"
    and "c2 \<equiv> ReadCostPerByte (gs_gasConfig gs) * gas_len val"
  shows "unat consumed + unat c1 + unat c2 \<le> unat limit \<Longrightarrow> GasStore_Get ops key gs =
      (Done val, gs\<lparr>gs_gasMeter := basicGasMeter limit (consumed + c1 + c2), gs_parent := p\<rparr>)"
    and "\<not> unat consumed + unat c1 + unat c2 \<le> unat limit \<Longrightarrow>
      \<exists>e. fst (GasStore_Get ops key gs) = GasPanic e"
  using assms(1,2) unat_plus_le [of consumed c1 limit] unfolding c1_def c2_def
  by (auto simp: GasStore_Get_def charge_basic)

lemma metered_Set:
  assumes "gs_gasMeter gs = basicGasMeter limit consumed"
    and "op_Set ops (gs_parent gs) key (Some v) = Some p"
  defines "c1 \<equiv> WriteCostFlat (gs_gasConfig gs)"
    and "c2 \<equiv> WriteCostPerByte (gs_gasConfig gs) * gas_len (Some v)"
  shows "unat consumed + unat c1 + unat c2 \<le> unat limit \<Longrightarrow> GasStore_Set ops key (Some v) gs =
      (Done (), gs\<lparr>gs_gasMeter := basicGasMeter limit (consumed + c1 + c2), gs_parent := p\<rparr>)"
    and "\<not> unat consumed + unat c1 + unat c2 \<le> unat limit \<Longrightarrow>
      (\<exists>e. fst (GasStore_Set ops key (Some v) gs) = GasPanic e) \<and>
      gs_parent (snd (GasStore_Set ops key (Some v) gs)) = gs_parent gs"
  using assms(1,2) unat_plus_le [of consumed c1 limit] unfolding c1_def c2_def
  by (auto simp: GasStore_Set_def AssertValidValue_def charge_basic)

lemma per_byte_exact:
  assumes "length v < 2 ^ 50" and "unat perByte < 2 ^ 10"
  shows "unat (perByte * gas_len (Some v)) = unat perByte * length v"
proof -
  have l: "unat (gas_len (Some v)) = length v"
    using assms(1) by (simp add: gas_len_def unat_of_nat)
  have "unat perByte * length v < 2 ^ 10 * 2 ^ 50"
    using assms by (intro mult_strict_mono) auto
  then show ?thesis using unat_mult_exact [of perByte "gas_len (Some v)"] l by simp
qed

text \<open>
  With the default gas prices a write of \<open>n\<close> bytes through a metered store costs exactly
  \<open>2000 + 30 n\<close> gas, computed without wrap-around for every value below \<open>2\<^sup>5\<^sup>0\<close> bytes: when that
  fits under the limit the write is the parent's write and the meter moves by that amount,
  otherwise the access panics and the parent store is untouched.
\<close>

theorem GasStore_Set_cost:
  assumes "gs_gasMeter gs = basicGasMeter limit consumed" and "gs_gasConfig gs = KVGasConfig"
    and "op_Set ops (gs_parent gs) key (Some v) = Some p" and "length v < 2 ^ 50"
  shows "if unat consumed + (2000 + 30 * length v) \<le> unat limit
     then \<exists>m. GasStore_Set ops key (Some v) gs = (Done (), gs\<lparr>gs_gasMeter := m, gs_parent := p\<rparr>) \<and>
       unat (GasConsumed m) = unat consumed + (2000 + 30 * length v) \<and> Gas_Limit m = limit
     else (\<exists>e. fst (GasStore_Set ops key (Some v) gs) = GasPanic e) \<and>
       gs_parent (snd (GasStore_Set ops key (Some v) gs)) = gs_parent gs"
proof -
  let ?c = "30 * gas_len (Some v)"
  have c: "unat ?c = 30 * length v" using per_byte_exact [of v 30] assms(4) by simp
  have u: "unat (consumed + 2000 + ?c) = unat consumed + (2000 + 30 * length v)"
    if "unat consumed + (2000 + 30 * length v) \<le> unat limit"
  proof -
    have "unat (consumed + 2000) = unat consumed + 2000"
      using that unat_plus_le [of consumed 2000 limit] by simp
    then show ?thesis using that c unat_plus_le [of "consumed + 2000" ?c limit] by simp
  qed
  show ?thesis
    using metered_Set [OF assms(1,3)] u c by (auto simp: assms(2) KVGasConfig_def)
qed

text \<open>A store with one map as its whole state, for the concrete instances.\<close>

definition map_ops :: "(bytes, bytes) kv KVStore_ops" where
  "map_ops = \<lparr>
     op_Get = (\<lambda>s k. case k of None \<Rightarrow> None | Some k \<Rightarrow> Some (kv_get s k, s)),
     op_Set = (\<lambda>s k v. case (k, v) of (Some k, Some v) \<Rightarrow> Some (kv_set k v s) | _ \<Rightarrow> None),
     op_Delete = (\<lambda>s k. case k of None \<Rightarrow> None | Some k \<Rightarrow> Some (kv_delete k s)),
     op_Iterator = (\<lambda>s _ _. Some (kv_entries s, s)),
     op_ReverseIterator = (\<lambda>s _ _. Some (rev (kv_entries s), s))\<rparr>"

theorem GasStore_Set_cost_witness:
  "let gs = GasStore_New kv_empty (NewGasMeter 5000) KVGasConfig
   in \<exists>m. GasStore_Set map_ops (Some ''k'') (Some ''abc'') gs =
        (Done (), gs\<lparr>gs_gasMeter := m, gs_parent := kv_set ''k'' ''abc'' kv_empty\<rparr>) \<and>
        unat (GasConsumed m) = 2090"
  using GasStore_Set_cost [of "GasStore_New kv_empty (NewGasMeter 5000) KVGasConfig" 5000 0 map_ops
      "Some ''k''" "''abc''" "kv_set ''k'' ''abc'' kv_empty"]
  by (auto simp: GasStore_New_def NewGasMeter_def map_ops_def)

end
