(* ===== verification/SdkCoin.thy ===== *)
theory SdkCoin
  imports SdkInt
begin

text \<open>
  \<open>types/coin.go\<close>: a \<open>Coin\<close> is a denomination and an \<open>sdk.Int\<close>; \<open>Coins\<close> is a slice of coins kept
  sorted by denomination without zero amounts.  The operations are translated as written
  (\<open>safeAdd\<close> is the two-index merge, \<open>AmountOf\<close> the binary search), with \<open>None\<close> for a panic.
  They are related to \<open>amount_of\<close>, the plain lookup of a denomination: addition and subtraction
  are pointwise, the binary search finds what the lookup finds, and validity is kept.

  Slices are values here: \<open>removeZeroCoins\<close> compacts the caller's backing array in place, which
  shows only in a slice that holds zero coins and is read again afterwards.
\<close>

section \<open>Coin\<close>

record Coin =
  Denom :: string
  Amount :: int

type_synonym Coins = "Coin list"

definition is_alnum :: "char \<Rightarrow> bool" where
  "is_alnum c = (let n = (of_char c :: nat)
                 in 48 \<le> n \<and> n \<le> 57 \<or> 65 \<le> n \<and> n \<le> 90 \<or> 97 \<le> n \<and> n \<le> 122)"

text \<open>The regular expression \<open>^[a-zA-Z0-9]{2,40}$\<close>; true stands for the nil error.\<close>

definition validateDenom :: "string \<Rightarrow> bool" where
  "validateDenom denom = (2 \<le> length denom \<and> length denom \<le> 40 \<and> list_all is_alnum denom)"

definition validate :: "string \<Rightarrow> int \<Rightarrow> bool" where
  "validate denom amount = (validateDenom denom \<and> \<not> amount < 0)"

definition NewCoin :: "string \<Rightarrow> int \<Rightarrow> Coin option" where
  "NewCoin denom amount =
     (if \<not> validate denom amount then None else Some \<lparr>Denom = denom, Amount = amount\<rparr>)"

definition Coin_IsValid :: "Coin \<Rightarrow> bool" where
  "Coin_IsValid coin = validate (Denom coin) (Amount coin)"

definition Coin_IsZero :: "Coin \<Rightarrow> bool" where
  "Coin_IsZero coin = (Amount coin = 0)"

definition Coin_IsPositive :: "Coin \<Rightarrow> bool" where
  "Coin_IsPositive coin = (sgn (Amount coin) = 1)"

definition Coin_IsNegative :: "Coin \<Rightarrow> bool" where
  "Coin_IsNegative coin = (sgn (Amount coin) = -1)"

definition Coin_IsGTE :: "Coin \<Rightarrow> Coin \<Rightarrow> bool option" where
  "Coin_IsGTE coin other =
     (if Denom coin \<noteq> Denom other then None else Some (\<not> Amount coin < Amount other))"

definition Coin_IsLT :: "Coin \<Rightarrow> Coin \<Rightarrow> bool option" where
  "Coin_IsLT coin other =
     (if Denom coin \<noteq> Denom other then None else Some (Amount coin < Amount other))"

definition Coin_IsEqual :: "Coin \<Rightarrow> Coin \<Rightarrow> bool option" where
  "Coin_IsEqual coin other =
     (if Denom coin \<noteq> Denom other then None else Some (Amount coin = Amount other))"

definition Coin_Add :: "Coin \<Rightarrow> Coin \<Rightarrow> Coin option" where
  "Coin_Add coin coinB =
     (if Denom coin \<noteq> Denom coinB then None
      else do { a \<leftarrow> Int_Add (Amount coin) (Amount coinB);
                Some \<lparr>Denom = Denom coin, Amount = a\<rparr> })"

definition Coin_Sub :: "Coin \<Rightarrow> Coin \<Rightarrow> Coin option" where
  "Coin_Sub coin coinB =
     (if Denom coin \<noteq> Denom coinB then None
      else do { a \<leftarrow> Int_Sub (Amount coin) (Amount coinB);
                let res = \<lparr>Denom = Denom coin, Amount = a\<rparr>;
                if Coin_IsNegative res then None else Some res })"

definition Coin_MulRaw :: "Coin \<Rightarrow> int \<Rightarrow> Coin option" where
  "Coin_MulRaw coin i2 =
     do { a \<leftarrow> Int_Mul (Amount coin) i2; Some \<lparr>Denom = Denom coin, Amount = a\<rparr> }"

section \<open>Coins\<close>

text \<open>
  The loop of \<open>removeZeroCoins\<close> cuts the zero coin at index \<open>i\<close> out of the slice or advances;
  its result is the prefix of length \<open>i\<close> when \<open>i\<close> reaches the shrinking length.
\<close>

function removeZeroCoins_loop :: "Coins \<Rightarrow> nat \<Rightarrow> Coins" where
  "removeZeroCoins_loop coins i =
     (if i < length coins then
        if Coin_IsZero (coins ! i)
        then removeZeroCoins_loop (take i coins @ drop (i + 1) coins) i
        else removeZeroCoins_loop coins (i + 1)
      else take i coins)"
  by pat_completeness auto
termination
  by (relation "measure (\<lambda>(coins, i). length coins - i)") auto

declare removeZeroCoins_loop.simps [simp del]

definition removeZeroCoins :: "Coins \<Rightarrow> Coins" where
  "removeZeroCoins coins = removeZeroCoins_loop coins 0"

fun Coins_IsValid_loop :: "string \<Rightarrow> Coins \<Rightarrow> bool" where
  "Coins_IsValid_loop lowDenom [] = True"
| "Coins_IsValid_loop lowDenom (coin # coins) =
     (if Denom coin \<le> lowDenom then False
      else if \<not> Coin_IsPositive coin then False
      else Coins_IsValid_loop (Denom coin) coins)"

fun Coins_IsValid :: "Coins \<Rightarrow> bool" where
  "Coins_IsValid [] = True"
| "Coins_IsValid (coin # coins) =
     (if \<not> (validateDenom (Denom coin) \<and> Coin_IsPositive coin) then False
      else Coins_IsValid_loop (Denom coin) coins)"

fun safeAdd :: "Coins \<Rightarrow> Coins \<Rightarrow> Coins option" where
  "safeAdd [] [] = Some []"
| "safeAdd [] coinsB = Some (removeZeroCoins coinsB)"
| "safeAdd coinsA [] = Some (removeZeroCoins coinsA)"
| "safeAdd (coinA # coinsA) (coinB # coinsB) =
     (if Denom coinA < Denom coinB then
        do { sum \<leftarrow> safeAdd coinsA (coinB # coinsB);
             Some (if \<not> Coin_IsZero coinA then coinA # sum else sum) }
      else if Denom coinA = Denom coinB then
        do { res \<leftarrow> Coin_Add coinA coinB;
             sum \<leftarrow> safeAdd coinsA coinsB;
             Some (if \<not> Coin_IsZero res then res # sum else sum) }
      else
        do { sum \<leftarrow> safeAdd (coinA # coinsA) coinsB;
             Some (if \<not> Coin_IsZero coinB then coinB # sum else sum) })"

definition Coins_Add :: "Coins \<Rightarrow> Coins \<Rightarrow> Coins option" where
  "Coins_Add coins coinsB = safeAdd coins coinsB"

definition Coins_negative :: "Coins \<Rightarrow> Coins" where
  "Coins_negative coins =
     map (\<lambda>coin. \<lparr>Denom = Denom coin, Amount = Int_Neg (Amount coin)\<rparr>) coins"

definition IsAnyNegative :: "Coins \<Rightarrow> bool" where
  "IsAnyNegative coins = list_ex Coin_IsNegative coins"

definition SafeSub :: "Coins \<Rightarrow> Coins \<Rightarrow> (Coins \<times> bool) option" where
  "SafeSub coins coinsB =
     do { diff \<leftarrow> safeAdd coins (Coins_negative coinsB); Some (diff, IsAnyNegative diff) }"

definition Coins_Sub :: "Coins \<Rightarrow> Coins \<Rightarrow> Coins option" where
  "Coins_Sub coins coinsB =
     do { (diff, hasNeg) \<leftarrow> SafeSub coins coinsB; if hasNeg then None else Some diff }"

function AmountOf :: "Coins \<Rightarrow> string \<Rightarrow> int option" where
  "AmountOf coins denom =
     (if \<not> validateDenom denom then None
      else if length coins = 0 then Some 0
      else if length coins = 1 then
        (let coin = coins ! 0 in Some (if Denom coin = denom then Amount coin else 0))
      else
        let midIdx = length coins div 2; coin = coins ! midIdx
        in if denom < Denom coin then AmountOf (take midIdx coins) denom
           else if denom = Denom coin then Some (Amount coin)
           else AmountOf (drop (midIdx + 1) coins) denom)"
  by pat_completeness auto
termination
  by (relation "measure (\<lambda>(coins, _). length coins)") auto

declare AmountOf.simps [simp del]

definition DenomsSubsetOf :: "Coins \<Rightarrow> Coins \<Rightarrow> bool option" where
  "DenomsSubsetOf coins coinsB =
     (if length coins > length coinsB then Some False
      else go_all (\<lambda>coin. do { a \<leftarrow> AmountOf coinsB (Denom coin); Some (a \<noteq> 0) }) coins)"

definition IsAllGT :: "Coins \<Rightarrow> Coins \<Rightarrow> bool option" where
  "IsAllGT coins coinsB =
     (if length coins = 0 then Some False
      else if length coinsB = 0 then Some True
      else do {
        sub \<leftarrow> DenomsSubsetOf coinsB coins;
        if \<not> sub then Some False
        else go_all (\<lambda>coinB. do { amountA \<leftarrow> AmountOf coins (Denom coinB);
                                  Some (amountA > Amount coinB) }) coinsB })"

definition IsAllGTE :: "Coins \<Rightarrow> Coins \<Rightarrow> bool option" where
  "IsAllGTE coins coinsB =
     (if length coinsB = 0 then Some True
      else if length coins = 0 then Some False
      else go_all (\<lambda>coinB. do { amountA \<leftarrow> AmountOf coins (Denom coinB);
                                Some (\<not> Amount coinB > amountA) }) coinsB)"

definition IsAllLT :: "Coins \<Rightarrow> Coins \<Rightarrow> bool option" where
  "IsAllLT coins coinsB = IsAllGT coinsB coins"

definition IsAllLTE :: "Coins \<Rightarrow> Coins \<Rightarrow> bool option" where
  "IsAllLTE coins coinsB = IsAllGTE coinsB coins"

definition IsAnyGT :: "Coins \<Rightarrow> Coins \<Rightarrow> bool option" where
  "IsAnyGT coins coinsB =
     (if length coinsB = 0 then Some False
      else go_any (\<lambda>coin. do { amt \<leftarrow> AmountOf coinsB (Denom coin);
                               Some (Amount coin > amt \<and> amt \<noteq> 0) }) coins)"

definition IsAnyGTE :: "Coins \<Rightarrow> Coins \<Rightarrow> bool option" where
  "IsAnyGTE coins coinsB =
     (if length coinsB = 0 then Some False
      else go_any (\<lambda>coin. do { amt \<leftarrow> AmountOf coinsB (Denom coin);
                               Some (Amount coin \<ge> amt \<and> amt \<noteq> 0) }) coins)"

definition Coins_IsZero :: "Coins \<Rightarrow> bool" where
  "Coins_IsZero coins = list_all Coin_IsZero coins"

definition Coins_Empty :: "Coins \<Rightarrow> bool" where
  "Coins_Empty coins = (length coins = 0)"

definition IsAllPositive :: "Coins \<Rightarrow> bool" where
  "IsAllPositive coins = (length coins \<noteq> 0 \<and> list_all Coin_IsPositive coins)"

fun findDup_loop :: "string \<Rightarrow> int \<Rightarrow> Coins \<Rightarrow> int" where
  "findDup_loop prevDenom i [] = -1"
| "findDup_loop prevDenom i (coin # coins) =
     (if Denom coin = prevDenom then i else findDup_loop (Denom coin) (i + 1) coins)"

fun findDup :: "Coins \<Rightarrow> int" where
  "findDup [] = -1"
| "findDup (coin # coins) = findDup_loop (Denom coin) 1 coins"

text \<open>
  \<open>sort.Sort\<close> by denomination. The order it leaves coins of one denomination in is not
  specified; \<open>NewCoins\<close> panics whenever there are two of them.
\<close>

definition Coins_Sort :: "Coins \<Rightarrow> Coins" where
  "Coins_Sort coins = sort_key Denom coins"

text \<open>Two sets of the same size whose sorted denominations differ somewhere make it panic.\<close>

definition Coins_IsEqual :: "Coins \<Rightarrow> Coins \<Rightarrow> bool option" where
  "Coins_IsEqual coins coinsB =
     (if length coins \<noteq> length coinsB then Some False
      else go_all (\<lambda>(a, b). Coin_IsEqual a b) (zip (Coins_Sort coins) (Coins_Sort coinsB)))"

definition NewCoins :: "Coins \<Rightarrow> Coins option" where
  "NewCoins coins =
     (let newCoins = removeZeroCoins coins
      in if length newCoins = 0 then Some []
         else let newCoins = Coins_Sort newCoins
              in if findDup newCoins \<noteq> -1 then None
                 else if \<not> Coins_IsValid newCoins then None
                 else Some newCoins)"


section \<open>The reading of a coin set\<close>

primrec amount_of :: "Coins \<Rightarrow> string \<Rightarrow> int" where
  "amount_of [] d = 0"
| "amount_of (c # cs) d = (if Denom c = d then Amount c else amount_of cs d)"

definition denoms_sorted :: "Coins \<Rightarrow> bool" where
  "denoms_sorted coins = sorted_wrt (<) (map Denom coins)"

definition no_zero :: "Coins \<Rightarrow> bool" where
  "no_zero coins = list_all (\<lambda>c. Amount c \<noteq> 0) coins"

lemma denoms_sorted_simps [simp]:
  "denoms_sorted []"
  "denoms_sorted (c # cs) = ((\<forall>x \<in> set cs. Denom c < Denom x) \<and> denoms_sorted cs)"
  by (auto simp: denoms_sorted_def)

lemma no_zero_simps [simp]: "no_zero []" "no_zero (c # cs) = (Amount c \<noteq> 0 \<and> no_zero cs)"
  by (auto simp: no_zero_def)

lemma coin_signs [simp]:
  "Coin_IsZero c = (Amount c = 0)" "Coin_IsPositive c = (0 < Amount c)"
  "Coin_IsNegative c = (Amount c < 0)"
  by (auto simp: Coin_IsZero_def Coin_IsPositive_def Coin_IsNegative_def sgn_1_pos sgn_1_neg)

lemma amount_of_absent: "d \<notin> Denom ` set cs \<Longrightarrow> amount_of cs d = 0"
  by (induction cs) auto

lemma amount_of_below: "\<forall>x \<in> set cs. d < Denom x \<Longrightarrow> amount_of cs d = 0"
  by (rule amount_of_absent) auto

lemma amount_of_below_hd:
  "denoms_sorted (c # cs) \<Longrightarrow> d < Denom c \<Longrightarrow> amount_of (c # cs) d = 0"
  by (rule amount_of_below) (auto dest: order.strict_trans)

lemma amount_of_append:
  "amount_of (xs @ ys) d = (if d \<in> Denom ` set xs then amount_of xs d else amount_of ys d)"
  by (induction xs) auto

lemma amount_of_member:
  "denoms_sorted cs \<Longrightarrow> c \<in> set cs \<Longrightarrow> amount_of cs (Denom c) = Amount c"
  by (induction cs) auto

lemma denoms_sorted_append:
  "denoms_sorted (xs @ ys) =
     (denoms_sorted xs \<and> denoms_sorted ys \<and> (\<forall>x \<in> set xs. \<forall>y \<in> set ys. Denom x < Denom y))"
  by (induction xs) auto

lemma norm_coins_eqI:
  assumes "denoms_sorted xs" "no_zero xs" "denoms_sorted ys" "no_zero ys"
    and "\<And>d. amount_of xs d = amount_of ys d"
  shows "xs = ys"
  using assms
proof (induction xs arbitrary: ys)
  case Nil
  show ?case
  proof (cases ys)
    case (Cons y ys')
    with Nil.prems(4) Nil.prems(5) [of "Denom y"] show ?thesis by simp
  qed simp
next
  case (Cons x xs)
  note amt = Cons.prems(5)
  obtain y ys' where ys: "ys = y # ys'"
    using amt [of "Denom x"] Cons.prems(2) by (cases ys) auto
  have "\<not> Denom x < Denom y" "\<not> Denom y < Denom x"
    using amt [of "Denom x"] amt [of "Denom y"] Cons.prems(1-4) ys
      amount_of_below_hd [of y ys' "Denom x"] amount_of_below_hd [of x xs "Denom y"]
    by auto
  then have d: "Denom x = Denom y" by (meson linorder_neq_iff)
  with amt [of "Denom x"] ys have a: "Amount x = Amount y" by simp
  have "amount_of xs e = amount_of ys' e" for e
    using amt [of e] ys d Cons.prems
      amount_of_below [of xs "Denom x"] amount_of_below [of ys' "Denom y"]
    by (cases "e = Denom x") auto
  then have "xs = ys'" using Cons.prems ys by (intro Cons.IH) auto
  with d a ys show ?case by (cases x; cases y) simp
qed

section \<open>removeZeroCoins, IsValid, AmountOf\<close>

lemma removeZeroCoins_loop_eq:
  "removeZeroCoins_loop coins i =
     take i coins @ filter (\<lambda>c. Amount c \<noteq> 0) (drop i coins)"
proof (induction coins i rule: removeZeroCoins_loop.induct)
  case (1 coins i)
  show ?case
  proof (cases "i < length coins")
    case True
    then have d: "drop i coins = coins ! i # drop (i + 1) coins"
      by (simp add: Cons_nth_drop_Suc)
    show ?thesis
      using 1 True
      by (subst removeZeroCoins_loop.simps) (simp add: d take_Suc_conv_app_nth min_def)
  next
    case False
    then show ?thesis by (subst removeZeroCoins_loop.simps) simp
  qed
qed

lemma removeZeroCoins_eq: "removeZeroCoins coins = filter (\<lambda>c. Amount c \<noteq> 0) coins"
  by (simp add: removeZeroCoins_def removeZeroCoins_loop_eq)

lemma denoms_sorted_filter: "denoms_sorted cs \<Longrightarrow> denoms_sorted (filter P cs)"
  by (simp add: denoms_sorted_def sorted_wrt_map sorted_wrt_filter)

lemma removeZeroCoins_norm [simp]:
  "denoms_sorted cs \<Longrightarrow> denoms_sorted (removeZeroCoins cs)"
  "no_zero (removeZeroCoins cs)"
  by (auto simp: removeZeroCoins_eq denoms_sorted_filter no_zero_def list_all_iff)

lemma amount_of_removeZeroCoins [simp]:
  "denoms_sorted cs \<Longrightarrow> amount_of (removeZeroCoins cs) d = amount_of cs d"
  by (induction cs) (auto simp: removeZeroCoins_eq intro!: amount_of_absent)

lemma Coins_IsValid_loop_iff:
  "Coins_IsValid_loop low cs =
     ((\<forall>c \<in> set cs. low < Denom c) \<and> denoms_sorted cs \<and> (\<forall>c \<in> set cs. 0 < Amount c))"
  by (induction cs arbitrary: low) (auto simp: not_le dest: order.strict_trans)

lemma Coins_IsValid_iff:
  "Coins_IsValid cs =
     (denoms_sorted cs \<and> (\<forall>c \<in> set cs. 0 < Amount c) \<and>
      (cs \<noteq> [] \<longrightarrow> validateDenom (Denom (hd cs))))"
  by (cases cs) (auto simp: Coins_IsValid_loop_iff)

lemma Coins_IsValid_norm:
  "Coins_IsValid cs \<Longrightarrow> denoms_sorted cs" "Coins_IsValid cs \<Longrightarrow> no_zero cs"
  by (auto simp: Coins_IsValid_iff no_zero_def list_all_iff)

lemma amount_of_nonneg: "\<forall>c \<in> set cs. 0 \<le> Amount c \<Longrightarrow> 0 \<le> amount_of cs d"
  by (induction cs) auto

lemma Coins_IsValid_nonneg: "Coins_IsValid cs \<Longrightarrow> 0 \<le> amount_of cs d"
  by (auto simp: Coins_IsValid_iff intro!: amount_of_nonneg)

text \<open>The binary search finds what the lookup finds.\<close>

lemma AmountOf_eq:
  "denoms_sorted cs \<Longrightarrow> validateDenom d \<Longrightarrow> AmountOf cs d = Some (amount_of cs d)"
proof (induction cs d rule: AmountOf.induct)
  case (1 coins denom)
  define m where "m = length coins div 2"
  consider (empty) "length coins = 0" | (single) "length coins = 1" | (many) "2 \<le> length coins"
    by linarith
  then show ?case
  proof cases
    case empty
    with "1.prems" show ?thesis by (simp add: AmountOf.simps [of "[]"])
  next
    case single
    then have "\<exists>c. coins = [c]" by (cases coins) auto
    then show ?thesis using "1.prems" by (subst AmountOf.simps) (elim exE, simp)
  next
    case many
    then have m: "m < length coins" and len: "length coins \<noteq> 0" "length coins \<noteq> 1"
      by (auto simp: m_def)
    have split: "coins = take m coins @ coins ! m # drop (m + 1) coins"
      using id_take_nth_drop [OF m] by (simp only: Suc_eq_plus1)
    have srt: "denoms_sorted (take m coins)" "denoms_sorted (drop (m + 1) coins)"
        "\<forall>x \<in> set (take m coins). Denom x < Denom (coins ! m)"
        "\<forall>x \<in> set (drop (m + 1) coins). Denom (coins ! m) < Denom x"
      using "1.prems"(1) denoms_sorted_append [of "take m coins" "coins ! m # drop (m + 1) coins"]
      unfolding split [symmetric] by auto
    have amt: "amount_of coins denom =
        (if denom \<in> Denom ` set (take m coins) then amount_of (take m coins) denom
         else if Denom (coins ! m) = denom then Amount (coins ! m)
         else amount_of (drop (m + 1) coins) denom)"
      using amount_of_append [of "take m coins" "coins ! m # drop (m + 1) coins" denom]
      unfolding split [symmetric] by simp
    have unf: "AmountOf coins denom =
        (if denom < Denom (coins ! m) then AmountOf (take m coins) denom
         else if denom = Denom (coins ! m) then Some (Amount (coins ! m))
         else AmountOf (drop (m + 1) coins) denom)"
      using "1.prems"(2) len by (simp add: AmountOf.simps [of coins] Let_def m_def)
    consider (lt) "denom < Denom (coins ! m)" | (eq) "denom = Denom (coins ! m)"
      | (gt) "Denom (coins ! m) < denom" by (meson linorder_neq_iff)
    then show ?thesis
    proof cases
      case lt
      have "amount_of (drop (m + 1) coins) denom = 0"
        using lt srt(4) by (intro amount_of_below) (blast intro: order.strict_trans)
      moreover have "Denom (coins ! m) \<noteq> denom" using lt by simp
      ultimately have "amount_of coins denom = amount_of (take m coins) denom"
        unfolding amt by (simp add: amount_of_absent)
      moreover have "AmountOf (take m coins) denom = Some (amount_of (take m coins) denom)"
        using "1.prems"(2) srt(1) lt by (intro "1.IH"(1) [OF _ len refl refl, folded m_def]) simp_all
      ultimately show ?thesis using unf lt by simp
    next
      case eq
      with srt(3) have "denom \<notin> Denom ` set (take m coins)" by auto
      with eq amt unf show ?thesis by simp
    next
      case gt
      have "denom \<notin> Denom ` set (take m coins)" using srt(3) gt by (metis image_iff order.asym)
      moreover have "Denom (coins ! m) \<noteq> denom" using gt by simp
      ultimately have "amount_of coins denom = amount_of (drop (m + 1) coins) denom"
        unfolding amt by simp
      moreover have "AmountOf (drop (m + 1) coins) denom
          = Some (amount_of (drop (m + 1) coins) denom)"
        using "1.prems"(2) srt(2) gt
        by (intro "1.IH"(2) [OF _ len refl refl, folded m_def]) simp_all
      moreover have "\<not> denom < Denom (coins ! m)" "denom \<noteq> Denom (coins ! m)"
        using gt by auto
      ultimately show ?thesis using unf by simp
    qed
  qed
qed


section \<open>Addition and subtraction\<close>

lemma Coin_Add_Some:
  "Coin_Add a b = Some c \<longleftrightarrow>
     Denom a = Denom b \<and> int_ok (Amount a + Amount b) \<and>
     c = \<lparr>Denom = Denom a, Amount = Amount a + Amount b\<rparr>"
  by (auto simp: Coin_Add_def Int_Add_eq)

lemma safeAdd_Nil [simp]: "safeAdd [] bs = Some (removeZeroCoins bs)"
    "safeAdd as [] = Some (removeZeroCoins as)"
  by (cases bs; simp add: removeZeroCoins_eq) (cases as; simp add: removeZeroCoins_eq)

lemma safeAdd_ConsE:
  assumes "safeAdd (a # as) (b # bs) = Some cs"
  obtains (lt) rest where "Denom a < Denom b" "safeAdd as (b # bs) = Some rest"
      "cs = (if Amount a \<noteq> 0 then a # rest else rest)"
  | (eq) r rest where "Denom a = Denom b" "Coin_Add a b = Some r"
      "r = \<lparr>Denom = Denom a, Amount = Amount a + Amount b\<rparr>" "safeAdd as bs = Some rest"
      "cs = (if Amount r \<noteq> 0 then r # rest else rest)"
  | (gt) rest where "Denom b < Denom a" "safeAdd (a # as) bs = Some rest"
      "cs = (if Amount b \<noteq> 0 then b # rest else rest)"
proof -
  consider "Denom a < Denom b" | "Denom a = Denom b" | "Denom b < Denom a"
    by (meson linorder_neq_iff)
  then show thesis
  proof cases
    case 1
    with assms that(1) show ?thesis by (simp add: bind_Some_iff) metis
  next
    case 2
    with assms show ?thesis using that(2) Coin_Add_Some [of a b]
      by (simp add: bind_Some_iff) metis
  next
    case 3
    then have "\<not> Denom a < Denom b" "Denom a \<noteq> Denom b" by simp_all
    with 3 assms that(3) show ?thesis by (simp add: bind_Some_iff) metis
  qed
qed

lemma safeAdd_denoms:
  "safeAdd as bs = Some cs \<Longrightarrow> Denom ` set cs \<subseteq> Denom ` set as \<union> Denom ` set bs"
proof (induction as bs arbitrary: cs rule: safeAdd.induct)
  case (4 a as b bs)
  from "4.prems" show ?case
  proof (cases rule: safeAdd_ConsE)
    case (lt rest)
    with "4.IH"(1) [of rest] show ?thesis by (simp split: if_splits) blast+
  next
    case (eq r rest)
    with "4.IH"(2) [of r rest] show ?thesis by (simp split: if_splits) blast+
  next
    case (gt rest)
    then have "\<not> Denom a < Denom b" "Denom a \<noteq> Denom b" by simp_all
    with "4.IH"(3) [of rest] gt show ?thesis by (simp split: if_splits) blast+
  qed
qed (auto simp: removeZeroCoins_eq)

lemma denoms_above:
  "safeAdd as bs = Some cs \<Longrightarrow>
   \<forall>x \<in> set as. d < Denom x \<Longrightarrow> \<forall>x \<in> set bs. d < Denom x \<Longrightarrow> \<forall>x \<in> set cs. d < Denom x"
  using safeAdd_denoms [of as bs cs] by fastforce

lemma sorted_above_hd:
  "denoms_sorted (c # cs) \<Longrightarrow> d < Denom c \<Longrightarrow> \<forall>x \<in> set (c # cs). d < Denom x"
  by (auto dest: order.strict_trans)

text \<open>One step of the merge: a coin, unless zero, in front of the sum of the rest.\<close>

lemma merge_step:
  assumes "denoms_sorted rest" and "no_zero rest" and "\<forall>x \<in> set rest. Denom r < Denom x"
    and "cs = (if Amount r \<noteq> 0 then r # rest else rest)"
  shows "denoms_sorted cs \<and> no_zero cs \<and>
         (\<forall>d. amount_of cs d = (if d = Denom r then Amount r else amount_of rest d))"
  using assms amount_of_below [OF assms(3)] by simp

lemma safeAdd_norm:
  "safeAdd as bs = Some cs \<Longrightarrow> denoms_sorted as \<Longrightarrow> denoms_sorted bs \<Longrightarrow>
     denoms_sorted cs \<and> no_zero cs \<and> (\<forall>d. amount_of cs d = amount_of as d + amount_of bs d)"
proof (induction as bs arbitrary: cs rule: safeAdd.induct)
  case (4 a as b bs)
  note srt = "4.prems"(2,3)
  have as: "\<forall>x \<in> set as. Denom a < Denom x" and bs: "\<forall>x \<in> set bs. Denom b < Denom x"
    using srt by simp_all
  from "4.prems"(1) show ?case
  proof (cases rule: safeAdd_ConsE)
    case (lt rest)
    note above = denoms_above [OF lt(2) as sorted_above_hd [OF srt(2) lt(1)]]
    have IH: "denoms_sorted rest" "no_zero rest"
        "\<forall>d. amount_of rest d = amount_of as d + amount_of (b # bs) d"
      using "4.IH"(1) [OF lt(1,2)] srt by simp_all
    show ?thesis
      using merge_step [OF IH(1,2) above lt(3)] IH(3) amount_of_below_hd [OF srt(2) lt(1)]
      by simp
  next
    case (eq r rest)
    have above: "\<forall>x \<in> set rest. Denom r < Denom x"
      using denoms_above [OF eq(4) as] bs eq(1,3) by simp
    have IH: "denoms_sorted rest" "no_zero rest"
        "\<forall>d. amount_of rest d = amount_of as d + amount_of bs d"
      using "4.IH"(2) [OF _ eq(1,2,4)] eq(1) srt by simp_all
    show ?thesis
      using merge_step [OF IH(1,2) above eq(5)] IH(3) eq(1,3) by simp
  next
    case (gt rest)
    then have ngt: "\<not> Denom a < Denom b" "Denom a \<noteq> Denom b" by simp_all
    note above = denoms_above [OF gt(2) sorted_above_hd [OF srt(1) gt(1)] bs]
    have IH: "denoms_sorted rest" "no_zero rest"
        "\<forall>d. amount_of rest d = amount_of (a # as) d + amount_of bs d"
      using "4.IH"(3) [OF ngt gt(2)] srt by simp_all
    show ?thesis
      using merge_step [OF IH(1,2) above gt(3)] IH(3) amount_of_below_hd [OF srt(1) gt(1)]
      by simp
  qed
qed simp_all

text \<open>The merge panics only when the sum of two amounts leaves the range of \<open>sdk.Int\<close>.\<close>

lemma safeAdd_total:
  "denoms_sorted as \<Longrightarrow> denoms_sorted bs \<Longrightarrow>
     (\<And>d. int_ok (amount_of as d + amount_of bs d)) \<Longrightarrow> \<exists>cs. safeAdd as bs = Some cs"
proof (induction as bs rule: safeAdd.induct)
  case (4 a as b bs)
  note ok = "4.prems"(3)
  consider (lt) "Denom a < Denom b" | (eq) "Denom a = Denom b" | (gt) "Denom b < Denom a"
    by (meson linorder_neq_iff)
  then show ?case
  proof cases
    case lt
    have "int_ok (amount_of as d + amount_of (b # bs) d)" for d
      using ok [of d] "4.prems"(1) amount_of_below [of as "Denom a"]
        amount_of_below_hd [OF "4.prems"(2) lt] by (cases "d = Denom a") auto
    then obtain sum where "safeAdd as (b # bs) = Some sum"
      using "4.IH"(1) [OF lt] "4.prems"(1,2) by auto
    with lt show ?thesis by simp
  next
    case eq
    have res: "Coin_Add a b = Some \<lparr>Denom = Denom a, Amount = Amount a + Amount b\<rparr>"
      using ok [of "Denom a"] eq by (simp add: Coin_Add_Some)
    have "int_ok (amount_of as d + amount_of bs d)" for d
      using ok [of d] "4.prems"(1,2) amount_of_below [of as "Denom a"]
        amount_of_below [of bs "Denom a"] eq by (cases "d = Denom a") auto
    then obtain sum where "safeAdd as bs = Some sum"
      using "4.IH"(2) res eq "4.prems"(1,2) by auto
    with eq res show ?thesis by simp
  next
    case gt
    then have ngt: "\<not> Denom a < Denom b" "Denom a \<noteq> Denom b" by auto
    have "int_ok (amount_of (a # as) d + amount_of bs d)" for d
      using ok [of d] "4.prems"(2) amount_of_below [of bs "Denom b"]
        amount_of_below_hd [OF "4.prems"(1) gt] by (cases "d = Denom b") auto
    then obtain sum where "safeAdd (a # as) bs = Some sum"
      using "4.IH"(3) [OF ngt] "4.prems"(1,2) by auto
    with ngt show ?thesis by simp
  qed
qed auto

lemma negative_reading [simp]:
  "denoms_sorted (Coins_negative cs) = denoms_sorted cs"
  "amount_of (Coins_negative cs) d = - amount_of cs d"
  by (induction cs) (auto simp: Coins_negative_def Int_Neg_def)

lemma IsAnyNegative_iff:
  assumes "denoms_sorted cs"
  shows "IsAnyNegative cs = (\<exists>d. amount_of cs d < 0)"
proof
  assume "IsAnyNegative cs"
  then show "\<exists>d. amount_of cs d < 0"
    using amount_of_member [OF assms] unfolding IsAnyNegative_def list_ex_iff coin_signs by metis
next
  assume "\<exists>d. amount_of cs d < 0"
  then show "IsAnyNegative cs"
    using amount_of_nonneg [of cs]
    unfolding IsAnyNegative_def list_ex_iff coin_signs by (meson not_less)
qed

lemma nonneg_members:
  "denoms_sorted cs \<Longrightarrow> (\<And>d. 0 \<le> amount_of cs d) \<Longrightarrow> c \<in> set cs \<Longrightarrow> 0 \<le> Amount c"
  by (metis amount_of_member)

lemma Coins_Sub_Some:
  assumes "Coins_Sub as bs = Some cs" and "denoms_sorted as" and "denoms_sorted bs"
  shows "denoms_sorted cs \<and> (\<forall>c \<in> set cs. 0 < Amount c) \<and>
         (\<forall>d. amount_of cs d = amount_of as d - amount_of bs d)"
proof -
  have add: "safeAdd as (Coins_negative bs) = Some cs" and neg: "\<not> IsAnyNegative cs"
    using assms(1) by (auto simp: Coins_Sub_def SafeSub_def go_simps)
  have norm: "denoms_sorted cs" "no_zero cs" "\<forall>d. amount_of cs d = amount_of as d - amount_of bs d"
    using safeAdd_norm [OF add] assms by auto
  have "0 < Amount c" if "c \<in> set cs" for c
  proof -
    have "\<not> Amount c < 0" "Amount c \<noteq> 0"
      using neg norm(2) that by (auto simp: IsAnyNegative_def list_ex_iff no_zero_def list_all_iff)
    then show ?thesis by linarith
  qed
  with norm show ?thesis by blast
qed

lemma Coins_Sub_total:
  assumes "denoms_sorted as" and "denoms_sorted bs"
    and "\<And>d. amount_of bs d \<le> amount_of as d" and "\<And>d. int_ok (amount_of as d - amount_of bs d)"
  shows "\<exists>cs. Coins_Sub as bs = Some cs"
proof -
  obtain cs where cs: "safeAdd as (Coins_negative bs) = Some cs"
    using safeAdd_total [of as "Coins_negative bs"] assms by auto
  then have "denoms_sorted cs" "\<forall>d. amount_of cs d = amount_of as d - amount_of bs d"
    using safeAdd_norm [OF cs] assms by auto
  then have "\<not> IsAnyNegative cs" using assms(3) by (simp add: IsAnyNegative_iff not_less)
  with cs show ?thesis by (simp add: Coins_Sub_def SafeSub_def)
qed


section \<open>Equality of coin sets\<close>

lemma Coins_Sort_id: "denoms_sorted cs \<Longrightarrow> Coins_Sort cs = cs"
  unfolding Coins_Sort_def denoms_sorted_def
  by (rule sort_key_id_if_sorted) (rule strict_sorted_imp_sorted)

lemma go_all_True: "go_all p xs = Some True \<longleftrightarrow> (\<forall>x \<in> set xs. p x = Some True)"
  by (induction xs) (auto simp: bind_Some_iff)

lemma Coin_IsEqual_True: "Coin_IsEqual a b = Some True \<longleftrightarrow> a = b"
  by (cases a; cases b) (auto simp: Coin_IsEqual_def)

lemma Coins_IsEqual_True:
  assumes "denoms_sorted as" and "denoms_sorted bs" and "Coins_IsEqual as bs = Some True"
  shows "as = bs"
proof -
  have len: "length as = length bs" and all: "\<forall>(a, b) \<in> set (zip as bs). a = b"
    using assms by (auto simp: Coins_IsEqual_def Coins_Sort_id go_all_True Coin_IsEqual_True
        split: if_splits)
  then show ?thesis by (induction as bs rule: list_induct2) auto
qed

section \<open>Contracts of the coin sets\<close>

text \<open>A coin set whose every denomination passes the check \<open>IsValid\<close> makes of the first only.\<close>

definition denoms_valid :: "Coins \<Rightarrow> bool" where
  "denoms_valid coins = list_all (\<lambda>c. validateDenom (Denom c)) coins"

lemma Coins_IsValid_intro:
  "denoms_sorted cs \<Longrightarrow> \<forall>c \<in> set cs. 0 < Amount c \<Longrightarrow> denoms_valid cs \<Longrightarrow> Coins_IsValid cs"
  by (cases cs) (auto simp: Coins_IsValid_iff denoms_valid_def)

lemma denoms_valid_subset:
  "Denom ` set cs \<subseteq> Denom ` set as \<union> Denom ` set bs \<Longrightarrow> denoms_valid as \<Longrightarrow>
   denoms_valid bs \<Longrightarrow> denoms_valid cs"
  unfolding denoms_valid_def list_all_iff by (fastforce simp: subset_iff)

lemma negative_denoms [simp]: "Denom ` set (Coins_negative cs) = Denom ` set cs"
  by (force simp: Coins_negative_def image_iff)

lemma Coins_Add_valid:
  assumes "Coins_IsValid as" and "Coins_IsValid bs" and "denoms_valid as" and "denoms_valid bs"
    and "Coins_Add as bs = Some cs"
  shows "Coins_IsValid cs \<and> denoms_valid cs \<and>
         (\<forall>d. amount_of cs d = amount_of as d + amount_of bs d)"
proof -
  have add: "safeAdd as bs = Some cs" using assms(5) by (simp add: Coins_Add_def)
  note srt = Coins_IsValid_norm(1) [OF assms(1)] Coins_IsValid_norm(1) [OF assms(2)]
  have cs: "denoms_sorted cs" "no_zero cs"
      and amt: "\<And>d. amount_of cs d = amount_of as d + amount_of bs d"
    using safeAdd_norm [OF add srt] by auto
  have "0 < Amount c" if "c \<in> set cs" for c
  proof -
    have "Amount c \<noteq> 0" using cs(2) that by (auto simp: no_zero_def list_all_iff)
    moreover have "0 \<le> Amount c"
      using amount_of_member [OF cs(1) that] amt Coins_IsValid_nonneg [OF assms(1)]
        Coins_IsValid_nonneg [OF assms(2)] by (metis add_nonneg_nonneg)
    ultimately show ?thesis by linarith
  qed
  moreover have "denoms_valid cs"
    using safeAdd_denoms [OF add] assms(3,4) by (rule denoms_valid_subset)
  ultimately show ?thesis using cs(1) amt by (auto intro!: Coins_IsValid_intro)
qed

text \<open>
  C31. \<open>Coins.Add\<close> and \<open>Coins.Sub\<close> are inverse on valid coin sets: subtracting what was added
  gives back exactly the original slice (same coins, same order), without a panic.
\<close>

theorem Coins_Add_Sub_inverse:
  assumes "Coins_IsValid as" and "Coins_IsValid bs"
    and "\<forall>c \<in> set as. int_ok (Amount c)" and "Coins_Add as bs = Some cs"
  shows "Coins_Sub cs bs = Some as"
proof -
  have add: "safeAdd as bs = Some cs" using assms(4) by (simp add: Coins_Add_def)
  note srt = Coins_IsValid_norm(1) [OF assms(1)] Coins_IsValid_norm(1) [OF assms(2)]
  have cs: "denoms_sorted cs" and amt: "\<And>d. amount_of cs d = amount_of as d + amount_of bs d"
    using safeAdd_norm [OF add srt] by auto
  have "int_ok (amount_of as d)" for d using assms(3) by (induction as) auto
  then obtain ds where ds: "Coins_Sub cs bs = Some ds"
    using Coins_Sub_total [OF cs srt(2)] amt Coins_IsValid_nonneg [OF assms(1)] by auto
  have "denoms_sorted ds" "\<forall>c \<in> set ds. 0 < Amount c"
      "\<And>d. amount_of ds d = amount_of as d"
    using Coins_Sub_Some [OF ds cs srt(2)] amt by auto
  then have "ds = as"
    using Coins_IsValid_norm [OF assms(1)]
    by (intro norm_coins_eqI) (auto simp: no_zero_def list_all_iff)
  with ds show ?thesis by simp
qed

theorem Coins_Add_Sub_inverse_witness:
  "let as = [\<lparr>Denom = ''bhbtc'', Amount = 7\<rparr>, \<lparr>Denom = ''hbc'', Amount = 2\<rparr>];
       bs = [\<lparr>Denom = ''eth'', Amount = 5\<rparr>, \<lparr>Denom = ''hbc'', Amount = 4\<rparr>]
   in \<exists>cs. Coins_Add as bs = Some cs \<and> Coins_Sub cs bs = Some as"
  using Coins_Add_Sub_inverse
    [of "[\<lparr>Denom = ''bhbtc'', Amount = 7\<rparr>, \<lparr>Denom = ''hbc'', Amount = 2\<rparr>]"
        "[\<lparr>Denom = ''eth'', Amount = 5\<rparr>, \<lparr>Denom = ''hbc'', Amount = 4\<rparr>]"]
  by (simp add: Coins_Add_def Coin_Add_Some Coin_Add_def Int_Add_eq int_ok_def validateDenom_def
      is_alnum_def removeZeroCoins_eq)

text \<open>
  \<open>Coins.Sub\<close> breaks its contract (\<open>IsValid will always return true\<close>) on a coin set that
  \<open>IsValid\<close> accepts: only the first denomination is validated, so removing the first coin can
  leave a set whose first denomination is not a valid one.
\<close>

theorem Coins_Sub_result_not_valid:
  "\<exists>as bs cs. Coins_IsValid as \<and> Coins_IsValid bs \<and> Coins_Sub as bs = Some cs
     \<and> \<not> Coins_IsValid cs"
proof -
  let ?a = "\<lparr>Denom = ''aa'', Amount = 1\<rparr>" and ?b = "\<lparr>Denom = ''b-'', Amount = 1\<rparr>"
  have "Coins_IsValid [?a, ?b]" "Coins_IsValid [?a]" "\<not> Coins_IsValid [?b]"
    by (simp_all add: validateDenom_def is_alnum_def)
  moreover have "Coins_Sub [?a, ?b] [?a] = Some [?b]"
    by (simp add: Coins_Sub_def SafeSub_def Coins_negative_def Int_Neg_def Coin_Add_def
        Int_Add_eq removeZeroCoins_eq IsAnyNegative_def)
  ultimately show ?thesis by blast
qed

section \<open>Small coin sets\<close>

lemma NewCoins_single [go_eval]:
  "NewCoins [c] = (if Amount c = 0 then Some []
     else if validateDenom (Denom c) \<and> 0 < Amount c then Some [c] else None)"
  by (simp add: NewCoins_def removeZeroCoins_eq Coins_Sort_def)

lemma NewCoins_two:
  assumes "NewCoins [c, d] = Some cs" and "0 < Amount c" and "0 < Amount d"
  shows "Denom c \<noteq> Denom d" "Coins_IsValid cs"
    "amount_of cs s = (if s = Denom c then Amount c else 0) + (if s = Denom d then Amount d else 0)"
proof -
  have cs: "cs = Coins_Sort [c, d]" and dup: "findDup (Coins_Sort [c, d]) = - 1" and "Coins_IsValid cs"
    using assms by (auto simp: NewCoins_def removeZeroCoins_eq Let_def split: if_splits)
  then show "Coins_IsValid cs" by simp
  have "Coins_Sort [c, d] = (if Denom c \<le> Denom d then [c, d] else [d, c])" by (simp add: Coins_Sort_def)
  with dup cs show "Denom c \<noteq> Denom d"
    "amount_of cs s = (if s = Denom c then Amount c else 0) + (if s = Denom d then Amount d else 0)"
    by (auto split: if_splits)
qed

lemma NewCoins_sort_two [go_eval]:
  "NewCoins [c, d] = (if Amount c = 0 then NewCoins [d] else if Amount d = 0 then NewCoins [c]
     else let cs = (if Denom c \<le> Denom d then [c, d] else [d, c])
          in if Denom c = Denom d \<or> \<not> Coins_IsValid cs then None else Some cs)"
  by (auto simp: NewCoins_def removeZeroCoins_eq Coins_Sort_def Let_def)

declare NewCoin_def [go_eval] validate_def [go_eval] validateDenom_def [go_eval] is_alnum_def [go_eval]
  Coin_IsValid_def [go_eval] Coins_Add_def [go_eval] removeZeroCoins_eq [go_eval] Coin_Add_def [go_eval]
  Coins_negative_def [go_eval] SafeSub_def [go_eval] Coins_Sub_def [go_eval] IsAnyNegative_def [go_eval]
  IsAllGTE_def [go_eval]

end
