(* ===== verification/Bank.thy ===== *)
theory Bank
  imports KVStore SdkCoin
begin

text \<open>
  \<open>x/transfer/keeper/send.go\<close>: the ledger.  Two families of entries of the transfer store, the
  free balances and the balances on hold, are maps from (address, symbol) to an amount; a zero
  amount is never stored.  Every operation is translated with its error returns; the state is
  returned beside an error because nothing is rolled back inside the keeper.  The receipts are
  the lists of flows the operations return.  Events are left out.
\<close>

section \<open>Store keys\<close>

definition AddrLen :: nat where
  "AddrLen = 20"

definition balanceKeyPrefix :: bytes where
  "balanceKeyPrefix = [char_of (3 :: nat)]"

definition holdBalanceKeyPrefix :: bytes where
  "holdBalanceKeyPrefix = [char_of (4 :: nat)]"

definition BalanceKeyPrefix :: "CUAddress \<Rightarrow> bytes" where
  "BalanceKeyPrefix addr = balanceKeyPrefix @ addr"

definition BalanceKey :: "CUAddress \<Rightarrow> Symbol \<Rightarrow> bytes" where
  "BalanceKey addr symbol = BalanceKeyPrefix addr @ symbol"

definition HoldBalanceKeyPrefix :: "CUAddress \<Rightarrow> bytes" where
  "HoldBalanceKeyPrefix addr = holdBalanceKeyPrefix @ addr"

definition HoldBalanceKey :: "CUAddress \<Rightarrow> Symbol \<Rightarrow> bytes" where
  "HoldBalanceKey addr symbol = HoldBalanceKeyPrefix addr @ symbol"

text \<open>Slicing beyond the end of the key panics.\<close>

definition GetSymbolFromBalanceKey :: "bytes \<Rightarrow> Symbol option" where
  "GetSymbolFromBalanceKey key =
     (if length key < length balanceKeyPrefix + AddrLen then None
      else Some (drop (length balanceKeyPrefix + AddrLen) key))"

definition GetSymbolFromHoldBalanceKey :: "bytes \<Rightarrow> Symbol option" where
  "GetSymbolFromHoldBalanceKey key =
     (if length key < length holdBalanceKeyPrefix + AddrLen then None
      else Some (drop (length holdBalanceKeyPrefix + AddrLen) key))"

section \<open>Balances\<close>

record bank =
  balances :: "(CUAddress \<times> Symbol, int) kv"
  holds :: "(CUAddress \<times> Symbol, int) kv"

record BalanceFlow =
  fl_CUAddress :: CUAddress
  fl_Symbol :: Symbol
  fl_PreviousBalance :: int
  fl_BalanceChange :: int
  fl_PreviousBalanceOnHold :: int
  fl_BalanceOnHoldChange :: int

definition GetBalance :: "bank \<Rightarrow> CUAddress \<Rightarrow> Symbol \<Rightarrow> int" where
  "GetBalance st addr symbol =
     (case kv_get (balances st) (addr, symbol) of None \<Rightarrow> 0 | Some balance \<Rightarrow> balance)"

definition GetHoldBalance :: "bank \<Rightarrow> CUAddress \<Rightarrow> Symbol \<Rightarrow> int" where
  "GetHoldBalance st addr symbol =
     (case kv_get (holds st) (addr, symbol) of None \<Rightarrow> 0 | Some balance \<Rightarrow> balance)"

definition setBalance :: "CUAddress \<Rightarrow> Symbol \<Rightarrow> int \<Rightarrow> bank \<Rightarrow> bank" where
  "setBalance addr symbol balance st =
     (if balance = 0 then st\<lparr>balances := kv_delete (addr, symbol) (balances st)\<rparr>
      else st\<lparr>balances := kv_set (addr, symbol) balance (balances st)\<rparr>)"

definition setHoldBalance :: "CUAddress \<Rightarrow> Symbol \<Rightarrow> int \<Rightarrow> bank \<Rightarrow> bank" where
  "setHoldBalance addr symbol balance st =
     (if balance = 0 then st\<lparr>holds := kv_delete (addr, symbol) (holds st)\<rparr>
      else st\<lparr>holds := kv_set (addr, symbol) balance (holds st)\<rparr>)"

text \<open>The iteration over the entries of one address, in the order of the symbols.\<close>

fun collect_coins :: "(Symbol \<times> int) list \<Rightarrow> Coins \<Rightarrow> Coins option" where
  "collect_coins [] ret = Some ret"
| "collect_coins ((symbol, balance) # entries) ret = do {
     coin \<leftarrow> NewCoin symbol balance;
     coins \<leftarrow> NewCoins [coin];
     ret \<leftarrow> Coins_Add ret coins;
     collect_coins entries ret }"

definition entries_of :: "CUAddress \<Rightarrow> (CUAddress \<times> Symbol, int) kv \<Rightarrow> (Symbol \<times> int) list" where
  "entries_of addr s =
     map (\<lambda>((_, symbol), balance). (symbol, balance))
       (filter (\<lambda>((a, _), _). a = addr) (kv_entries s))"

definition GetAllBalance :: "bank \<Rightarrow> CUAddress \<Rightarrow> Coins option" where
  "GetAllBalance st addr = collect_coins (entries_of addr (balances st)) []"

definition GetAllHoldBalance :: "bank \<Rightarrow> CUAddress \<Rightarrow> Coins option" where
  "GetAllHoldBalance st addr = collect_coins (entries_of addr (holds st)) []"

definition balance_flow :: "CUAddress \<Rightarrow> Symbol \<Rightarrow> int \<Rightarrow> int \<Rightarrow> BalanceFlow" where
  "balance_flow addr symbol before change =
     \<lparr>fl_CUAddress = addr, fl_Symbol = symbol, fl_PreviousBalance = before,
      fl_BalanceChange = change, fl_PreviousBalanceOnHold = 0, fl_BalanceOnHoldChange = 0\<rparr>"

definition hold_flow :: "CUAddress \<Rightarrow> Symbol \<Rightarrow> int \<Rightarrow> int \<Rightarrow> BalanceFlow" where
  "hold_flow addr symbol before change =
     \<lparr>fl_CUAddress = addr, fl_Symbol = symbol, fl_PreviousBalance = 0, fl_BalanceChange = 0,
      fl_PreviousBalanceOnHold = before, fl_BalanceOnHoldChange = change\<rparr>"

definition AddCoin :: "CUAddress \<Rightarrow> Coin \<Rightarrow> bank \<Rightarrow> (Coin \<times> BalanceFlow, bank) outcome" where
  "AddCoin addr coin st =
     (if \<not> Coin_IsValid coin then Some (Inl ErrInvalidCoins, st)
      else do {
        let before = GetBalance st addr (Denom coin);
        after \<leftarrow> Int_Add before (Amount coin);
        let st = setBalance addr (Denom coin) after st;
        c \<leftarrow> NewCoin (Denom coin) after;
        Some (Inr (c, balance_flow addr (Denom coin) before (Amount coin)), st) })"

definition SubCoin :: "CUAddress \<Rightarrow> Coin \<Rightarrow> bank \<Rightarrow> (Coin \<times> BalanceFlow, bank) outcome" where
  "SubCoin addr coin st =
     (if \<not> Coin_IsValid coin then Some (Inl ErrInvalidCoins, st)
      else
        let before = GetBalance st addr (Denom coin)
        in if before < Amount coin then Some (Inl ErrInsufficientCoins, st)
        else do {
          after \<leftarrow> Int_Sub before (Amount coin);
          let st = setBalance addr (Denom coin) after st;
          c \<leftarrow> NewCoin (Denom coin) after;
          Some (Inr (c, balance_flow addr (Denom coin) before (Int_Neg (Amount coin))), st) })"

definition AddCoinHold :: "CUAddress \<Rightarrow> Coin \<Rightarrow> bank \<Rightarrow> (Coin \<times> BalanceFlow, bank) outcome" where
  "AddCoinHold addr coin st =
     (if \<not> Coin_IsValid coin then Some (Inl ErrInvalidCoins, st)
      else do {
        let before = GetHoldBalance st addr (Denom coin);
        after \<leftarrow> Int_Add before (Amount coin);
        let st = setHoldBalance addr (Denom coin) after st;
        c \<leftarrow> NewCoin (Denom coin) after;
        Some (Inr (c, hold_flow addr (Denom coin) before (Amount coin)), st) })"

definition SubCoinHold :: "CUAddress \<Rightarrow> Coin \<Rightarrow> bank \<Rightarrow> (Coin \<times> BalanceFlow, bank) outcome" where
  "SubCoinHold addr coin st =
     (if \<not> Coin_IsValid coin then Some (Inl ErrInvalidCoins, st)
      else
        let before = GetHoldBalance st addr (Denom coin)
        in if before < Amount coin then Some (Inl ErrInsufficientCoins, st)
        else do {
          after \<leftarrow> Int_Sub before (Amount coin);
          let st = setHoldBalance addr (Denom coin) after st;
          c \<leftarrow> NewCoin (Denom coin) after;
          Some (Inr (c, hold_flow addr (Denom coin) before (Int_Neg (Amount coin))), st) })"

text \<open>
  The four operations on a coin set run the operation on each coin and add up the new balances;
  the loop is shared here with the single-coin operation as a parameter.
\<close>

type_synonym coin_op = "CUAddress \<Rightarrow> Coin \<Rightarrow> bank \<Rightarrow> (Coin \<times> BalanceFlow, bank) outcome"

fun coins_loop ::
  "coin_op \<Rightarrow> CUAddress \<Rightarrow> Coins \<Rightarrow> Coins \<Rightarrow> BalanceFlow list \<Rightarrow> bank \<Rightarrow>
   (Coins \<times> BalanceFlow list, bank) outcome" where
  "coins_loop f addr [] newCoins flows st = Some (Inr (newCoins, flows), st)"
| "coins_loop f addr (coin # coins) newCoins flows st =
     on_ok (f addr coin st) (\<lambda>(newCoin, flow) st. do {
       cs \<leftarrow> NewCoins [newCoin];
       newCoins \<leftarrow> Coins_Add newCoins cs;
       coins_loop f addr coins newCoins (flows @ [flow]) st })"

definition AddCoins :: "CUAddress \<Rightarrow> Coins \<Rightarrow> bank \<Rightarrow> (Coins \<times> BalanceFlow list, bank) outcome" where
  "AddCoins addr coins st =
     (if \<not> Coins_IsValid coins then Some (Inl ErrInvalidCoins, st)
      else coins_loop AddCoin addr coins [] [] st)"

definition SubCoins :: "CUAddress \<Rightarrow> Coins \<Rightarrow> bank \<Rightarrow> (Coins \<times> BalanceFlow list, bank) outcome" where
  "SubCoins addr coins st =
     (if \<not> Coins_IsValid coins then Some (Inl ErrInvalidCoins, st)
      else coins_loop SubCoin addr coins [] [] st)"

definition AddCoinsHold :: "CUAddress \<Rightarrow> Coins \<Rightarrow> bank \<Rightarrow> (Coins \<times> BalanceFlow list, bank) outcome" where
  "AddCoinsHold addr coins st =
     (if \<not> Coins_IsValid coins then Some (Inl ErrInvalidCoins, st)
      else coins_loop AddCoinHold addr coins [] [] st)"

definition SubCoinsHold :: "CUAddress \<Rightarrow> Coins \<Rightarrow> bank \<Rightarrow> (Coins \<times> BalanceFlow list, bank) outcome" where
  "SubCoinsHold addr coins st =
     (if \<not> Coins_IsValid coins then Some (Inl ErrInvalidCoins, st)
      else coins_loop SubCoinHold addr coins [] [] st)"

definition LockCoin :: "CUAddress \<Rightarrow> Coin \<Rightarrow> bank \<Rightarrow> (BalanceFlow list, bank) outcome" where
  "LockCoin addr coin st =
     on_ok (SubCoin addr coin st) (\<lambda>(_, flow1) st.
     on_ok (AddCoinHold addr coin st) (\<lambda>(_, flow2) st.
     Some (Inr [flow1, flow2], st)))"

definition UnlockCoin :: "CUAddress \<Rightarrow> Coin \<Rightarrow> bank \<Rightarrow> (BalanceFlow list, bank) outcome" where
  "UnlockCoin addr coin st =
     on_ok (SubCoinHold addr coin st) (\<lambda>(_, flow1) st.
     on_ok (AddCoin addr coin st) (\<lambda>(_, flow2) st.
     Some (Inr [flow1, flow2], st)))"

fun flows_loop ::
  "(Coin \<Rightarrow> bank \<Rightarrow> (BalanceFlow list, bank) outcome) \<Rightarrow> Coins \<Rightarrow> BalanceFlow list \<Rightarrow> bank \<Rightarrow>
   (BalanceFlow list, bank) outcome" where
  "flows_loop f [] flows st = Some (Inr flows, st)"
| "flows_loop f (coin # coins) flows st =
     on_ok (f coin st) (\<lambda>fls st. flows_loop f coins (flows @ fls) st)"

definition LockCoins :: "CUAddress \<Rightarrow> Coins \<Rightarrow> bank \<Rightarrow> (BalanceFlow list, bank) outcome" where
  "LockCoins addr coins st =
     (if \<not> Coins_IsValid coins then Some (Inl ErrInvalidCoins, st)
      else flows_loop (LockCoin addr) coins [] st)"

definition UnlockCoins :: "CUAddress \<Rightarrow> Coins \<Rightarrow> bank \<Rightarrow> (BalanceFlow list, bank) outcome" where
  "UnlockCoins addr coins st =
     (if \<not> Coins_IsValid coins then Some (Inl ErrInvalidCoins, st)
      else flows_loop (UnlockCoin addr) coins [] st)"

definition SendCoin ::
  "CUAddress \<Rightarrow> CUAddress \<Rightarrow> Coin \<Rightarrow> bank \<Rightarrow> (BalanceFlow list, bank) outcome" where
  "SendCoin from to coin st =
     on_ok (SubCoin from coin st) (\<lambda>(_, subFlow) st.
     on_ok (AddCoin to coin st) (\<lambda>(_, addFlow) st.
     Some (Inr [subFlow, addFlow], st)))"

definition SendCoins ::
  "CUAddress \<Rightarrow> CUAddress \<Rightarrow> Coins \<Rightarrow> bank \<Rightarrow> (BalanceFlow list, bank) outcome" where
  "SendCoins from to coins st = flows_loop (SendCoin from to) coins [] st"

section \<open>Multi-transfer\<close>

record Input =
  in_Address :: CUAddress
  in_Coins :: Coins

record Output =
  out_Address :: CUAddress
  out_Coins :: Coins

definition put_ValidateBasic :: "CUAddress \<Rightarrow> Coins \<Rightarrow> sdk_error option" where
  "put_ValidateBasic addr coins =
     (if length addr = 0 then Some ErrInvalidAddress
      else if \<not> Coins_IsValid coins then Some ErrInvalidCoins
      else if \<not> IsAllPositive coins then Some ErrInvalidCoins
      else None)"

definition Input_ValidateBasic :: "Input \<Rightarrow> sdk_error option" where
  "Input_ValidateBasic i = put_ValidateBasic (in_Address i) (in_Coins i)"

definition Output_ValidateBasic :: "Output \<Rightarrow> sdk_error option" where
  "Output_ValidateBasic out = put_ValidateBasic (out_Address out) (out_Coins out)"

fun total_loop :: "('a \<Rightarrow> sdk_error option) \<Rightarrow> ('a \<Rightarrow> Coins) \<Rightarrow> 'a list \<Rightarrow> Coins \<Rightarrow>
   (sdk_error + Coins) option" where
  "total_loop check coins_of [] acc = Some (Inr acc)"
| "total_loop check coins_of (x # xs) acc =
     (case check x of
        Some e \<Rightarrow> Some (Inl e)
      | None \<Rightarrow> do { acc \<leftarrow> Coins_Add acc (coins_of x); total_loop check coins_of xs acc })"

text \<open>The outer option is the panic of the coin arithmetic or of \<open>IsEqual\<close>.\<close>

definition ValidateInputsOutputs :: "Input list \<Rightarrow> Output list \<Rightarrow> sdk_error option option" where
  "ValidateInputsOutputs inputs outputs = do {
     totalIn \<leftarrow> total_loop Input_ValidateBasic in_Coins inputs [];
     case totalIn of
       Inl e \<Rightarrow> Some (Some e)
     | Inr totalIn \<Rightarrow> do {
         totalOut \<leftarrow> total_loop Output_ValidateBasic out_Coins outputs [];
         case totalOut of
           Inl e \<Rightarrow> Some (Some e)
         | Inr totalOut \<Rightarrow> do {
             same \<leftarrow> Coins_IsEqual totalIn totalOut;
             Some (if \<not> same then Some ErrInputOutputMismatch else None) } } }"

fun puts_loop ::
  "('a \<Rightarrow> bank \<Rightarrow> (Coins \<times> BalanceFlow list, bank) outcome) \<Rightarrow> 'a list \<Rightarrow> BalanceFlow list \<Rightarrow> bank \<Rightarrow>
   (BalanceFlow list, bank) outcome" where
  "puts_loop f [] flows st = Some (Inr flows, st)"
| "puts_loop f (x # xs) flows st =
     on_ok (f x st) (\<lambda>(_, fls) st. puts_loop f xs (flows @ fls) st)"

definition InputOutputCoins ::
  "Input list \<Rightarrow> Output list \<Rightarrow> bank \<Rightarrow> (BalanceFlow list, bank) outcome" where
  "InputOutputCoins inputs outputs st = do {
     err \<leftarrow> ValidateInputsOutputs inputs outputs;
     case err of
       Some e \<Rightarrow> Some (Inl e, st)
     | None \<Rightarrow>
         on_ok (puts_loop (\<lambda>i. SubCoins (in_Address i) (in_Coins i)) inputs [] st)
           (\<lambda>flows st. puts_loop (\<lambda>out. AddCoins (out_Address out) (out_Coins out)) outputs flows st) }"


section \<open>Key encodings\<close>

lemma balance_prefix_lengths [simp]:
  "length balanceKeyPrefix = 1" "length holdBalanceKeyPrefix = 1"
  by (simp_all add: balanceKeyPrefix_def holdBalanceKeyPrefix_def)

lemma BalanceKey_inj:
  "length a = AddrLen \<Longrightarrow> length b = AddrLen \<Longrightarrow> BalanceKey a s = BalanceKey b r \<Longrightarrow> a = b \<and> s = r"
  by (simp add: BalanceKey_def BalanceKeyPrefix_def)

lemma HoldBalanceKey_inj:
  "length a = AddrLen \<Longrightarrow> length b = AddrLen \<Longrightarrow> HoldBalanceKey a s = HoldBalanceKey b r \<Longrightarrow>
   a = b \<and> s = r"
  by (simp add: HoldBalanceKey_def HoldBalanceKeyPrefix_def)

lemma balance_keys_disjoint: "BalanceKey a s \<noteq> HoldBalanceKey b r"
  by (simp add: BalanceKey_def HoldBalanceKey_def BalanceKeyPrefix_def HoldBalanceKeyPrefix_def
      balanceKeyPrefix_def holdBalanceKeyPrefix_def)

lemma GetSymbol_BalanceKey:
  "length a = AddrLen \<Longrightarrow> GetSymbolFromBalanceKey (BalanceKey a s) = Some s"
  "length a = AddrLen \<Longrightarrow> GetSymbolFromHoldBalanceKey (HoldBalanceKey a s) = Some s"
  by (simp_all add: GetSymbolFromBalanceKey_def GetSymbolFromHoldBalanceKey_def BalanceKey_def
      HoldBalanceKey_def BalanceKeyPrefix_def HoldBalanceKeyPrefix_def)

section \<open>Reading and writing the ledger\<close>

lemma get_set_balance [simp]:
  "GetBalance (setBalance a s v st) a' s' = (if a' = a \<and> s' = s then v else GetBalance st a' s')"
  "GetHoldBalance (setBalance a s v st) a' s' = GetHoldBalance st a' s'"
  "GetHoldBalance (setHoldBalance a s v st) a' s' =
     (if a' = a \<and> s' = s then v else GetHoldBalance st a' s')"
  "GetBalance (setHoldBalance a s v st) a' s' = GetBalance st a' s'"
  "holds (setBalance a s v st) = holds st"
  "balances (setHoldBalance a s v st) = balances st"
  by (auto simp: GetBalance_def GetHoldBalance_def setBalance_def setHoldBalance_def)

definition symbol_sum :: "Symbol \<Rightarrow> (CUAddress \<times> Symbol, int) kv \<Rightarrow> int" where
  "symbol_sum tok s = kv_sum (\<lambda>k v. if snd k = tok then v else 0) s"

definition free_total :: "bank \<Rightarrow> Symbol \<Rightarrow> int" where
  "free_total st tok = symbol_sum tok (balances st)"

definition hold_total :: "bank \<Rightarrow> Symbol \<Rightarrow> int" where
  "hold_total st tok = symbol_sum tok (holds st)"

text \<open>All coins of a symbol the ledger knows of, free or on hold.\<close>

definition bank_total :: "bank \<Rightarrow> Symbol \<Rightarrow> int" where
  "bank_total st tok = free_total st tok + hold_total st tok"

lemma total_set_balance [simp]:
  "free_total (setBalance a s v st) tok =
     free_total st tok + (if s = tok then v - GetBalance st a s else 0)"
  "hold_total (setBalance a s v st) tok = hold_total st tok"
  "hold_total (setHoldBalance a s v st) tok =
     hold_total st tok + (if s = tok then v - GetHoldBalance st a s else 0)"
  "free_total (setHoldBalance a s v st) tok = free_total st tok"
  by (auto simp: free_total_def hold_total_def symbol_sum_def setBalance_def setHoldBalance_def
      GetBalance_def GetHoldBalance_def weight_def split: option.splits)

definition entries_ok :: "(CUAddress \<times> Symbol, int) kv \<Rightarrow> bool" where
  "entries_ok s = list_all (\<lambda>(_, v). 0 < v \<and> int_ok v) (kv_entries s)"

definition bank_wf :: "bank \<Rightarrow> bool" where
  "bank_wf st = (entries_ok (balances st) \<and> entries_ok (holds st))"

lemma entries_ok_iff: "entries_ok s = (\<forall>k v. kv_get s k = Some v \<longrightarrow> 0 < v \<and> int_ok v)"
  by (auto simp: entries_ok_def list_all_iff kv_entries_iff)

lemma bank_wf_no_zero:
  "bank_wf st \<Longrightarrow> kv_get (balances st) k \<noteq> Some 0" "bank_wf st \<Longrightarrow> kv_get (holds st) k \<noteq> Some 0"
  unfolding bank_wf_def entries_ok_iff by (metis less_irrefl)+

lemma bank_wf_get:
  assumes "bank_wf st"
  shows "0 \<le> GetBalance st a s" "int_ok (GetBalance st a s)"
    "0 \<le> GetHoldBalance st a s" "int_ok (GetHoldBalance st a s)"
  using assms
  by (auto simp: bank_wf_def entries_ok_iff GetBalance_def GetHoldBalance_def less_imp_le
      split: option.splits)

lemma bank_wf_set:
  assumes "bank_wf st" and "0 \<le> v" and "int_ok v"
  shows "bank_wf (setBalance a s v st)" "bank_wf (setHoldBalance a s v st)"
  using assms by (auto simp: bank_wf_def entries_ok_iff setBalance_def setHoldBalance_def)

lemma setBalance_back:
  assumes "bank_wf st" and "GetBalance st a s = v"
  shows "setBalance a s v (setBalance a s w st) = st"
proof -
  have "balances (setBalance a s v (setBalance a s w st)) = balances st"
    using assms
    by (intro kv_ext) (auto simp: setBalance_def GetBalance_def bank_wf_no_zero split: option.splits)
  then show ?thesis by (cases st) (simp add: setBalance_def split: if_splits)
qed

lemma setHoldBalance_back:
  assumes "bank_wf st" and "GetHoldBalance st a s = v"
  shows "setHoldBalance a s v (setHoldBalance a s w st) = st"
proof -
  have "holds (setHoldBalance a s v (setHoldBalance a s w st)) = holds st"
    using assms
    by (intro kv_ext) (auto simp: setHoldBalance_def GetHoldBalance_def bank_wf_no_zero
        split: option.splits)
  then show ?thesis by (cases st) (simp add: setHoldBalance_def split: if_splits)
qed

lemma setBalance_setHoldBalance:
  "setHoldBalance a s v (setBalance b r w st) = setBalance b r w (setHoldBalance a s v st)"
  by (simp add: setBalance_def setHoldBalance_def)

section \<open>Operations on one coin\<close>

lemma NewCoin_Some [go_simps]:
  "(NewCoin d a = Some c) = (validateDenom d \<and> 0 \<le> a \<and> c = \<lparr>Denom = d, Amount = a\<rparr>)"
  by (auto simp: NewCoin_def validate_def)

lemma Coin_IsValid_iff: "Coin_IsValid c = (validateDenom (Denom c) \<and> 0 \<le> Amount c)"
  by (auto simp: Coin_IsValid_def validate_def)

lemma AddCoin_Inr:
  "AddCoin a c st = Some (Inr (c', fl), st') \<longleftrightarrow>
     Coin_IsValid c \<and> int_ok (GetBalance st a (Denom c) + Amount c) \<and>
     0 \<le> GetBalance st a (Denom c) + Amount c \<and>
     c' = \<lparr>Denom = Denom c, Amount = GetBalance st a (Denom c) + Amount c\<rparr> \<and>
     fl = balance_flow a (Denom c) (GetBalance st a (Denom c)) (Amount c) \<and>
     st' = setBalance a (Denom c) (GetBalance st a (Denom c) + Amount c) st"
  by (auto simp: AddCoin_def Let_def go_simps Int_Add_eq Coin_IsValid_iff)

lemma AddCoinHold_Inr:
  "AddCoinHold a c st = Some (Inr (c', fl), st') \<longleftrightarrow>
     Coin_IsValid c \<and> int_ok (GetHoldBalance st a (Denom c) + Amount c) \<and>
     0 \<le> GetHoldBalance st a (Denom c) + Amount c \<and>
     c' = \<lparr>Denom = Denom c, Amount = GetHoldBalance st a (Denom c) + Amount c\<rparr> \<and>
     fl = hold_flow a (Denom c) (GetHoldBalance st a (Denom c)) (Amount c) \<and>
     st' = setHoldBalance a (Denom c) (GetHoldBalance st a (Denom c) + Amount c) st"
  by (auto simp: AddCoinHold_def Let_def go_simps Int_Add_eq Coin_IsValid_iff)

lemma SubCoin_Inr:
  "SubCoin a c st = Some (Inr (c', fl), st') \<longleftrightarrow>
     Coin_IsValid c \<and> Amount c \<le> GetBalance st a (Denom c) \<and>
     int_ok (GetBalance st a (Denom c) - Amount c) \<and>
     c' = \<lparr>Denom = Denom c, Amount = GetBalance st a (Denom c) - Amount c\<rparr> \<and>
     fl = balance_flow a (Denom c) (GetBalance st a (Denom c)) (- Amount c) \<and>
     st' = setBalance a (Denom c) (GetBalance st a (Denom c) - Amount c) st"
  by (auto simp: SubCoin_def Let_def go_simps Int_Sub_eq Coin_IsValid_iff Int_Neg_def)

lemma SubCoinHold_Inr:
  "SubCoinHold a c st = Some (Inr (c', fl), st') \<longleftrightarrow>
     Coin_IsValid c \<and> Amount c \<le> GetHoldBalance st a (Denom c) \<and>
     int_ok (GetHoldBalance st a (Denom c) - Amount c) \<and>
     c' = \<lparr>Denom = Denom c, Amount = GetHoldBalance st a (Denom c) - Amount c\<rparr> \<and>
     fl = hold_flow a (Denom c) (GetHoldBalance st a (Denom c)) (- Amount c) \<and>
     st' = setHoldBalance a (Denom c) (GetHoldBalance st a (Denom c) - Amount c) st"
  by (auto simp: SubCoinHold_def Let_def go_simps Int_Sub_eq Coin_IsValid_iff Int_Neg_def)

lemma coin_op_Inl:
  "AddCoin a c st = Some (Inl e, st') \<Longrightarrow> st' = st \<and> \<not> Coin_IsValid c"
  "AddCoinHold a c st = Some (Inl e, st') \<Longrightarrow> st' = st \<and> \<not> Coin_IsValid c"
  "SubCoin a c st = Some (Inl e, st') \<Longrightarrow>
     st' = st \<and> (Coin_IsValid c \<longrightarrow> GetBalance st a (Denom c) < Amount c)"
  "SubCoinHold a c st = Some (Inl e, st') \<Longrightarrow>
     st' = st \<and> (Coin_IsValid c \<longrightarrow> GetHoldBalance st a (Denom c) < Amount c)"
  by (auto simp: AddCoin_def AddCoinHold_def SubCoin_def SubCoinHold_def Let_def bind_Some_iff
      split: if_splits)


subsection \<open>The contract the four coin operations share\<close>

text \<open>
  Each operation moves one balance of one address by a signed amount (\<open>delta\<close> of the coin) in its
  part of the ledger, keeps the other part and the well-formedness, answers with the new balance,
  and changes nothing when it returns an error.
\<close>

locale coin_operation =
  fixes op :: coin_op
    and get :: "bank \<Rightarrow> CUAddress \<Rightarrow> Symbol \<Rightarrow> int"
    and part :: "bank \<Rightarrow> Symbol \<Rightarrow> int"
    and other :: "bank \<Rightarrow> (CUAddress \<times> Symbol, int) kv"
    and delta :: "int \<Rightarrow> int"
  assumes delta_zero: "delta 0 = 0"
    and op_valid: "op a c st = Some (Inr (c', fl), st') \<Longrightarrow>
      Coin_IsValid c \<and> c' = \<lparr>Denom = Denom c, Amount = get st' a (Denom c)\<rparr>"
    and op_get: "op a c st = Some (Inr (c', fl), st') \<Longrightarrow>
      get st' x s = get st x s + (if x = a \<and> s = Denom c then delta (Amount c) else 0)"
    and op_part: "op a c st = Some (Inr (c', fl), st') \<Longrightarrow>
      part st' s = part st s + (if s = Denom c then delta (Amount c) else 0)"
    and op_other: "op a c st = Some (r, st') \<Longrightarrow> other st' = other st"
    and op_wf: "op a c st = Some (r, st') \<Longrightarrow> bank_wf st \<Longrightarrow> bank_wf st'"
    and op_error: "op a c st = Some (Inl e, st') \<Longrightarrow> st' = st"
begin

lemma loop_ConsE:
  assumes "coins_loop op a (c # cs) acc fls st = Some (Inr r, st')"
  obtains c' fl st1 acc' where "op a c st = Some (Inr (c', fl), st1)"
    and "coins_loop op a cs acc' (fls @ [fl]) st1 = Some (Inr r, st')"
  using assms by (auto simp: go_simps)

lemma loop_get:
  "coins_loop op a cs acc fls st = Some (Inr r, st') \<Longrightarrow> denoms_sorted cs \<Longrightarrow>
   get st' x s = get st x s + (if x = a then delta (amount_of cs s) else 0)"
proof (induction cs arbitrary: acc fls st)
  case Nil
  then show ?case by (simp add: delta_zero)
next
  case (Cons c cs)
  obtain c' fl st1 acc' where 1: "op a c st = Some (Inr (c', fl), st1)"
    and 2: "coins_loop op a cs acc' (fls @ [fl]) st1 = Some (Inr r, st')"
    using Cons.prems(1) by (rule loop_ConsE)
  have "amount_of cs (Denom c) = 0"
    using Cons.prems(2) by (intro amount_of_below) simp
  with Cons.IH [OF 2] Cons.prems(2) op_get [OF 1] show ?case by (auto simp: delta_zero)
qed

lemma loop_part:
  "coins_loop op a cs acc fls st = Some (Inr r, st') \<Longrightarrow> denoms_sorted cs \<Longrightarrow>
   part st' s = part st s + delta (amount_of cs s)"
proof (induction cs arbitrary: acc fls st)
  case Nil
  then show ?case by (simp add: delta_zero)
next
  case (Cons c cs)
  obtain c' fl st1 acc' where 1: "op a c st = Some (Inr (c', fl), st1)"
    and 2: "coins_loop op a cs acc' (fls @ [fl]) st1 = Some (Inr r, st')"
    using Cons.prems(1) by (rule loop_ConsE)
  have "amount_of cs (Denom c) = 0"
    using Cons.prems(2) by (intro amount_of_below) simp
  with Cons.IH [OF 2] Cons.prems(2) op_part [OF 1] show ?case by (auto simp: delta_zero)
qed

lemma loop_valid:
  "coins_loop op a cs acc fls st = Some (Inr r, st') \<Longrightarrow> c \<in> set cs \<Longrightarrow> Coin_IsValid c"
proof (induction cs arbitrary: acc fls st)
  case (Cons d cs)
  obtain c' fl st1 acc' where 1: "op a d st = Some (Inr (c', fl), st1)"
    and 2: "coins_loop op a cs acc' (fls @ [fl]) st1 = Some (Inr r, st')"
    using Cons.prems(1) by (rule loop_ConsE)
  show ?case using Cons.IH [OF 2] Cons.prems(2) op_valid [OF 1] by auto
qed simp

lemma loop_keeps:
  assumes step: "\<And>c st r st'. op a c st = Some (r, st') \<Longrightarrow> P st \<Longrightarrow> P st'"
  shows "coins_loop op a cs acc fls st = Some (r, st') \<Longrightarrow> P st \<Longrightarrow> P st'"
proof (induction cs arbitrary: acc fls st)
  case (Cons c cs)
  from Cons.prems(1)
  have "on_ok (op a c st) (\<lambda>(newCoin, flow) st. do {
      cs' \<leftarrow> NewCoins [newCoin]; newCoins \<leftarrow> Coins_Add acc cs';
      coins_loop op a cs newCoins (fls @ [flow]) st }) = Some (r, st')" by simp
  then show ?case
  proof (cases rule: on_ok_cases)
    case (err e)
    then show ?thesis using step Cons.prems(2) by blast
  next
    case (ok x st1)
    then obtain acc' fls' where "coins_loop op a cs acc' fls' st1 = Some (r, st')"
      by (cases x) (auto simp: bind_Some_iff)
    then show ?thesis using Cons.IH step [OF ok(1) Cons.prems(2)] by blast
  qed
qed simp

lemma loop_wf: "coins_loop op a cs acc fls st = Some (r, st') \<Longrightarrow> bank_wf st \<Longrightarrow> bank_wf st'"
  by (rule loop_keeps [of a bank_wf]) (blast intro: op_wf)

lemma loop_other: "coins_loop op a cs acc fls st = Some (r, st') \<Longrightarrow> other st' = other st"
  by (rule loop_keeps [of a "\<lambda>s. other s = other st"]) (auto dest: op_other)

end

lemma sub_stays_ok:
  "bank_wf st \<Longrightarrow> 0 \<le> x \<Longrightarrow> x \<le> GetBalance st a s \<Longrightarrow> int_ok (GetBalance st a s - x)"
  "bank_wf st \<Longrightarrow> 0 \<le> x \<Longrightarrow> x \<le> GetHoldBalance st a s \<Longrightarrow> int_ok (GetHoldBalance st a s - x)"
  using int_ok_between [of "GetBalance st a s - x" "GetBalance st a s"]
    int_ok_between [of "GetHoldBalance st a s - x" "GetHoldBalance st a s"] bank_wf_get [of st a s]
  by simp_all

lemma AddCoin_wf: "AddCoin a c st = Some (r, st') \<Longrightarrow> bank_wf st \<Longrightarrow> bank_wf st'"
  by (cases r) (auto simp: AddCoin_Inr bank_wf_set dest: coin_op_Inl(1))

lemma AddCoinHold_wf: "AddCoinHold a c st = Some (r, st') \<Longrightarrow> bank_wf st \<Longrightarrow> bank_wf st'"
  by (cases r) (auto simp: AddCoinHold_Inr bank_wf_set dest: coin_op_Inl(2))

lemma SubCoin_wf: "SubCoin a c st = Some (r, st') \<Longrightarrow> bank_wf st \<Longrightarrow> bank_wf st'"
  by (cases r) (auto simp: SubCoin_Inr bank_wf_set dest: coin_op_Inl(3))

lemma SubCoinHold_wf: "SubCoinHold a c st = Some (r, st') \<Longrightarrow> bank_wf st \<Longrightarrow> bank_wf st'"
  by (cases r) (auto simp: SubCoinHold_Inr bank_wf_set dest: coin_op_Inl(4))

lemma coin_op_other:
  "AddCoin a c st = Some (r, st') \<Longrightarrow> holds st' = holds st"
  "SubCoin a c st = Some (r, st') \<Longrightarrow> holds st' = holds st"
  "AddCoinHold a c st = Some (r, st') \<Longrightarrow> balances st' = balances st"
  "SubCoinHold a c st = Some (r, st') \<Longrightarrow> balances st' = balances st"
  by (cases r; auto simp: AddCoin_Inr SubCoin_Inr AddCoinHold_Inr SubCoinHold_Inr
      dest: coin_op_Inl)+

interpretation add_coin: coin_operation AddCoin GetBalance free_total holds "\<lambda>x. x"
proof
  fix a c st r st' e
  show "AddCoin a c st = Some (r, st') \<Longrightarrow> bank_wf st \<Longrightarrow> bank_wf st'" by (rule AddCoin_wf)
  show "AddCoin a c st = Some (r, st') \<Longrightarrow> holds st' = holds st" by (rule coin_op_other)
  show "AddCoin a c st = Some (Inl e, st') \<Longrightarrow> st' = st" by (simp add: coin_op_Inl)
qed (auto simp: AddCoin_Inr)

interpretation sub_coin: coin_operation SubCoin GetBalance free_total holds "\<lambda>x. - x"
proof
  fix a c st r st' e
  show "SubCoin a c st = Some (r, st') \<Longrightarrow> bank_wf st \<Longrightarrow> bank_wf st'" by (rule SubCoin_wf)
  show "SubCoin a c st = Some (r, st') \<Longrightarrow> holds st' = holds st" by (rule coin_op_other)
  show "SubCoin a c st = Some (Inl e, st') \<Longrightarrow> st' = st" by (simp add: coin_op_Inl)
qed (auto simp: SubCoin_Inr)

interpretation add_hold: coin_operation AddCoinHold GetHoldBalance hold_total balances "\<lambda>x. x"
proof
  fix a c st r st' e
  show "AddCoinHold a c st = Some (r, st') \<Longrightarrow> bank_wf st \<Longrightarrow> bank_wf st'" by (rule AddCoinHold_wf)
  show "AddCoinHold a c st = Some (r, st') \<Longrightarrow> balances st' = balances st" by (rule coin_op_other)
  show "AddCoinHold a c st = Some (Inl e, st') \<Longrightarrow> st' = st" by (simp add: coin_op_Inl)
qed (auto simp: AddCoinHold_Inr)

interpretation sub_hold: coin_operation SubCoinHold GetHoldBalance hold_total balances "\<lambda>x. - x"
proof
  fix a c st r st' e
  show "SubCoinHold a c st = Some (r, st') \<Longrightarrow> bank_wf st \<Longrightarrow> bank_wf st'" by (rule SubCoinHold_wf)
  show "SubCoinHold a c st = Some (r, st') \<Longrightarrow> balances st' = balances st" by (rule coin_op_other)
  show "SubCoinHold a c st = Some (Inl e, st') \<Longrightarrow> st' = st" by (simp add: coin_op_Inl)
qed (auto simp: SubCoinHold_Inr)


section \<open>Transfers and locks\<close>

lemma SendCoin_Inr:
  assumes "SendCoin from to c st = Some (Inr fls, st')"
  shows "Coin_IsValid c" "Amount c \<le> GetBalance st from (Denom c)"
    "GetBalance st' x s = GetBalance st x s - (if x = from \<and> s = Denom c then Amount c else 0)
       + (if x = to \<and> s = Denom c then Amount c else 0)"
    "holds st' = holds st" "free_total st' s = free_total st s"
  using assms by (auto simp: SendCoin_def go_simps SubCoin_Inr AddCoin_Inr)

lemma SendCoin_Inl: "SendCoin from to c st = Some (Inl e, st') \<Longrightarrow> st' = st"
  unfolding SendCoin_def
proof (elim on_ok_cases, goal_cases)
  case (2 x s)
  then show ?case by (cases x) (auto simp: SubCoin_Inr dest!: coin_op_Inl(1) elim!: on_ok_cases)
qed (simp_all add: coin_op_Inl)

lemma SendCoin_wf: "SendCoin from to c st = Some (r, st') \<Longrightarrow> bank_wf st \<Longrightarrow> bank_wf st'"
  unfolding SendCoin_def
  by (elim on_ok_cases) (auto dest: SubCoin_wf AddCoin_wf split: prod.splits elim!: on_ok_cases)

lemma LockCoin_Inr:
  assumes "LockCoin a c st = Some (Inr fls, st')"
  shows "Coin_IsValid c" "Amount c \<le> GetBalance st a (Denom c)"
    "GetBalance st' x s = GetBalance st x s - (if x = a \<and> s = Denom c then Amount c else 0)"
    "GetHoldBalance st' x s = GetHoldBalance st x s + (if x = a \<and> s = Denom c then Amount c else 0)"
    "bank_total st' s = bank_total st s"
    "free_total st' s = free_total st s - (if s = Denom c then Amount c else 0)"
    "hold_total st' s = hold_total st s + (if s = Denom c then Amount c else 0)"
  using assms by (auto simp: LockCoin_def go_simps SubCoin_Inr AddCoinHold_Inr bank_total_def)

lemma UnlockCoin_Inr:
  assumes "UnlockCoin a c st = Some (Inr fls, st')"
  shows "Coin_IsValid c" "Amount c \<le> GetHoldBalance st a (Denom c)"
    "GetBalance st' x s = GetBalance st x s + (if x = a \<and> s = Denom c then Amount c else 0)"
    "GetHoldBalance st' x s = GetHoldBalance st x s - (if x = a \<and> s = Denom c then Amount c else 0)"
    "bank_total st' s = bank_total st s"
    "free_total st' s = free_total st s + (if s = Denom c then Amount c else 0)"
    "hold_total st' s = hold_total st s - (if s = Denom c then Amount c else 0)"
  using assms by (auto simp: UnlockCoin_def go_simps SubCoinHold_Inr AddCoin_Inr bank_total_def)

lemma LockCoin_Inl: "LockCoin a c st = Some (Inl e, st') \<Longrightarrow> st' = st"
  unfolding LockCoin_def
proof (elim on_ok_cases, goal_cases)
  case (2 x s)
  then show ?case by (cases x) (auto simp: SubCoin_Inr dest!: coin_op_Inl(2) elim!: on_ok_cases)
qed (simp_all add: coin_op_Inl)

lemma UnlockCoin_Inl: "UnlockCoin a c st = Some (Inl e, st') \<Longrightarrow> st' = st"
  unfolding UnlockCoin_def
proof (elim on_ok_cases, goal_cases)
  case (2 x s)
  then show ?case by (cases x) (auto simp: SubCoinHold_Inr dest!: coin_op_Inl(1) elim!: on_ok_cases)
qed (simp_all add: coin_op_Inl)

lemma LockCoin_wf: "LockCoin a c st = Some (r, st') \<Longrightarrow> bank_wf st \<Longrightarrow> bank_wf st'"
  unfolding LockCoin_def
  by (elim on_ok_cases) (auto dest: SubCoin_wf AddCoinHold_wf split: prod.splits elim!: on_ok_cases)

lemma UnlockCoin_wf: "UnlockCoin a c st = Some (r, st') \<Longrightarrow> bank_wf st \<Longrightarrow> bank_wf st'"
  unfolding UnlockCoin_def
  by (elim on_ok_cases) (auto dest: SubCoinHold_wf AddCoin_wf split: prod.splits elim!: on_ok_cases)

lemma flows_loop_keeps:
  assumes step: "\<And>c st r st'. f c st = Some (r, st') \<Longrightarrow> P st \<Longrightarrow> P st'"
  shows "flows_loop f cs fls st = Some (r, st') \<Longrightarrow> P st \<Longrightarrow> P st'"
proof (induction cs arbitrary: fls st)
  case (Cons c cs)
  from Cons.prems(1) have "on_ok (f c st) (\<lambda>x. flows_loop f cs (fls @ x)) = Some (r, st')" by simp
  then show ?case
  proof (cases rule: on_ok_cases)
    case (err e)
    then show ?thesis using step Cons.prems(2) by blast
  next
    case (ok x st1)
    then show ?thesis using Cons.IH step [OF ok(1) Cons.prems(2)] by blast
  qed
qed simp

lemma SendCoins_keeps:
  assumes "SendCoins from to cs st = Some (r, st')"
  shows "bank_wf st \<Longrightarrow> bank_wf st'" "free_total st' s = free_total st s" "holds st' = holds st"
proof -
  have keep: "free_total st2 s = free_total st1 s \<and> holds st2 = holds st1"
    if "SendCoin from to c st1 = Some (q, st2)" for c st1 q st2
    using that by (cases q) (auto dest: SendCoin_Inl simp: SendCoin_Inr)
  note loop = assms [unfolded SendCoins_def]
  show "bank_wf st \<Longrightarrow> bank_wf st'"
    using loop SendCoin_wf flows_loop_keeps [of "SendCoin from to" bank_wf] by blast
  show "free_total st' s = free_total st s"
    by (rule flows_loop_keeps [OF _ loop, of "\<lambda>x. free_total x s = free_total st s"])
      (auto dest: keep)
  show "holds st' = holds st"
    by (rule flows_loop_keeps [OF _ loop, of "\<lambda>x. holds x = holds st"]) (auto dest: keep)
qed


subsection \<open>Multi-transfer\<close>

definition puts_sum :: "('a \<Rightarrow> Coins) \<Rightarrow> 'a list \<Rightarrow> Symbol \<Rightarrow> int" where
  "puts_sum coins_of xs s = sum_list (map (\<lambda>x. amount_of (coins_of x) s) xs)"

lemma total_loop_sum:
  assumes "\<And>x. x \<in> set xs \<Longrightarrow> check x = None \<Longrightarrow> denoms_sorted (coins_of x)"
  shows "total_loop check coins_of xs acc = Some (Inr tot) \<Longrightarrow> denoms_sorted acc \<Longrightarrow>
    denoms_sorted tot \<and> (\<forall>s. amount_of tot s = amount_of acc s + puts_sum coins_of xs s)"
  using assms
proof (induction xs arbitrary: acc)
  case Nil
  then show ?case by (simp add: puts_sum_def)
next
  case (Cons x xs)
  obtain acc' where 1: "check x = None" "Coins_Add acc (coins_of x) = Some acc'"
    and 2: "total_loop check coins_of xs acc' = Some (Inr tot)"
    using Cons.prems(1) by (auto simp: bind_Some_iff split: option.splits)
  have "safeAdd acc (coins_of x) = Some acc'" using 1(2) by (simp add: Coins_Add_def)
  then have 3: "denoms_sorted acc'" "\<And>s. amount_of acc' s = amount_of acc s + amount_of (coins_of x) s"
    using safeAdd_norm Cons.prems(2,3) 1(1) by (auto simp del: denoms_sorted_simps)
  have "denoms_sorted tot \<and> (\<forall>s. amount_of tot s = amount_of acc' s + puts_sum coins_of xs s)"
    using 2 3(1) Cons.prems(3) by (intro Cons.IH) auto
  with 3(2) show ?case by (simp add: puts_sum_def)
qed

lemma put_ValidateBasic_sorted: "put_ValidateBasic a cs = None \<Longrightarrow> denoms_sorted cs"
  by (simp add: put_ValidateBasic_def Coins_IsValid_norm(1) split: if_splits)

lemma ValidateInputsOutputs_balanced:
  assumes "ValidateInputsOutputs inputs outputs = Some None"
  shows "puts_sum in_Coins inputs s = puts_sum out_Coins outputs s"
proof -
  obtain ti to where ti: "total_loop Input_ValidateBasic in_Coins inputs [] = Some (Inr ti)"
    and to: "total_loop Output_ValidateBasic out_Coins outputs [] = Some (Inr to)"
    and eq: "Coins_IsEqual ti to = Some True"
    using assms unfolding ValidateInputsOutputs_def
    by (cases "total_loop Input_ValidateBasic in_Coins inputs []";
        cases "total_loop Output_ValidateBasic out_Coins outputs []")
      (auto simp: bind_Some_iff split: sum.split_asm if_split_asm)
  have I: "denoms_sorted ti" "\<forall>s. amount_of ti s = amount_of [] s + puts_sum in_Coins inputs s"
    using total_loop_sum [OF _ ti] put_ValidateBasic_sorted
    unfolding Input_ValidateBasic_def by (metis denoms_sorted_simps(1))+
  have O: "denoms_sorted to" "\<forall>s. amount_of to s = amount_of [] s + puts_sum out_Coins outputs s"
    using total_loop_sum [OF _ to] put_ValidateBasic_sorted
    unfolding Output_ValidateBasic_def by (metis denoms_sorted_simps(1))+
  have "ti = to" using I(1) O(1) eq by (rule Coins_IsEqual_True)
  with I(2) O(2) show ?thesis by simp
qed

lemma SubCoins_Inr:
  assumes "SubCoins a cs st = Some (Inr r, st')"
  shows "free_total st' s = free_total st s - amount_of cs s" "holds st' = holds st"
proof -
  have valid: "Coins_IsValid cs" and loop: "coins_loop SubCoin a cs [] [] st = Some (Inr r, st')"
    using assms by (auto simp: SubCoins_def split: if_splits)
  show "free_total st' s = free_total st s - amount_of cs s"
    using sub_coin.loop_part [OF loop Coins_IsValid_norm(1) [OF valid]] by simp
  show "holds st' = holds st" using sub_coin.loop_other [OF loop] .
qed

lemma free_total_ge:
  assumes "bank_wf st"
  shows "GetBalance st a s \<le> free_total st s" "0 \<le> hold_total st s"
proof -
  have ok: "\<And>k v. kv_get (balances st) k = Some v \<Longrightarrow> 0 \<le> v" "\<And>k v. kv_get (holds st) k = Some v \<Longrightarrow> 0 \<le> v"
    using assms by (auto simp: bank_wf_def entries_ok_iff intro: less_imp_le)
  have if_nonneg: "0 \<le> v \<Longrightarrow> 0 \<le> (if b then v else 0)" for v :: int and b by simp
  show "GetBalance st a s \<le> free_total st s"
    using kv_sum_ge [of "balances st" "\<lambda>k v. if snd k = s then v else 0" "(a, s)", OF ok(1) [THEN if_nonneg]]
    by (simp add: free_total_def symbol_sum_def GetBalance_def weight_def cong: option.case_cong)
  show "0 \<le> hold_total st s"
    unfolding hold_total_def symbol_sum_def by (rule kv_sum_nonneg) (use ok(2) in auto)
qed

lemma SubCoins_covered:
  assumes "SubCoins a cs st = Some (Inr r, st')" and "bank_wf st"
  shows "Coins_IsValid cs" "c \<in> set cs \<Longrightarrow> validateDenom (Denom c)" "bank_wf st'"
    "amount_of cs s \<le> GetBalance st a s"
proof -
  have valid: "Coins_IsValid cs" and loop: "coins_loop SubCoin a cs [] [] st = Some (Inr r, st')"
    using assms by (auto simp: SubCoins_def split: if_splits)
  show "Coins_IsValid cs" by fact
  show "c \<in> set cs \<Longrightarrow> validateDenom (Denom c)"
    using sub_coin.loop_valid [OF loop] by (simp add: Coin_IsValid_iff)
  show wf: "bank_wf st'" using sub_coin.loop_wf [OF loop assms(2)] .
  show "amount_of cs s \<le> GetBalance st a s"
    using sub_coin.loop_get [OF loop Coins_IsValid_norm(1) [OF valid], of a s]
      bank_wf_get(1) [OF wf, of a s] by simp
qed

lemma AddCoins_Inr:
  assumes "AddCoins a cs st = Some (Inr r, st')"
  shows "free_total st' s = free_total st s + amount_of cs s" "holds st' = holds st"
proof -
  have valid: "Coins_IsValid cs" and loop: "coins_loop AddCoin a cs [] [] st = Some (Inr r, st')"
    using assms by (auto simp: AddCoins_def split: if_splits)
  show "free_total st' s = free_total st s + amount_of cs s"
    using add_coin.loop_part [OF loop Coins_IsValid_norm(1) [OF valid]] by simp
  show "holds st' = holds st" using add_coin.loop_other [OF loop] .
qed

lemma AddCoins_get:
  assumes "AddCoins a cs st = Some (Inr r, st')"
  shows "GetBalance st' x s = GetBalance st x s + (if x = a then amount_of cs s else 0)"
    "Coins_IsValid cs" "bank_wf st \<Longrightarrow> bank_wf st'"
proof -
  show valid: "Coins_IsValid cs" using assms by (auto simp: AddCoins_def split: if_splits)
  have loop: "coins_loop AddCoin a cs [] [] st = Some (Inr r, st')"
    using assms by (auto simp: AddCoins_def split: if_splits)
  show "GetBalance st' x s = GetBalance st x s + (if x = a then amount_of cs s else 0)"
    using add_coin.loop_get [OF loop Coins_IsValid_norm(1) [OF valid]] .
  show "bank_wf st \<Longrightarrow> bank_wf st'" using add_coin.loop_wf [OF loop] .
qed

lemma SubCoins_get:
  assumes "SubCoins a cs st = Some (Inr r, st')"
  shows "GetBalance st' x s = GetBalance st x s - (if x = a then amount_of cs s else 0)"
proof -
  have valid: "Coins_IsValid cs" and loop: "coins_loop SubCoin a cs [] [] st = Some (Inr r, st')"
    using assms by (auto simp: SubCoins_def split: if_splits)
  show ?thesis using sub_coin.loop_get [OF loop Coins_IsValid_norm(1) [OF valid], of x s] by simp
qed

lemma puts_loop_sum:
  assumes "\<And>x st r st'. f x st = Some (Inr r, st') \<Longrightarrow>
      free_total st' s = free_total st s + sg * amount_of (coins_of x) s \<and> holds st' = holds st"
  shows "puts_loop f xs fls st = Some (Inr r, st') \<Longrightarrow>
    free_total st' s = free_total st s + sg * puts_sum coins_of xs s \<and> holds st' = holds st"
proof (induction xs arbitrary: fls st)
  case (Cons x xs)
  obtain c fl st1 where 1: "f x st = Some (Inr (c, fl), st1)"
    and 2: "puts_loop f xs (fls @ fl) st1 = Some (Inr r, st')"
    using Cons.prems by (auto simp: go_simps)
  show ?case using assms [OF 1] Cons.IH [OF 2] by (simp add: puts_sum_def distrib_left)
qed (simp add: puts_sum_def)

lemma puts_loop_wf:
  assumes "\<And>x st r st'. f x st = Some (Inr r, st') \<Longrightarrow> bank_wf st \<Longrightarrow> bank_wf st'"
  shows "puts_loop f xs fls st = Some (Inr r, st') \<Longrightarrow> bank_wf st \<Longrightarrow> bank_wf st'"
proof (induction xs arbitrary: fls st)
  case (Cons x xs)
  obtain c fl st1 where 1: "f x st = Some (Inr (c, fl), st1)" and 2: "puts_loop f xs (fls @ fl) st1 = Some (Inr r, st')"
    using Cons.prems(1) by (auto simp: go_simps)
  show ?case using Cons.IH [OF 2] assms [OF 1 Cons.prems(2)] .
qed simp

lemma InputOutputCoins_keeps:
  assumes "InputOutputCoins inputs outputs st = Some (Inr flows, st')"
  shows "free_total st' s = free_total st s" "holds st' = holds st" "bank_wf st \<Longrightarrow> bank_wf st'"
proof -
  obtain fls st1 where val: "ValidateInputsOutputs inputs outputs = Some None"
    and sub: "puts_loop (\<lambda>i. SubCoins (in_Address i) (in_Coins i)) inputs [] st = Some (Inr fls, st1)"
    and add: "puts_loop (\<lambda>out. AddCoins (out_Address out) (out_Coins out)) outputs fls st1
        = Some (Inr flows, st')"
    using assms by (auto simp: InputOutputCoins_def go_simps split: option.splits)
  have "free_total st1 s = free_total st s + (-1) * puts_sum in_Coins inputs s \<and> holds st1 = holds st"
    by (rule puts_loop_sum [OF _ sub]) (auto simp: SubCoins_Inr)
  moreover have "free_total st' s = free_total st1 s + 1 * puts_sum out_Coins outputs s \<and>
      holds st' = holds st1"
    by (rule puts_loop_sum [OF _ add]) (auto simp: AddCoins_Inr)
  ultimately show "free_total st' s = free_total st s" "holds st' = holds st"
    using ValidateInputsOutputs_balanced [OF val, of s] by simp_all
  assume "bank_wf st"
  then have "bank_wf st1" by (rule puts_loop_wf [OF _ sub, rotated]) (rule SubCoins_covered(3))
  then show "bank_wf st'" by (rule puts_loop_wf [OF _ add, rotated]) (rule AddCoins_get(3))
qed

text \<open>
  C27. A multi-transfer that succeeds conserves every token: the free balances of all addresses
  together are what they were, and nothing on hold is touched.
\<close>

theorem InputOutputCoins_conserves:
  assumes "InputOutputCoins inputs outputs st = Some (Inr flows, st')"
  shows "free_total st' s = free_total st s \<and> holds st' = holds st"
  using InputOutputCoins_keeps [OF assms] by blast

theorem InputOutputCoins_conserves_witness:
  "let st = \<lparr>balances = kv_set (''alice'', ''hbc'') 7 kv_empty, holds = kv_empty\<rparr>;
       coins = [\<lparr>Denom = ''hbc'', Amount = 5\<rparr>]
   in \<exists>flows st'. InputOutputCoins [\<lparr>in_Address = ''alice'', in_Coins = coins\<rparr>]
        [\<lparr>out_Address = ''bob'', out_Coins = coins\<rparr>] st = Some (Inr flows, st') \<and>
        free_total st' ''hbc'' = 7"
proof -
  let ?st = "\<lparr>balances = kv_set (''alice'', ''hbc'') 7 kv_empty, holds = kv_empty\<rparr>"
  let ?coins = "[\<lparr>Denom = ''hbc'', Amount = 5\<rparr>]"
  let ?in = "[\<lparr>in_Address = ''alice'', in_Coins = ?coins\<rparr>]"
  let ?out = "[\<lparr>out_Address = ''bob'', out_Coins = ?coins\<rparr>]"
  have denom: "validateDenom ''hbc''" by (simp add: validateDenom_def is_alnum_def)
  have "\<exists>flows st'. InputOutputCoins ?in ?out ?st = Some (Inr flows, st')"
    by (simp add: InputOutputCoins_def ValidateInputsOutputs_def Input_ValidateBasic_def
        Output_ValidateBasic_def put_ValidateBasic_def IsAllPositive_def Coins_Add_def
        removeZeroCoins_eq Coins_IsEqual_def Coins_Sort_def Coin_IsEqual_def SubCoins_def
        AddCoins_def SubCoin_def AddCoin_def Coin_IsValid_iff denom GetBalance_def Int_Sub_eq
        Int_Add_eq int_ok_def NewCoin_def validate_def NewCoins_def setBalance_def Let_def)
  then obtain flows st' where run: "InputOutputCoins ?in ?out ?st = Some (Inr flows, st')" by blast
  have "free_total ?st ''hbc'' = 7" by (simp add: free_total_def symbol_sum_def)
  with InputOutputCoins_conserves [OF run, of "''hbc''"] run show ?thesis by auto
qed

text \<open>
  C28. \<open>SendCoin\<close> on a well-formed ledger: on success exactly the coin moves from the sender to the
  receiver, every token's total and the amounts on hold stay, and the ledger is well-formed
  again (no negative or zero entry, all in range); on an error nothing has changed.
\<close>

theorem SendCoin_correct:
  assumes "bank_wf st" and "SendCoin from to c st = Some (r, st')"
  shows "bank_wf st' \<and>
    (case r of
       Inl e \<Rightarrow> st' = st
     | Inr flows \<Rightarrow>
         Coin_IsValid c \<and> Amount c \<le> GetBalance st from (Denom c) \<and> holds st' = holds st \<and>
         (\<forall>s. free_total st' s = free_total st s) \<and>
         (\<forall>x s. GetBalance st' x s = GetBalance st x s
            - (if x = from \<and> s = Denom c then Amount c else 0)
            + (if x = to \<and> s = Denom c then Amount c else 0)))"
proof (cases r)
  case (Inl e)
  then show ?thesis using assms SendCoin_Inl SendCoin_wf by auto
next
  case (Inr flows)
  then show ?thesis using assms SendCoin_wf SendCoin_Inr [of "from" to c st flows st'] by auto
qed

theorem SendCoin_correct_witness:
  "let st = \<lparr>balances = kv_set (''alice'', ''hbc'') 7 kv_empty, holds = kv_empty\<rparr>;
       c = \<lparr>Denom = ''hbc'', Amount = 5\<rparr>
   in \<exists>flows st'. SendCoin ''alice'' ''bob'' c st = Some (Inr flows, st') \<and>
        GetBalance st' ''alice'' ''hbc'' = 2 \<and> GetBalance st' ''bob'' ''hbc'' = 5"
proof -
  let ?st = "\<lparr>balances = kv_set (''alice'', ''hbc'') 7 kv_empty, holds = kv_empty\<rparr>"
  let ?c = "\<lparr>Denom = ''hbc'', Amount = 5\<rparr>"
  have wf: "bank_wf ?st" by (simp add: bank_wf_def entries_ok_iff int_ok_def)
  have denom: "validateDenom ''hbc''" by (simp add: validateDenom_def is_alnum_def)
  have bal: "GetBalance ?st ''alice'' ''hbc'' = 7" "GetBalance ?st ''bob'' ''hbc'' = 0"
    by (simp_all add: GetBalance_def)
  have "\<exists>flows st'. SendCoin ''alice'' ''bob'' ?c ?st = Some (Inr flows, st')"
    by (simp add: SendCoin_def SubCoin_def AddCoin_def Coin_IsValid_iff denom GetBalance_def
        Int_Sub_eq Int_Add_eq int_ok_def NewCoin_def validate_def setBalance_def Let_def)
  then obtain flows st' where run: "SendCoin ''alice'' ''bob'' ?c ?st = Some (Inr flows, st')"
    by blast
  with SendCoin_correct [OF wf run] bal show ?thesis by simp
qed

text \<open>
  C29. Locking a coin and unlocking it again restores the ledger exactly, and the unlock cannot
  fail or panic.
\<close>

theorem LockCoin_UnlockCoin:
  assumes "bank_wf st" and "LockCoin a c st = Some (Inr flows, st1)"
  shows "\<exists>flows'. UnlockCoin a c st1 = Some (Inr flows', st)"
proof -
  let ?s = "Denom c" and ?m = "Amount c"
  let ?b = "GetBalance st a ?s" and ?h = "GetHoldBalance st a ?s"
  have valid: "Coin_IsValid c" and st1: "st1 = setHoldBalance a ?s (?h + ?m) (setBalance a ?s (?b - ?m) st)"
    using assms(2) by (auto simp: LockCoin_def go_simps SubCoin_Inr AddCoinHold_Inr)
  note ok = bank_wf_get [OF assms(1), of a ?s]
  let ?st2 = "setHoldBalance a ?s ?h st1"
  have "SubCoinHold a c st1 = Some (Inr (\<lparr>Denom = ?s, Amount = ?h\<rparr>, hold_flow a ?s (?h + ?m) (- ?m)), ?st2)"
    using valid ok by (auto simp: SubCoinHold_Inr st1 Coin_IsValid_iff)
  moreover have "AddCoin a c ?st2 = Some (Inr (\<lparr>Denom = ?s, Amount = ?b\<rparr>,
      balance_flow a ?s (?b - ?m) ?m), setBalance a ?s ?b ?st2)"
    using valid ok by (auto simp: AddCoin_Inr st1)
  moreover have "?st2 = setBalance a ?s (?b - ?m) st"
    unfolding st1 setBalance_setHoldBalance setHoldBalance_back [OF assms(1) refl] ..
  then have "setBalance a ?s ?b ?st2 = st" using setBalance_back [OF assms(1) refl] by simp
  ultimately show ?thesis by (simp add: UnlockCoin_def)
qed

theorem LockCoin_UnlockCoin_witness:
  "let st = \<lparr>balances = kv_set (''alice'', ''hbc'') 7 kv_empty, holds = kv_empty\<rparr>;
       c = \<lparr>Denom = ''hbc'', Amount = 5\<rparr>
   in \<exists>flows st1 flows'. LockCoin ''alice'' c st = Some (Inr flows, st1) \<and>
        GetHoldBalance st1 ''alice'' ''hbc'' = 5 \<and> UnlockCoin ''alice'' c st1 = Some (Inr flows', st)"
proof -
  let ?st = "\<lparr>balances = kv_set (''alice'', ''hbc'') 7 kv_empty, holds = kv_empty\<rparr>"
  let ?c = "\<lparr>Denom = ''hbc'', Amount = 5\<rparr>"
  have wf: "bank_wf ?st" by (simp add: bank_wf_def entries_ok_iff int_ok_def)
  have denom: "validateDenom ''hbc''" by (simp add: validateDenom_def is_alnum_def)
  have "\<exists>flows st1. LockCoin ''alice'' ?c ?st = Some (Inr flows, st1) \<and>
      GetHoldBalance st1 ''alice'' ''hbc'' = 5"
    by (simp add: LockCoin_def SubCoin_def AddCoinHold_def Coin_IsValid_iff denom GetBalance_def
        GetHoldBalance_def Int_Sub_eq Int_Add_eq int_ok_def NewCoin_def validate_def
        setBalance_def setHoldBalance_def Let_def)
  then obtain flows st1 where "LockCoin ''alice'' ?c ?st = Some (Inr flows, st1)"
    "GetHoldBalance st1 ''alice'' ''hbc'' = 5" by blast
  with LockCoin_UnlockCoin [OF wf, of "''alice''" ?c flows st1] show ?thesis by auto
qed

declare GetBalance_def [go_eval] GetHoldBalance_def [go_eval] setBalance_def [go_eval]
  setHoldBalance_def [go_eval] AddCoin_def [go_eval] SubCoin_def [go_eval] AddCoinHold_def [go_eval]
  SubCoinHold_def [go_eval] AddCoins_def [go_eval] SubCoins_def [go_eval] LockCoin_def [go_eval]
  UnlockCoin_def [go_eval] SendCoin_def [go_eval] SendCoins_def [go_eval] Int_Neg_def [go_eval]

end
