(* ===== verification/Custodian.thy ===== *)
theory Custodian
  imports Bank
begin

text \<open>
  \<open>x/custodianunit/types/custodianunit.go\<close>, \<open>x/custodianunit/types/keys.go\<close> and
  \<open>x/custodianunit/keeper.go\<close>: the accounts of the chain, called custodian units (CU), with their keys
  and their store.  A module account of \<open>x/supply\<close> is a CU with a name and permissions.  The keys of
  \<open>tendermint/crypto\<close> are a datatype; a setter that returns an error leaves the unit, so it is \<open>None\<close>.
\<close>

section \<open>Units\<close>

type_synonym CUType = int

definition CUTypeUser :: CUType where "CUTypeUser = 1"
definition CUTypeOp :: CUType where "CUTypeOp = 2"
definition CUTypeORG :: CUType where "CUTypeORG = 3"

datatype PubKey =
    PubKeyEd25519 bytes
  | PubKeySecp256k1 bytes
  | PubKeyMultisigThreshold nat "PubKey list"
  | OtherPubKey bytes

record BaseCU =
  cu_Type :: CUType
  cu_Address :: CUAddress
  cu_PubKey :: "PubKey option"
  cu_Sequence :: uint64
  cu_Symbol :: string

definition NewBaseCU :: "CUType \<Rightarrow> CUAddress \<Rightarrow> PubKey option \<Rightarrow> uint64 \<Rightarrow> BaseCU" where
  "NewBaseCU cutype address pubKey sequence =
     \<lparr>cu_Type = cutype, cu_Address = address, cu_PubKey = pubKey, cu_Sequence = sequence, cu_Symbol = ''''\<rparr>"

definition ProtoBaseCU :: BaseCU where
  "ProtoBaseCU = NewBaseCU 0 '''' None 0"

definition NewBaseCUWithAddress :: "CUAddress \<Rightarrow> CUType \<Rightarrow> BaseCU" where
  "NewBaseCUWithAddress cuaddr cuType = NewBaseCU cuType cuaddr None 0"

definition BaseCU_SetAddress :: "CUAddress \<Rightarrow> BaseCU \<Rightarrow> BaseCU option" where
  "BaseCU_SetAddress cuaddress bcu =
     (if length (cu_Address bcu) \<noteq> 0 then None else Some (bcu\<lparr>cu_Address := cuaddress\<rparr>))"

definition BaseCU_SetCUType :: "CUType \<Rightarrow> BaseCU \<Rightarrow> BaseCU option" where
  "BaseCU_SetCUType cuType bcu = (if cu_Type bcu \<noteq> 0 then None else Some (bcu\<lparr>cu_Type := cuType\<rparr>))"

definition BaseCU_SetPubKey :: "PubKey option \<Rightarrow> BaseCU \<Rightarrow> BaseCU option" where
  "BaseCU_SetPubKey pub bcu =
     (case cu_PubKey bcu of
        Some old \<Rightarrow> if pub \<noteq> Some old then None else Some bcu
      | None \<Rightarrow> (case pub of None \<Rightarrow> None | Some _ \<Rightarrow> Some (bcu\<lparr>cu_PubKey := pub\<rparr>)))"

definition BaseCU_SetSymbol :: "string \<Rightarrow> BaseCU \<Rightarrow> BaseCU option" where
  "BaseCU_SetSymbol symbol bcu =
     (if cu_Type bcu \<noteq> CUTypeOp then None else Some (bcu\<lparr>cu_Symbol := symbol\<rparr>))"

definition BaseCU_SetSequence :: "uint64 \<Rightarrow> BaseCU \<Rightarrow> BaseCU option" where
  "BaseCU_SetSequence seq bcu = Some (bcu\<lparr>cu_Sequence := seq\<rparr>)"

text \<open>The address of a key is its hash, the parameter \<open>addr_of\<close>.\<close>

definition NewBaseCUWithPubkey :: "(PubKey \<Rightarrow> CUAddress) \<Rightarrow> PubKey \<Rightarrow> CUType \<Rightarrow> BaseCU" where
  "NewBaseCUWithPubkey addr_of pub cuType =
     (let cu = NewBaseCUWithAddress (addr_of pub) cuType
      in case BaseCU_SetPubKey (Some pub) cu of None \<Rightarrow> cu | Some cu \<Rightarrow> cu)"

definition BaseCU_Validate :: "(PubKey \<Rightarrow> CUAddress) \<Rightarrow> BaseCU \<Rightarrow> bool" where
  "BaseCU_Validate addr_of bcu =
     (case cu_PubKey bcu of None \<Rightarrow> True | Some pub \<Rightarrow> addr_of pub = cu_Address bcu)"

text \<open>The interface of the units: a plain unit or a module account, which refuses a key and a sequence.\<close>

datatype CU = BaseAccount BaseCU | ModuleAccount BaseCU string "string list"

fun CU_base :: "CU \<Rightarrow> BaseCU" where
  "CU_base (BaseAccount b) = b"
| "CU_base (ModuleAccount b name perms) = b"

abbreviation CU_Address :: "CU \<Rightarrow> CUAddress" where
  "CU_Address cu \<equiv> cu_Address (CU_base cu)"

fun CU_SetPubKey :: "PubKey option \<Rightarrow> CU \<Rightarrow> CU option" where
  "CU_SetPubKey pub (BaseAccount b) = map_option BaseAccount (BaseCU_SetPubKey pub b)"
| "CU_SetPubKey pub (ModuleAccount b name perms) = None"

fun CU_SetSequence :: "uint64 \<Rightarrow> CU \<Rightarrow> CU option" where
  "CU_SetSequence seq (BaseAccount b) = map_option BaseAccount (BaseCU_SetSequence seq b)"
| "CU_SetSequence seq (ModuleAccount b name perms) = None"

section \<open>Keys\<close>

definition AddressStoreKeyPrefix :: bytes where "AddressStoreKeyPrefix = [CHR 0x01]"
definition OpCUPrefix :: bytes where "OpCUPrefix = [CHR 0x02]"
definition CU_Sep :: bytes where "CU_Sep = [CHR 0x01]"
definition ExtAddressPrefix :: bytes where "ExtAddressPrefix = ''extAddress''"

definition AddressStoreKey :: "CUAddress \<Rightarrow> bytes" where
  "AddressStoreKey addr = AddressStoreKeyPrefix @ addr"

definition OpCUKeyPrefix :: "string \<Rightarrow> bytes" where
  "OpCUKeyPrefix symbol = OpCUPrefix @ symbol @ CU_Sep"

definition OpCUKey :: "string \<Rightarrow> CUAddress \<Rightarrow> bytes" where
  "OpCUKey symbol addr = OpCUKeyPrefix symbol @ addr"

text \<open>A key shorter than an address makes the slice expression panic.\<close>

definition AddressFromOpCUKey :: "bytes \<Rightarrow> CUAddress option" where
  "AddressFromOpCUKey key = (if length key < 20 then None else Some (drop (length key - 20) key))"

definition ExtAddressKey :: "string \<Rightarrow> string \<Rightarrow> bytes" where
  "ExtAddressKey chain extAddress = ExtAddressPrefix @ chain @ CU_Sep @ extAddress"

section \<open>The keeper\<close>

text \<open>The three kinds of records of the store, under the parts of their keys.\<close>

record CUStore =
  cus_accounts :: "(CUAddress, CU) kv"
  cus_ops :: "(string \<times> CUAddress, unit) kv"
  cus_exts :: "(string \<times> string, CUAddress) kv"

definition empty_cus :: CUStore where
  "empty_cus = \<lparr>cus_accounts = kv_empty, cus_ops = kv_empty, cus_exts = kv_empty\<rparr>"

definition getCU :: "CUStore \<Rightarrow> CUAddress \<Rightarrow> CU option" where
  "getCU st addr = kv_get (cus_accounts st) addr"

definition GetCU :: "CUStore \<Rightarrow> CUAddress \<Rightarrow> CU option" where
  "GetCU st addr = getCU st addr"

text \<open>A nil address is the empty one.  Panics, which cannot happen, when the fresh unit refuses its type or address.\<close>

definition newCUWithAddress :: "CUAddress \<Rightarrow> CUType \<Rightarrow> CU option" where
  "newCUWithAddress address cuType = do {
     cu \<leftarrow> BaseCU_SetCUType cuType ProtoBaseCU;
     cu \<leftarrow> BaseCU_SetAddress address cu;
     Some (BaseAccount cu) }"

definition GetOrNewCU :: "CUStore \<Rightarrow> CUType \<Rightarrow> CUAddress \<Rightarrow> CU option option" where
  "GetOrNewCU st cuType addr =
     (if addr = '''' then Some None
      else case getCU st addr of
        None \<Rightarrow> if cuType = CUTypeUser then map_option Some (newCUWithAddress addr cuType) else Some None
      | Some cu \<Rightarrow> Some (Some cu))"

definition opCUCheck :: "BaseCU \<Rightarrow> bool" where
  "opCUCheck cu = (cu_Type cu = CUTypeOp \<and> cu_Symbol cu \<noteq> '''' \<and> cu_Address cu \<noteq> '''')"

definition setOpAddress :: "string \<Rightarrow> CUAddress \<Rightarrow> CUStore \<Rightarrow> CUStore" where
  "setOpAddress symbol address st = st\<lparr>cus_ops := kv_set (symbol, address) () (cus_ops st)\<rparr>"

definition SetCU :: "CU \<Rightarrow> CUStore \<Rightarrow> CUStore option" where
  "SetCU cu st = do {
     st \<leftarrow> (if cu_Type (CU_base cu) = CUTypeOp then
              if \<not> opCUCheck (CU_base cu) then None
              else Some (setOpAddress (cu_Symbol (CU_base cu)) (CU_Address cu) st)
            else Some st);
     Some (st\<lparr>cus_accounts := kv_set (CU_Address cu) cu (cus_accounts st)\<rparr>) }"

definition NewOpCUWithAddress :: "CUStore \<Rightarrow> string \<Rightarrow> CUAddress \<Rightarrow> CU option option" where
  "NewOpCUWithAddress st symbol addr =
     (if symbol = '''' \<or> addr = '''' then Some None
      else if GetCU st addr \<noteq> None then Some None
      else do {
        opcu \<leftarrow> newCUWithAddress addr CUTypeOp;
        Some (Some (case BaseCU_SetSymbol symbol (CU_base opcu) of None \<Rightarrow> opcu | Some b \<Rightarrow> BaseAccount b)) })"

definition getOpAddresses :: "CUStore \<Rightarrow> string \<Rightarrow> CUAddress list" where
  "getOpAddresses st symbol =
     map (\<lambda>((_, addr), _). addr)
       (filter (\<lambda>((s, _), _). symbol = '''' \<or> s = symbol) (kv_entries (cus_ops st)))"

text \<open>A unit that is not there is a nil in the list.\<close>

definition GetOpCUs :: "CUStore \<Rightarrow> string \<Rightarrow> CU option list" where
  "GetOpCUs st symbol = map (getCU st) (getOpAddresses st symbol)"

definition GetAllCUs :: "CUStore \<Rightarrow> CU list" where
  "GetAllCUs st = map snd (kv_entries (cus_accounts st))"

definition RemoveCU :: "CU \<Rightarrow> CUStore \<Rightarrow> CUStore" where
  "RemoveCU cu st = st\<lparr>cus_accounts := kv_delete (CU_Address cu) (cus_accounts st)\<rparr>"

definition GetCUFromExtAddress :: "CUStore \<Rightarrow> string \<Rightarrow> string \<Rightarrow> CUAddress option" where
  "GetCUFromExtAddress st chain extAddress =
     (if length chain = 0 \<or> length extAddress = 0 then None
      else kv_get (cus_exts st) (chain, extAddress))"

definition SetExtAddressWithCU :: "string \<Rightarrow> string \<Rightarrow> CUAddress \<Rightarrow> CUStore \<Rightarrow> CUStore" where
  "SetExtAddressWithCU chain extAddress cuAddress st =
     st\<lparr>cus_exts := kv_set (chain, extAddress) cuAddress (cus_exts st)\<rparr>"

section \<open>Facts about the store\<close>

text \<open>Every unit is stored under its address, and the index of the operation units lists exactly them.\<close>

definition cus_wf :: "CUStore \<Rightarrow> bool" where
  "cus_wf st = ((\<forall>a cu. kv_get (cus_accounts st) a = Some cu \<longrightarrow> CU_Address cu = a \<and>
       (cu_Type (CU_base cu) = CUTypeOp \<longrightarrow> kv_get (cus_ops st) (cu_Symbol (CU_base cu), a) = Some ())) \<and>
     (\<forall>s a. kv_get (cus_ops st) (s, a) = Some () \<longrightarrow>
       (\<exists>cu. kv_get (cus_accounts st) a = Some cu \<and> cu_Type (CU_base cu) = CUTypeOp)))"

lemma newCUWithAddress_eq: "newCUWithAddress a t = Some (BaseAccount (NewBaseCU t a None 0))"
  by (simp add: newCUWithAddress_def BaseCU_SetCUType_def BaseCU_SetAddress_def ProtoBaseCU_def NewBaseCU_def)

lemma GetOrNewCU_user:
  "a \<noteq> '''' \<Longrightarrow> GetOrNewCU st CUTypeUser a =
     Some (Some (case getCU st a of None \<Rightarrow> BaseAccount (NewBaseCU CUTypeUser a None 0) | Some cu \<Rightarrow> cu))"
  by (simp add: GetOrNewCU_def newCUWithAddress_eq split: option.split)

lemma SetCU_GetCU: "SetCU cu st = Some st' \<Longrightarrow> GetCU st' a = (if a = CU_Address cu then Some cu else GetCU st a)"
  by (auto simp: SetCU_def GetCU_def getCU_def setOpAddress_def bind_Some_iff split: if_split_asm)

lemma OpCUKey_roundtrip: "length addr = 20 \<Longrightarrow> AddressFromOpCUKey (OpCUKey symbol addr) = Some addr"
  by (simp add: AddressFromOpCUKey_def OpCUKey_def OpCUKeyPrefix_def OpCUPrefix_def CU_Sep_def)

end
