(* ===== verification/Supply.thy ===== *)
theory Supply
  imports Custodian
begin

text \<open>
  \<open>x/supply\<close>: the recorded total supply, the module accounts with their permissions, and the
  operations that mint, burn and move coins of module accounts.  The state puts the supply record
  and the account store beside the ledger of \<open>Bank\<close>.  The hash that gives a module its address
  (\<open>crypto.AddressHash\<close>) is the parameter \<open>hash\<close>.
\<close>

section \<open>The supply record\<close>

record Supply =
  Total :: Coins
  Burned :: Coins

definition NewSupply :: "Coins \<Rightarrow> Supply" where
  "NewSupply tot = \<lparr>Total = tot, Burned = []\<rparr>"

definition DefaultSupply :: "Supply option" where
  "DefaultSupply = do { coins \<leftarrow> NewCoins []; Some (NewSupply coins) }"

definition SetTotal :: "Coins \<Rightarrow> Supply \<Rightarrow> Supply" where
  "SetTotal tot supply = supply\<lparr>Total := tot\<rparr>"

definition Inflate :: "Coins \<Rightarrow> Supply \<Rightarrow> Supply option" where
  "Inflate amount supply = do {
     tot \<leftarrow> Coins_Add (Total supply) amount;
     Some (supply\<lparr>Total := tot\<rparr>) }"

definition Deflate :: "Coins \<Rightarrow> Supply \<Rightarrow> Supply option" where
  "Deflate amount supply = do {
     enough \<leftarrow> IsAllGTE (Total supply) amount;
     supply \<leftarrow> (if enough then do { tot \<leftarrow> Coins_Sub (Total supply) amount; Some (supply\<lparr>Total := tot\<rparr>) }
                else Some supply);
     burned \<leftarrow> Coins_Add (Burned supply) amount;
     Some (supply\<lparr>Burned := burned\<rparr>) }"

definition Supply_ValidateBasic :: "Supply \<Rightarrow> bool" where
  "Supply_ValidateBasic supply = (Coins_IsValid (Total supply) \<and> Coins_IsValid (Burned supply))"

section \<open>Module accounts\<close>

definition Minter :: string where "Minter = ''minter''"
definition Burner :: string where "Burner = ''burner''"
definition Staking :: string where "Staking = ''staking''"

record PermissionsForAddress =
  pa_permissions :: "string list"
  pa_address :: CUAddress

definition NewModuleAddress :: "(bytes \<Rightarrow> CUAddress) \<Rightarrow> string \<Rightarrow> CUAddress" where
  "NewModuleAddress hash name = hash name"

definition NewPermissionsForAddress ::
  "(bytes \<Rightarrow> CUAddress) \<Rightarrow> string \<Rightarrow> string list \<Rightarrow> PermissionsForAddress" where
  "NewPermissionsForAddress hash name permissions =
     \<lparr>pa_permissions = permissions, pa_address = NewModuleAddress hash name\<rparr>"

definition HasPermission :: "string list \<Rightarrow> string \<Rightarrow> bool" where
  "HasPermission permissions permission = list_ex (\<lambda>perm. perm = permission) permissions"

text \<open>\<open>strings.TrimSpace\<close> is empty exactly for a string of white space (for the ASCII
  names that permissions have).\<close>

definition white_space :: "char \<Rightarrow> bool" where
  "white_space c = (c \<in> {CHR '' '', CHR 0x09, CHR 0x0A, CHR 0x0B, CHR 0x0C, CHR 0x0D})"

definition validatePermissions :: "string list \<Rightarrow> bool" where
  "validatePermissions permissions = (\<not> list_ex (\<lambda>perm. list_all white_space perm) permissions)"

text \<open>Panics when a permission is blank.\<close>

definition NewEmptyModuleAccount :: "CUAddress \<Rightarrow> string \<Rightarrow> string list \<Rightarrow> CU option" where
  "NewEmptyModuleAccount moduleAddress name permissions =
     (if \<not> validatePermissions permissions then None
      else Some (ModuleAccount (NewBaseCUWithAddress moduleAddress CUTypeUser) name permissions))"

type_synonym permAddrs = "string \<rightharpoonup> PermissionsForAddress"

definition NewSupplyKeeper :: "(bytes \<Rightarrow> CUAddress) \<Rightarrow> (string \<rightharpoonup> string list) \<Rightarrow> permAddrs" where
  "NewSupplyKeeper hash maccPerms = (\<lambda>name.
     map_option (\<lambda>perms. NewPermissionsForAddress hash name perms) (maccPerms name))"

record ledger =
  lg_bank :: bank
  lg_supply :: "Supply option"
  lg_accounts :: CUStore

definition GetModuleAddress :: "permAddrs \<Rightarrow> string \<Rightarrow> CUAddress option" where
  "GetModuleAddress pa moduleName = map_option pa_address (pa moduleName)"

text \<open>
  The result is the account's address and permissions, \<open>None\<close> inside for a nil account; the outer
  option is the panic when the address holds an account of another kind or the registered
  permissions contain a blank one.
\<close>

definition GetModuleAccount ::
  "permAddrs \<Rightarrow> string \<Rightarrow> ledger \<Rightarrow> ((CUAddress \<times> string list) option \<times> ledger) option" where
  "GetModuleAccount pa moduleName st =
     (case pa moduleName of
        None \<Rightarrow> Some (None, st)
      | Some permAddr \<Rightarrow>
          (case GetCU (lg_accounts st) (pa_address permAddr) of
             Some (BaseAccount _) \<Rightarrow> None
           | Some (ModuleAccount _ name perms) \<Rightarrow> Some (Some (pa_address permAddr, perms), st)
           | None \<Rightarrow> do {
               macc \<leftarrow> NewEmptyModuleAccount (pa_address permAddr) moduleName (pa_permissions permAddr);
               cus \<leftarrow> SetCU macc (lg_accounts st);
               Some (Some (pa_address permAddr, pa_permissions permAddr), st\<lparr>lg_accounts := cus\<rparr>) }))"

definition GetSupply :: "ledger \<Rightarrow> Supply option" where
  "GetSupply st = lg_supply st"

definition SetSupply :: "Supply \<Rightarrow> ledger \<Rightarrow> ledger" where
  "SetSupply supply st = st\<lparr>lg_supply := Some supply\<rparr>"

text \<open>A call of the transfer keeper from a keeper whose state contains the ledger.\<close>

definition on_bank :: "(bank \<Rightarrow> ('a, bank) outcome) \<Rightarrow> ledger \<Rightarrow> ('a, ledger) outcome" where
  "on_bank f st = map_option (\<lambda>(r, b). (r, st\<lparr>lg_bank := b\<rparr>)) (f (lg_bank st))"

definition SendCoinsFromModuleToAccount ::
  "permAddrs \<Rightarrow> string \<Rightarrow> CUAddress \<Rightarrow> Coins \<Rightarrow> ledger \<Rightarrow> (BalanceFlow list, ledger) outcome" where
  "SendCoinsFromModuleToAccount pa senderModule recipientAddr amt st =
     (case GetModuleAddress pa senderModule of
        None \<Rightarrow> Some (Inl ErrUnknownAddress, st)
      | Some senderAddr \<Rightarrow>
          on_bank (SendCoins senderAddr recipientAddr amt) st)"

definition SendCoinsFromModuleToModule ::
  "permAddrs \<Rightarrow> string \<Rightarrow> string \<Rightarrow> Coins \<Rightarrow> ledger \<Rightarrow> (BalanceFlow list, ledger) outcome" where
  "SendCoinsFromModuleToModule pa senderModule recipientModule amt st =
     (case GetModuleAddress pa senderModule of
        None \<Rightarrow> Some (Inl ErrUnknownAddress, st)
      | Some senderAddr \<Rightarrow> do {
          (recipientAcc, st) \<leftarrow> GetModuleAccount pa recipientModule st;
          (recipientAddr, _) \<leftarrow> recipientAcc;
          on_bank (SendCoins senderAddr recipientAddr amt) st })"

definition SendCoinsFromAccountToModule ::
  "permAddrs \<Rightarrow> CUAddress \<Rightarrow> string \<Rightarrow> Coins \<Rightarrow> ledger \<Rightarrow> (BalanceFlow list, ledger) outcome" where
  "SendCoinsFromAccountToModule pa senderAddr recipientModule amt st = do {
     (recipientAcc, st) \<leftarrow> GetModuleAccount pa recipientModule st;
     (recipientAddr, _) \<leftarrow> recipientAcc;
     on_bank (SendCoins senderAddr recipientAddr amt) st }"

text \<open>\<open>panic(err)\<close> on an error of the transfer keeper.\<close>

definition panic_on_error :: "('a, 's) outcome \<Rightarrow> ('a \<times> 's) option" where
  "panic_on_error m = (case m of Some (Inr x, s) \<Rightarrow> Some (x, s) | _ \<Rightarrow> None)"

definition MintCoins :: "permAddrs \<Rightarrow> string \<Rightarrow> Coins \<Rightarrow> ledger \<Rightarrow> (unit, ledger) outcome" where
  "MintCoins pa moduleName amt st = do {
     (acc, st) \<leftarrow> GetModuleAccount pa moduleName st;
     case acc of
       None \<Rightarrow> Some (Inl ErrUnknownAddress, st)
     | Some (addr, perms) \<Rightarrow>
         if \<not> HasPermission perms Minter then None
         else do {
           (_, st) \<leftarrow> panic_on_error (on_bank (AddCoins addr amt) st);
           supply \<leftarrow> GetSupply st;
           supply \<leftarrow> Inflate amt supply;
           Some (Inr (), SetSupply supply st) } }"

definition BurnCoins :: "permAddrs \<Rightarrow> string \<Rightarrow> Coins \<Rightarrow> ledger \<Rightarrow> (unit, ledger) outcome" where
  "BurnCoins pa moduleName amt st = do {
     (acc, st) \<leftarrow> GetModuleAccount pa moduleName st;
     case acc of
       None \<Rightarrow> Some (Inl ErrUnknownAddress, st)
     | Some (addr, perms) \<Rightarrow>
         if \<not> HasPermission perms Burner then None
         else do {
           (_, st) \<leftarrow> panic_on_error (on_bank (SubCoins addr amt) st);
           supply \<leftarrow> GetSupply st;
           supply \<leftarrow> Deflate amt supply;
           Some (Inr (), SetSupply supply st) } }"

section \<open>The recorded supply follows the ledger\<close>

text \<open>How far the recorded supply of a symbol exceeds what the ledger holds.\<close>

definition supply_gap :: "ledger \<Rightarrow> Symbol \<Rightarrow> int" where
  "supply_gap st tok =
     (case lg_supply st of None \<Rightarrow> 0 | Some supply \<Rightarrow> amount_of (Total supply) tok)
      - bank_total (lg_bank st) tok"

definition supply_wf :: "ledger \<Rightarrow> bool" where
  "supply_wf st = (bank_wf (lg_bank st) \<and>
     (case lg_supply st of None \<Rightarrow> False
      | Some supply \<Rightarrow> denoms_sorted (Total supply) \<and> denoms_sorted (Burned supply)))"

lemma GetModuleAccount_keeps:
  "GetModuleAccount pa m st = Some (acc, st') \<Longrightarrow> lg_bank st' = lg_bank st \<and> lg_supply st' = lg_supply st"
  by (auto simp: GetModuleAccount_def bind_Some_iff split: option.splits CU.splits if_splits)

lemma on_bank_Inr:
  "panic_on_error (on_bank f st) = Some (x, st') \<longleftrightarrow>
     (\<exists>b. f (lg_bank st) = Some (Inr x, b) \<and> st' = st\<lparr>lg_bank := b\<rparr>)"
  by (auto simp: panic_on_error_def on_bank_def split: option.splits sum.splits)

lemma IsAllGTE_covered:
  assumes "denoms_sorted as" and "denoms_sorted bs" and "\<And>c. c \<in> set bs \<Longrightarrow> validateDenom (Denom c)"
    and "\<And>d. amount_of bs d \<le> amount_of as d" and "\<And>c. c \<in> set bs \<Longrightarrow> 0 < Amount c"
  shows "IsAllGTE as bs = Some True"
proof -
  have "as \<noteq> []" if "bs \<noteq> []"
  proof
    assume "as = []"
    with that assms(4) [of "Denom (hd bs)"] assms(5) [of "hd bs"]
      amount_of_member [OF assms(2), of "hd bs"] show False by simp
  qed
  moreover have "amount_of bs (Denom c) = Amount c" if "c \<in> set bs" for c
    using amount_of_member [OF assms(2) that] .
  then have "go_all (\<lambda>coinB. do { amountA \<leftarrow> AmountOf as (Denom coinB);
      Some (\<not> Amount coinB > amountA) }) bs = Some True"
    using assms(4) AmountOf_eq [OF assms(1) assms(3)] unfolding go_all_True
    by (auto simp: not_less) metis
  ultimately show ?thesis by (auto simp: IsAllGTE_def)
qed

text \<open>
  C30. Minting keeps the recorded supply in step with the ledger: when \<open>MintCoins\<close> succeeds, the
  recorded total and the coins held by all accounts grow by the same amount for every symbol.
\<close>

theorem MintCoins_in_step:
  assumes "MintCoins pa moduleName amt st = Some (Inr (), st')" and "supply_wf st"
  shows "supply_gap st' tok = supply_gap st tok \<and>
     bank_total (lg_bank st') tok = bank_total (lg_bank st) tok + amount_of amt tok"
proof -
  obtain acc st1 addr perms r b sp sp' where
    acc: "GetModuleAccount pa moduleName st = Some (acc, st1)" and
    add: "AddCoins addr amt (lg_bank st1) = Some (Inr r, b)" and
    sup: "lg_supply st1 = Some sp" and
    inf: "Inflate amt sp = Some sp'" and
    st': "st' = SetSupply sp' (st1\<lparr>lg_bank := b\<rparr>)"
    using assms(1)
    by (auto simp: MintCoins_def on_bank_Inr GetSupply_def go_simps split: option.splits if_splits)
  have same: "lg_bank st1 = lg_bank st" "lg_supply st1 = lg_supply st"
    using GetModuleAccount_keeps [OF acc] by simp_all
  have bank: "bank_total b tok = bank_total (lg_bank st) tok + amount_of amt tok"
    using AddCoins_Inr(1) [OF add, of tok] AddCoins_Inr(2) [OF add] by (simp add: same bank_total_def hold_total_def)
  have "denoms_sorted amt"
    using add by (auto simp: AddCoins_def Coins_IsValid_iff split: if_splits)
  moreover have "denoms_sorted (Total sp)" using assms(2) sup same by (simp add: supply_wf_def)
  ultimately have "amount_of (Total sp') tok = amount_of (Total sp) tok + amount_of amt tok"
    using inf safeAdd_norm by (auto simp: Inflate_def Coins_Add_def go_simps)
  then show ?thesis using bank sup same by (simp add: st' supply_gap_def SetSupply_def)
qed

text \<open>A concrete ledger for the instances: the module's address holds 7 of the 10 recorded coins.\<close>

definition sample_perms :: permAddrs where
  "sample_perms = NewSupplyKeeper (\<lambda>name. name) [''openswap'' \<mapsto> [Minter, Burner]]"

definition sample_ledger :: ledger where
  "sample_ledger =
     \<lparr>lg_bank = \<lparr>balances = kv_set (''openswap'', ''hbc'') 7 kv_empty, holds = kv_empty\<rparr>,
      lg_supply = Some (NewSupply [\<lparr>Denom = ''hbc'', Amount = 10\<rparr>]),
      lg_accounts = empty_cus\<rparr>"

theorem MintCoins_in_step_witness:
  "\<exists>st'. MintCoins sample_perms ''openswap'' [\<lparr>Denom = ''hbc'', Amount = 5\<rparr>] sample_ledger =
     Some (Inr (), st') \<and> supply_gap st' ''hbc'' = 3 \<and> bank_total (lg_bank st') ''hbc'' = 12"
proof -
  let ?amt = "[\<lparr>Denom = ''hbc'', Amount = 5\<rparr>]"
  have "supply_wf sample_ledger" by code_simp
  moreover have "supply_gap sample_ledger ''hbc'' = 3" "bank_total (lg_bank sample_ledger) ''hbc'' = 7"
    "amount_of ?amt ''hbc'' = 5" by code_simp+
  moreover have "(case MintCoins sample_perms ''openswap'' ?amt sample_ledger of
      Some (Inr (), st') \<Rightarrow> True | _ \<Rightarrow> False)" by code_simp
  ultimately show ?thesis
    using MintCoins_in_step [of sample_perms "''openswap''" ?amt sample_ledger _ "''hbc''"]
    by (auto split: option.splits sum.splits)
qed

text \<open>
  Burning keeps the recorded supply in step as well, as long as the supply covers what the
  ledger holds: then the guard in \<open>Deflate\<close> passes, the recorded total shrinks by exactly the
  burnt amount, and the burnt amount is added to the record of burnt coins.
\<close>

theorem BurnCoins_in_step:
  assumes "BurnCoins pa moduleName amt st = Some (Inr (), st')" and "supply_wf st"
    and "\<forall>s. 0 \<le> supply_gap st s"
  shows "supply_gap st' tok = supply_gap st tok \<and>
     bank_total (lg_bank st') tok = bank_total (lg_bank st) tok - amount_of amt tok \<and>
     (\<exists>sp sp'. lg_supply st = Some sp \<and> lg_supply st' = Some sp' \<and>
        amount_of (Burned sp') tok = amount_of (Burned sp) tok + amount_of amt tok)"
proof -
  obtain acc st1 addr perms r b sp sp' where
    acc: "GetModuleAccount pa moduleName st = Some (acc, st1)" and
    sub: "SubCoins addr amt (lg_bank st1) = Some (Inr r, b)" and
    sup: "lg_supply st1 = Some sp" and
    def': "Deflate amt sp = Some sp'" and
    st': "st' = SetSupply sp' (st1\<lparr>lg_bank := b\<rparr>)"
    using assms(1)
    by (auto simp: BurnCoins_def on_bank_Inr GetSupply_def go_simps split: option.splits if_splits)
  have same: "lg_bank st1 = lg_bank st" "lg_supply st1 = lg_supply st"
    using GetModuleAccount_keeps [OF acc] by simp_all
  have wf: "bank_wf (lg_bank st)" "denoms_sorted (Total sp)" "denoms_sorted (Burned sp)"
    using assms(2) sup same by (simp_all add: supply_wf_def)
  have bank: "bank_total b s = bank_total (lg_bank st) s - amount_of amt s" for s
    using SubCoins_Inr(1) [OF sub, of s] SubCoins_Inr(2) [OF sub] by (simp add: same bank_total_def hold_total_def)
  have amt: "Coins_IsValid amt" "\<And>c. c \<in> set amt \<Longrightarrow> validateDenom (Denom c)"
    "\<And>s. amount_of amt s \<le> GetBalance (lg_bank st) addr s"
    using SubCoins_covered [OF sub] wf(1) same by auto
  have srt: "denoms_sorted amt" "\<And>c. c \<in> set amt \<Longrightarrow> 0 < Amount c"
    using amt(1) by (simp_all add: Coins_IsValid_iff)
  have "lg_supply st = Some sp" using sup same by simp
  then have cover: "bank_total (lg_bank st) s \<le> amount_of (Total sp) s" for s
    using assms(3) [rule_format, of s] by (simp add: supply_gap_def)
  have "amount_of amt s \<le> amount_of (Total sp) s" for s
    using cover [of s] amt(3) [of s] free_total_ge(1) [OF wf(1), of addr s] free_total_ge(2) [OF wf(1), of s]
    unfolding bank_total_def by linarith
  then have "IsAllGTE (Total sp) amt = Some True"
    using IsAllGTE_covered wf(2) srt amt(2) by blast
  then obtain tot burned where
    tot: "Coins_Sub (Total sp) amt = Some tot" and
    burned: "Coins_Add (Burned sp) amt = Some burned" and
    sp'_def: "sp' = sp\<lparr>Total := tot, Burned := burned\<rparr>"
    using def' by (auto simp: Deflate_def go_simps)
  have "amount_of tot tok = amount_of (Total sp) tok - amount_of amt tok"
    using Coins_Sub_Some [OF tot wf(2) srt(1)] by blast
  moreover have "amount_of burned tok = amount_of (Burned sp) tok + amount_of amt tok"
    using burned safeAdd_norm wf(3) srt(1) by (auto simp: Coins_Add_def)
  ultimately show ?thesis using bank sup same by (simp add: st' sp'_def supply_gap_def SetSupply_def)
qed

theorem BurnCoins_in_step_witness:
  "\<exists>st'. BurnCoins sample_perms ''openswap'' [\<lparr>Denom = ''hbc'', Amount = 5\<rparr>] sample_ledger =
     Some (Inr (), st') \<and> supply_gap st' ''hbc'' = 3 \<and> bank_total (lg_bank st') ''hbc'' = 2"
proof -
  let ?amt = "[\<lparr>Denom = ''hbc'', Amount = 5\<rparr>]"
  have "supply_wf sample_ledger" by code_simp
  moreover have "\<forall>s. 0 \<le> supply_gap sample_ledger s"
    by (simp add: supply_gap_def sample_ledger_def NewSupply_def bank_total_def free_total_def
        hold_total_def symbol_sum_def)
  moreover have "supply_gap sample_ledger ''hbc'' = 3" "bank_total (lg_bank sample_ledger) ''hbc'' = 7"
    "amount_of ?amt ''hbc'' = 5" by code_simp+
  moreover have "(case BurnCoins sample_perms ''openswap'' ?amt sample_ledger of
      Some (Inr (), st') \<Rightarrow> True | _ \<Rightarrow> False)" by code_simp
  ultimately show ?thesis
    using BurnCoins_in_step [of sample_perms "''openswap''" ?amt sample_ledger _ "''hbc''"]
    by (auto split: option.splits sum.splits)
qed

declare NewSupply_def [go_eval] Inflate_def [go_eval] Deflate_def [go_eval] GetModuleAddress_def [go_eval]
  GetModuleAccount_def [go_eval] GetSupply_def [go_eval] SetSupply_def [go_eval] on_bank_def [go_eval]
  SendCoinsFromModuleToAccount_def [go_eval] panic_on_error_def [go_eval] MintCoins_def [go_eval]
  BurnCoins_def [go_eval] HasPermission_def [go_eval] NewSupplyKeeper_def [go_eval]
  NewPermissionsForAddress_def [go_eval] NewModuleAddress_def [go_eval] validatePermissions_def [go_eval]
  white_space_def [go_eval] Minter_def [go_eval] Burner_def [go_eval]

end
