(* ===== verification/SwapTypes.thy ===== *)
theory SwapTypes
  imports Supply SdkDec Gas
begin

text \<open>
  \<open>x/openswap/types\<close>: the data of the exchange module (dexes, trading pairs, fee rates, limit
  orders, parameters) with their validation, and the state the keeper works on.  The store of the
  module is a record with one map per key family; \<open>SwapKeys\<close> shows that the byte keys of the
  source separate the families and their entries.  Decimals are integers in units of
  \<open>10\<^sup>-\<^sup>1\<^sup>8\<close>.
\<close>

section \<open>Data\<close>

definition NativeToken :: Symbol where "NativeToken = ''hbc''"
definition NativeDefiToken :: Symbol where "NativeDefiToken = ''hdt''"
definition ModuleName :: string where "ModuleName = ''openswap''"

definition Symbol_IsValid :: "Symbol \<Rightarrow> bool" where
  "Symbol_IsValid s = validateDenom s"

text \<open>What the module reads of a token of the token keeper.\<close>

record Token =
  tok_Weight :: int
  tok_SendEnabled :: bool
  tok_TotalSupply :: int

record TradingPair =
  DexID :: uint32
  TokenA :: Symbol
  TokenB :: Symbol
  TokenAAmount :: int
  TokenBAmount :: int
  TotalLiquidity :: int
  IsPublic :: bool
  LPRewardRate :: Dec
  RefererRewardRate :: Dec

definition NewDefaultTradingPair :: "Symbol \<Rightarrow> Symbol \<Rightarrow> int \<Rightarrow> TradingPair" where
  "NewDefaultTradingPair tokenA tokenB initialLiquidity =
     \<lparr>DexID = 0, TokenA = tokenA, TokenB = tokenB, TokenAAmount = 0, TokenBAmount = 0,
      TotalLiquidity = initialLiquidity, IsPublic = True, LPRewardRate = ZeroDec,
      RefererRewardRate = ZeroDec\<rparr>"

definition NewCustomTradingPair ::
  "uint32 \<Rightarrow> Symbol \<Rightarrow> Symbol \<Rightarrow> bool \<Rightarrow> Dec \<Rightarrow> Dec \<Rightarrow> TradingPair" where
  "NewCustomTradingPair dexID tokenA tokenB isPublic lpRewardRate refererRewardRate =
     \<lparr>DexID = dexID, TokenA = tokenA, TokenB = tokenB, TokenAAmount = 0, TokenBAmount = 0,
      TotalLiquidity = 0, IsPublic = isPublic, LPRewardRate = lpRewardRate,
      RefererRewardRate = refererRewardRate\<rparr>"

text \<open>True stands for the nil error in the validations below.\<close>

definition TradingPair_Validate :: "TradingPair \<Rightarrow> bool" where
  "TradingPair_Validate t =
     (if TokenA t \<ge> TokenB t then False
      else if \<not> Symbol_IsValid (TokenA t) \<or> \<not> Symbol_IsValid (TokenB t) then False
      else True)"

definition Price :: "TradingPair \<Rightarrow> Dec option" where
  "Price t =
     (if TokenAAmount t = 0 then Some ZeroDec
      else Dec_Quo (ToDec (TokenBAmount t)) (ToDec (TokenAAmount t)))"

record AddrLiquidity =
  al_TradingPair :: TradingPair
  al_Liquidity :: int
  al_LiquidityShare :: Dec

definition NewAddrLiquidity :: "TradingPair \<Rightarrow> int \<Rightarrow> AddrLiquidity option" where
  "NewAddrLiquidity pair liquidity = do {
     share \<leftarrow> Dec_Quo (NewDecFromInt liquidity) (NewDecFromInt (TotalLiquidity pair));
     Some \<lparr>al_TradingPair = pair, al_Liquidity = liquidity, al_LiquidityShare = share\<rparr> }"

record FeeRate =
  fr_LPRewardRate :: Dec
  fr_RepurchaseRate :: Dec
  fr_RefererRewardRate :: Dec

definition NewFeeRate :: "Dec \<Rightarrow> Dec \<Rightarrow> Dec \<Rightarrow> FeeRate" where
  "NewFeeRate lpRewardRate repurchaseRate refererRewardRate =
     \<lparr>fr_LPRewardRate = lpRewardRate, fr_RepurchaseRate = repurchaseRate,
      fr_RefererRewardRate = refererRewardRate\<rparr>"

definition TotalFeeRate :: "FeeRate \<Rightarrow> Dec option" where
  "TotalFeeRate f = do {
     s \<leftarrow> Dec_Add (fr_LPRewardRate f) (fr_RefererRewardRate f);
     Dec_Add s (fr_RepurchaseRate f) }"

datatype OrderStatus =
    OrderStatusNew | OrderStatusPartiallyFilled | OrderStatusFilled
  | OrderStatusCanceled | OrderStatusExpired

datatype OrderSide = OrderSideBuy | OrderSideSell

record Order =
  o_OrderID :: string
  o_DexID :: uint32
  o_From :: CUAddress
  o_Referer :: CUAddress
  o_Receiver :: CUAddress
  o_CreatedTime :: int
  o_ExpiredTime :: int
  o_FinishedTime :: int
  o_Status :: OrderStatus
  o_Side :: OrderSide
  o_BaseSymbol :: Symbol
  o_QuoteSymbol :: Symbol
  o_Price :: Dec
  o_AmountIn :: int
  o_LockedFund :: int
  o_FeeRate :: FeeRate

definition IsFinished :: "Order \<Rightarrow> bool" where
  "IsFinished ord = (o_Status ord = OrderStatusFilled \<or> o_Status ord = OrderStatusCanceled \<or>
     o_Status ord = OrderStatusExpired)"

definition RemainQuantity :: "Order \<Rightarrow> int option" where
  "RemainQuantity ord =
     (if o_Side ord = OrderSideSell then Some (o_LockedFund ord)
      else do { q \<leftarrow> Dec_Quo (ToDec (o_LockedFund ord)) (o_Price ord); Dec_TruncateInt q })"

definition LessThan :: "Order \<Rightarrow> Order \<Rightarrow> bool" where
  "LessThan a b =
     (if o_Price a = o_Price b then
        (if o_CreatedTime a = o_CreatedTime b then o_OrderID a < o_OrderID b
         else o_CreatedTime a < o_CreatedTime b)
      else o_Price a < o_Price b)"

record Dex =
  dex_ID :: uint32
  dex_Name :: string
  dex_Owner :: CUAddress
  dex_IncomeReceiver :: CUAddress

definition maxDexNameLength :: nat where
  "maxDexNameLength = 32"

text \<open>
  The address test \<open>IsValidAddr\<close> of an address checks its length and that its base-58 text form
  decodes; the second part is the parameter \<open>decodes\<close>.
\<close>

definition IsValidAddr :: "(CUAddress \<Rightarrow> bool) \<Rightarrow> CUAddress \<Rightarrow> bool" where
  "IsValidAddr decodes ca = (if length ca \<noteq> AddrLen then False else decodes ca)"

text \<open>The test of an order identifier; the parser of UUIDs is the parameter \<open>uuid_ok\<close>.\<close>

definition IsIllegalOrderID :: "(string \<Rightarrow> bool) \<Rightarrow> string \<Rightarrow> bool" where
  "IsIllegalOrderID uuid_ok orderID = (\<not> uuid_ok orderID)"

fun illegal_ids_loop :: "(string \<Rightarrow> bool) \<Rightarrow> string list \<Rightarrow> string list \<Rightarrow> bool" where
  "illegal_ids_loop uuid_ok existent [] = False"
| "illegal_ids_loop uuid_ok existent (i # ids) =
     (if IsIllegalOrderID uuid_ok i \<or> i \<in> set existent then True
      else illegal_ids_loop uuid_ok (i # existent) ids)"

definition IsIllegalOrderIDList :: "(string \<Rightarrow> bool) \<Rightarrow> string list \<Rightarrow> bool" where
  "IsIllegalOrderIDList uuid_ok orderIDs = illegal_ids_loop uuid_ok [] orderIDs"

definition Dex_Validate :: "(CUAddress \<Rightarrow> bool) \<Rightarrow> Dex \<Rightarrow> bool" where
  "Dex_Validate decodes d =
     (if dex_Name d = '''' \<or> length (dex_Name d) > maxDexNameLength then False
      else if \<not> IsValidAddr decodes (dex_Owner d) then False
      else if \<not> IsValidAddr decodes (dex_IncomeReceiver d) then False
      else True)"

section \<open>Parameters\<close>

record MiningWeight =
  mw_DexID :: uint32
  mw_TokenA :: Symbol
  mw_TokenB :: Symbol
  mw_Weight :: int

record MiningPlan =
  mp_StartHeight :: uint64
  mp_MiningPerBlock :: int

record Params =
  MinimumLiquidity :: int
  LimitSwapMatchingGas :: nat
  MaxFeeRate :: Dec
  LpRewardRate :: Dec
  RepurchaseRate :: Dec
  RefererTransactionBonusRate :: Dec
  RefererMiningBonusRate :: Dec
  RepurchaseDuration :: int
  MiningWeights :: "MiningWeight list"
  MiningPlans :: "MiningPlan list"
  RepurchaseToken :: string

text \<open>The package-level defaults; \<open>NewDecWithPrec\<close> does not panic at these arguments.\<close>

definition DefaultParams :: Params where
  "DefaultParams =
     \<lparr>MinimumLiquidity = 1000, LimitSwapMatchingGas = 50000,
      MaxFeeRate = the (NewDecWithPrec 1 1), LpRewardRate = the (NewDecWithPrec 25 4),
      RepurchaseRate = the (NewDecWithPrec 4 4),
      RefererTransactionBonusRate = the (NewDecWithPrec 1 4),
      RefererMiningBonusRate = the (NewDecWithPrec 1 1), RepurchaseDuration = 1000,
      MiningWeights = [], MiningPlans = [], RepurchaseToken = NativeToken\<rparr>"

lemma NewDecWithPrec_eq:
  "0 \<le> prec \<Longrightarrow> prec \<le> 18 \<Longrightarrow> NewDecWithPrec i prec = Some (i * 10 ^ nat (18 - prec))"
  by (simp add: NewDecWithPrec_def precisionMultiplier_eq)

lemma DefaultParams_val [code]:
  "DefaultParams =
     \<lparr>MinimumLiquidity = 1000, LimitSwapMatchingGas = 50000,
      MaxFeeRate = 100000000000000000, LpRewardRate = 2500000000000000,
      RepurchaseRate = 400000000000000, RefererTransactionBonusRate = 100000000000000,
      RefererMiningBonusRate = 100000000000000000, RepurchaseDuration = 1000,
      MiningWeights = [], MiningPlans = [], RepurchaseToken = ''hbc''\<rparr>"
  by (simp add: DefaultParams_def NewDecWithPrec_eq NativeToken_def)

text \<open>The map from pair names to true is the list of the names seen so far.\<close>

fun validate_weights :: "string list \<Rightarrow> MiningWeight list \<Rightarrow> bool" where
  "validate_weights exists [] = True"
| "validate_weights exists (w # ws) =
     (if mw_TokenA w = mw_TokenB w then False
      else
        let (tokenA, tokenB) = (if mw_TokenA w > mw_TokenB w then (mw_TokenB w, mw_TokenA w)
                                else (mw_TokenA w, mw_TokenB w));
            pair = tokenA @ ''-'' @ tokenB
        in if pair \<in> set exists then False
           else if \<not> mw_Weight w > 0 then False
           else validate_weights (pair # exists) ws)"

fun validate_plans :: "MiningPlan option \<Rightarrow> MiningPlan list \<Rightarrow> bool" where
  "validate_plans prev [] = True"
| "validate_plans prev (w # ws) =
     (if \<not> mp_MiningPerBlock w > 0 then False
      else if (case prev of None \<Rightarrow> False | Some p \<Rightarrow> mp_StartHeight w \<le> mp_StartHeight p) then False
      else validate_plans (Some w) ws)"

definition Params_Validate :: "Params \<Rightarrow> bool option" where
  "Params_Validate p =
     (if \<not> MinimumLiquidity p > 0 then Some False
      else if MaxFeeRate p < 0 \<or> MaxFeeRate p > OneDec then Some False
      else if LpRewardRate p < 0 then Some False
      else if RepurchaseRate p < 0 then Some False
      else if RefererTransactionBonusRate p < 0 then Some False
      else do {
        s \<leftarrow> Dec_Add (LpRewardRate p) (RepurchaseRate p);
        s \<leftarrow> Dec_Add s (RefererTransactionBonusRate p);
        Some (if s > MaxFeeRate p then False
              else if RepurchaseDuration p \<le> 0 then False
              else if RefererMiningBonusRate p < 0 \<or> RefererMiningBonusRate p > OneDec then False
              else validate_weights [] (MiningWeights p) \<and> validate_plans None (MiningPlans p)) })"

section \<open>The state of the module\<close>

text \<open>
  The context of a call: height and time of the block, the token table of the token keeper, the
  registered module accounts and the address hash.
\<close>

record Context =
  BlockHeight :: int
  BlockTime :: int
  GetToken :: "Symbol \<Rightarrow> Token option"
  ctx_permAddrs :: permAddrs
  ctx_hash :: "bytes \<Rightarrow> CUAddress"

definition ModuleCUAddress :: "Context \<Rightarrow> CUAddress" where
  "ModuleCUAddress ctx = ctx_hash ctx ModuleName"

type_synonym pair_key = "uint32 \<times> Symbol \<times> Symbol"
type_synonym addr_pair_key = "CUAddress \<times> uint32 \<times> Symbol \<times> Symbol"

record swap_state =
  sw_ledger :: ledger
  sw_params :: Params
  sw_dexes :: "(uint32, Dex) kv"
  sw_dexID :: uint32
  sw_pairs :: "(pair_key, TradingPair) kv"
  sw_liquidity :: "(addr_pair_key, int) kv"
  sw_orders :: "(string, Order) kv"
  sw_unfinished :: "(CUAddress \<times> uint32 \<times> Symbol \<times> Symbol \<times> string, unit) kv"
  sw_waitInsert :: "string list"
  sw_waitRemove :: "string list"
  sw_referers :: "(CUAddress, CUAddress) kv"
  sw_totalShare :: "(pair_key, Dec) kv"
  sw_globalMask :: "(pair_key, Dec) kv"
  sw_addrMask :: "(addr_pair_key, Dec) kv"
  sw_repurchase :: "(Symbol, int) kv"
  sw_gas :: GasMeter

text \<open>Calls of the keepers below that change a part of the state.\<close>

definition on_ledger :: "(ledger \<Rightarrow> ('a, ledger) outcome) \<Rightarrow> swap_state \<Rightarrow> ('a, swap_state) outcome" where
  "on_ledger f st = map_option (\<lambda>(r, l). (r, st\<lparr>sw_ledger := l\<rparr>)) (f (sw_ledger st))"

definition transfer :: "(bank \<Rightarrow> ('a, bank) outcome) \<Rightarrow> swap_state \<Rightarrow> ('a, swap_state) outcome" where
  "transfer f = on_ledger (on_bank f)"

text \<open>\<open>ConsumeGas\<close> of the context's meter; the transaction is aborted by its panic.\<close>

definition consume_gas :: "uint64 \<Rightarrow> swap_state \<Rightarrow> swap_state option" where
  "consume_gas amount st =
     (case ConsumeGas amount (sw_gas st) of
        (None, m) \<Rightarrow> Some (st\<lparr>sw_gas := m\<rparr>)
      | (Some _, _) \<Rightarrow> None)"

declare NewDefaultTradingPair_def [go_eval] NewCustomTradingPair_def [go_eval] Price_def [go_eval]
  NewFeeRate_def [go_eval] TotalFeeRate_def [go_eval] DefaultParams_val [go_eval] on_ledger_def [go_eval]
  transfer_def [go_eval] NativeToken_def [go_eval] NativeDefiToken_def [go_eval] ModuleName_def [go_eval]
  ModuleCUAddress_def [go_eval] Dec_Add_def [go_eval] Dec_Sub_def [go_eval] OneDec_def [go_eval]
  ZeroDec_def [go_eval]

end
