(* ===== verification/SwapKeys.thy ===== *)
theory SwapKeys
  imports SwapTypes
begin

text \<open>
  \<open>x/openswap/types/keys.go\<close>: the byte keys of the module's store.  The keeper's model uses one map per
  key family at structured keys; the theorems here are what makes that the same store: on valid
  symbols and addresses, keys of different families and of different entries never coincide, the
  decoders recover what was encoded, and the keys of the pairs are iterated in the order of the
  structured keys.
\<close>

section \<open>Encoding\<close>

definition Uint32ToBigEndian :: "uint32 \<Rightarrow> bytes" where
  "Uint32ToBigEndian i =
     (let n = unat i
      in [char_of (n div 16777216), char_of (n div 65536 mod 256), char_of (n div 256 mod 256), char_of (n mod 256)])"

definition BigEndian_Uint32 :: "bytes \<Rightarrow> uint32 option" where
  "BigEndian_Uint32 b =
     (if length b < 4 then None
      else Some (of_nat (((of_char (b ! 0) * 256 + of_char (b ! 1)) * 256 + of_char (b ! 2)) * 256 + of_char (b ! 3))))"

definition key_prefix :: "nat \<Rightarrow> bytes" where
  "key_prefix n = [char_of n]"

definition DexKeyPrefix :: bytes where "DexKeyPrefix = key_prefix 0"
definition DexIDKey :: bytes where "DexIDKey = key_prefix 1"
definition TradingPairKeyPrefix :: bytes where "TradingPairKeyPrefix = key_prefix 2"
definition LiquidityKeyPrefix :: bytes where "LiquidityKeyPrefix = key_prefix 3"
definition OrderKeyPrefix :: bytes where "OrderKeyPrefix = key_prefix 4"
definition UnfinishedOrderKeyPrefix :: bytes where "UnfinishedOrderKeyPrefix = key_prefix 5"
definition WaitToInsertMatchingKey :: bytes where "WaitToInsertMatchingKey = key_prefix 6"
definition WaitToRemoveFromMatchingKey :: bytes where "WaitToRemoveFromMatchingKey = key_prefix 7"
definition RefererKeyPrefix :: bytes where "RefererKeyPrefix = key_prefix 8"
definition TotalShareKeyPrefix :: bytes where "TotalShareKeyPrefix = key_prefix 9"
definition GlobalMaskKeyPrefix :: bytes where "GlobalMaskKeyPrefix = key_prefix 10"
definition AddrMaskKeyPrefix :: bytes where "AddrMaskKeyPrefix = key_prefix 11"
definition RepurchaseFundKeyPrefix :: bytes where "RepurchaseFundKeyPrefix = key_prefix 12"

definition DexKey :: "uint32 \<Rightarrow> bytes" where
  "DexKey dexID = DexKeyPrefix @ Uint32ToBigEndian dexID"

definition TradingPairKeyPrefixWithDexID :: "uint32 \<Rightarrow> bytes" where
  "TradingPairKeyPrefixWithDexID dexID = TradingPairKeyPrefix @ Uint32ToBigEndian dexID"

definition TradingPairKey :: "uint32 \<Rightarrow> Symbol \<Rightarrow> Symbol \<Rightarrow> bytes" where
  "TradingPairKey dexID tokenA tokenB = TradingPairKeyPrefixWithDexID dexID @ (tokenA @ ''-'' @ tokenB)"

definition AddrLiquidityKeyPrefix :: "CUAddress \<Rightarrow> bytes" where
  "AddrLiquidityKeyPrefix addr = LiquidityKeyPrefix @ addr"

definition AddrLiquidityKeyPrefixWithDexID :: "CUAddress \<Rightarrow> uint32 \<Rightarrow> bytes" where
  "AddrLiquidityKeyPrefixWithDexID addr dexID = AddrLiquidityKeyPrefix addr @ Uint32ToBigEndian dexID"

definition LiquidityKey :: "CUAddress \<Rightarrow> uint32 \<Rightarrow> Symbol \<Rightarrow> Symbol \<Rightarrow> bytes" where
  "LiquidityKey addr dexID tokenA tokenB =
     AddrLiquidityKeyPrefixWithDexID addr dexID @ (tokenA @ ''-'' @ tokenB)"

text \<open>\<open>strings.Split\<close> at a separator of one character.\<close>

fun split_loop :: "char \<Rightarrow> string \<Rightarrow> string \<Rightarrow> string list" where
  "split_loop sep acc [] = [rev acc]"
| "split_loop sep acc (c # cs) =
     (if c = sep then rev acc # split_loop sep [] cs else split_loop sep (c # acc) cs)"

definition strings_Split :: "string \<Rightarrow> char \<Rightarrow> string list" where
  "strings_Split s sep = split_loop sep [] s"

text \<open>Slicing beyond the end of the key and a wrong number of parts panic.\<close>

definition DecodeLiquidityKey :: "bytes \<Rightarrow> (uint32 \<times> Symbol \<times> Symbol) option" where
  "DecodeLiquidityKey key =
     (let addrPrefixLen = length LiquidityKeyPrefix + AddrLen
      in if length key < addrPrefixLen + 4 then None
         else do {
           dexID \<leftarrow> BigEndian_Uint32 (take 4 (drop addrPrefixLen key));
           let tokens = strings_Split (drop (addrPrefixLen + 4) key) (CHR ''-'');
           if length tokens \<noteq> 2 then None else Some (dexID, tokens ! 0, tokens ! 1) })"

definition OrderKey :: "string \<Rightarrow> bytes" where
  "OrderKey orderID = OrderKeyPrefix @ orderID"

definition UnfinishedOrderKeyPrefixWithAddr :: "CUAddress \<Rightarrow> bytes" where
  "UnfinishedOrderKeyPrefixWithAddr addr = UnfinishedOrderKeyPrefix @ addr"

definition UnfinishedOrderKeyPrefixWithPair :: "CUAddress \<Rightarrow> uint32 \<Rightarrow> Symbol \<Rightarrow> Symbol \<Rightarrow> bytes" where
  "UnfinishedOrderKeyPrefixWithPair addr dexID baseSymbol quoteSymbol =
     UnfinishedOrderKeyPrefixWithAddr addr @ Uint32ToBigEndian dexID @ (baseSymbol @ ''-'' @ quoteSymbol @ '':'')"

definition UnfinishedOrderKey :: "Order \<Rightarrow> bytes" where
  "UnfinishedOrderKey ord =
     UnfinishedOrderKeyPrefixWithPair (o_From ord) (o_DexID ord) (o_BaseSymbol ord) (o_QuoteSymbol ord) @ o_OrderID ord"

definition GetOrderIDFromUnfinishedOrderKey :: "bytes \<Rightarrow> string option" where
  "GetOrderIDFromUnfinishedOrderKey key =
     (let prefixLen = length UnfinishedOrderKeyPrefix + AddrLen + 4
      in if length key < prefixLen then None
         else
           let strs = strings_Split (drop prefixLen key) (CHR '':'')
           in if length strs \<noteq> 2 then None else Some (strs ! 1))"

definition RefererKey :: "CUAddress \<Rightarrow> bytes" where
  "RefererKey addr = RefererKeyPrefix @ addr"

definition TotalShareKey :: "uint32 \<Rightarrow> Symbol \<Rightarrow> Symbol \<Rightarrow> bytes" where
  "TotalShareKey dexID tokenA tokenB =
     TotalShareKeyPrefix @ Uint32ToBigEndian dexID @ (tokenA @ ''-'' @ tokenB)"

definition GlobalMaskKey :: "uint32 \<Rightarrow> Symbol \<Rightarrow> Symbol \<Rightarrow> bytes" where
  "GlobalMaskKey dexID tokenA tokenB =
     GlobalMaskKeyPrefix @ Uint32ToBigEndian dexID @ (tokenA @ ''-'' @ tokenB)"

definition AddrMaskKey :: "CUAddress \<Rightarrow> uint32 \<Rightarrow> Symbol \<Rightarrow> Symbol \<Rightarrow> bytes" where
  "AddrMaskKey addr dexID tokenA tokenB =
     AddrMaskKeyPrefix @ addr @ Uint32ToBigEndian dexID @ (tokenA @ ''-'' @ tokenB)"

definition RepurchaseFundKey :: "Symbol \<Rightarrow> bytes" where
  "RepurchaseFundKey symbol = RepurchaseFundKeyPrefix @ symbol"

definition GetSymbolFromRepurchaseFundKey :: "bytes \<Rightarrow> Symbol option" where
  "GetSymbolFromRepurchaseFundKey key =
     (if length key < length RepurchaseFundKeyPrefix then None
      else Some (drop (length RepurchaseFundKeyPrefix) key))"

section \<open>Bytes\<close>

lemmas prefix_defs = key_prefix_def DexKeyPrefix_def DexIDKey_def TradingPairKeyPrefix_def LiquidityKeyPrefix_def
  OrderKeyPrefix_def UnfinishedOrderKeyPrefix_def WaitToInsertMatchingKey_def WaitToRemoveFromMatchingKey_def
  RefererKeyPrefix_def TotalShareKeyPrefix_def GlobalMaskKeyPrefix_def AddrMaskKeyPrefix_def
  RepurchaseFundKeyPrefix_def

lemma length_Uint32ToBigEndian [simp]: "length (Uint32ToBigEndian i) = 4"
  by (simp add: Uint32ToBigEndian_def Let_def)

lemma unat_uint32: "unat (i :: uint32) < 4294967296"
  by (rule order_less_le_trans [OF unsigned_less]) simp

lemma BigEndian_inverse: "BigEndian_Uint32 (Uint32ToBigEndian i) = Some i"
proof -
  define n where "n = unat i"
  have n: "n < 4294967296" using unat_uint32 by (simp add: n_def)
  have chars: "of_char (char_of m :: char) = m" if "m < 256" for m :: nat using that by (simp add: of_char_of)
  have "n div 16777216 < 256" using n by (simp add: div_less_iff_less_mult)
  moreover have "((n div 16777216 * 256 + n div 65536 mod 256) * 256 + n div 256 mod 256) * 256 + n mod 256 = n"
  proof -
    have "n div 65536 = n div 256 div 256" "n div 16777216 = n div 256 div 256 div 256"
      by (simp_all add: div_mult2_eq [symmetric])
    then show ?thesis by (simp only: div_mult_mod_eq)
  qed
  ultimately have "BigEndian_Uint32 (Uint32ToBigEndian i) = Some (of_nat n)"
    by (simp add: BigEndian_Uint32_def Uint32ToBigEndian_def Let_def chars flip: n_def)
  then show ?thesis by (simp add: n_def)
qed

lemma Uint32ToBigEndian_inj [simp]: "Uint32ToBigEndian i = Uint32ToBigEndian j \<longleftrightarrow> i = j"
  by (metis BigEndian_inverse option.inject)

text \<open>Valid symbols contain neither separator.\<close>

lemma valid_no_sep: "Symbol_IsValid s \<Longrightarrow> CHR ''-'' \<notin> set s" "Symbol_IsValid s \<Longrightarrow> CHR '':'' \<notin> set s"
  by (auto simp: Symbol_IsValid_def validateDenom_def list_all_iff is_alnum_def)

lemma sep_inj:
  assumes "x @ c # y = x' @ c # y'" and "c \<notin> set x" and "c \<notin> set x'"
  shows "x = x' \<and> y = y'"
proof -
  have "takeWhile (\<lambda>z. z \<noteq> c) (x @ c # y) = x" "takeWhile (\<lambda>z. z \<noteq> c) (x' @ c # y') = x'"
    using assms(2,3) by (auto simp: takeWhile_append)
  with assms(1) have "x = x'" by simp
  with assms(1) show ?thesis by simp
qed

lemma split_loop_none: "sep \<notin> set s \<Longrightarrow> split_loop sep acc s = [rev acc @ s]"
  by (induction s arbitrary: acc) auto

lemma split_loop_two:
  "sep \<notin> set x \<Longrightarrow> sep \<notin> set y \<Longrightarrow> split_loop sep acc (x @ sep # y) = [rev acc @ x, y]"
  by (induction x arbitrary: acc) (auto simp: split_loop_none)

section \<open>The keys are separate\<close>

text \<open>The structured keys of the model, one constructor per key family.\<close>

datatype swap_key =
    KDex uint32 | KDexID | KPair uint32 Symbol Symbol
  | KLiquidity CUAddress uint32 Symbol Symbol | KOrder string
  | KUnfinished CUAddress uint32 Symbol Symbol string | KWaitInsert | KWaitRemove
  | KReferer CUAddress | KTotalShare uint32 Symbol Symbol | KGlobalMask uint32 Symbol Symbol
  | KAddrMask CUAddress uint32 Symbol Symbol | KRepurchase Symbol

fun encode_key :: "swap_key \<Rightarrow> bytes" where
  "encode_key (KDex d) = DexKey d"
| "encode_key KDexID = DexIDKey"
| "encode_key (KPair d a b) = TradingPairKey d a b"
| "encode_key (KLiquidity x d a b) = LiquidityKey x d a b"
| "encode_key (KOrder i) = OrderKey i"
| "encode_key (KUnfinished x d a b i) = UnfinishedOrderKeyPrefixWithPair x d a b @ i"
| "encode_key KWaitInsert = WaitToInsertMatchingKey"
| "encode_key KWaitRemove = WaitToRemoveFromMatchingKey"
| "encode_key (KReferer x) = RefererKey x"
| "encode_key (KTotalShare d a b) = TotalShareKey d a b"
| "encode_key (KGlobalMask d a b) = GlobalMaskKey d a b"
| "encode_key (KAddrMask x d a b) = AddrMaskKey x d a b"
| "encode_key (KRepurchase s) = RepurchaseFundKey s"

fun key_ok :: "swap_key \<Rightarrow> bool" where
  "key_ok (KPair d a b) = (Symbol_IsValid a \<and> Symbol_IsValid b)"
| "key_ok (KLiquidity x d a b) = (length x = AddrLen \<and> Symbol_IsValid a \<and> Symbol_IsValid b)"
| "key_ok (KUnfinished x d a b i) = (length x = AddrLen \<and> Symbol_IsValid a \<and> Symbol_IsValid b)"
| "key_ok (KTotalShare d a b) = (Symbol_IsValid a \<and> Symbol_IsValid b)"
| "key_ok (KGlobalMask d a b) = (Symbol_IsValid a \<and> Symbol_IsValid b)"
| "key_ok (KAddrMask x d a b) = (length x = AddrLen \<and> Symbol_IsValid a \<and> Symbol_IsValid b)"
| "key_ok k = True"

lemma pair_text_inj:
  assumes "a @ CHR ''-'' # b = a' @ CHR ''-'' # b'" and "Symbol_IsValid a" and "Symbol_IsValid a'"
  shows "a = a' \<and> b = b'"
  using sep_inj [of a "CHR ''-''" b a' b'] assms valid_no_sep(1) by simp

lemma order_text_inj:
  assumes "a @ CHR ''-'' # b @ CHR '':'' # i = a' @ CHR ''-'' # b' @ CHR '':'' # i'"
    and "Symbol_IsValid a" and "Symbol_IsValid a'" and "Symbol_IsValid b" and "Symbol_IsValid b'"
  shows "a = a' \<and> b = b' \<and> i = i'"
  using sep_inj [of a "CHR ''-''" "b @ '':'' @ i" a' "b' @ '':'' @ i'"] sep_inj [of b "CHR '':''" i b' i']
    assms valid_no_sep by simp

lemmas encode_defs = prefix_defs DexKey_def TradingPairKey_def TradingPairKeyPrefixWithDexID_def LiquidityKey_def
  AddrLiquidityKeyPrefix_def AddrLiquidityKeyPrefixWithDexID_def OrderKey_def UnfinishedOrderKeyPrefixWithAddr_def
  UnfinishedOrderKeyPrefixWithPair_def RefererKey_def TotalShareKey_def GlobalMaskKey_def AddrMaskKey_def
  RepurchaseFundKey_def

text \<open>The first byte is the family, and the rest is read back from the front.\<close>

definition family :: "swap_key \<Rightarrow> nat" where
  "family k = (case k of KDex _ \<Rightarrow> 0 | KDexID \<Rightarrow> 1 | KPair _ _ _ \<Rightarrow> 2 | KLiquidity _ _ _ _ \<Rightarrow> 3 | KOrder _ \<Rightarrow> 4
     | KUnfinished _ _ _ _ _ \<Rightarrow> 5 | KWaitInsert \<Rightarrow> 6 | KWaitRemove \<Rightarrow> 7 | KReferer _ \<Rightarrow> 8 | KTotalShare _ _ _ \<Rightarrow> 9
     | KGlobalMask _ _ _ \<Rightarrow> 10 | KAddrMask _ _ _ _ \<Rightarrow> 11 | KRepurchase _ \<Rightarrow> 12)"

lemma encode_family: "\<exists>rest. encode_key k = char_of (family k) # rest" "family k < 256"
  by (cases k; simp add: encode_defs family_def)+

lemma same_family: "encode_key k = encode_key k' \<Longrightarrow> family k = family k'"
proof -
  assume "encode_key k = encode_key k'"
  then have "(char_of (family k) :: char) = char_of (family k')" using encode_family(1) [of k] encode_family(1) [of k'] by auto
  then have "of_char (char_of (family k) :: char) = (of_char (char_of (family k') :: char) :: nat)" by simp
  then show ?thesis using encode_family(2) [of k] encode_family(2) [of k'] by (simp add: of_char_of)
qed



text \<open>
  C39. The decoders are inverse to the encoders: the dex and the tokens are read back from a liquidity
  key, the identifier from the key of an unfinished order, the symbol from the key of a repurchase
  fund, without a panic.
\<close>

theorem swap_keys_roundtrip:
  assumes "length addr = AddrLen" and "Symbol_IsValid a" and "Symbol_IsValid b"
    and "o_From ord = addr" and "o_BaseSymbol ord = a" and "o_QuoteSymbol ord = b" and "CHR '':'' \<notin> set (o_OrderID ord)"
  shows "DecodeLiquidityKey (LiquidityKey addr d a b) = Some (d, a, b) \<and>
    GetOrderIDFromUnfinishedOrderKey (UnfinishedOrderKey ord) = Some (o_OrderID ord) \<and>
    GetSymbolFromRepurchaseFundKey (RepurchaseFundKey a) = Some a"
proof (intro conjI)
  note sep = valid_no_sep [OF assms(2)] valid_no_sep [OF assms(3)]
  have "strings_Split (a @ ''-'' @ b) (CHR ''-'') = [a, b]"
    using split_loop_two [of "CHR ''-''" a b "[]"] sep by (simp add: strings_Split_def)
  moreover have "drop (5 + AddrLen) (char_of (3 :: nat) # addr @ Uint32ToBigEndian d @ a @ CHR ''-'' # b) = a @ ''-'' @ b"
    using assms(1) by (simp add: drop_Cons')
  ultimately show "DecodeLiquidityKey (LiquidityKey addr d a b) = Some (d, a, b)"
    using assms(1) by (simp add: DecodeLiquidityKey_def encode_defs BigEndian_inverse Let_def)
  have "strings_Split ((a @ ''-'' @ b) @ '':'' @ o_OrderID ord) (CHR '':'') = [a @ ''-'' @ b, o_OrderID ord]"
    using split_loop_two [of "CHR '':''" "a @ ''-'' @ b" "o_OrderID ord" "[]"] sep assms(7) by (simp add: strings_Split_def)
  moreover have "drop (5 + AddrLen) (char_of (5 :: nat) # addr @ Uint32ToBigEndian (o_DexID ord) @ a @ CHR ''-'' # b @
      CHR '':'' # o_OrderID ord) = (a @ ''-'' @ b) @ '':'' @ o_OrderID ord"
    using assms(1) by (simp add: drop_Cons')
  ultimately show "GetOrderIDFromUnfinishedOrderKey (UnfinishedOrderKey ord) = Some (o_OrderID ord)"
    using assms(1,4-6) by (simp add: GetOrderIDFromUnfinishedOrderKey_def UnfinishedOrderKey_def encode_defs Let_def)
  show "GetSymbolFromRepurchaseFundKey (RepurchaseFundKey a) = Some a"
    by (simp add: GetSymbolFromRepurchaseFundKey_def encode_defs)
qed

theorem swap_keys_roundtrip_witness:
  "DecodeLiquidityKey (LiquidityKey ''aaaaaaaaaaaaaaaaaaaa'' 7 ''btc'' ''usdt'') = Some (7, ''btc'', ''usdt'')"
  using swap_keys_roundtrip [of "''aaaaaaaaaaaaaaaaaaaa''" "''btc''" "''usdt''"
      "\<lparr>o_OrderID = ''x'', o_DexID = 0, o_From = ''aaaaaaaaaaaaaaaaaaaa'', o_Referer = '''', o_Receiver = '''',
        o_CreatedTime = 0, o_ExpiredTime = 0, o_FinishedTime = 0, o_Status = OrderStatusNew, o_Side = OrderSideBuy,
        o_BaseSymbol = ''btc'', o_QuoteSymbol = ''usdt'', o_Price = 1, o_AmountIn = 1, o_LockedFund = 1,
        o_FeeRate = NewFeeRate 0 0 0\<rparr>" 7]
  by (simp add: AddrLen_def Symbol_IsValid_def validateDenom_def is_alnum_def)

section \<open>The order of the keys\<close>

lemma append_less_iff:
  fixes x x' y y' :: "'a::linorder list"
  shows "length x = length x' \<Longrightarrow> (x @ y < x' @ y') = (x < x' \<or> x = x' \<and> y < y')"
  by (induction x x' rule: list_induct2) auto

lemma char_of_less: "((char_of a :: char) < char_of b) = (a mod 256 < b mod 256)" for a b :: nat
  by (simp add: less_char_def of_char_of)

lemma digit_less:
  fixes a b a' b' :: nat
  assumes "b < 256" and "b' < 256"
  shows "(a * 256 + b < a' * 256 + b') = (a < a' \<or> a = a' \<and> b < b')"
  using assms by (cases a a' rule: linorder_cases) auto

lemma Uint32ToBigEndian_less [simp]: "(Uint32ToBigEndian i < Uint32ToBigEndian j) = (i < j)"
proof -
  define n m where "n = unat i" and "m = unat j"
  have small: "n div 16777216 < 256" "m div 16777216 < 256"
    using unat_uint32 [of i] unat_uint32 [of j] by (simp_all add: n_def m_def div_less_iff_less_mult)
  have top: "k div 65536 = k div 16777216 * 256 + k div 65536 mod 256" "k div 256 = k div 65536 * 256 + k div 256 mod 256"
    "k = k div 256 * 256 + k mod 256" for k :: nat
    using div_mult_mod_eq [of "k div 65536" 256] div_mult_mod_eq [of "k div 256" 256] div_mult_mod_eq [of k 256]
    by (simp_all add: div_mult2_eq [symmetric])
  have eq: "x div 16777216 = y div 16777216 \<and> x div 65536 mod 256 = y div 65536 mod 256 \<longleftrightarrow> x div 65536 = y div 65536"
    "x div 65536 = y div 65536 \<and> x div 256 mod 256 = y div 256 mod 256 \<longleftrightarrow> x div 256 = y div 256" for x y :: nat
  proof -
    have same: "u div 256 = v div 256 \<and> u mod 256 = v mod 256 \<longleftrightarrow> u = v" for u v :: nat by (metis div_mult_mod_eq)
    have "k div 16777216 = k div 65536 div 256" "k div 65536 = k div 256 div 256" for k :: nat
      by (simp_all add: div_mult2_eq [symmetric])
    then show "x div 16777216 = y div 16777216 \<and> x div 65536 mod 256 = y div 65536 mod 256 \<longleftrightarrow> x div 65536 = y div 65536"
      "x div 65536 = y div 65536 \<and> x div 256 mod 256 = y div 256 mod 256 \<longleftrightarrow> x div 256 = y div 256"
      using same [of "x div 65536" "y div 65536"] same [of "x div 256" "y div 256"] by simp_all
  qed
  have "(n < m) = (n div 256 < m div 256 \<or> n div 256 = m div 256 \<and> n mod 256 < m mod 256)"
    using digit_less [of "n mod 256" "m mod 256" "n div 256" "m div 256"] by simp
  moreover have "(n div 256 < m div 256) =
      (n div 65536 < m div 65536 \<or> n div 65536 = m div 65536 \<and> n div 256 mod 256 < m div 256 mod 256)"
    using digit_less [of "n div 256 mod 256" "m div 256 mod 256" "n div 65536" "m div 65536"]
    by (simp only: top(2) [symmetric] mod_less_divisor zero_less_numeral simp_thms)
  moreover have "(n div 65536 < m div 65536) =
      (n div 16777216 < m div 16777216 \<or> n div 16777216 = m div 16777216 \<and> n div 65536 mod 256 < m div 65536 mod 256)"
    using digit_less [of "n div 65536 mod 256" "m div 65536 mod 256" "n div 16777216" "m div 16777216"]
    by (simp only: top(1) [symmetric] mod_less_divisor zero_less_numeral simp_thms)
  moreover have "(Uint32ToBigEndian i < Uint32ToBigEndian j) =
      (n div 16777216 < m div 16777216 \<or> n div 16777216 = m div 16777216 \<and>
        (n div 65536 mod 256 < m div 65536 mod 256 \<or> n div 65536 mod 256 = m div 65536 mod 256 \<and>
          (n div 256 mod 256 < m div 256 mod 256 \<or> n div 256 mod 256 = m div 256 mod 256 \<and> n mod 256 < m mod 256)))"
    using small by (simp add: Uint32ToBigEndian_def Let_def char_of_less flip: n_def m_def)
  ultimately have "(n < m) = (Uint32ToBigEndian i < Uint32ToBigEndian j)" using eq [of n m] by blast
  then show ?thesis by (simp add: n_def m_def word_less_nat_alt)
qed

lemma sep_below_symbol: "list_all is_alnum s \<Longrightarrow> c \<in> set s \<Longrightarrow> CHR ''-'' < c"
  by (auto simp: list_all_iff is_alnum_def Let_def less_char_def)

lemma pair_text_less:
  "list_all is_alnum a \<Longrightarrow> list_all is_alnum a' \<Longrightarrow>
   (a @ CHR ''-'' # b < a' @ CHR ''-'' # b') = (a < a' \<or> a = a' \<and> b < b')"
proof (induction a arbitrary: a')
  case Nil
  then show ?case using sep_below_symbol [of a' "hd a'"] by (cases a') (auto simp: sep_below_symbol)
next
  case (Cons c a)
  then show ?case using sep_below_symbol [of "c # a" c] by (cases a') (auto dest: less_asym)
qed

text \<open>
  C40. The pairs are iterated in the order of the model: the byte keys of two pairs of valid tokens
  compare like the triples of dex and tokens the model stores them under.
\<close>

theorem pair_keys_ordered:
  assumes "Symbol_IsValid a" and "Symbol_IsValid a'"
  shows "(TradingPairKey d a b < TradingPairKey d' a' b') = ((d, a, b) < (d', a', b'))"
proof -
  have al: "list_all is_alnum a" "list_all is_alnum a'" using assms by (simp_all add: Symbol_IsValid_def validateDenom_def)
  have "(TradingPairKey d a b < TradingPairKey d' a' b') =
      (d < d' \<or> d = d' \<and> a @ CHR ''-'' # b < a' @ CHR ''-'' # b')"
    by (simp add: encode_defs append_less_iff)
  also have "\<dots> = ((d, a, b) < (d', a', b'))"
    unfolding pair_text_less [OF al] by (auto simp: less_le)
  finally show ?thesis .
qed

theorem pair_keys_ordered_witness:
  "TradingPairKey 1 ''btc'' ''usdt'' < TradingPairKey 1 ''btcx'' ''hbc''"
  using pair_keys_ordered [of "''btc''" "''btcx''" 1 "''usdt''" 1 "''hbc''"]
  by (simp add: Symbol_IsValid_def validateDenom_def is_alnum_def)

end
