(* ===== verification/SwapStore.thy ===== *)
theory SwapStore
  imports SwapTypes
begin

text \<open>
  \<open>x/openswap/keeper\<close>, the accessors of the module's store (\<open>dex.go\<close>, \<open>params.go\<close>, the getters and
  setters of \<open>keeper.go\<close>, \<open>order.go\<close> and \<open>util.go\<close>).  A nil pointer that the source tests for is
  \<open>None\<close>; where the source dereferences it without a test, the option monad makes it a panic.
\<close>

section \<open>Dexes and trading pairs\<close>

definition SetDexID :: "uint32 \<Rightarrow> swap_state \<Rightarrow> swap_state" where
  "SetDexID dexID st = st\<lparr>sw_dexID := dexID\<rparr>"

definition incDexID :: "swap_state \<Rightarrow> uint32 \<times> swap_state" where
  "incDexID st = (let i = sw_dexID st + 1 in (i, SetDexID i st))"

definition SaveDex :: "Dex \<Rightarrow> swap_state \<Rightarrow> Dex \<times> swap_state" where
  "SaveDex dex st =
     (let (dex, st) = (if dex_ID dex = 0 then (let (i, st) = incDexID st in (dex\<lparr>dex_ID := i\<rparr>, st))
                       else (dex, st))
      in (dex, st\<lparr>sw_dexes := kv_set (dex_ID dex) dex (sw_dexes st)\<rparr>))"

definition GetDex :: "swap_state \<Rightarrow> uint32 \<Rightarrow> Dex option" where
  "GetDex st dexID = kv_get (sw_dexes st) dexID"

definition GetAllDex :: "swap_state \<Rightarrow> Dex list" where
  "GetAllDex st = map snd (kv_entries (sw_dexes st))"

definition SaveTradingPair :: "TradingPair \<Rightarrow> swap_state \<Rightarrow> swap_state" where
  "SaveTradingPair pair st =
     st\<lparr>sw_pairs := kv_set (DexID pair, TokenA pair, TokenB pair) pair (sw_pairs st)\<rparr>"

definition GetTradingPair :: "swap_state \<Rightarrow> uint32 \<Rightarrow> Symbol \<Rightarrow> Symbol \<Rightarrow> TradingPair option" where
  "GetTradingPair st dexID tokenA tokenB =
     (case kv_get (sw_pairs st) (dexID, tokenA, tokenB) of
        None \<Rightarrow> kv_get (sw_pairs st) (dexID, tokenB, tokenA)
      | Some pair \<Rightarrow> Some pair)"

definition GetAllTradingPairs :: "swap_state \<Rightarrow> uint32 option \<Rightarrow> TradingPair list" where
  "GetAllTradingPairs st dexID =
     map snd (filter (\<lambda>((d, _), _). case dexID of None \<Rightarrow> True | Some i \<Rightarrow> d = i)
       (kv_entries (sw_pairs st)))"

section \<open>Liquidity, referers, repurchase funds\<close>

definition GetLiquidity :: "swap_state \<Rightarrow> CUAddress \<Rightarrow> uint32 \<Rightarrow> Symbol \<Rightarrow> Symbol \<Rightarrow> int" where
  "GetLiquidity st addr dexID tokenA tokenB =
     (case kv_get (sw_liquidity st) (addr, dexID, tokenA, tokenB) of None \<Rightarrow> 0 | Some d \<Rightarrow> d)"

definition saveLiquidity ::
  "CUAddress \<Rightarrow> uint32 \<Rightarrow> Symbol \<Rightarrow> Symbol \<Rightarrow> int \<Rightarrow> swap_state \<Rightarrow> swap_state" where
  "saveLiquidity addr dexID tokenA tokenB liquidity st =
     st\<lparr>sw_liquidity := kv_set (addr, dexID, tokenA, tokenB) liquidity (sw_liquidity st)\<rparr>"

definition GetReferer :: "swap_state \<Rightarrow> CUAddress \<Rightarrow> CUAddress option" where
  "GetReferer st addr = kv_get (sw_referers st) addr"

definition BindReferer :: "CUAddress \<Rightarrow> CUAddress \<Rightarrow> swap_state \<Rightarrow> swap_state" where
  "BindReferer addr referer st =
     (if referer = addr then st
      else st\<lparr>sw_referers := kv_set addr referer (sw_referers st)\<rparr>)"

definition getRepurchaseFund :: "swap_state \<Rightarrow> Symbol \<Rightarrow> int" where
  "getRepurchaseFund st symbol =
     (case kv_get (sw_repurchase st) symbol of None \<Rightarrow> 0 | Some amount \<Rightarrow> amount)"

fun getRepurchaseFunds_loop :: "(Symbol \<times> int) list \<Rightarrow> Coins \<Rightarrow> Coins option" where
  "getRepurchaseFunds_loop [] funds = Some funds"
| "getRepurchaseFunds_loop ((symbol, amount) # entries) funds = do {
     coin \<leftarrow> NewCoin symbol amount;
     coins \<leftarrow> NewCoins [coin];
     funds \<leftarrow> Coins_Add funds coins;
     getRepurchaseFunds_loop entries funds }"

definition getRepurchaseFunds :: "swap_state \<Rightarrow> Coins option" where
  "getRepurchaseFunds st = getRepurchaseFunds_loop (kv_entries (sw_repurchase st)) []"

fun addRepurchaseFunds :: "Coins \<Rightarrow> swap_state \<Rightarrow> swap_state option" where
  "addRepurchaseFunds [] st = Some st"
| "addRepurchaseFunds (coin # coins) st = do {
     amount \<leftarrow> Int_Add (Amount coin) (getRepurchaseFund st (Denom coin));
     addRepurchaseFunds coins
       (st\<lparr>sw_repurchase := kv_set (Denom coin) amount (sw_repurchase st)\<rparr>) }"

section \<open>Orders\<close>

definition GetOrder :: "swap_state \<Rightarrow> string \<Rightarrow> Order option" where
  "GetOrder st orderID = kv_get (sw_orders st) orderID"

definition saveOrder :: "Order \<Rightarrow> swap_state \<Rightarrow> swap_state" where
  "saveOrder ord st = st\<lparr>sw_orders := kv_set (o_OrderID ord) ord (sw_orders st)\<rparr>"

definition unfinished_key :: "Order \<Rightarrow> CUAddress \<times> uint32 \<times> Symbol \<times> Symbol \<times> string" where
  "unfinished_key ord =
     (o_From ord, o_DexID ord, o_BaseSymbol ord, o_QuoteSymbol ord, o_OrderID ord)"

definition getWaitToInsertMatchingOrderIDs :: "swap_state \<Rightarrow> string list" where
  "getWaitToInsertMatchingOrderIDs st = sw_waitInsert st"

definition addWaitToInsertMatchingOrderID :: "string \<Rightarrow> swap_state \<Rightarrow> swap_state" where
  "addWaitToInsertMatchingOrderID orderID st =
     st\<lparr>sw_waitInsert := getWaitToInsertMatchingOrderIDs st @ [orderID]\<rparr>"

definition getWaitToRemoveFromMatchingOrderIDs :: "swap_state \<Rightarrow> string list" where
  "getWaitToRemoveFromMatchingOrderIDs st = sw_waitRemove st"

definition addWaitToRemoveFromMatchingOrderID :: "string list \<Rightarrow> swap_state \<Rightarrow> swap_state" where
  "addWaitToRemoveFromMatchingOrderID ids st =
     st\<lparr>sw_waitRemove := getWaitToRemoveFromMatchingOrderIDs st @ ids\<rparr>"

definition addUnfinishedOrder :: "Order \<Rightarrow> swap_state \<Rightarrow> swap_state" where
  "addUnfinishedOrder ord st =
     addWaitToInsertMatchingOrderID (o_OrderID ord)
       (st\<lparr>sw_unfinished := kv_set (unfinished_key ord) () (sw_unfinished st)\<rparr>)"

definition delUnfinishedOrder :: "Order \<Rightarrow> swap_state \<Rightarrow> swap_state" where
  "delUnfinishedOrder ord st =
     st\<lparr>sw_unfinished := kv_delete (unfinished_key ord) (sw_unfinished st)\<rparr>"

section \<open>Tokens, fee rates and reserves\<close>

definition CheckSymbol :: "Context \<Rightarrow> Symbol \<Rightarrow> sdk_error + Token" where
  "CheckSymbol ctx symbol =
     (case GetToken ctx symbol of
        None \<Rightarrow> Inl ErrUnSupportToken
      | Some tokenInfo \<Rightarrow> if \<not> tok_SendEnabled tokenInfo then Inl ErrUnSupportToken else Inr tokenInfo)"

text \<open>On an error the symbols are returned as they came.\<close>

definition SortTokens :: "Context \<Rightarrow> Symbol \<Rightarrow> Symbol \<Rightarrow> (Symbol \<times> Symbol) \<times> sdk_error option" where
  "SortTokens ctx symbolA symbolB =
     (case CheckSymbol ctx symbolA of
        Inl e \<Rightarrow> ((symbolA, symbolB), Some e)
      | Inr tokenA \<Rightarrow>
          (case CheckSymbol ctx symbolB of
             Inl e \<Rightarrow> ((symbolA, symbolB), Some e)
           | Inr tokenB \<Rightarrow>
               if tok_Weight tokenA = tok_Weight tokenB then
                 (if symbolA > symbolB then ((symbolB, symbolA), None) else ((symbolA, symbolB), None))
               else if tok_Weight tokenA < tok_Weight tokenB then ((symbolB, symbolA), None)
               else ((symbolA, symbolB), None)))"

definition canRepurchase :: "swap_state \<Rightarrow> Symbol \<Rightarrow> int \<Rightarrow> bool" where
  "canRepurchase st tokenIn amount =
     (let repurchaseToken = RepurchaseToken (sw_params st)
      in if repurchaseToken = '''' then False
         else if tokenIn = repurchaseToken then True
         else GetTradingPair st 0 tokenIn repurchaseToken \<noteq> None)"

definition getFeeRates :: "swap_state \<Rightarrow> TradingPair \<Rightarrow> FeeRate" where
  "getFeeRates st pair =
     (if DexID pair = 0 then
        NewFeeRate (LpRewardRate (sw_params st)) (RepurchaseRate (sw_params st))
          (RefererTransactionBonusRate (sw_params st))
      else if IsPublic pair then
        NewFeeRate (LpRewardRate (sw_params st)) (RepurchaseRate (sw_params st)) (RefererRewardRate pair)
      else NewFeeRate (LPRewardRate pair) (RepurchaseRate (sw_params st)) (RefererRewardRate pair))"

definition getRealInCoeff :: "swap_state \<Rightarrow> TradingPair \<Rightarrow> Dec option" where
  "getRealInCoeff st pair = do {
     r \<leftarrow> TotalFeeRate (getFeeRates st pair);
     Dec_Sub OneDec r }"

definition getReserves :: "swap_state \<Rightarrow> TradingPair \<Rightarrow> Symbol \<Rightarrow> Symbol \<Rightarrow> int \<times> int" where
  "getReserves st pair tokenA tokenB =
     (case (if IsPublic pair \<and> DexID pair \<noteq> 0 then GetTradingPair st 0 tokenA tokenB else Some pair) of
        None \<Rightarrow> (0, 0)
      | Some pair \<Rightarrow>
          if tokenA = TokenA pair then (TokenAAmount pair, TokenBAmount pair)
          else (TokenBAmount pair, TokenAAmount pair))"

definition mulAndDiv :: "int \<Rightarrow> int \<Rightarrow> int \<Rightarrow> int option" where
  "mulAndDiv amountA amountB amountC =
     (if amountC = 0 then None else NewIntFromBigInt (big_Quo (amountA * amountB) amountC))"

definition get_dec :: "('k::linorder, Dec) kv \<Rightarrow> 'k \<Rightarrow> Dec" where
  "get_dec m key = (case kv_get m key of None \<Rightarrow> ZeroDec | Some d \<Rightarrow> d)"

declare SaveTradingPair_def [go_eval] GetTradingPair_def [go_eval] GetLiquidity_def [go_eval]
  saveLiquidity_def [go_eval] GetReferer_def [go_eval] getRepurchaseFund_def [go_eval]
  getRepurchaseFunds_def [go_eval] CheckSymbol_def [go_eval] SortTokens_def [go_eval]
  canRepurchase_def [go_eval] getFeeRates_def [go_eval] getRealInCoeff_def [go_eval]
  getReserves_def [go_eval] mulAndDiv_def [go_eval] get_dec_def [go_eval] GetOrder_def [go_eval]
  saveOrder_def [go_eval]

end
