(* ===== verification/SwapMining.thy ===== *)
theory SwapMining
  imports SwapStore
begin

text \<open>
  \<open>x/openswap/keeper/mining.go\<close>: liquidity mining.  Every block mints an amount and spreads it
  over the pairs of the parameters; a pair keeps the amount per unit of liquidity so far (its
  global mask), and an address the part of it that it is not entitled to (its address mask).
\<close>

section \<open>Definitions\<close>

definition onUpdateLiquidity ::
  "CUAddress \<Rightarrow> uint32 \<Rightarrow> Symbol \<Rightarrow> Symbol \<Rightarrow> int \<Rightarrow> swap_state \<Rightarrow> swap_state option" where
  "onUpdateLiquidity addr dexID tokenA tokenB liquidity st = do {
     totalShare \<leftarrow> Dec_Add (get_dec (sw_totalShare st) (dexID, tokenA, tokenB)) (ToDec liquidity);
     let st = st\<lparr>sw_totalShare := kv_set (dexID, tokenA, tokenB) totalShare (sw_totalShare st)\<rparr>;
     let globalMask = get_dec (sw_globalMask st) (dexID, tokenA, tokenB);
     if globalMask > 0 then do {
       d \<leftarrow> Dec_Mul globalMask (ToDec liquidity);
       addrMask \<leftarrow> Dec_Add (get_dec (sw_addrMask st) (addr, dexID, tokenA, tokenB)) d;
       Some (st\<lparr>sw_addrMask := kv_set (addr, dexID, tokenA, tokenB) addrMask (sw_addrMask st)\<rparr>) }
     else Some st }"

definition onMining :: "uint32 \<Rightarrow> Symbol \<Rightarrow> Symbol \<Rightarrow> int \<Rightarrow> swap_state \<Rightarrow> swap_state option" where
  "onMining dexID tokenA tokenB amount st =
     (let totalShare = get_dec (sw_totalShare st) (dexID, tokenA, tokenB)
      in if totalShare > 0 then do {
           q \<leftarrow> Dec_Quo (ToDec amount) totalShare;
           globalMask \<leftarrow> Dec_Add (get_dec (sw_globalMask st) (dexID, tokenA, tokenB)) q;
           Some (st\<lparr>sw_globalMask := kv_set (dexID, tokenA, tokenB) globalMask (sw_globalMask st)\<rparr>) }
         else Some st)"

definition CalculateEarning ::
  "Context \<Rightarrow> swap_state \<Rightarrow> CUAddress \<Rightarrow> uint32 \<Rightarrow> Symbol \<Rightarrow> Symbol \<Rightarrow> int option" where
  "CalculateEarning ctx st addr dexID tokenA tokenB =
     (let (tokenA, tokenB) = fst (SortTokens ctx tokenA tokenB);
          liquidity = GetLiquidity st addr dexID tokenA tokenB;
          globalMask = get_dec (sw_globalMask st) (dexID, tokenA, tokenB);
          addrMask = get_dec (sw_addrMask st) (addr, dexID, tokenA, tokenB)
      in do {
        d \<leftarrow> Dec_Mul globalMask (ToDec liquidity);
        d \<leftarrow> Dec_Sub d addrMask;
        Dec_TruncateInt d })"

text \<open>
  The receipt of a failed transfer does not decode, so that reading its flows dereferences a nil
  pointer: an error of a transfer is a panic here.
\<close>

definition send_earning ::
  "Context \<Rightarrow> CUAddress \<Rightarrow> int \<Rightarrow> swap_state \<Rightarrow> (BalanceFlow list \<times> swap_state) option" where
  "send_earning ctx addr amount st = do {
     coin \<leftarrow> NewCoin NativeDefiToken amount;
     coins \<leftarrow> NewCoins [coin];
     panic_on_error
       (on_ledger (SendCoinsFromModuleToAccount (ctx_permAddrs ctx) ModuleName addr coins) st) }"

definition ClaimEarning ::
  "Context \<Rightarrow> CUAddress \<Rightarrow> uint32 \<Rightarrow> Symbol \<Rightarrow> Symbol \<Rightarrow> swap_state \<Rightarrow>
   (BalanceFlow list, swap_state) outcome" where
  "ClaimEarning ctx addr dexID tokenA tokenB st =
     (let (tokenA, tokenB) = fst (SortTokens ctx tokenA tokenB)
      in do {
        earning \<leftarrow> CalculateEarning ctx st addr dexID tokenA tokenB;
        if \<not> earning > 0 then Some (Inr [], st)
        else do {
          (flows, st) \<leftarrow> (case GetReferer st addr of
             None \<Rightarrow> send_earning ctx addr earning st
           | Some referer \<Rightarrow> do {
               d \<leftarrow> Dec_Mul (ToDec earning) (RefererMiningBonusRate (sw_params st));
               refererShare \<leftarrow> Dec_TruncateInt d;
               selfShare \<leftarrow> Int_Sub earning refererShare;
               (flows1, st) \<leftarrow> send_earning ctx referer refererShare st;
               (flows2, st) \<leftarrow> send_earning ctx addr selfShare st;
               Some (flows1 @ flows2, st) });
          addrMask \<leftarrow> Dec_Add (get_dec (sw_addrMask st) (addr, dexID, tokenA, tokenB)) (ToDec earning);
          Some (Inr flows,
            st\<lparr>sw_addrMask := kv_set (addr, dexID, tokenA, tokenB) addrMask (sw_addrMask st)\<rparr>) } })"

fun getMiningAmount_loop :: "uint64 \<Rightarrow> MiningPlan list \<Rightarrow> int \<Rightarrow> int" where
  "getMiningAmount_loop height [] amount = amount"
| "getMiningAmount_loop height (plan # plans) amount =
     (if mp_StartHeight plan > height then amount
      else getMiningAmount_loop height plans (mp_MiningPerBlock plan))"

definition getMiningAmount :: "Context \<Rightarrow> swap_state \<Rightarrow> int" where
  "getMiningAmount ctx st =
     getMiningAmount_loop (of_int (BlockHeight ctx)) (MiningPlans (sw_params st)) 0"

fun total_weight :: "MiningWeight list \<Rightarrow> int \<Rightarrow> int option" where
  "total_weight [] totalWeight = Some totalWeight"
| "total_weight (w # ws) totalWeight = do {
     totalWeight \<leftarrow> Int_Add totalWeight (mw_Weight w);
     total_weight ws totalWeight }"

text \<open>The last pair of the list receives what is left.\<close>

fun distribute_loop ::
  "Context \<Rightarrow> int \<Rightarrow> int \<Rightarrow> MiningWeight list \<Rightarrow> int \<Rightarrow> swap_state \<Rightarrow> swap_state option" where
  "distribute_loop ctx amount totalWeight [] remaining st = Some st"
| "distribute_loop ctx amount totalWeight (w # ws) remaining st = do {
     (distribution, remaining) \<leftarrow> (if ws \<noteq> [] then do {
         p \<leftarrow> Int_Mul amount (mw_Weight w);
         distribution \<leftarrow> Int_Quo p totalWeight;
         remaining \<leftarrow> Int_Sub remaining distribution;
         Some (distribution, remaining) }
       else Some (remaining, remaining));
     let (tokenA, tokenB) = fst (SortTokens ctx (mw_TokenA w) (mw_TokenB w));
     st \<leftarrow> onMining (mw_DexID w) tokenA tokenB distribution st;
     distribute_loop ctx amount totalWeight ws remaining st }"

definition distribute :: "Context \<Rightarrow> int \<Rightarrow> swap_state \<Rightarrow> swap_state option" where
  "distribute ctx amount st = do {
     totalWeight \<leftarrow> total_weight (MiningWeights (sw_params st)) 0;
     distribute_loop ctx amount totalWeight (MiningWeights (sw_params st)) amount st }"

definition Mining :: "Context \<Rightarrow> swap_state \<Rightarrow> swap_state option" where
  "Mining ctx st =
     (let amount = getMiningAmount ctx st
      in if \<not> amount > 0 then Some st
         else
           case GetToken ctx NativeDefiToken of
             None \<Rightarrow> Some st
           | Some defiToken \<Rightarrow> do {
               supply \<leftarrow> GetSupply (sw_ledger st);
               circulation \<leftarrow> AmountOf (Total supply) NativeDefiToken;
               burned \<leftarrow> AmountOf (Burned supply) NativeDefiToken;
               m \<leftarrow> Int_Sub (tok_TotalSupply defiToken) circulation;
               maxMining \<leftarrow> Int_Sub m burned;
               let amount = MinInt amount maxMining;
               if \<not> amount > 0 then Some st
               else do {
                 coin \<leftarrow> NewCoin NativeDefiToken amount;
                 coins \<leftarrow> NewCoins [coin];
                 (_, st) \<leftarrow> on_ledger (MintCoins (ctx_permAddrs ctx) ModuleName coins) st;
                 distribute ctx amount st } })"

declare onUpdateLiquidity_def [go_eval] onMining_def [go_eval] CalculateEarning_def [go_eval]
  send_earning_def [go_eval] ClaimEarning_def [go_eval] getMiningAmount_def [go_eval]
  distribute_def [go_eval] Mining_def [go_eval]

end
