(* ===== verification/SwapPool.thy ===== *)
theory SwapPool
  imports SwapMining
begin

text \<open>
  \<open>x/openswap/keeper/keeper.go\<close>: the liquidity pools.  Adding and removing liquidity, the
  constant-product swap with its fees, swaps along a path of pairs with a bound on the result,
  and the repurchase that burns the collected funds.  A message returns its receipt, the list of
  balance flows; events are left out.
\<close>

section \<open>Adding and removing liquidity\<close>

text \<open>The integer square root of \<open>math/big\<close>, which panics below zero.\<close>

fun isqrt :: "nat \<Rightarrow> nat" where
  "isqrt n =
     (if n = 0 then 0
      else let r = 2 * isqrt (n div 4) in if (r + 1) * (r + 1) \<le> n then r + 1 else r)"

declare isqrt.simps [simp del]

definition big_Sqrt :: "int \<Rightarrow> int option" where
  "big_Sqrt x = (if x < 0 then None else Some (int (isqrt (nat x))))"

text \<open>The two amounts taken from the sender, the liquidity given for them, and the pair before them.\<close>

definition first_liquidity ::
  "swap_state \<Rightarrow> TradingPair option \<Rightarrow> Symbol \<Rightarrow> Symbol \<Rightarrow> int \<Rightarrow> int \<Rightarrow>
   (sdk_error + int \<times> int \<times> int \<times> TradingPair) option" where
  "first_liquidity st pair tokenA tokenB maxTokenAAmount maxTokenBAmount = do {
     root \<leftarrow> big_Sqrt (maxTokenAAmount * maxTokenBAmount);
     sqr \<leftarrow> NewIntFromBigInt root;
     let minimumLiquidity = MinimumLiquidity (sw_params st);
     liquidity \<leftarrow> Int_Sub sqr minimumLiquidity;
     if \<not> liquidity > 0 then Some (Inl ErrInvalidAmount)
     else
       let pair = (case pair of
           None \<Rightarrow> NewDefaultTradingPair tokenA tokenB minimumLiquidity
         | Some pair \<Rightarrow> pair\<lparr>TotalLiquidity := minimumLiquidity\<rparr>)
       in Some (Inr (maxTokenAAmount, maxTokenBAmount, liquidity, pair)) }"

definition more_liquidity ::
  "TradingPair \<Rightarrow> int \<Rightarrow> int \<Rightarrow> (sdk_error + int \<times> int \<times> int \<times> TradingPair) option" where
  "more_liquidity pair maxTokenAAmount maxTokenBAmount = do {
     needTokenB \<leftarrow> mulAndDiv maxTokenAAmount (TokenBAmount pair) (TokenAAmount pair);
     needs \<leftarrow> (if needTokenB > maxTokenBAmount then do {
         needTokenA \<leftarrow> mulAndDiv maxTokenBAmount (TokenAAmount pair) (TokenBAmount pair);
         Some (if needTokenA > maxTokenAAmount then None else Some (needTokenA, maxTokenBAmount)) }
       else Some (Some (maxTokenAAmount, needTokenB)));
     case needs of
       None \<Rightarrow> Some (Inl ErrInvalidAmount)
     | Some (needTokenA, needTokenB) \<Rightarrow> do {
         lA \<leftarrow> mulAndDiv needTokenA (TotalLiquidity pair) (TokenAAmount pair);
         lB \<leftarrow> mulAndDiv needTokenB (TotalLiquidity pair) (TokenBAmount pair);
         Some (Inr (needTokenA, needTokenB, MinInt lA lB, pair)) } }"

text \<open>The transfer, the new reserves and shares, and the mining shares that follow the calculation.\<close>

definition add_shares ::
  "CUAddress \<Rightarrow> Symbol \<Rightarrow> Symbol \<Rightarrow> int \<Rightarrow> int \<Rightarrow> int \<Rightarrow> TradingPair \<Rightarrow> swap_state \<Rightarrow>
   (BalanceFlow list, swap_state) outcome" where
  "add_shares from tokenA tokenB needTokenA needTokenB liquidity pair st = do {
     coinA \<leftarrow> NewCoin tokenA needTokenA;
     coinB \<leftarrow> NewCoin tokenB needTokenB;
     need \<leftarrow> NewCoins [coinA, coinB];
     on_ok (transfer (SubCoins from need) st) (\<lambda>(_, flows) st. do {
       a \<leftarrow> Int_Add (TokenAAmount pair) needTokenA;
       b \<leftarrow> Int_Add (TokenBAmount pair) needTokenB;
       l \<leftarrow> Int_Add (TotalLiquidity pair) liquidity;
       let pair = pair\<lparr>TokenAAmount := a, TokenBAmount := b, TotalLiquidity := l\<rparr>;
       let st = SaveTradingPair pair st;
       addrLiquidity \<leftarrow>
         Int_Add (GetLiquidity st from (DexID pair) (TokenA pair) (TokenB pair)) liquidity;
       let st = saveLiquidity from (DexID pair) tokenA tokenB addrLiquidity st;
       st \<leftarrow> onUpdateLiquidity from (DexID pair) tokenA tokenB liquidity st;
       Some (Inr flows, st) }) }"

definition AddLiquidity ::
  "CUAddress \<Rightarrow> uint32 \<Rightarrow> Symbol \<Rightarrow> Symbol \<Rightarrow> int \<Rightarrow> int \<Rightarrow> swap_state \<Rightarrow>
   (BalanceFlow list, swap_state) outcome" where
  "AddLiquidity from dexID tokenA tokenB maxTokenAAmount maxTokenBAmount st =
     (let pair = GetTradingPair st dexID tokenA tokenB
      in if pair = None \<and> dexID \<noteq> 0 then Some (Inl ErrInvalidTx, st)
      else
        let pair = (case pair of
            None \<Rightarrow> None
          | Some p \<Rightarrow> if IsPublic p \<and> DexID p \<noteq> 0 then GetTradingPair st 0 tokenA tokenB else Some p)
        in do {
          calc \<leftarrow> (case pair of
              None \<Rightarrow> first_liquidity st pair tokenA tokenB maxTokenAAmount maxTokenBAmount
            | Some p \<Rightarrow>
                if TotalLiquidity p = 0
                then first_liquidity st pair tokenA tokenB maxTokenAAmount maxTokenBAmount
                else more_liquidity p maxTokenAAmount maxTokenBAmount);
          case calc of
            Inl e \<Rightarrow> Some (Inl e, st)
          | Inr (needTokenA, needTokenB, liquidity, pair) \<Rightarrow>
              if \<not> needTokenA > 0 \<or> \<not> needTokenB > 0 then Some (Inl ErrInvalidTx, st)
              else if \<not> liquidity > 0 then Some (Inl ErrInvalidTx, st)
              else add_shares from tokenA tokenB needTokenA needTokenB liquidity pair st })"

definition remove_shares ::
  "CUAddress \<Rightarrow> Symbol \<Rightarrow> Symbol \<Rightarrow> int \<Rightarrow> int \<Rightarrow> int \<Rightarrow> int \<Rightarrow> TradingPair \<Rightarrow> swap_state \<Rightarrow>
   (BalanceFlow list, swap_state) outcome" where
  "remove_shares from tokenA tokenB returnTokenA returnTokenB addrLiquidity liquidity pair st = do {
     coinA \<leftarrow> NewCoin tokenA returnTokenA;
     coinB \<leftarrow> NewCoin tokenB returnTokenB;
     returnCoins \<leftarrow> NewCoins [coinA, coinB];
     on_ok (transfer (AddCoins from returnCoins) st) (\<lambda>(_, flows) st. do {
       a \<leftarrow> Int_Sub (TokenAAmount pair) returnTokenA;
       b \<leftarrow> Int_Sub (TokenBAmount pair) returnTokenB;
       l \<leftarrow> Int_Sub (TotalLiquidity pair) liquidity;
       let pair = pair\<lparr>TokenAAmount := a, TokenBAmount := b, TotalLiquidity := l\<rparr>;
       let st = SaveTradingPair pair st;
       addrLiquidity \<leftarrow> Int_Sub addrLiquidity liquidity;
       let st = saveLiquidity from (DexID pair) tokenA tokenB addrLiquidity st;
       st \<leftarrow> onUpdateLiquidity from (DexID pair) tokenA tokenB (Int_Neg liquidity) st;
       Some (Inr flows, st) }) }"

text \<open>
  A public pair of a custom dex stands for the pair of dex 0, which may not exist: the nil pair
  is dereferenced.
\<close>

definition RemoveLiquidity ::
  "CUAddress \<Rightarrow> uint32 \<Rightarrow> Symbol \<Rightarrow> Symbol \<Rightarrow> int \<Rightarrow> swap_state \<Rightarrow>
   (BalanceFlow list, swap_state) outcome" where
  "RemoveLiquidity from dexID tokenA tokenB liquidity st =
     (case GetTradingPair st dexID tokenA tokenB of
        None \<Rightarrow> Some (Inl ErrInvalidTx, st)
      | Some p \<Rightarrow> do {
          pair \<leftarrow> (if IsPublic p \<and> DexID p \<noteq> 0 then GetTradingPair st 0 tokenA tokenB else Some p);
          let addrLiquidity = GetLiquidity st from (DexID pair) (TokenA pair) (TokenB pair);
          if addrLiquidity < liquidity then Some (Inl ErrInsufficientFunds, st)
          else if liquidity > TotalLiquidity pair then Some (Inl ErrInternal, st)
          else do {
            returnTokenA \<leftarrow> mulAndDiv liquidity (TokenAAmount pair) (TotalLiquidity pair);
            returnTokenB \<leftarrow> mulAndDiv liquidity (TokenBAmount pair) (TotalLiquidity pair);
            if \<not> returnTokenA > 0 \<or> \<not> returnTokenB > 0 then Some (Inl ErrInvalidTx, st)
            else remove_shares from tokenA tokenB returnTokenA returnTokenB addrLiquidity liquidity pair st } })"

declare add_shares_def [go_eval] remove_shares_def [go_eval] AddLiquidity_def [go_eval]
  RemoveLiquidity_def [go_eval] first_liquidity_def [go_eval]
  more_liquidity_def [go_eval] big_Sqrt_def [go_eval] MinInt_def [go_eval] min_big_def [go_eval]

end
