(* ===== verification/SwapTrade.thy ===== *)
theory SwapTrade
  imports SwapPool
begin

text \<open>
  \<open>x/openswap/keeper\<close>, trading against the pools: the constant-product swap with its fees, the
  quotes of \<open>util.go\<close>, the swaps along a path of pairs that are bounded by a quote, and the
  repurchase that burns the collected funds.
\<close>

section \<open>Quotes\<close>

text \<open>
  The loops over the hops \<open>(path[i], path[i+1])\<close> are recursions on the path.  The plain Go error of
  the source is wrapped into \<open>ErrInvalidTx\<close> by its callers, which is done here.
\<close>

fun getAmountOut :: "swap_state \<Rightarrow> uint32 \<Rightarrow> int \<Rightarrow> Symbol list \<Rightarrow> (sdk_error + int) option" where
  "getAmountOut st dexID amountOut (a # b # path) =
     (case GetTradingPair st dexID a b of
        None \<Rightarrow> Some (Inl ErrInvalidTx)
      | Some pair \<Rightarrow>
          let (reserveIn, reserveOut) = getReserves st pair a b
          in if \<not> reserveIn > 0 \<or> \<not> reserveOut > 0 then Some (Inl ErrInvalidTx)
          else do {
            coeff \<leftarrow> getRealInCoeff st pair;
            d \<leftarrow> Dec_Mul (ToDec amountOut) coeff;
            amountOut \<leftarrow> Dec_TruncateInt d;
            s \<leftarrow> Int_Add reserveIn amountOut;
            amountOut \<leftarrow> mulAndDiv amountOut reserveOut s;
            getAmountOut st dexID amountOut (b # path) })"
| "getAmountOut st dexID amountOut path = Some (Inr amountOut)"

text \<open>This loop runs from the end of the path: its list is the path reversed.\<close>

fun getAmountIn_loop :: "swap_state \<Rightarrow> uint32 \<Rightarrow> int \<Rightarrow> Symbol list \<Rightarrow> (sdk_error + int) option" where
  "getAmountIn_loop st dexID amountIn (b # a # htap) =
     (case GetTradingPair st dexID a b of
        None \<Rightarrow> Some (Inl ErrInvalidTx)
      | Some pair \<Rightarrow>
          let (reserveIn, reserveOut) = getReserves st pair a b
          in if \<not> reserveIn > 0 \<or> \<not> reserveOut > 0 then Some (Inl ErrInvalidTx)
          else if reserveOut \<le> amountIn then Some (Inl ErrInvalidTx)
          else do {
            coeff \<leftarrow> getRealInCoeff st pair;
            s \<leftarrow> Int_Sub reserveOut amountIn;
            amountIn \<leftarrow> mulAndDiv amountIn reserveIn s;
            d \<leftarrow> Dec_Quo (ToDec amountIn) coeff;
            amountIn \<leftarrow> Dec_TruncateInt d;
            amountIn \<leftarrow> Int_Add amountIn 1;
            getAmountIn_loop st dexID amountIn (a # htap) })"
| "getAmountIn_loop st dexID amountIn htap = Some (Inr amountIn)"

definition getAmountIn :: "swap_state \<Rightarrow> uint32 \<Rightarrow> int \<Rightarrow> Symbol list \<Rightarrow> (sdk_error + int) option" where
  "getAmountIn st dexID amountOut path = getAmountIn_loop st dexID amountOut (rev path)"

section \<open>Swaps\<close>

text \<open>The three fees of a swap: for the pool, for the referer, for the repurchase.\<close>

definition swap_fees :: "swap_state \<Rightarrow> FeeRate \<Rightarrow> Symbol \<Rightarrow> int \<Rightarrow> bool \<Rightarrow> (int \<times> int \<times> int) option" where
  "swap_fees st feeRate tokenIn amountIn isRepurchasing =
     (if isRepurchasing then Some (0, 0, 0)
      else do {
        let amountInDec = NewDecFromInt amountIn;
        d \<leftarrow> Dec_Mul amountInDec (fr_LPRewardRate feeRate);
        lpReward \<leftarrow> Dec_TruncateInt d;
        d \<leftarrow> Dec_Mul amountInDec (fr_RepurchaseRate feeRate);
        repurchaseFund \<leftarrow> Dec_TruncateInt d;
        d \<leftarrow> Dec_Mul amountInDec (fr_RefererRewardRate feeRate);
        refererBonus \<leftarrow> Dec_TruncateInt d;
        if \<not> canRepurchase st tokenIn repurchaseFund then do {
          lpReward \<leftarrow> Int_Add lpReward repurchaseFund;
          Some (lpReward, refererBonus, 0) }
        else Some (lpReward, refererBonus, repurchaseFund) })"

definition swap ::
  "FeeRate \<Rightarrow> TradingPair \<Rightarrow> Symbol \<Rightarrow> int \<Rightarrow> bool \<Rightarrow> swap_state \<Rightarrow>
   ((int \<times> int \<times> int \<times> TradingPair) \<times> swap_state) option" where
  "swap feeRate pair tokenIn amountIn isRepurchasing st = do {
     (lpReward, refererBonus, repurchaseFund) \<leftarrow> swap_fees st feeRate tokenIn amountIn isRepurchasing;
     r \<leftarrow> Int_Sub amountIn lpReward;
     r \<leftarrow> Int_Sub r refererBonus;
     realAmountIn \<leftarrow> Int_Sub r repurchaseFund;
     (amountOut, pair) \<leftarrow> (if TokenA pair = tokenIn then do {
         s \<leftarrow> Int_Add realAmountIn (TokenAAmount pair);
         amountOut \<leftarrow> mulAndDiv realAmountIn (TokenBAmount pair) s;
         a \<leftarrow> Int_Add (TokenAAmount pair) realAmountIn;
         a \<leftarrow> Int_Add a lpReward;
         b \<leftarrow> Int_Sub (TokenBAmount pair) amountOut;
         Some (amountOut, pair\<lparr>TokenAAmount := a, TokenBAmount := b\<rparr>) }
       else do {
         s \<leftarrow> Int_Add realAmountIn (TokenBAmount pair);
         amountOut \<leftarrow> mulAndDiv realAmountIn (TokenAAmount pair) s;
         b \<leftarrow> Int_Add (TokenBAmount pair) realAmountIn;
         b \<leftarrow> Int_Add b lpReward;
         a \<leftarrow> Int_Sub (TokenAAmount pair) amountOut;
         Some (amountOut, pair\<lparr>TokenAAmount := a, TokenBAmount := b\<rparr>) });
     Some ((amountOut, refererBonus, repurchaseFund, pair), SaveTradingPair pair st) }"

text \<open>\<open>coins.Add(sdk.NewCoins(sdk.NewCoin(symbol, amount)))\<close> when the amount is positive.\<close>

definition add_positive :: "Symbol \<Rightarrow> int \<Rightarrow> Coins \<Rightarrow> Coins option" where
  "add_positive symbol amount coins =
     (if amount > 0 then do {
        c \<leftarrow> NewCoin symbol amount;
        cs \<leftarrow> NewCoins [c];
        Coins_Add coins cs }
      else Some coins)"

fun swap_path ::
  "uint32 \<Rightarrow> Symbol list \<Rightarrow> int \<Rightarrow> Coins \<Rightarrow> Coins \<Rightarrow> swap_state \<Rightarrow>
   ((int \<times> Coins \<times> Coins) \<times> swap_state) option" where
  "swap_path dexID (a # b # path) amountIn bonusCoins repurchaseFunds st = do {
     pair \<leftarrow> GetTradingPair st dexID a b;
     let feeRate = getFeeRates st pair;
     pair \<leftarrow> (if IsPublic pair \<and> DexID pair \<noteq> 0 then GetTradingPair st 0 a b else Some pair);
     ((amountOut, bonus, repurchaseFund, _), st) \<leftarrow> swap feeRate pair a amountIn False st;
     bonusCoins \<leftarrow> add_positive a bonus bonusCoins;
     repurchaseFunds \<leftarrow> add_positive a repurchaseFund repurchaseFunds;
     swap_path dexID (b # path) amountOut bonusCoins repurchaseFunds st }"
| "swap_path dexID path amountIn bonusCoins repurchaseFunds st =
     Some ((amountIn, bonusCoins, repurchaseFunds), st)"

definition directSwap ::
  "uint32 \<Rightarrow> CUAddress \<Rightarrow> CUAddress \<Rightarrow> CUAddress \<Rightarrow> int \<Rightarrow> Symbol list \<Rightarrow> swap_state \<Rightarrow>
   (BalanceFlow list, swap_state) outcome" where
  "directSwap dexID from referer receiver amountIn path st =
     (if path = [] then None
      else do {
        need \<leftarrow> NewCoin (hd path) amountIn;
        on_ok (transfer (SubCoin from need) st) (\<lambda>(_, flow) st. do {
          ((amountOut, bonusCoins, repurchaseFunds), st) \<leftarrow> swap_path dexID path amountIn [] [] st;
          on_ok (if amountOut > 0 then do {
                   c \<leftarrow> NewCoin (last path) amountOut;
                   on_ok (transfer (AddCoin receiver c) st) (\<lambda>(_, flow) st. Some (Inr [flow], st)) }
                 else Some (Inr [], st)) (\<lambda>flows1 st.
          on_ok (if Coins_IsValid bonusCoins then
                   on_ok (transfer (AddCoins referer bonusCoins) st) (\<lambda>(_, flows) st. Some (Inr flows, st))
                 else Some (Inr [], st)) (\<lambda>flows2 st. do {
          st \<leftarrow> addRepurchaseFunds repurchaseFunds st;
          Some (Inr ([flow] @ flows1 @ flows2), st) })) }) })"

definition SwapExactIn ::
  "uint32 \<Rightarrow> CUAddress \<Rightarrow> CUAddress \<Rightarrow> CUAddress \<Rightarrow> int \<Rightarrow> int \<Rightarrow> Symbol list \<Rightarrow> swap_state \<Rightarrow>
   (BalanceFlow list, swap_state) outcome" where
  "SwapExactIn dexID from referer receiver amountIn minAmountOut path st = do {
     quote \<leftarrow> getAmountOut st dexID amountIn path;
     case quote of
       Inl e \<Rightarrow> Some (Inl e, st)
     | Inr amountOut \<Rightarrow>
         if amountOut < minAmountOut then Some (Inl ErrInvalidAmount, st)
         else directSwap dexID from referer receiver amountIn path st }"

definition SwapExactOut ::
  "uint32 \<Rightarrow> CUAddress \<Rightarrow> CUAddress \<Rightarrow> CUAddress \<Rightarrow> int \<Rightarrow> int \<Rightarrow> Symbol list \<Rightarrow> swap_state \<Rightarrow>
   (BalanceFlow list, swap_state) outcome" where
  "SwapExactOut dexID from referer receiver amountOut maxAmountIn path st = do {
     quote \<leftarrow> getAmountIn st dexID amountOut path;
     case quote of
       Inl e \<Rightarrow> Some (Inl e, st)
     | Inr amountIn \<Rightarrow>
         if amountIn > maxAmountIn then Some (Inl ErrInvalidAmount, st)
         else directSwap dexID from referer receiver amountIn path st }"

section \<open>Repurchase\<close>

fun repurchase_loop :: "Symbol \<Rightarrow> Coins \<Rightarrow> int \<Rightarrow> swap_state \<Rightarrow> (int \<times> swap_state) option" where
  "repurchase_loop repurchaseToken [] acc st = Some (acc, st)"
| "repurchase_loop repurchaseToken (coin # coins) acc st = do {
     (acc, st) \<leftarrow> (if Denom coin = repurchaseToken then do {
         acc \<leftarrow> Int_Add acc (Amount coin);
         Some (acc, st) }
       else
         case GetTradingPair st 0 (Denom coin) repurchaseToken of
           None \<Rightarrow> Some (acc, st)
         | Some pair \<Rightarrow> do {
             ((amount, _, _, _), st) \<leftarrow>
               swap (getFeeRates st pair) pair (Denom coin) (Amount coin) True st;
             acc \<leftarrow> Int_Add acc amount;
             Some (acc, st) });
     repurchase_loop repurchaseToken coins acc
       (st\<lparr>sw_repurchase := kv_delete (Denom coin) (sw_repurchase st)\<rparr>) }"

text \<open>The remainder by zero panics; the errors of the two keepers at the end are not looked at.\<close>

definition RepurchaseAndBurn :: "Context \<Rightarrow> swap_state \<Rightarrow> (int \<times> swap_state) option" where
  "RepurchaseAndBurn ctx st =
     (if RepurchaseDuration (sw_params st) = 0 then None
      else if \<not> RepurchaseDuration (sw_params st) dvd BlockHeight ctx then Some (0, st)
      else do {
        repurchaseFunds \<leftarrow> getRepurchaseFunds st;
        let repurchaseToken = RepurchaseToken (sw_params st);
        (totalRepurchaseAmount, st) \<leftarrow> repurchase_loop repurchaseToken repurchaseFunds 0 st;
        if totalRepurchaseAmount > 0 then do {
          coin \<leftarrow> NewCoin repurchaseToken totalRepurchaseAmount;
          burnedCoins \<leftarrow> NewCoins [coin];
          (_, st) \<leftarrow> transfer (AddCoins (ModuleCUAddress ctx) burnedCoins) st;
          (_, st) \<leftarrow> on_ledger (BurnCoins (ctx_permAddrs ctx) ModuleName burnedCoins) st;
          Some (totalRepurchaseAmount, st) }
        else Some (totalRepurchaseAmount, st) })"

declare getAmountIn_def [go_eval] swap_fees_def [go_eval] swap_def [go_eval] add_positive_def [go_eval]
  directSwap_def [go_eval] SwapExactIn_def [go_eval] SwapExactOut_def [go_eval] RepurchaseAndBurn_def [go_eval]

end
