(* ===== verification/SwapOrder.thy ===== *)
theory SwapOrder
  imports SwapTrade
begin

text \<open>
  \<open>x/openswap/keeper\<close>, limit orders (\<open>LimitSwap\<close> and \<open>limitSwap\<close> of \<open>keeper.go\<close>, \<open>calLimitSwapAmount\<close> of
  \<open>util.go\<close>, the life cycle of an order in \<open>order.go\<close>).  An operation that changes the order it is
  given a pointer to returns the changed order.  Where the source drops the error of a transfer,
  the state goes on as the transfer left it and the flow is the zero value.
\<close>

section \<open>Dropped errors\<close>

definition zero_flow :: BalanceFlow where
  "zero_flow = \<lparr>fl_CUAddress = '''', fl_Symbol = '''', fl_PreviousBalance = 0, fl_BalanceChange = 0,
     fl_PreviousBalanceOnHold = 0, fl_BalanceOnHoldChange = 0\<rparr>"

definition ignore_error :: "'a \<Rightarrow> ('a, 's) outcome \<Rightarrow> ('a \<times> 's) option" where
  "ignore_error zero r = map_option (\<lambda>(x, st). (case x of Inl e \<Rightarrow> zero | Inr y \<Rightarrow> y, st)) r"

text \<open>A coin operation on the bank whose error is dropped, giving the flow alone.\<close>

definition coin_flow :: "(bank \<Rightarrow> (Coin \<times> BalanceFlow, bank) outcome) \<Rightarrow> swap_state \<Rightarrow>
    (BalanceFlow \<times> swap_state) option" where
  "coin_flow f st = do {
     ((_, flow), st) \<leftarrow> ignore_error (\<lparr>Denom = '''', Amount = 0\<rparr>, zero_flow) (transfer f st);
     Some (flow, st) }"

section \<open>Limit swaps\<close>

record EventSwap =
  ev_From :: CUAddress
  ev_OrderID :: string
  ev_DexID :: uint32
  ev_TokenA :: Symbol
  ev_TokenB :: Symbol
  ev_TokenAAmount :: int
  ev_TokenBAmount :: int
  ev_TokenIn :: Symbol
  ev_AmountIn :: int
  ev_AmountOut :: int

definition NewEventSwap ::
  "CUAddress \<Rightarrow> string \<Rightarrow> uint32 \<Rightarrow> Symbol \<Rightarrow> Symbol \<Rightarrow> Symbol \<Rightarrow> int \<Rightarrow> int \<Rightarrow> int \<Rightarrow> int \<Rightarrow> EventSwap" where
  "NewEventSwap from orderID dexID tokenA tokenB tokenIn tokenAAmount tokenBAmount amountIn amountOut =
     \<lparr>ev_From = from, ev_OrderID = orderID, ev_DexID = dexID, ev_TokenA = tokenA, ev_TokenB = tokenB,
      ev_TokenAAmount = tokenAAmount, ev_TokenBAmount = tokenBAmount, ev_TokenIn = tokenIn,
      ev_AmountIn = amountIn, ev_AmountOut = amountOut\<rparr>"

definition calLimitSwapAmount :: "Order \<Rightarrow> TradingPair \<Rightarrow> (int \<times> bool) option" where
  "calLimitSwapAmount ord pair =
     (if \<not> TokenAAmount pair > 0 \<or> \<not> TokenBAmount pair > 0 then Some (0, False)
      else do {
        curPrice \<leftarrow> Price pair;
        (amount, priceSuitable) \<leftarrow>
          (if o_Side ord = OrderSideBuy \<and> o_Price ord > curPrice then do {
             d \<leftarrow> Dec_Mul (ToDec (TokenAAmount pair)) (o_Price ord);
             t \<leftarrow> Dec_TruncateInt d;
             amount \<leftarrow> Int_Sub t (TokenBAmount pair);
             Some (amount, True) }
           else if o_Side ord = OrderSideSell \<and> o_Price ord < curPrice then do {
             d \<leftarrow> Dec_Quo (ToDec (TokenBAmount pair)) (o_Price ord);
             t \<leftarrow> Dec_TruncateInt d;
             amount \<leftarrow> Int_Sub t (TokenAAmount pair);
             Some (amount, True) }
           else Some (0, False));
        Some (if amount > 0 then (amount, priceSuitable) else (0, priceSuitable)) })"

text \<open>What the order puts in at most: the amount that moves the price to its limit, with the fees.\<close>

definition limit_amount :: "Order \<Rightarrow> int \<Rightarrow> int option" where
  "limit_amount ord maxAmountIn = do {
     total \<leftarrow> TotalFeeRate (o_FeeRate ord);
     realAmountInCoeff \<leftarrow> Dec_Sub OneDec total;
     d \<leftarrow> Dec_Quo (ToDec maxAmountIn) realAmountInCoeff;
     realMaxAmountIn \<leftarrow> Dec_TruncateInt d;
     Some (if realMaxAmountIn > o_LockedFund ord then o_LockedFund ord else realMaxAmountIn) }"

text \<open>The transfers that follow the swap: from the sender's hold, to the receiver, to the referer.\<close>

definition limit_payments ::
  "Order \<Rightarrow> Symbol \<Rightarrow> Symbol \<Rightarrow> int \<Rightarrow> int \<Rightarrow> int \<Rightarrow> int \<Rightarrow> swap_state \<Rightarrow> (BalanceFlow list \<times> swap_state) option" where
  "limit_payments ord tokenIn tokenOut amountIn amountOut bonus repurchaseFund st = do {
     (flows1, st) \<leftarrow> (if amountIn > 0 then do {
         c \<leftarrow> NewCoin tokenIn amountIn;
         (flow, st) \<leftarrow> coin_flow (SubCoinHold (o_From ord) c) st;
         Some ([flow], st) }
       else Some ([], st));
     (flows2, st) \<leftarrow> (if amountOut > 0 then do {
         c \<leftarrow> NewCoin tokenOut amountOut;
         (flow, st) \<leftarrow> coin_flow (AddCoin (o_Receiver ord) c) st;
         Some ([flow], st) }
       else Some ([], st));
     (flows3, st) \<leftarrow> (if bonus > 0 then do {
         c \<leftarrow> NewCoin tokenIn bonus;
         (flow, st) \<leftarrow> coin_flow (AddCoin (o_Referer ord) c) st;
         Some ([flow], st) }
       else Some ([], st));
     st \<leftarrow> (if repurchaseFund > 0 then do {
         c \<leftarrow> NewCoin tokenIn repurchaseFund;
         cs \<leftarrow> NewCoins [c];
         addRepurchaseFunds cs st }
       else Some st);
     Some (flows1 @ flows2 @ flows3, st) }"

definition limitSwap ::
  "Context \<Rightarrow> Order \<Rightarrow> TradingPair \<Rightarrow> swap_state \<Rightarrow>
   ((BalanceFlow list \<times> EventSwap option \<times> TradingPair \<times> bool \<times> Order) \<times> swap_state) option" where
  "limitSwap ctx ord pair st = do {
     (maxAmountIn, priceSuitable) \<leftarrow> calLimitSwapAmount ord pair;
     if maxAmountIn = 0 then Some (([], None, pair, priceSuitable, ord), st)
     else do {
       realMaxAmountIn \<leftarrow> limit_amount ord maxAmountIn;
       let (tokenIn, tokenOut) = (if o_Side ord = OrderSideBuy then (TokenB pair, TokenA pair)
                                  else (TokenA pair, TokenB pair));
       ((amountOut, bonus, repurchaseFund, pair), st) \<leftarrow>
         swap (o_FeeRate ord) pair tokenIn realMaxAmountIn False st;
       let swapEvent = NewEventSwap (o_From ord) (o_OrderID ord) (DexID pair) (TokenA pair) (TokenB pair)
         tokenIn (TokenAAmount pair) (TokenBAmount pair) realMaxAmountIn amountOut;
       (flows, st) \<leftarrow> limit_payments ord tokenIn tokenOut realMaxAmountIn amountOut bonus repurchaseFund st;
       fund \<leftarrow> Int_Sub (o_LockedFund ord) realMaxAmountIn;
       let ord = (if fund = 0
         then ord\<lparr>o_LockedFund := fund, o_Status := OrderStatusFilled, o_FinishedTime := BlockTime ctx\<rparr>
         else ord\<lparr>o_LockedFund := fund, o_Status := OrderStatusPartiallyFilled\<rparr>);
       Some ((flows, Some swapEvent, pair, priceSuitable, ord), saveOrder ord st) } }"

text \<open>What the order could buy at its own price, which must not be zero.\<close>

definition limit_order_out :: "FeeRate \<Rightarrow> int \<Rightarrow> Dec \<Rightarrow> OrderSide \<Rightarrow> int option" where
  "limit_order_out feeRate amountIn price side = do {
     total \<leftarrow> TotalFeeRate feeRate;
     realInCoeff \<leftarrow> Dec_Sub OneDec total;
     d \<leftarrow> Dec_Mul (ToDec amountIn) realInCoeff;
     let realAmount = Dec_TruncateDec d;
     q \<leftarrow> (if side = OrderSideBuy then Dec_Quo realAmount price else Dec_Mul realAmount price);
     Dec_TruncateInt q }"

definition LimitSwap ::
  "Context \<Rightarrow> uint32 \<Rightarrow> string \<Rightarrow> CUAddress \<Rightarrow> CUAddress \<Rightarrow> CUAddress \<Rightarrow> int \<Rightarrow> Dec \<Rightarrow> Symbol \<Rightarrow> Symbol \<Rightarrow>
   OrderSide \<Rightarrow> int \<Rightarrow> swap_state \<Rightarrow> (BalanceFlow list, swap_state) outcome" where
  "LimitSwap ctx dexID orderID from referer receiver amountIn price baseSymbol quoteSymbol side expiredAt st =
     (case GetTradingPair st dexID baseSymbol quoteSymbol of
        None \<Rightarrow> Some (Inl ErrInvalidTx, st)
      | Some p \<Rightarrow> do {
          let feeRate = getFeeRates st p;
          amountOut \<leftarrow> limit_order_out feeRate amountIn price side;
          if \<not> amountOut > 0 then Some (Inl ErrInvalidTx, st)
          else
            case (if IsPublic p \<and> dexID \<noteq> 0 then GetTradingPair st 0 baseSymbol quoteSymbol else Some p) of
              None \<Rightarrow> Some (Inl ErrInvalidTx, st)
            | Some pair \<Rightarrow>
                if \<not> TokenAAmount pair > 0 \<or> \<not> TokenBAmount pair > 0 then Some (Inl ErrInvalidTx, st)
                else do {
                  let symbol = (if side = OrderSideBuy then quoteSymbol else baseSymbol);
                  coin \<leftarrow> NewCoin symbol amountIn;
                  on_ok (transfer (LockCoin from coin) st) (\<lambda>flows st. do {
                    let ord = \<lparr>o_OrderID = orderID, o_DexID = DexID pair, o_From = from, o_Referer = referer,
                       o_Receiver = receiver, o_CreatedTime = BlockTime ctx, o_ExpiredTime = expiredAt,
                       o_FinishedTime = 0, o_Status = OrderStatusNew, o_Side = side,
                       o_BaseSymbol = baseSymbol, o_QuoteSymbol = quoteSymbol, o_Price = price,
                       o_AmountIn = amountIn, o_LockedFund = amountIn, o_FeeRate = feeRate\<rparr>;
                    let st = saveOrder ord st;
                    ((balanceFlows, _, _, _, ord), st) \<leftarrow> limitSwap ctx ord pair st;
                    st \<leftarrow> (if o_Status ord \<noteq> OrderStatusFilled then
                        let st = addUnfinishedOrder ord st; gas = LimitSwapMatchingGas (sw_params st)
                        in if gas < 2 ^ 64 then consume_gas (of_nat gas) st else None
                      else Some st);
                    Some (Inr (flows @ balanceFlows), st) }) } })"

section \<open>The end of an order\<close>

definition getOrderLockedCoin :: "Order \<Rightarrow> Coin option" where
  "getOrderLockedCoin ord =
     NewCoin (if o_Side ord = OrderSideBuy then o_QuoteSymbol ord else o_BaseSymbol ord) (o_LockedFund ord)"

definition finishOrderWithStatus ::
  "Context \<Rightarrow> Order \<Rightarrow> OrderStatus \<Rightarrow> swap_state \<Rightarrow> ((BalanceFlow list \<times> Order) \<times> swap_state) option" where
  "finishOrderWithStatus ctx ord status st = do {
     let ord = ord\<lparr>o_FinishedTime := BlockTime ctx, o_Status := status\<rparr>;
     (flows, ord, st) \<leftarrow> (if o_LockedFund ord > 0 then do {
         coin \<leftarrow> getOrderLockedCoin ord;
         (flows, st) \<leftarrow> ignore_error [] (transfer (UnlockCoin (o_From ord) coin) st);
         Some (flows, ord\<lparr>o_LockedFund := 0\<rparr>, st) }
       else Some ([], ord, st));
     Some ((flows, ord), delUnfinishedOrder ord (saveOrder ord st)) }"

definition ExpireOrder :: "Context \<Rightarrow> Order \<Rightarrow> swap_state \<Rightarrow> (Order \<times> swap_state) option" where
  "ExpireOrder ctx ord st = do {
     ((_, ord), st) \<leftarrow> finishOrderWithStatus ctx ord OrderStatusExpired st;
     Some (ord, st) }"

fun cancel_loop ::
  "Context \<Rightarrow> CUAddress \<Rightarrow> string list \<Rightarrow> BalanceFlow list \<Rightarrow> swap_state \<Rightarrow>
   (BalanceFlow list, swap_state) outcome" where
  "cancel_loop ctx from [] flows st = Some (Inr flows, st)"
| "cancel_loop ctx from (orderID # orderIDs) flows st =
     (case GetOrder st orderID of
        None \<Rightarrow> Some (Inl ErrNotFoundOrder, st)
      | Some ord \<Rightarrow>
          if IsFinished ord then Some (Inl ErrInvalidTx, st)
          else if o_From ord \<noteq> from then Some (Inl ErrInvalidTx, st)
          else do {
            ((balanceFlows, _), st) \<leftarrow> finishOrderWithStatus ctx ord OrderStatusCanceled st;
            cancel_loop ctx from orderIDs (flows @ balanceFlows) st })"

definition CancelOrders ::
  "Context \<Rightarrow> CUAddress \<Rightarrow> string list \<Rightarrow> swap_state \<Rightarrow> (BalanceFlow list, swap_state) outcome" where
  "CancelOrders ctx from orderIDs st =
     on_ok (cancel_loop ctx from orderIDs [] st) (\<lambda>flows st.
       Some (Inr flows, addWaitToRemoveFromMatchingOrderID orderIDs st))"

text \<open>
  The unfinished orders in the order of their keys, each handed to \<open>f\<close>; an order that is not there
  is a nil pointer, which is passed on.
\<close>

definition unfinished_orders :: "swap_state \<Rightarrow> Order option list" where
  "unfinished_orders st =
     map (\<lambda>((_, _, _, _, orderID), _). GetOrder st orderID) (kv_entries (sw_unfinished st))"

fun IteratorAllUnfinishedOrder :: "(Order option \<Rightarrow> 'a \<Rightarrow> 'a option) \<Rightarrow> Order option list \<Rightarrow> 'a \<Rightarrow> 'a option" where
  "IteratorAllUnfinishedOrder f [] x = Some x"
| "IteratorAllUnfinishedOrder f (ord # ords) x = do {
     x \<leftarrow> f ord x;
     IteratorAllUnfinishedOrder f ords x }"

declare coin_flow_def [go_eval] ignore_error_def [go_eval] calLimitSwapAmount_def [go_eval]
  limit_amount_def [go_eval] limit_payments_def [go_eval] limitSwap_def [go_eval] limit_order_out_def [go_eval]
  LimitSwap_def [go_eval] getOrderLockedCoin_def [go_eval] finishOrderWithStatus_def [go_eval]
  ExpireOrder_def [go_eval] CancelOrders_def [go_eval] NewEventSwap_def [go_eval]

end
