(* ===== verification/Orderbook.thy ===== *)
theory Orderbook
  imports SwapOrder
begin

text \<open>
  \<open>x/openswap/orderbook\<close>: the books of one market and the manager of all markets, which live in memory
  and are filled from the store.  The books share pointers to orders; an order is changed through
  its pointer while it is in a book, but never in the fields the books are sorted by.  A pointer is
  the identifier of the order, \<open>idToOrder\<close> is the memory it points into, and the trees hold the
  order as it was when it was put there.

  The red-black tree is a third-party container.  Its operations are a parameter of the model
  (\<open>tree_ops\<close>, with the in-order traversal of its iterator), and what the books rely on is the
  locale \<open>order_tree\<close>: for a comparison that is a strict total order on the keys involved, the
  iterator yields the keys in ascending order, \<open>Put\<close> adds a key in place of an equal one, and \<open>Remove\<close>
  takes it away.
\<close>

section \<open>Comparison\<close>

text \<open>\<open>strings.Compare\<close>.\<close>

definition strings_Compare :: "string \<Rightarrow> string \<Rightarrow> int" where
  "strings_Compare a b = (if a = b then 0 else if a < b then - 1 else 1)"

definition compareOrderByPrice :: "Order \<Rightarrow> Order \<Rightarrow> int" where
  "compareOrderByPrice orderA orderB =
     (if o_OrderID orderA = o_OrderID orderB then 0
      else if LessThan orderA orderB then - 1
      else 1)"

text \<open>The difference of two times is taken at 64 bits and wraps around.\<close>

definition int64_wrap :: "int \<Rightarrow> int" where
  "int64_wrap x = (x + 2 ^ 63) mod 2 ^ 64 - 2 ^ 63"

definition compareOrderByExpiredTime :: "Order \<Rightarrow> Order \<Rightarrow> int" where
  "compareOrderByExpiredTime orderA orderB =
     (if o_ExpiredTime orderA = o_ExpiredTime orderB
      then strings_Compare (o_OrderID orderA) (o_OrderID orderB)
      else int64_wrap (o_ExpiredTime orderA - o_ExpiredTime orderB))"

section \<open>Trees and books\<close>

record 't tree_ops =
  NewWith :: "(Order \<Rightarrow> Order \<Rightarrow> int) \<Rightarrow> 't"
  Put :: "Order \<Rightarrow> 't \<Rightarrow> 't"
  Remove :: "Order \<Rightarrow> 't \<Rightarrow> 't"
  Keys :: "'t \<Rightarrow> Order list"

record 't Orderbook =
  ordersByPrice :: 't
  ordersByExpiredTime :: 't
  idToOrder :: "(string, Order) kv"

definition NewOrderbook :: "'t tree_ops \<Rightarrow> 't Orderbook" where
  "NewOrderbook T =
     \<lparr>ordersByPrice = NewWith T compareOrderByPrice,
      ordersByExpiredTime = NewWith T compareOrderByExpiredTime, idToOrder = kv_empty\<rparr>"

definition book_AddOrder :: "'t tree_ops \<Rightarrow> Order \<Rightarrow> 't Orderbook \<Rightarrow> 't Orderbook" where
  "book_AddOrder T ord b =
     (let b = b\<lparr>ordersByPrice := Put T ord (ordersByPrice b)\<rparr>;
          b = (if o_ExpiredTime ord \<ge> 0 then b\<lparr>ordersByExpiredTime := Put T ord (ordersByExpiredTime b)\<rparr> else b)
      in b\<lparr>idToOrder := kv_set (o_OrderID ord) ord (idToOrder b)\<rparr>)"

definition book_DelOrder :: "'t tree_ops \<Rightarrow> string \<Rightarrow> 't Orderbook \<Rightarrow> 't Orderbook" where
  "book_DelOrder T orderID b =
     (case kv_get (idToOrder b) orderID of
        None \<Rightarrow> b
      | Some ord \<Rightarrow>
          let b = b\<lparr>ordersByPrice := Remove T ord (ordersByPrice b)\<rparr>;
              b = (if o_ExpiredTime ord \<ge> 0
                   then b\<lparr>ordersByExpiredTime := Remove T ord (ordersByExpiredTime b)\<rparr> else b)
          in b\<lparr>idToOrder := kv_delete orderID (idToOrder b)\<rparr>)"

text \<open>The pointers an iterator passes, and the orders they point to.\<close>

definition deref :: "'t Orderbook \<Rightarrow> Order \<Rightarrow> Order" where
  "deref b k = (case kv_get (idToOrder b) (o_OrderID k) of None \<Rightarrow> k | Some ord \<Rightarrow> ord)"

definition book_Iterator :: "'t tree_ops \<Rightarrow> 't Orderbook \<Rightarrow> string list" where
  "book_Iterator T b = map o_OrderID (Keys T (ordersByPrice b))"

definition book_ReverseIterator :: "'t tree_ops \<Rightarrow> 't Orderbook \<Rightarrow> string list" where
  "book_ReverseIterator T b = map o_OrderID (rev (Keys T (ordersByPrice b)))"

definition GetExpiredOrder :: "'t tree_ops \<Rightarrow> int \<Rightarrow> 't Orderbook \<Rightarrow> Order list" where
  "GetExpiredOrder T currentTime b =
     map (deref b) (takeWhile (\<lambda>ord. \<not> o_ExpiredTime ord > currentTime) (Keys T (ordersByExpiredTime b)))"

text \<open>Writing through the pointer.\<close>

definition book_write :: "Order \<Rightarrow> 't Orderbook \<Rightarrow> 't Orderbook" where
  "book_write ord b =
     (case kv_get (idToOrder b) (o_OrderID ord) of
        None \<Rightarrow> b
      | Some _ \<Rightarrow> b\<lparr>idToOrder := kv_set (o_OrderID ord) ord (idToOrder b)\<rparr>)"

section \<open>Markets\<close>

record 't Market =
  mk_dexID :: uint32
  mk_baseSymbol :: Symbol
  mk_quoteSymbol :: Symbol
  mk_buyOrders :: "'t Orderbook"
  mk_sellOrders :: "'t Orderbook"

definition NewMarket :: "'t tree_ops \<Rightarrow> uint32 \<Rightarrow> Symbol \<Rightarrow> Symbol \<Rightarrow> 't Market" where
  "NewMarket T dexID baseSymbol quoteSymbol =
     \<lparr>mk_dexID = dexID, mk_baseSymbol = baseSymbol, mk_quoteSymbol = quoteSymbol,
      mk_buyOrders = NewOrderbook T, mk_sellOrders = NewOrderbook T\<rparr>"

definition market_AddOrder :: "'t tree_ops \<Rightarrow> Order \<Rightarrow> 't Market \<Rightarrow> 't Market" where
  "market_AddOrder T ord e =
     (if o_Side ord = OrderSideBuy then e\<lparr>mk_buyOrders := book_AddOrder T ord (mk_buyOrders e)\<rparr>
      else e\<lparr>mk_sellOrders := book_AddOrder T ord (mk_sellOrders e)\<rparr>)"

definition market_DelOrder :: "'t tree_ops \<Rightarrow> Order \<Rightarrow> 't Market \<Rightarrow> 't Market" where
  "market_DelOrder T ord e =
     (if o_Side ord = OrderSideBuy then e\<lparr>mk_buyOrders := book_DelOrder T (o_OrderID ord) (mk_buyOrders e)\<rparr>
      else e\<lparr>mk_sellOrders := book_DelOrder T (o_OrderID ord) (mk_sellOrders e)\<rparr>)"

definition market_GetAllOrders :: "'t tree_ops \<Rightarrow> 't Market \<Rightarrow> Order list \<times> Order list" where
  "market_GetAllOrders T e =
     (map (deref (mk_sellOrders e)) (rev (Keys T (ordersByPrice (mk_sellOrders e)))),
      map (deref (mk_buyOrders e)) (rev (Keys T (ordersByPrice (mk_buyOrders e)))))"

definition market_GetExpiredOrders :: "'t tree_ops \<Rightarrow> Context \<Rightarrow> 't Market \<Rightarrow> Order list" where
  "market_GetExpiredOrders T ctx e =
     GetExpiredOrder T (BlockTime ctx) (mk_sellOrders e) @ GetExpiredOrder T (BlockTime ctx) (mk_buyOrders e)"

definition market_write :: "Order \<Rightarrow> 't Market \<Rightarrow> 't Market" where
  "market_write ord e =
     (if o_Side ord = OrderSideBuy then e\<lparr>mk_buyOrders := book_write ord (mk_buyOrders e)\<rparr>
      else e\<lparr>mk_sellOrders := book_write ord (mk_sellOrders e)\<rparr>)"

section \<open>The manager\<close>

text \<open>
  A market key is \<open>fmt.Sprintf\<close> of the dex, the base and the quote symbol.  The map from keys to
  markets is a store; its key list is kept sorted beside it.
\<close>

fun decimal :: "nat \<Rightarrow> string" where
  "decimal n = (if n < 10 then [char_of (48 + n)] else decimal (n div 10) @ [char_of (48 + n mod 10)])"

declare decimal.simps [simp del]

definition formatKey :: "uint32 \<Rightarrow> Symbol \<Rightarrow> Symbol \<Rightarrow> string" where
  "formatKey dexID baseSymbol quoteSymbol = decimal (unat dexID) @ ''-'' @ baseSymbol @ ''-'' @ quoteSymbol"

record 't Manager =
  mg_markets :: "(string, 't Market) kv"
  mg_marketKeys :: "string list"

definition NewManager :: "'t Manager" where
  "NewManager = \<lparr>mg_markets = kv_empty, mg_marketKeys = []\<rparr>"

definition addMarket :: "'t tree_ops \<Rightarrow> uint32 \<Rightarrow> Symbol \<Rightarrow> Symbol \<Rightarrow> 't Manager \<Rightarrow> 't Market \<times> 't Manager" where
  "addMarket T dexID baseSymbol quoteSymbol m =
     (let market = NewMarket T dexID baseSymbol quoteSymbol; key = formatKey dexID baseSymbol quoteSymbol
      in (market, m\<lparr>mg_markets := kv_set key market (mg_markets m),
            mg_marketKeys := sort (mg_marketKeys m @ [key])\<rparr>))"

text \<open>The market of an order, made when it does not exist.\<close>

definition market_of :: "'t tree_ops \<Rightarrow> Order \<Rightarrow> 't Manager \<Rightarrow> 't Market \<times> 't Manager" where
  "market_of T ord m =
     (case kv_get (mg_markets m) (formatKey (o_DexID ord) (o_BaseSymbol ord) (o_QuoteSymbol ord)) of
        None \<Rightarrow> addMarket T (o_DexID ord) (o_BaseSymbol ord) (o_QuoteSymbol ord) m
      | Some market \<Rightarrow> (market, m))"

definition set_market :: "Order \<Rightarrow> 't Market \<Rightarrow> 't Manager \<Rightarrow> 't Manager" where
  "set_market ord market m =
     m\<lparr>mg_markets := kv_set (formatKey (o_DexID ord) (o_BaseSymbol ord) (o_QuoteSymbol ord)) market (mg_markets m)\<rparr>"

definition mgr_AddOrder :: "'t tree_ops \<Rightarrow> Order \<Rightarrow> 't Manager \<Rightarrow> 't Manager" where
  "mgr_AddOrder T ord m =
     (let (market, m) = market_of T ord m in set_market ord (market_AddOrder T ord market) m)"

definition mgr_DelOrder :: "'t tree_ops \<Rightarrow> Order \<Rightarrow> 't Manager \<Rightarrow> 't Manager" where
  "mgr_DelOrder T ord m =
     (let (market, m) = market_of T ord m in set_market ord (market_DelOrder T ord market) m)"

definition mgr_Init :: "'t tree_ops \<Rightarrow> swap_state \<Rightarrow> 't Manager \<Rightarrow> 't Manager option" where
  "mgr_Init T st m =
     IteratorAllUnfinishedOrder (\<lambda>ord m. map_option (\<lambda>ord. mgr_AddOrder T ord m) ord) (unfinished_orders st) m"

definition mgr_GetAllOrders ::
  "'t tree_ops \<Rightarrow> uint32 \<Rightarrow> Symbol \<Rightarrow> Symbol \<Rightarrow> 't Manager \<Rightarrow> Order list \<times> Order list" where
  "mgr_GetAllOrders T dexID baseSymbol quoteSymbol m =
     (case kv_get (mg_markets m) (formatKey dexID baseSymbol quoteSymbol) of
        None \<Rightarrow> ([], [])
      | Some market \<Rightarrow> market_GetAllOrders T market)"

text \<open>A key of the key list that is not in the map is a nil market.\<close>

definition GetMarkets :: "'t Manager \<Rightarrow> 't Market option list" where
  "GetMarkets m = map (kv_get (mg_markets m)) (mg_marketKeys m)"

definition mgr_GetExpiredOrders :: "'t tree_ops \<Rightarrow> Context \<Rightarrow> 't Manager \<Rightarrow> Order list option" where
  "mgr_GetExpiredOrders T ctx m =
     map_option (\<lambda>ms. concat (map (market_GetExpiredOrders T ctx) ms)) (those (GetMarkets m))"

definition mgr_write :: "Order \<Rightarrow> 't Manager \<Rightarrow> 't Manager" where
  "mgr_write ord m =
     (case kv_get (mg_markets m) (formatKey (o_DexID ord) (o_BaseSymbol ord) (o_QuoteSymbol ord)) of
        None \<Rightarrow> m
      | Some market \<Rightarrow> set_market ord (market_write ord market) m)"

end
