(* ===== verification/OrderbookFacts.thy ===== *)
theory OrderbookFacts
  imports Orderbook
begin

text \<open>
  The order books refine a map from identifiers to orders: whatever was added, deleted and changed
  through pointers, the iterators list exactly the orders of the map, by rising (or falling) price,
  then age, then identifier, and the expired ones are exactly those whose time has come.  The
  red-black tree is used through the locale \<open>order_tree\<close>.
\<close>

section \<open>The comparisons are orders\<close>

definition consistent :: "(Order \<Rightarrow> Order \<Rightarrow> int) \<Rightarrow> Order set \<Rightarrow> bool" where
  "consistent c S = ((\<forall>x \<in> S. \<forall>y \<in> S. (c x y < 0) = (0 < c y x)) \<and>
     (\<forall>x \<in> S. \<forall>y \<in> S. \<forall>z \<in> S. c x y < 0 \<longrightarrow> c y z < 0 \<longrightarrow> c x z < 0) \<and>
     (\<forall>x \<in> S. \<forall>y \<in> S. \<forall>z \<in> S. c x y = 0 \<longrightarrow> (c x z < 0) = (c y z < 0) \<and> (c z x < 0) = (c z y < 0)))"

lemma consistentD:
  assumes "consistent c S" and "x \<in> S" and "y \<in> S"
  shows "(c x y < 0) = (0 < c y x)" "(c x y = 0) = (c y x = 0)"
    "z \<in> S \<Longrightarrow> c x y < 0 \<Longrightarrow> c y z < 0 \<Longrightarrow> c x z < 0"
    "z \<in> S \<Longrightarrow> c x y = 0 \<Longrightarrow> (c x z < 0) = (c y z < 0)" "z \<in> S \<Longrightarrow> c x y = 0 \<Longrightarrow> (c z x < 0) = (c z y < 0)"
proof -
  show a: "(c x y < 0) = (0 < c y x)" using assms by (simp add: consistent_def)
  have "(c y x < 0) = (0 < c x y)" using assms by (simp add: consistent_def)
  with a show "(c x y = 0) = (c y x = 0)" by linarith
  show "z \<in> S \<Longrightarrow> c x y < 0 \<Longrightarrow> c y z < 0 \<Longrightarrow> c x z < 0"
    "z \<in> S \<Longrightarrow> c x y = 0 \<Longrightarrow> (c x z < 0) = (c y z < 0)" "z \<in> S \<Longrightarrow> c x y = 0 \<Longrightarrow> (c z x < 0) = (c z y < 0)"
    using assms unfolding consistent_def by blast+
qed

lemma consistent_subset: "consistent c S \<Longrightarrow> R \<subseteq> S \<Longrightarrow> consistent c R"
  unfolding consistent_def by blast

text \<open>The fields the books sort by, and orders that agree on them.\<close>

definition same_sort :: "Order \<Rightarrow> Order \<Rightarrow> bool" where
  "same_sort a b = (o_OrderID a = o_OrderID b \<and> o_Price a = o_Price b \<and> o_CreatedTime a = o_CreatedTime b \<and>
     o_ExpiredTime a = o_ExpiredTime b)"

lemma same_sort_refl [simp]: "same_sort a a"
  by (simp add: same_sort_def)

lemma same_sort_trans: "same_sort a b \<Longrightarrow> same_sort b c \<Longrightarrow> same_sort a c"
  by (simp add: same_sort_def)

lemma same_sort_sym: "same_sort a b \<Longrightarrow> same_sort b a"
  by (simp add: same_sort_def)

definition ids_unique :: "Order set \<Rightarrow> bool" where
  "ids_unique S = (\<forall>x \<in> S. \<forall>y \<in> S. o_OrderID x = o_OrderID y \<longrightarrow> same_sort x y)"

definition time_ok :: "Order \<Rightarrow> bool" where
  "time_ok ord = (o_ExpiredTime ord < 2 ^ 63)"

definition price_key :: "Order \<Rightarrow> Dec \<times> int \<times> string" where
  "price_key ord = (o_Price ord, o_CreatedTime ord, o_OrderID ord)"

lemma LessThan_iff: "LessThan a b = (price_key a < price_key b)"
  by (auto simp: LessThan_def price_key_def less_le)

lemma comparePrice_less:
  assumes "ids_unique S" and "x \<in> S" and "y \<in> S"
  shows "(compareOrderByPrice x y < 0) = (price_key x < price_key y)"
    "(compareOrderByPrice x y = 0) = (price_key x = price_key y)"
proof -
  have "o_OrderID x = o_OrderID y \<longrightarrow> same_sort x y" using assms unfolding ids_unique_def by blast
  then have same: "o_OrderID x = o_OrderID y \<Longrightarrow> price_key x = price_key y"
    by (simp add: same_sort_def price_key_def)
  have diff: "o_OrderID x \<noteq> o_OrderID y \<Longrightarrow> price_key x \<noteq> price_key y" by (simp add: price_key_def)
  show "(compareOrderByPrice x y < 0) = (price_key x < price_key y)"
    "(compareOrderByPrice x y = 0) = (price_key x = price_key y)"
    using same diff by (simp_all add: compareOrderByPrice_def LessThan_iff)
qed

definition time_key :: "Order \<Rightarrow> int \<times> string" where
  "time_key ord = (o_ExpiredTime ord, o_OrderID ord)"

lemma int64_wrap_small: "- (2 ^ 63) \<le> x \<Longrightarrow> x < 2 ^ 63 \<Longrightarrow> int64_wrap x = x"
  by (simp add: int64_wrap_def)

lemma compareTime_less:
  assumes "0 \<le> o_ExpiredTime x" and "time_ok x" and "0 \<le> o_ExpiredTime y" and "time_ok y"
  shows "(compareOrderByExpiredTime x y < 0) = (time_key x < time_key y)"
    "(compareOrderByExpiredTime x y = 0) = (time_key x = time_key y)"
  using assms int64_wrap_small [of "o_ExpiredTime x - o_ExpiredTime y"]
  by (auto simp: compareOrderByExpiredTime_def strings_Compare_def time_key_def time_ok_def less_le)

text \<open>A comparison that reads a linearly ordered key is consistent.\<close>

lemma consistent_key:
  fixes key :: "Order \<Rightarrow> 'k::linorder"
  assumes "\<And>x y. x \<in> S \<Longrightarrow> y \<in> S \<Longrightarrow> (c x y < 0) = (key x < key y)"
    and "\<And>x y. x \<in> S \<Longrightarrow> y \<in> S \<Longrightarrow> (c x y = 0) = (key x = key y)"
  shows "consistent c S"
proof -
  have "(0 < c y x) = (key x < key y)" if "x \<in> S" "y \<in> S" for x y
    using assms(1) [OF that(2,1)] assms(2) [OF that(2,1)] by (cases "key x" "key y" rule: linorder_cases) auto
  then show ?thesis using assms unfolding consistent_def by simp (metis order.strict_trans)
qed

lemma price_consistent: "ids_unique S \<Longrightarrow> consistent compareOrderByPrice S"
  using comparePrice_less by (rule consistent_key [where key = price_key])

lemma time_consistent:
  "\<forall>x \<in> S. 0 \<le> o_ExpiredTime x \<and> time_ok x \<Longrightarrow> consistent compareOrderByExpiredTime S"
  by (rule consistent_key [where key = time_key]) (use compareTime_less in blast)+

section \<open>What the trees promise\<close>

locale order_tree =
  fixes T :: "'t tree_ops" and cmp :: "'t \<Rightarrow> Order \<Rightarrow> Order \<Rightarrow> int"
  assumes keys_new: "Keys T (NewWith T c) = []"
    and cmp_new: "cmp (NewWith T c) = c"
    and cmp_put: "cmp (Put T k t) = cmp t"
    and cmp_remove: "cmp (Remove T k t) = cmp t"
    and put_sorted: "consistent (cmp t) (insert k (set (Keys T t))) \<Longrightarrow>
      sorted_wrt (\<lambda>x y. cmp t x y < 0) (Keys T t) \<Longrightarrow> sorted_wrt (\<lambda>x y. cmp t x y < 0) (Keys T (Put T k t))"
    and put_keys: "consistent (cmp t) (insert k (set (Keys T t))) \<Longrightarrow>
      sorted_wrt (\<lambda>x y. cmp t x y < 0) (Keys T t) \<Longrightarrow>
      set (Keys T (Put T k t)) = insert k {x \<in> set (Keys T t). cmp t k x \<noteq> 0}"
    and remove_sorted: "consistent (cmp t) (insert k (set (Keys T t))) \<Longrightarrow>
      sorted_wrt (\<lambda>x y. cmp t x y < 0) (Keys T t) \<Longrightarrow> sorted_wrt (\<lambda>x y. cmp t x y < 0) (Keys T (Remove T k t))"
    and remove_keys: "consistent (cmp t) (insert k (set (Keys T t))) \<Longrightarrow>
      sorted_wrt (\<lambda>x y. cmp t x y < 0) (Keys T t) \<Longrightarrow>
      set (Keys T (Remove T k t)) = {x \<in> set (Keys T t). cmp t k x \<noteq> 0}"

text \<open>Sorted lists keep these promises.\<close>

fun list_put :: "(Order \<Rightarrow> Order \<Rightarrow> int) \<Rightarrow> Order \<Rightarrow> Order list \<Rightarrow> Order list" where
  "list_put c k [] = [k]"
| "list_put c k (x # xs) =
     (if c k x < 0 then k # x # xs else if c k x = 0 then k # xs else x # list_put c k xs)"

definition list_trees :: "((Order \<Rightarrow> Order \<Rightarrow> int) \<times> Order list) tree_ops" where
  "list_trees =
     \<lparr>NewWith = (\<lambda>c. (c, [])), Put = (\<lambda>k (c, xs). (c, list_put c k xs)),
      Remove = (\<lambda>k (c, xs). (c, filter (\<lambda>x. c k x \<noteq> 0) xs)), Keys = snd\<rparr>"

lemma put_above:
  assumes "consistent c (insert k (set (x # xs)))" and "sorted_wrt (\<lambda>x y. c x y < 0) (x # xs)"
    and "y \<in> set xs" and "\<not> 0 < c k x"
  shows "c k y < 0" "c k y \<noteq> 0"
proof -
  have xy: "c x y < 0" using assms(2,3) by simp
  have S: "k \<in> insert k (set (x # xs))" "x \<in> insert k (set (x # xs))" "y \<in> insert k (set (x # xs))"
    using assms(3) by simp_all
  show *: "c k y < 0"
  proof (cases "c k x = 0")
    case True
    show ?thesis using consistentD(4) [OF assms(1) S(1,2,3) True] xy by simp
  next
    case False
    with assms(4) have "c k x < 0" by linarith
    from consistentD(3) [OF assms(1) S(1,2,3) this xy] show ?thesis .
  qed
  from * show "c k y \<noteq> 0" by simp
qed

lemma list_put_set:
  "consistent c (insert k (set xs)) \<Longrightarrow> sorted_wrt (\<lambda>x y. c x y < 0) xs \<Longrightarrow>
   set (list_put c k xs) = insert k {x \<in> set xs. c k x \<noteq> 0}"
proof (induction xs)
  case (Cons x xs)
  have con: "consistent c (insert k (set xs))" using Cons.prems(1) by (rule consistent_subset) auto
  note above = put_above(2) [OF Cons.prems]
  show ?case
  proof (cases "0 < c k x")
    case True
    then show ?thesis using Cons.IH [OF con] Cons.prems(2) by auto
  next
    case False
    then have above: "\<forall>y \<in> set xs. c k y \<noteq> 0" using above by blast
    show ?thesis
    proof (cases "c k x = 0")
      case True
      with above show ?thesis by (simp add: set_eq_iff) blast
    next
      case ne: False
      with False above show ?thesis by (simp add: set_eq_iff) blast
    qed
  qed
qed simp

lemma list_put_sorted:
  "consistent c (insert k (set xs)) \<Longrightarrow> sorted_wrt (\<lambda>x y. c x y < 0) xs \<Longrightarrow>
   sorted_wrt (\<lambda>x y. c x y < 0) (list_put c k xs)"
proof (induction xs)
  case (Cons x xs)
  have con: "consistent c (insert k (set xs))" using Cons.prems(1) by (rule consistent_subset) auto
  note above = put_above(1) [OF Cons.prems]
  show ?case
  proof (cases "0 < c k x")
    case True
    moreover have "c x k < 0" using consistentD(1) [OF Cons.prems(1), of x k] True by simp
    ultimately show ?thesis using Cons.IH [OF con] Cons.prems(2) by (simp add: list_put_set [OF con])
  next
    case False
    then have *: "\<forall>y \<in> set xs. c k y < 0" using above by blast
    show ?thesis
    proof (cases "c k x = 0")
      case True
      then show ?thesis using * Cons.prems(2) by simp
    next
      case ne: False
      with False have "c k x < 0" by linarith
      then show ?thesis using * Cons.prems(2) by simp
    qed
  qed
qed simp

lemma list_trees_simps:
  "Keys list_trees t = snd t" "NewWith list_trees c = (c, [])"
  "Put list_trees k t = (fst t, list_put (fst t) k (snd t))"
  "Remove list_trees k t = (fst t, filter (\<lambda>x. fst t k x \<noteq> 0) (snd t))"
  by (simp_all add: list_trees_def split_def)

interpretation list_tree: order_tree list_trees fst
  by unfold_locales (simp_all add: list_trees_simps list_put_set list_put_sorted sorted_wrt_filter)

section \<open>Trees that hold the orders of a map\<close>

definition cmp_ok :: "(Order \<Rightarrow> Order \<Rightarrow> int) \<Rightarrow> Order set \<Rightarrow> bool" where
  "cmp_ok c S = (consistent c S \<and> (\<forall>x \<in> S. \<forall>y \<in> S. (c x y = 0) = (o_OrderID x = o_OrderID y)))"

lemma price_cmp_ok: 
  assumes "ids_unique S"
  shows "cmp_ok compareOrderByPrice S"
  unfolding cmp_ok_def using price_consistent [OF assms] by (auto simp: compareOrderByPrice_def)

lemma time_cmp_ok:
  assumes "ids_unique S" and "\<forall>x \<in> S. 0 \<le> o_ExpiredTime x \<and> time_ok x"
  shows "cmp_ok compareOrderByExpiredTime S"
proof -
  have "(compareOrderByExpiredTime x y = 0) = (o_OrderID x = o_OrderID y)" if "x \<in> S" "y \<in> S" for x y
  proof -
    have "o_OrderID x = o_OrderID y \<longrightarrow> same_sort x y" using assms(1) that unfolding ids_unique_def by blast
    then have "(time_key x = time_key y) = (o_OrderID x = o_OrderID y)"
      by (auto simp: same_sort_def time_key_def)
    then show ?thesis using compareTime_less(2) [of x y] assms(2) that by blast
  qed
  then show ?thesis unfolding cmp_ok_def using time_consistent [OF assms(2)] by blast
qed

text \<open>The keys of a tree and the orders of a map that satisfy a condition, up to what is sorted by.\<close>

definition keys_hold :: "Order set \<Rightarrow> (Order \<Rightarrow> bool) \<Rightarrow> (string, Order) kv \<Rightarrow> bool" where
  "keys_hold K P m = ((\<forall>k \<in> K. \<exists>ord. kv_get m (o_OrderID k) = Some ord \<and> P ord \<and> same_sort ord k) \<and>
     (\<forall>i ord. kv_get m i = Some ord \<longrightarrow> P ord \<longrightarrow> (\<exists>k \<in> K. o_OrderID k = i)))"

definition by_sort :: "(Order \<Rightarrow> bool) \<Rightarrow> bool" where
  "by_sort P = (\<forall>x y. same_sort x y \<longrightarrow> P x = P y)"

text \<open>What an addition needs: the identifier is new, or the fields the books sort by are the same.\<close>

definition fits :: "Order \<Rightarrow> (string, Order) kv \<Rightarrow> bool" where
  "fits ord m = (case kv_get m (o_OrderID ord) of None \<Rightarrow> True | Some old \<Rightarrow> same_sort old ord)"

lemma keys_hold_add:
  "keys_hold K P m \<Longrightarrow> P ord \<Longrightarrow>
   keys_hold (insert ord {x \<in> K. o_OrderID ord \<noteq> o_OrderID x}) P (kv_set (o_OrderID ord) ord m)"
  unfolding keys_hold_def by (simp add: kv_get_set) metis

lemma keys_hold_add_other:
  assumes "keys_hold K P m" and "\<not> P ord" and "fits ord m" and "by_sort P"
  shows "keys_hold K P (kv_set (o_OrderID ord) ord m)"
proof -
  have "o_OrderID k \<noteq> o_OrderID ord" if "k \<in> K" for k
    using assms that unfolding keys_hold_def fits_def by_sort_def by (fastforce split: option.splits)
  then show ?thesis using assms(1,2) unfolding keys_hold_def by (simp add: kv_get_set)
qed

lemma keys_hold_delete: "keys_hold K P m \<Longrightarrow> keys_hold {x \<in> K. i \<noteq> o_OrderID x} P (kv_delete i m)"
  unfolding keys_hold_def by (simp add: kv_get_delete) metis

lemma keys_hold_delete_other:
  assumes "keys_hold K P m" and "kv_get m i = Some ord" and "\<not> P ord"
  shows "keys_hold K P (kv_delete i m)"
proof -
  have "o_OrderID k \<noteq> i" if "k \<in> K" for k
    using assms that unfolding keys_hold_def by (metis option.inject)
  then show ?thesis using assms(1) unfolding keys_hold_def by (simp add: kv_get_delete)
qed

lemma keys_hold_write:
  assumes "keys_hold K P m" and "kv_get m (o_OrderID ord) = Some old" and "same_sort old ord" and "by_sort P"
  shows "keys_hold K P (kv_set (o_OrderID ord) ord m)"
proof -
  have "P old = P ord" using assms(3,4) unfolding by_sort_def by blast
  with assms(1,2,3) show ?thesis unfolding keys_hold_def
    by (simp add: kv_get_set) (metis option.inject same_sort_sym same_sort_trans)
qed

lemma keys_hold_unique: "keys_hold K P m \<Longrightarrow> ids_unique K"
  unfolding keys_hold_def ids_unique_def by (metis option.inject same_sort_sym same_sort_trans)

lemma keys_hold_unique_insert: "keys_hold K P m \<Longrightarrow> fits ord m \<Longrightarrow> ids_unique (insert ord K)"
  using keys_hold_unique [of K P m] unfolding keys_hold_def ids_unique_def fits_def
  by (auto split: option.splits intro: same_sort_sym same_sort_trans) (metis option.inject option.distinct(1) same_sort_sym same_sort_trans)+

context order_tree
begin

definition tree_of :: "(Order \<Rightarrow> Order \<Rightarrow> int) \<Rightarrow> (Order \<Rightarrow> bool) \<Rightarrow> (string, Order) kv \<Rightarrow> 't \<Rightarrow> bool" where
  "tree_of c P m t =
     (cmp t = c \<and> sorted_wrt (\<lambda>x y. c x y < 0) (Keys T t) \<and> keys_hold (set (Keys T t)) P m)"

lemma tree_of_new: "tree_of c P kv_empty (NewWith T c)"
  by (simp add: tree_of_def keys_new cmp_new keys_hold_def)

lemma tree_of_put:
  assumes "tree_of c P m t" and "P ord" and "cmp_ok c (insert ord (set (Keys T t)))"
  shows "tree_of c P (kv_set (o_OrderID ord) ord m) (Put T ord t)"
proof -
  have c: "cmp t = c" and s: "sorted_wrt (\<lambda>x y. cmp t x y < 0) (Keys T t)" and h: "keys_hold (set (Keys T t)) P m"
    using assms(1) unfolding tree_of_def by auto
  have con: "consistent (cmp t) (insert ord (set (Keys T t)))" using assms(3) c unfolding cmp_ok_def by simp
  have eq: "(c ord x \<noteq> 0) = (o_OrderID ord \<noteq> o_OrderID x)" if "x \<in> set (Keys T t)" for x
    using assms(3) that unfolding cmp_ok_def by simp
  have "set (Keys T (Put T ord t)) = insert ord {x \<in> set (Keys T t). o_OrderID ord \<noteq> o_OrderID x}"
    unfolding put_keys [OF con s] c using eq by auto
  then show ?thesis using keys_hold_add [OF h assms(2)] put_sorted [OF con s] c
    by (simp add: tree_of_def cmp_put)
qed

lemma tree_of_remove:
  assumes "tree_of c P m t" and "cmp_ok c (insert ord (set (Keys T t)))"
  shows "tree_of c P (kv_delete (o_OrderID ord) m) (Remove T ord t)"
proof -
  have c: "cmp t = c" and s: "sorted_wrt (\<lambda>x y. cmp t x y < 0) (Keys T t)" and h: "keys_hold (set (Keys T t)) P m"
    using assms(1) unfolding tree_of_def by auto
  have con: "consistent (cmp t) (insert ord (set (Keys T t)))" using assms(2) c unfolding cmp_ok_def by simp
  have eq: "(c ord x \<noteq> 0) = (o_OrderID ord \<noteq> o_OrderID x)" if "x \<in> set (Keys T t)" for x
    using assms(2) that unfolding cmp_ok_def by simp
  have "set (Keys T (Remove T ord t)) = {x \<in> set (Keys T t). o_OrderID ord \<noteq> o_OrderID x}"
    unfolding remove_keys [OF con s] c using eq by auto
  then show ?thesis using keys_hold_delete [OF h] remove_sorted [OF con s] c
    by (simp add: tree_of_def cmp_remove)
qed

end

section \<open>Books refine maps\<close>

definition expires :: "Order \<Rightarrow> bool" where
  "expires ord = (o_ExpiredTime ord \<ge> 0)"

lemma by_sort_simps [simp]: "by_sort (\<lambda>_. True)" "by_sort expires" "by_sort time_ok"
  by (auto simp: by_sort_def expires_def same_sort_def time_ok_def)

definition keyed :: "(string, Order) kv \<Rightarrow> bool" where
  "keyed m = (\<forall>i ord. kv_get m i = Some ord \<longrightarrow> o_OrderID ord = i \<and> time_ok ord)"

context order_tree
begin

definition book_ok :: "'t Orderbook \<Rightarrow> bool" where
  "book_ok b = (keyed (idToOrder b) \<and>
     tree_of compareOrderByPrice (\<lambda>_. True) (idToOrder b) (ordersByPrice b) \<and>
     tree_of compareOrderByExpiredTime expires (idToOrder b) (ordersByExpiredTime b))"

lemma book_ok_new: "book_ok (NewOrderbook T)"
  by (simp add: book_ok_def NewOrderbook_def keyed_def tree_of_new)

lemma keys_hold_times:
  assumes "keys_hold K expires m" and "keyed m" and "k \<in> K"
  shows "0 \<le> o_ExpiredTime k \<and> time_ok k"
proof -
  obtain ord where ord: "kv_get m (o_OrderID k) = Some ord" "expires ord" "same_sort ord k"
    using assms(1,3) unfolding keys_hold_def by blast
  have "time_ok ord" using assms(2) ord(1) unfolding keyed_def by blast
  with ord(2,3) show ?thesis by (simp add: expires_def same_sort_def time_ok_def)
qed

lemma book_cmp_ok:
  assumes "book_ok b" and "fits ord (idToOrder b)" and "time_ok ord"
  shows "cmp_ok compareOrderByPrice (insert ord (set (Keys T (ordersByPrice b))))"
    and "expires ord \<Longrightarrow> cmp_ok compareOrderByExpiredTime (insert ord (set (Keys T (ordersByExpiredTime b))))"
proof -
  let ?p = "set (Keys T (ordersByPrice b))" and ?t = "set (Keys T (ordersByExpiredTime b))"
  have p: "keys_hold ?p (\<lambda>_. True) (idToOrder b)" and t: "keys_hold ?t expires (idToOrder b)" and k: "keyed (idToOrder b)"
    using assms(1) by (auto simp: book_ok_def tree_of_def)
  show "cmp_ok compareOrderByPrice (insert ord ?p)" by (rule price_cmp_ok [OF keys_hold_unique_insert [OF p assms(2)]])
  show "cmp_ok compareOrderByExpiredTime (insert ord ?t)" if "expires ord"
    using keys_hold_times [OF t k] that assms(3)
    by (intro time_cmp_ok keys_hold_unique_insert [OF t assms(2)]) (auto simp: expires_def)
qed

lemma book_AddOrder_ok:
  assumes "book_ok b" and "fits ord (idToOrder b)" and "time_ok ord"
  shows "book_ok (book_AddOrder T ord b)"
    and "idToOrder (book_AddOrder T ord b) = kv_set (o_OrderID ord) ord (idToOrder b)"
proof -
  let ?m = "kv_set (o_OrderID ord) ord (idToOrder b)"
  note parts = assms(1) [unfolded book_ok_def]
  have "keyed ?m" using parts assms(3) by (simp add: keyed_def kv_get_set)
  moreover have "tree_of compareOrderByPrice (\<lambda>_. True) ?m (Put T ord (ordersByPrice b))"
    using parts book_cmp_ok(1) [OF assms] by (blast intro: tree_of_put)
  moreover have "expires ord \<Longrightarrow> tree_of compareOrderByExpiredTime expires ?m (Put T ord (ordersByExpiredTime b))"
    using parts book_cmp_ok(2) [OF assms] by (blast intro: tree_of_put)
  moreover have "\<not> expires ord \<Longrightarrow> tree_of compareOrderByExpiredTime expires ?m (ordersByExpiredTime b)"
    using parts keys_hold_add_other [OF _ _ assms(2), of _ expires] by (auto simp: tree_of_def)
  ultimately show "book_ok (book_AddOrder T ord b)"
    by (simp add: book_ok_def book_AddOrder_def Let_def expires_def)
  show "idToOrder (book_AddOrder T ord b) = ?m" by (simp add: book_AddOrder_def Let_def)
qed

lemma book_DelOrder_ok:
  assumes "book_ok b"
  shows "book_ok (book_DelOrder T i b)"
    and "idToOrder (book_DelOrder T i b) = kv_delete i (idToOrder b)"
proof -
  have "book_ok (book_DelOrder T i b) \<and> idToOrder (book_DelOrder T i b) = kv_delete i (idToOrder b)"
  proof (cases "kv_get (idToOrder b) i")
    case None
    then have "kv_delete i (idToOrder b) = idToOrder b" by (intro kv_ext) (simp add: kv_get_delete)
    then show ?thesis using None assms by (simp add: book_DelOrder_def)
  next
    case (Some ord)
    let ?m = "kv_delete i (idToOrder b)"
    note parts = assms [unfolded book_ok_def]
    have i: "o_OrderID ord = i" "time_ok ord" using parts Some by (auto simp: keyed_def)
    have f: "fits ord (idToOrder b)" using i Some by (simp add: fits_def)
    have "keyed ?m" using parts by (simp add: keyed_def kv_get_delete)
    moreover have "tree_of compareOrderByPrice (\<lambda>_. True) ?m (Remove T ord (ordersByPrice b))"
      using parts book_cmp_ok(1) [OF assms f i(2)] i(1) tree_of_remove by blast
    moreover have "expires ord \<Longrightarrow> tree_of compareOrderByExpiredTime expires ?m (Remove T ord (ordersByExpiredTime b))"
      using parts book_cmp_ok(2) [OF assms f i(2)] i(1) tree_of_remove by blast
    moreover have "\<not> expires ord \<Longrightarrow> tree_of compareOrderByExpiredTime expires ?m (ordersByExpiredTime b)"
      using parts keys_hold_delete_other [OF _ Some, of _ expires] by (auto simp: tree_of_def)
    ultimately show ?thesis using Some by (simp add: book_ok_def book_DelOrder_def Let_def expires_def)
  qed
  then show "book_ok (book_DelOrder T i b)" "idToOrder (book_DelOrder T i b) = kv_delete i (idToOrder b)" by auto
qed

lemma book_write_ok:
  assumes "book_ok b" and "fits ord (idToOrder b)"
  shows "book_ok (book_write ord b)"
proof (cases "kv_get (idToOrder b) (o_OrderID ord)")
  case None
  then show ?thesis using assms by (simp add: book_write_def)
next
  case (Some old)
  then have s: "same_sort old ord" using assms(2) by (simp add: fits_def)
  have "time_ok old" using assms(1) Some by (simp add: book_ok_def keyed_def)
  then have "time_ok ord" using s by (simp add: time_ok_def same_sort_def)
  then show ?thesis using assms(1) Some keys_hold_write [OF _ Some s]
    by (simp add: book_ok_def book_write_def tree_of_def keyed_def kv_get_set)
qed

end

text \<open>What a book does, on the trees and on the map it stands for.\<close>

datatype book_op = Add Order | Del string | Write Order

fun book_step :: "'t tree_ops \<Rightarrow> book_op \<Rightarrow> 't Orderbook \<Rightarrow> 't Orderbook" where
  "book_step T (Add ord) b = book_AddOrder T ord b"
| "book_step T (Del orderID) b = book_DelOrder T orderID b"
| "book_step T (Write ord) b = book_write ord b"

fun map_step :: "book_op \<Rightarrow> (string, Order) kv \<Rightarrow> (string, Order) kv" where
  "map_step (Add ord) m = kv_set (o_OrderID ord) ord m"
| "map_step (Del orderID) m = kv_delete orderID m"
| "map_step (Write ord) m =
     (case kv_get m (o_OrderID ord) of None \<Rightarrow> m | Some _ \<Rightarrow> kv_set (o_OrderID ord) ord m)"

fun op_ok :: "book_op \<Rightarrow> (string, Order) kv \<Rightarrow> bool" where
  "op_ok (Add ord) m = (fits ord m \<and> time_ok ord)"
| "op_ok (Del orderID) m = True"
| "op_ok (Write ord) m = fits ord m"

fun ops_ok :: "book_op list \<Rightarrow> (string, Order) kv \<Rightarrow> bool" where
  "ops_ok [] m = True"
| "ops_ok (oper # opers) m = (op_ok oper m \<and> ops_ok opers (map_step oper m))"

lemma takeWhile_sorted: "sorted_wrt (\<lambda>x y. P y \<longrightarrow> P x) xs \<Longrightarrow> takeWhile P xs = filter P xs"
proof (induction xs)
  case (Cons x xs)
  then show ?case by (cases "P x") (auto simp: filter_empty_conv)
qed simp

context order_tree
begin

lemma book_step_ok:
  assumes "book_ok b" and "op_ok oper (idToOrder b)"
  shows "book_ok (book_step T oper b) \<and> idToOrder (book_step T oper b) = map_step oper (idToOrder b)"
  using assms book_AddOrder_ok book_DelOrder_ok book_write_ok
  by (cases oper) (auto simp: book_write_def split: option.split)

lemma book_run_ok:
  "book_ok b \<Longrightarrow> ops_ok opers (idToOrder b) \<Longrightarrow>
   book_ok (fold (book_step T) opers b) \<and> idToOrder (fold (book_step T) opers b) = fold map_step opers (idToOrder b)"
proof (induction opers arbitrary: b)
  case (Cons oper opers)
  then have "book_ok (book_step T oper b)" "idToOrder (book_step T oper b) = map_step oper (idToOrder b)"
    using book_step_ok [of b oper] by auto
  then show ?case using Cons.IH [of "book_step T oper b"] Cons.prems(2) by simp
qed simp

lemma deref_same: "keys_hold (set ks) P (idToOrder b) \<Longrightarrow> k \<in> set ks \<Longrightarrow>
   kv_get (idToOrder b) (o_OrderID k) = Some (deref b k) \<and> P (deref b k) \<and> same_sort (deref b k) k"
  unfolding keys_hold_def deref_def by (fastforce split: option.splits)

lemma book_listing:
  assumes "book_ok b"
  shows "set (book_Iterator T b) = fst ` set (kv_entries (idToOrder b))"
    and "sorted_wrt LessThan (map (\<lambda>i. the (kv_get (idToOrder b) i)) (book_Iterator T b))"
    and "book_ReverseIterator T b = rev (book_Iterator T b)"
proof -
  let ?m = "idToOrder b" and ?ks = "Keys T (ordersByPrice b)"
  have h: "keys_hold (set ?ks) (\<lambda>_. True) ?m" and s: "sorted_wrt (\<lambda>x y. compareOrderByPrice x y < 0) ?ks"
    using assms by (auto simp: book_ok_def tree_of_def)
  show "set (book_Iterator T b) = fst ` set (kv_entries ?m)"
    using h unfolding book_Iterator_def keys_hold_def set_eq_iff kv_keys_iff by fastforce
  have "price_key (the (kv_get ?m (o_OrderID k))) = price_key k" if "k \<in> set ?ks" for k
    using deref_same [OF h that] by (auto simp: same_sort_def price_key_def)
  moreover have "sorted_wrt (\<lambda>x y. price_key x < price_key y) ?ks"
    using s comparePrice_less(1) [OF keys_hold_unique [OF h]] by (auto elim!: sorted_wrt_mono_rel [rotated])
  ultimately show "sorted_wrt LessThan (map (\<lambda>i. the (kv_get ?m i)) (book_Iterator T b))"
    by (auto simp: book_Iterator_def sorted_wrt_map LessThan_iff elim!: sorted_wrt_mono_rel [rotated])
  show "book_ReverseIterator T b = rev (book_Iterator T b)"
    by (simp add: book_ReverseIterator_def book_Iterator_def rev_map)
qed

lemma book_expired:
  assumes "book_ok b"
  shows "set (GetExpiredOrder T now b) =
    {ord. kv_get (idToOrder b) (o_OrderID ord) = Some ord \<and> 0 \<le> o_ExpiredTime ord \<and> o_ExpiredTime ord \<le> now}"
proof -
  let ?m = "idToOrder b" and ?ks = "Keys T (ordersByExpiredTime b)"
  have h: "keys_hold (set ?ks) expires ?m" and s: "sorted_wrt (\<lambda>x y. compareOrderByExpiredTime x y < 0) ?ks"
    and k: "keyed ?m" using assms by (auto simp: book_ok_def tree_of_def)
  have "o_ExpiredTime x \<le> o_ExpiredTime y"
    if "x \<in> set ?ks" "y \<in> set ?ks" "compareOrderByExpiredTime x y < 0" for x y
    using compareTime_less(1) [of x y] keys_hold_times [OF h k] that by (auto simp: time_key_def)
  then have "sorted_wrt (\<lambda>x y. \<not> o_ExpiredTime y > now \<longrightarrow> \<not> o_ExpiredTime x > now) ?ks"
    using s by (elim sorted_wrt_mono_rel [rotated]) force
  then have *: "GetExpiredOrder T now b = map (deref b) (filter (\<lambda>ord. \<not> o_ExpiredTime ord > now) ?ks)"
    by (simp add: GetExpiredOrder_def takeWhile_sorted)
  have "ord \<in> set (GetExpiredOrder T now b)"
    if ord: "kv_get ?m (o_OrderID ord) = Some ord" "0 \<le> o_ExpiredTime ord" "o_ExpiredTime ord \<le> now" for ord
  proof -
    obtain k where k: "k \<in> set ?ks" "o_OrderID k = o_OrderID ord"
      using h ord(1,2) unfolding keys_hold_def expires_def by blast
    with deref_same [OF h k(1)] ord(1) have "deref b k = ord" "same_sort ord k" by auto
    then show ?thesis using k(1) ord(3) unfolding * by (force simp: same_sort_def)
  qed
  moreover have "kv_get ?m (o_OrderID (deref b k)) = Some (deref b k) \<and> 0 \<le> o_ExpiredTime (deref b k) \<and>
      o_ExpiredTime (deref b k) \<le> now" if "k \<in> set ?ks" "\<not> o_ExpiredTime k > now" for k
    using deref_same [OF h that(1)] that(2) by (auto simp: same_sort_def expires_def)
  ultimately show ?thesis unfolding * by auto
qed

end

text \<open>
  C5. An order book refines a map from identifiers to orders.  After any sequence of additions,
  deletions and changes through pointers (an identifier is added again, and an order changed, only
  with the same price, times and identifier), whatever red-black tree is used: the iterator passes
  every order of the map once, strictly rising by price, then age, then identifier; the reverse
  iterator passes them in the opposite order; and \<open>GetExpiredOrder\<close> returns exactly the orders that
  expire and whose time has come.
\<close>

theorem book_refines_map:
  assumes T: "order_tree T cmp" and ok: "ops_ok opers kv_empty"
  shows "let b = fold (book_step T) opers (NewOrderbook T); m = fold map_step opers kv_empty in
    set (book_Iterator T b) = fst ` set (kv_entries m) \<and> distinct (book_Iterator T b) \<and>
    sorted_wrt LessThan (map (\<lambda>i. the (kv_get m i)) (book_Iterator T b)) \<and>
    book_ReverseIterator T b = rev (book_Iterator T b) \<and>
    set (GetExpiredOrder T now b) =
      {ord. kv_get m (o_OrderID ord) = Some ord \<and> 0 \<le> o_ExpiredTime ord \<and> o_ExpiredTime ord \<le> now}"
proof -
  define b where "b = fold (book_step T) opers (NewOrderbook T)"
  define m where "m = fold map_step opers kv_empty"
  have b: "order_tree.book_ok T cmp b" and m: "idToOrder b = m"
    using order_tree.book_run_ok [OF T order_tree.book_ok_new [OF T], of opers] ok
    by (auto simp: b_def m_def NewOrderbook_def)
  note L = order_tree.book_listing [OF T b, unfolded m] order_tree.book_expired [OF T b, unfolded m]
  have "sorted_wrt (<) (map (\<lambda>i. price_key (the (kv_get m i))) (book_Iterator T b))"
    using L(2) by (simp add: sorted_wrt_map LessThan_iff)
  then have "distinct (map (\<lambda>i. price_key (the (kv_get m i))) (book_Iterator T b))"
    by (simp add: strict_sorted_iff)
  then have "distinct (book_Iterator T b)" by (auto simp: distinct_map)
  then show ?thesis using L unfolding Let_def b_def [symmetric] m_def [symmetric] by blast
qed

text \<open>Three orders, two of them at one price; the oldest one is filled in part, one is deleted.\<close>

definition sample_order :: "string \<Rightarrow> Dec \<Rightarrow> int \<Rightarrow> int \<Rightarrow> int \<Rightarrow> Order" where
  "sample_order orderID price created expired locked =
     \<lparr>o_OrderID = orderID, o_DexID = 0, o_From = ''alice'', o_Referer = ''carol'', o_Receiver = ''bob'',
      o_CreatedTime = created, o_ExpiredTime = expired, o_FinishedTime = 0, o_Status = OrderStatusNew,
      o_Side = OrderSideSell, o_BaseSymbol = ''btc'', o_QuoteSymbol = ''usdt'', o_Price = price,
      o_AmountIn = 100, o_LockedFund = locked,
      o_FeeRate = NewFeeRate 0 0 0\<rparr>"

definition sample_ops :: "book_op list" where
  "sample_ops =
     [Add (sample_order ''x'' 500 1 20 100), Add (sample_order ''z'' 300 2 50 100),
      Add (sample_order ''y'' 300 1 30 100), Write (sample_order ''x'' 500 1 20 40),
      Add (sample_order ''w'' 100 1 10 100), Del ''w'']"

theorem book_refines_map_witness:
  "ops_ok sample_ops kv_empty \<and>
   book_Iterator list_trees (fold (book_step list_trees) sample_ops (NewOrderbook list_trees)) = [''y'', ''z'', ''x''] \<and>
   set (GetExpiredOrder list_trees 30 (fold (book_step list_trees) sample_ops (NewOrderbook list_trees))) =
     {ord. kv_get (fold map_step sample_ops kv_empty) (o_OrderID ord) = Some ord \<and> 0 \<le> o_ExpiredTime ord \<and>
        o_ExpiredTime ord \<le> 30}"
proof -
  have "ops_ok sample_ops kv_empty"
    by (simp add: sample_ops_def sample_order_def fits_def time_ok_def same_sort_def kv_get_set)
  moreover have "book_Iterator list_trees (fold (book_step list_trees) sample_ops (NewOrderbook list_trees)) = [''y'', ''z'', ''x'']"
    by (simp add: sample_ops_def sample_order_def book_Iterator_def NewOrderbook_def list_trees_simps book_AddOrder_def
      book_DelOrder_def book_write_def kv_get_set kv_get_delete compareOrderByPrice_def LessThan_def
      compareOrderByExpiredTime_def int64_wrap_def strings_Compare_def cong: if_weak_cong)
  ultimately show ?thesis
    using book_refines_map [OF list_tree.order_tree_axioms, of sample_ops 30] by (simp only: Let_def)
qed

end
