(* ===== verification/SwapTradeFacts.thy ===== *)
theory SwapTradeFacts
  imports SwapTrade
begin

text \<open>
  The arithmetic of a swap: what the fees leave, the constant product, monotonicity of the output
  in the input, and the two inequalities between the quotes of \<open>util.go\<close> and the swap itself.
\<close>

section \<open>Fees\<close>

definition total_rate :: "FeeRate \<Rightarrow> Dec" where
  "total_rate f = fr_LPRewardRate f + fr_RefererRewardRate f + fr_RepurchaseRate f"

definition fees_ok :: "FeeRate \<Rightarrow> bool" where
  "fees_ok f = (0 \<le> fr_LPRewardRate f \<and> 0 \<le> fr_RefererRewardRate f \<and> 0 \<le> fr_RepurchaseRate f \<and>
     total_rate f \<le> precisionReuse)"

lemma mulAndDiv_Some [go_simps]:
  "(mulAndDiv a b c = Some r) = (c \<noteq> 0 \<and> r = big_Quo (a * b) c \<and> int_ok r)"
  by (auto simp: mulAndDiv_def checked_int)

lemma mulAndDiv_nonneg:
  "mulAndDiv a b c = Some r \<Longrightarrow> 0 \<le> a \<Longrightarrow> 0 \<le> b \<Longrightarrow> 0 < c \<Longrightarrow> r = a * b div c \<and> 0 \<le> r"
  by (auto simp: go_simps big_Quo_nonneg pos_imp_zdiv_nonneg_iff)

lemma share_step:
  assumes "Dec_Mul (NewDecFromInt x) r = Some d" and "Dec_TruncateInt d = Some v"
    and "0 \<le> x" and "0 \<le> r"
  shows "v = x * r div precisionReuse"
proof -
  have "d = x * r"
    using assms(1) Dec_Mul_ToDec [of x r] by (simp add: NewDecFromInt_eq ToDec_eq dec_checked_eq split: if_splits)
  then show ?thesis using assms by (simp add: Dec_TruncateInt_nonneg split: if_splits)
qed

text \<open>Three shares rounded down leave at least the share that the total rate leaves.\<close>

lemma shares_leave:
  fixes x p :: int
  assumes "0 < p"
  shows "x * (p - (a + b + c)) \<le> (x - (x * a div p + x * b div p + x * c div p)) * p"
proof -
  have "x * a div p * p \<le> x * a" "x * b div p * p \<le> x * b" "x * c div p * p \<le> x * c"
    using assms by (simp_all add: div_mult_le_int)
  then show ?thesis by (simp add: algebra_simps)
qed

lemma swap_fees_bounds:
  assumes "swap_fees st fr tok x isRep = Some (l, b, f)" and "fees_ok fr" and "0 \<le> x"
  shows "0 \<le> l" "0 \<le> b" "0 \<le> f" "l + b + f \<le> x"
    "x * (precisionReuse - total_rate fr) \<le> (x - (l + b + f)) * precisionReuse"
proof -
  let ?s = "\<lambda>r. x * r div precisionReuse"
  have rates: "0 \<le> fr_LPRewardRate fr" "0 \<le> fr_RefererRewardRate fr" "0 \<le> fr_RepurchaseRate fr"
    and tot: "total_rate fr \<le> precisionReuse" using assms(2) by (simp_all add: fees_ok_def)
  have nn: "0 \<le> ?s r" if "0 \<le> r" for r using that assms(3) by (simp add: pos_imp_zdiv_nonneg_iff)
  have "0 \<le> l \<and> 0 \<le> b \<and> 0 \<le> f \<and>
      x * (precisionReuse - total_rate fr) \<le> (x - (l + b + f)) * precisionReuse"
  proof (cases isRep)
    case True
    then have "l = 0" "b = 0" "f = 0" using assms(1) by (simp_all add: swap_fees_def)
    then show ?thesis using assms(3) rates by (simp add: algebra_simps total_rate_def)
  next
    case False
    then obtain d1 l1 d2 f1 d3 where
      "Dec_Mul (NewDecFromInt x) (fr_LPRewardRate fr) = Some d1" "Dec_TruncateInt d1 = Some l1"
      "Dec_Mul (NewDecFromInt x) (fr_RepurchaseRate fr) = Some d2" "Dec_TruncateInt d2 = Some f1"
      "Dec_Mul (NewDecFromInt x) (fr_RefererRewardRate fr) = Some d3" "Dec_TruncateInt d3 = Some b"
      and split: "(l = l1 \<and> f = f1) \<or> (l = l1 + f1 \<and> f = 0)"
      using assms(1) by (auto simp: swap_fees_def Let_def go_simps split: if_splits)
    then have "l1 = ?s (fr_LPRewardRate fr)" "f1 = ?s (fr_RepurchaseRate fr)"
      "b = ?s (fr_RefererRewardRate fr)"
      using share_step assms(3) rates by blast+
    then have "0 \<le> l1" "0 \<le> f1" "0 \<le> b"
      "x * (precisionReuse - total_rate fr) \<le> (x - (l1 + b + f1)) * precisionReuse"
      using nn rates shares_leave [OF precisionReuse_pos(1), of x "fr_LPRewardRate fr"
          "fr_RefererRewardRate fr" "fr_RepurchaseRate fr"] by (simp_all only: total_rate_def)
    moreover have "l + b + f = l1 + b + f1" using split by auto
    moreover have "0 \<le> l" "0 \<le> f" using split calculation(1,2) by auto
    ultimately show ?thesis by (simp only: conj_assoc)
  qed
  then show "0 \<le> l" "0 \<le> b" "0 \<le> f"
    "x * (precisionReuse - total_rate fr) \<le> (x - (l + b + f)) * precisionReuse" by simp_all
  moreover have "0 \<le> x * (precisionReuse - total_rate fr)" using assms(3) tot by simp
  ultimately have "0 \<le> (x - (l + b + f)) * precisionReuse" by linarith
  then show "l + b + f \<le> x" using precisionReuse_pos(1) by (auto simp: zero_le_mult_iff)
qed

section \<open>The constant product\<close>

text \<open>What comes out of reserves \<open>rin\<close>, \<open>rout\<close> for a net input \<open>r\<close>.\<close>

definition product_out :: "int \<Rightarrow> int \<Rightarrow> int \<Rightarrow> int" where
  "product_out r rin rout = r * rout div (r + rin)"

lemma product_out_bounds:
  assumes "0 \<le> r" and "0 \<le> rin" and "0 \<le> rout"
  shows "0 \<le> product_out r rin rout" "product_out r rin rout \<le> rout"
    "product_out r rin rout * (r + rin) \<le> r * rout"
    "0 < rin \<Longrightarrow> 0 < rout \<Longrightarrow> product_out r rin rout < rout"
proof -
  show "0 \<le> product_out r rin rout"
    using assms by (simp add: product_out_def div_int_pos_iff)
  show le: "product_out r rin rout * (r + rin) \<le> r * rout"
    using assms div_mult_le_int [of "r + rin" "r * rout"]
    by (cases "r + rin = 0") (simp_all add: product_out_def)
  have "r * rout \<le> rout * (r + rin)" using assms by (simp add: algebra_simps)
  then show "product_out r rin rout \<le> rout"
    using assms le by (cases "r + rin = 0") (auto simp: product_out_def intro: mult_right_le_imp_le order_trans)
  show "product_out r rin rout < rout" if "0 < rin" "0 < rout"
  proof -
    have "r * rout < rout * (r + rin)" using assms that by (simp add: algebra_simps)
    then show ?thesis unfolding product_out_def using assms that by (simp add: div_less_iff_int mult.commute)
  qed
qed

lemma product_out_mono:
  assumes "0 \<le> r" and "r \<le> r'" and "0 < rin" and "0 \<le> rout"
  shows "product_out r rin rout \<le> product_out r' rin rout"
proof -
  note b = product_out_bounds [OF assms(1) less_imp_le [OF assms(3)] assms(4)]
  have "product_out r rin rout * (r' + rin) =
      product_out r rin rout * (r + rin) + product_out r rin rout * (r' - r)" by (simp add: algebra_simps)
  also have "\<dots> \<le> r * rout + rout * (r' - r)"
    using b assms(2) by (intro add_mono mult_right_mono) auto
  also have "\<dots> = r' * rout" by (simp add: algebra_simps)
  finally have "product_out r rin rout * (r' + rin) \<le> r' * rout" .
  then show ?thesis using assms unfolding product_out_def [of r'] by (simp add: le_div_iff_int)
qed

lemma product_kept:
  assumes "0 \<le> r" and "0 < rin" and "0 \<le> rout" and "0 \<le> l"
  shows "rin * rout \<le> (rin + r + l) * (rout - product_out r rin rout)"
proof -
  note b = product_out_bounds [OF assms(1) less_imp_le [OF assms(2)] assms(3)]
  have "rin * rout \<le> (r + rin) * (rout - product_out r rin rout)"
    using b(3) by (simp add: algebra_simps)
  also have "\<dots> \<le> (rin + r + l) * (rout - product_out r rin rout)"
    using b(2) assms(4) by (intro mult_right_mono) auto
  finally show ?thesis .
qed

section \<open>One swap\<close>

definition res_in :: "TradingPair \<Rightarrow> Symbol \<Rightarrow> int" where
  "res_in p t = (if TokenA p = t then TokenAAmount p else TokenBAmount p)"

definition res_out :: "TradingPair \<Rightarrow> Symbol \<Rightarrow> int" where
  "res_out p t = (if TokenA p = t then TokenBAmount p else TokenAAmount p)"

text \<open>Two pairs that agree except for the reserves.\<close>

definition same_pair :: "TradingPair \<Rightarrow> TradingPair \<Rightarrow> bool" where
  "same_pair p q =
     (DexID q = DexID p \<and> TokenA q = TokenA p \<and> TokenB q = TokenB p \<and> IsPublic q = IsPublic p \<and>
      TotalLiquidity q = TotalLiquidity p \<and>
      LPRewardRate q = LPRewardRate p \<and> RefererRewardRate q = RefererRewardRate p)"

lemma swap_cases:
  assumes "swap fr p t x isRep st = Some ((out, bonus, fund, p'), st')"
  obtains l r where "swap_fees st fr t x isRep = Some (l, bonus, fund)"
    and "r = x - l - bonus - fund" and "mulAndDiv r (res_out p t) (r + res_in p t) = Some out"
    and "res_in p' t = res_in p t + r + l" and "res_out p' t = res_out p t - out"
    and "int_ok (res_in p' t)" and "int_ok (res_out p' t)"
    and "same_pair p p'" and "st' = SaveTradingPair p' st"
proof -
  from assms obtain l r0 r1 r where
    1: "swap_fees st fr t x isRep = Some (l, bonus, fund)"
      "r0 = x - l" "r1 = r0 - bonus" "r = r1 - fund" and
    2: "(if TokenA p = t then do {
         s \<leftarrow> Int_Add r (TokenAAmount p);
         amountOut \<leftarrow> mulAndDiv r (TokenBAmount p) s;
         a \<leftarrow> Int_Add (TokenAAmount p) r;
         a \<leftarrow> Int_Add a l;
         b \<leftarrow> Int_Sub (TokenBAmount p) amountOut;
         Some (amountOut, p\<lparr>TokenAAmount := a, TokenBAmount := b\<rparr>) }
       else do {
         s \<leftarrow> Int_Add r (TokenBAmount p);
         amountOut \<leftarrow> mulAndDiv r (TokenAAmount p) s;
         b \<leftarrow> Int_Add (TokenBAmount p) r;
         b \<leftarrow> Int_Add b l;
         a \<leftarrow> Int_Sub (TokenAAmount p) amountOut;
         Some (amountOut, p\<lparr>TokenAAmount := a, TokenBAmount := b\<rparr>) }) = Some (out, p')" and
    3: "st' = SaveTradingPair p' st"
    unfolding swap_def by (auto simp: bind_Some_iff Int_Sub_Some simp del: bind_eq_Some_conv)
  have "mulAndDiv r (res_out p t) (r + res_in p t) = Some out \<and> res_in p' t = res_in p t + r + l \<and>
      res_out p' t = res_out p t - out \<and> int_ok (res_in p' t) \<and> int_ok (res_out p' t) \<and> same_pair p p'"
    using 2 by (cases "TokenA p = t")
      (auto simp: bind_Some_iff Int_Add_Some Int_Sub_Some res_in_def res_out_def same_pair_def)
  then show ?thesis using that 1 3 by (metis diff_diff_eq)
qed

lemma swap_result:
  assumes "swap fr p t x isRep st = Some ((out, bonus, fund, p'), st')"
    and "fees_ok fr" and "0 \<le> x" and "0 \<le> res_in p t" and "0 \<le> res_out p t"
  obtains l r where "0 \<le> l" and "0 \<le> r" and "0 \<le> bonus" and "0 \<le> fund"
    and "r + l + bonus + fund = x"
    and "x * (precisionReuse - total_rate fr) \<le> r * precisionReuse"
    and "out = product_out r (res_in p t) (res_out p t)"
    and "res_in p' t = res_in p t + r + l" and "res_out p' t = res_out p t - out"
    and "int_ok (res_in p' t)" and "int_ok (res_out p' t)"
    and "same_pair p p'" and "st' = SaveTradingPair p' st"
proof -
  from assms(1) obtain l r where
    f: "swap_fees st fr t x isRep = Some (l, bonus, fund)" and r: "r = x - l - bonus - fund"
    and out: "mulAndDiv r (res_out p t) (r + res_in p t) = Some out"
    and rest: "res_in p' t = res_in p t + r + l" "res_out p' t = res_out p t - out"
      "int_ok (res_in p' t)" "int_ok (res_out p' t)" "same_pair p p'" "st' = SaveTradingPair p' st"
    by (rule swap_cases)
  note b = swap_fees_bounds [OF f assms(2,3)]
  have r': "r = x - (l + bonus + fund)" using r by simp
  have "0 \<le> r" using b(4) r by simp
  have "out = product_out r (res_in p t) (res_out p t)"
    using mulAndDiv_nonneg [OF out] out \<open>0 \<le> r\<close> assms(4,5)
    by (simp add: product_out_def mulAndDiv_Some)
  have "x * (precisionReuse - total_rate fr) \<le> r * precisionReuse" using b(5) by (simp only: r')
  have "r + l + bonus + fund = x" using r by simp
  show ?thesis by (rule that [of l r]) fact+
qed

text \<open>
  C4. A swap keeps the constant product: from positive reserves and fee rates that sum to at most
  one, the product of the two reserves does not decrease, both reserves stay positive, the
  receiver's amount is strictly below the reserve, and the input is accounted for to the last
  unit: what the pool gains, the referer's bonus and the repurchase fund add up to the input.
\<close>

theorem swap_constant_product:
  assumes "swap fr p t x isRep st = Some ((out, bonus, fund, p'), st')"
    and "fees_ok fr" and "0 \<le> x" and "t = TokenA p \<or> t = TokenB p"
    and "0 < TokenAAmount p" and "0 < TokenBAmount p"
  shows "TokenAAmount p * TokenBAmount p \<le> TokenAAmount p' * TokenBAmount p' \<and>
    0 < TokenAAmount p' \<and> 0 < TokenBAmount p' \<and>
    0 \<le> out \<and> out < res_out p t \<and> res_out p' t = res_out p t - out \<and>
    0 \<le> bonus \<and> 0 \<le> fund \<and> (res_in p' t - res_in p t) + bonus + fund = x"
proof -
  have pos: "0 < res_in p t" "0 < res_out p t" using assms(5,6) by (simp_all add: res_in_def res_out_def)
  obtain l r where lr: "0 \<le> l" "0 \<le> r" "0 \<le> bonus" "0 \<le> fund" "r + l + bonus + fund = x"
    and out: "out = product_out r (res_in p t) (res_out p t)"
    and p': "res_in p' t = res_in p t + r + l" "res_out p' t = res_out p t - out" "same_pair p p'"
    by (rule swap_result [OF assms(1-3)]) (use pos in auto)
  note b = product_out_bounds [OF lr(2) pos [THEN less_imp_le], folded out]
  have prod: "res_in q t * res_out q t = TokenAAmount q * TokenBAmount q" for q
    by (simp add: res_in_def res_out_def)
  have "res_in p t * res_out p t \<le> res_in p' t * res_out p' t"
    unfolding p'(1,2) out using product_kept [OF lr(2) pos(1) less_imp_le [OF pos(2)] lr(1)] .
  then have "TokenAAmount p * TokenBAmount p \<le> TokenAAmount p' * TokenBAmount p'" by (simp only: prod)
  moreover have "0 < res_in p' t" "0 < res_out p' t" using p' lr pos b(4) [OF pos] by simp_all
  then have "0 < TokenAAmount p'" "0 < TokenBAmount p'"
    by (simp_all add: res_in_def res_out_def split: if_splits)
  moreover have "(res_in p' t - res_in p t) + bonus + fund = x" using p'(1) lr(5) by simp
  ultimately show ?thesis using b(1) b(4) [OF pos] p'(2) lr(3,4) by simp
qed

text \<open>Concrete instances: a pool of 1000 \<open>hbc\<close> against 2000 \<open>usdt\<close> with the default parameters.\<close>

definition empty_state :: "ledger \<Rightarrow> swap_state" where
  "empty_state lg =
     \<lparr>sw_ledger = lg, sw_params = DefaultParams, sw_dexes = kv_empty, sw_dexID = 0,
      sw_pairs = kv_empty, sw_liquidity = kv_empty, sw_orders = kv_empty,
      sw_unfinished = kv_empty, sw_waitInsert = [], sw_waitRemove = [], sw_referers = kv_empty,
      sw_totalShare = kv_empty, sw_globalMask = kv_empty, sw_addrMask = kv_empty,
      sw_repurchase = kv_empty, sw_gas = NewInfiniteGasMeter\<rparr>"

definition sample_pair :: TradingPair where
  "sample_pair = (NewDefaultTradingPair ''hbc'' ''usdt'' 1400)
     \<lparr>TokenAAmount := 100000, TokenBAmount := 200000\<rparr>"

definition sample_swap_state :: swap_state where
  "sample_swap_state = SaveTradingPair sample_pair
     (empty_state (sample_ledger\<lparr>lg_bank :=
        \<lparr>balances = kv_set (''alice'', ''hbc'') 70000 kv_empty, holds = kv_empty\<rparr>\<rparr>))"

lemma sample_values:
  "sw_pairs sample_swap_state = kv_set (0, ''hbc'', ''usdt'') sample_pair kv_empty"
  "sw_params sample_swap_state = DefaultParams" "sw_repurchase sample_swap_state = kv_empty"
  "DexID sample_pair = 0" "TokenA sample_pair = ''hbc''" "TokenB sample_pair = ''usdt''"
  "TokenAAmount sample_pair = 100000" "TokenBAmount sample_pair = 200000" "IsPublic sample_pair"
  "TotalLiquidity sample_pair = 1400"
  "getFeeRates sample_swap_state sample_pair = \<lparr>fr_LPRewardRate = 2500000000000000,
    fr_RepurchaseRate = 400000000000000, fr_RefererRewardRate = 100000000000000\<rparr>"
  "canRepurchase sample_swap_state ''hbc'' x"
  by (simp_all add: sample_swap_state_def empty_state_def sample_pair_def NewDefaultTradingPair_def
      SaveTradingPair_def getFeeRates_def DefaultParams_val NewFeeRate_def canRepurchase_def)

lemma sample_fees_ok: "fees_ok (getFeeRates sample_swap_state sample_pair)"
  by (simp add: sample_values fees_ok_def total_rate_def go_eval)

theorem swap_constant_product_witness:
  "\<exists>out bonus fund p' st'.
     swap (getFeeRates sample_swap_state sample_pair) sample_pair ''hbc'' 10000 False sample_swap_state =
       Some ((out, bonus, fund, p'), st') \<and>
     100000 * 200000 \<le> TokenAAmount p' * TokenBAmount p' \<and> out = 18132 \<and> bonus = 1 \<and> fund = 4"
proof -
  let ?r = "swap (getFeeRates sample_swap_state sample_pair) sample_pair ''hbc'' 10000 False sample_swap_state"
  obtain p' st' where r: "?r = Some ((18132, 1, 4, p'), st')"
    by (simp add: sample_values swap_def swap_fees_def Let_def mulAndDiv_def big_Quo_def go_eval)
  then show ?thesis using swap_constant_product [OF r sample_fees_ok] by (auto simp: sample_values)
qed

end
