(* ===== verification/SwapPath.thy ===== *)
theory SwapPath
  imports SwapTradeFacts
begin

text \<open>
  Swaps along a path: what the receiver gets is at least what the quote promised, and a swap
  bounded from above delivers at least the asked amount, as long as the path uses every pool at
  most once.
\<close>

section \<open>Well-formed pools\<close>

definition pair_key :: "TradingPair \<Rightarrow> pair_key" where
  "pair_key p = (DexID p, TokenA p, TokenB p)"

definition pair_ok :: "TradingPair \<Rightarrow> bool" where
  "pair_ok p = (TokenA p \<noteq> TokenB p \<and> 0 \<le> TokenAAmount p \<and> int_ok (TokenAAmount p) \<and>
     0 \<le> TokenBAmount p \<and> int_ok (TokenBAmount p) \<and> 0 \<le> TotalLiquidity p \<and> int_ok (TotalLiquidity p))"

text \<open>Every pair is stored under its own key, and never also under the key of the swapped tokens.\<close>

definition pairs_wf :: "swap_state \<Rightarrow> bool" where
  "pairs_wf st = list_all (\<lambda>(k, p). k = pair_key p \<and> pair_ok p \<and>
     kv_get (sw_pairs st) (DexID p, TokenB p, TokenA p) = None) (kv_entries (sw_pairs st))"

definition rates_ok :: "swap_state \<Rightarrow> bool" where
  "rates_ok st = list_all (\<lambda>(_, p). fees_ok (getFeeRates st p)) (kv_entries (sw_pairs st))"

lemma pairs_wfD:
  assumes "pairs_wf st" and "kv_get (sw_pairs st) k = Some p"
  shows "k = pair_key p" "pair_ok p" "kv_get (sw_pairs st) (DexID p, TokenB p, TokenA p) = None"
  using assms by (auto simp: pairs_wf_def list_all_iff kv_entries_iff [symmetric])

lemma pairs_wfI:
  assumes "\<And>k p. kv_get (sw_pairs st) k = Some p \<Longrightarrow>
    k = pair_key p \<and> pair_ok p \<and> kv_get (sw_pairs st) (DexID p, TokenB p, TokenA p) = None"
  shows "pairs_wf st"
  using assms unfolding pairs_wf_def list_all_iff by (auto simp: kv_entries_iff)

lemma rates_okD: "rates_ok st \<Longrightarrow> kv_get (sw_pairs st) k = Some p \<Longrightarrow> fees_ok (getFeeRates st p)"
  by (auto simp: rates_ok_def list_all_iff kv_entries_iff [symmetric])

lemma rates_okI: "(\<And>k p. kv_get (sw_pairs st) k = Some p \<Longrightarrow> fees_ok (getFeeRates st p)) \<Longrightarrow> rates_ok st"
  unfolding rates_ok_def list_all_iff by (auto simp: kv_entries_iff)

text \<open>The two tokens of a hop, whatever their order.\<close>

definition hop :: "Symbol \<Rightarrow> Symbol \<Rightarrow> Symbol \<times> Symbol" where
  "hop a b = (if a \<le> b then (a, b) else (b, a))"

lemma hop_commute: "hop a b = hop b a"
  unfolding hop_def by (metis linear order_antisym)

lemma hop_eqD: "hop a b = hop c d \<Longrightarrow> (a = c \<and> b = d) \<or> (a = d \<and> b = c)"
  unfolding hop_def by (metis Pair_inject)

lemma GetTradingPair_Some:
  assumes "pairs_wf st" and "GetTradingPair st d a b = Some p"
  shows "kv_get (sw_pairs st) (pair_key p) = Some p" "DexID p = d" "pair_ok p"
    "(TokenA p = a \<and> TokenB p = b) \<or> (TokenA p = b \<and> TokenB p = a)" "hop (TokenA p) (TokenB p) = hop a b"
proof -
  from assms(2) have "kv_get (sw_pairs st) (d, a, b) = Some p \<or> kv_get (sw_pairs st) (d, b, a) = Some p"
    by (auto simp: GetTradingPair_def split: option.splits)
  then show "kv_get (sw_pairs st) (pair_key p) = Some p" "DexID p = d" "pair_ok p"
    "(TokenA p = a \<and> TokenB p = b) \<or> (TokenA p = b \<and> TokenB p = a)"
    using pairs_wfD [OF assms(1)] by (auto simp: pair_key_def)
  then show "hop (TokenA p) (TokenB p) = hop a b" using hop_commute by auto
qed

lemma GetTradingPair_commute:
  assumes "pairs_wf st"
  shows "GetTradingPair st d b a = GetTradingPair st d a b"
proof (cases "kv_get (sw_pairs st) (d, a, b)")
  case (Some p)
  then have "kv_get (sw_pairs st) (d, b, a) = None"
    using pairs_wfD(1,3) [OF assms Some] by (simp add: pair_key_def)
  then show ?thesis using Some by (simp add: GetTradingPair_def)
qed (auto simp: GetTradingPair_def split: option.splits)

subsection \<open>Saving a pair with other reserves\<close>

lemma getFeeRates_same:
  "sw_params st' = sw_params st \<Longrightarrow> same_pair p p' \<Longrightarrow> getFeeRates st' p' = getFeeRates st p"
  by (simp add: getFeeRates_def same_pair_def)

lemma same_pair_key: "same_pair p p' \<Longrightarrow> pair_key p' = pair_key p"
  by (simp add: same_pair_def pair_key_def)

lemma SaveTradingPair_simps [simp]:
  "sw_pairs (SaveTradingPair p st) = kv_set (pair_key p) p (sw_pairs st)"
  "sw_params (SaveTradingPair p st) = sw_params st" "sw_ledger (SaveTradingPair p st) = sw_ledger st"
  "sw_repurchase (SaveTradingPair p st) = sw_repurchase st"
  "sw_liquidity (SaveTradingPair p st) = sw_liquidity st"
  "sw_orders (SaveTradingPair p st) = sw_orders st" "sw_gas (SaveTradingPair p st) = sw_gas st"
  by (simp_all add: SaveTradingPair_def pair_key_def)

lemma pairs_wf_save:
  assumes wf: "pairs_wf st" and p: "kv_get (sw_pairs st) (pair_key p) = Some p"
    and key: "pair_key p' = pair_key p" and ok: "pair_ok p'"
  shows "pairs_wf (SaveTradingPair p' st)"
proof (rule pairs_wfI)
  fix k q
  assume q: "kv_get (sw_pairs (SaveTradingPair p' st)) k = Some q"
  have swapped: "kv_get (sw_pairs st) (DexID p, TokenB p, TokenA p) = None"
    using pairs_wfD(3) [OF wf p] .
  have ne: "(DexID p, TokenB p, TokenA p) \<noteq> pair_key p"
    using pairs_wfD(2) [OF wf p] by (auto simp: pair_key_def pair_ok_def)
  show "k = pair_key q \<and> pair_ok q \<and>
      kv_get (sw_pairs (SaveTradingPair p' st)) (DexID q, TokenB q, TokenA q) = None"
  proof (cases "k = pair_key p")
    case True
    then have "q = p'" using q key by simp
    then show ?thesis using True key ok swapped ne by (auto simp: pair_key_def)
  next
    case False
    then have q': "kv_get (sw_pairs st) k = Some q" using q key by simp
    note Q = pairs_wfD [OF wf q']
    have "(DexID q, TokenB q, TokenA q) \<noteq> pair_key p"
      using Q(3) p by auto
    then show ?thesis using Q key by simp
  qed
qed

lemma rates_ok_save:
  assumes "rates_ok st" and "kv_get (sw_pairs st) (pair_key p) = Some p" and "same_pair p p'"
  shows "rates_ok (SaveTradingPair p' st)"
proof (rule rates_okI)
  fix k q
  assume "kv_get (sw_pairs (SaveTradingPair p' st)) k = Some q"
  then have "q = p' \<or> kv_get (sw_pairs st) k = Some q" by (auto split: if_splits)
  moreover have "getFeeRates (SaveTradingPair p' st) q = getFeeRates st q" by (simp add: getFeeRates_def)
  moreover have "getFeeRates st p' = getFeeRates st p" using assms(3) by (simp add: getFeeRates_same)
  ultimately show "fees_ok (getFeeRates (SaveTradingPair p' st) q)"
    using rates_okD [OF assms(1) assms(2)] rates_okD [OF assms(1)] by metis
qed

text \<open>The other hops see the same pairs as before.\<close>

lemma GetTradingPair_save_other:
  assumes "hop (TokenA p) (TokenB p) \<noteq> hop a b"
  shows "GetTradingPair (SaveTradingPair p st) d a b = GetTradingPair st d a b"
proof -
  have "(d, a, b) \<noteq> pair_key p" "(d, b, a) \<noteq> pair_key p"
    using assms hop_commute [of a b] by (auto simp: pair_key_def)
  then show ?thesis by (simp add: GetTradingPair_def cong: option.case_cong)
qed

section \<open>One hop\<close>

text \<open>The pool a hop trades against: a public pair of a custom dex stands for the pair of dex 0.\<close>

definition hop_pool :: "swap_state \<Rightarrow> uint32 \<Rightarrow> Symbol \<Rightarrow> Symbol \<Rightarrow> TradingPair option" where
  "hop_pool st d a b = do {
     p \<leftarrow> GetTradingPair st d a b;
     if IsPublic p \<and> DexID p \<noteq> 0 then GetTradingPair st 0 a b else Some p }"

lemma hop_pool_Some:
  assumes "pairs_wf st" and "hop_pool st d a b = Some q"
  shows "kv_get (sw_pairs st) (pair_key q) = Some q" "pair_ok q" "hop (TokenA q) (TokenB q) = hop a b"
    "(TokenA q = a \<and> TokenB q = b) \<or> (TokenA q = b \<and> TokenB q = a)"
proof -
  obtain e where "GetTradingPair st e a b = Some q"
    using assms(2) by (auto simp: hop_pool_def go_simps split: if_splits)
  from GetTradingPair_Some [OF assms(1) this]
  show "kv_get (sw_pairs st) (pair_key q) = Some q" "pair_ok q" "hop (TokenA q) (TokenB q) = hop a b"
    "(TokenA q = a \<and> TokenB q = b) \<or> (TokenA q = b \<and> TokenB q = a)" by simp_all
qed

lemma getReserves_pool:
  assumes "GetTradingPair st d a b = Some p"
  shows "getReserves st p a b =
    (case hop_pool st d a b of None \<Rightarrow> (0, 0) | Some q \<Rightarrow> (res_in q a, res_out q a))"
  using assms by (auto simp: getReserves_def hop_pool_def res_in_def res_out_def split: option.splits)

lemma TotalFeeRate_Some: "TotalFeeRate f = Some r \<Longrightarrow> r = total_rate f"
  by (auto simp: TotalFeeRate_def Dec_Add_def total_rate_def go_simps)

lemma getRealInCoeff_Some:
  "getRealInCoeff st p = Some c \<Longrightarrow> c = precisionReuse - total_rate (getFeeRates st p)"
  by (auto simp: getRealInCoeff_def Dec_Sub_def OneDec_def go_simps dest: TotalFeeRate_Some)

text \<open>What the quote charges and returns at one hop.\<close>

definition quote_in :: "swap_state \<Rightarrow> TradingPair \<Rightarrow> int \<Rightarrow> int" where
  "quote_in st p x = x * (precisionReuse - total_rate (getFeeRates st p)) div precisionReuse"

lemma getAmountOut_hop:
  assumes "getAmountOut st d x (a # b # path) = Some (Inr y)" and "0 \<le> x" and "rates_ok st"
    and "pairs_wf st"
  obtains p q where "GetTradingPair st d a b = Some p" and "hop_pool st d a b = Some q"
    and "0 < res_in q a" and "0 < res_out q a" and "0 \<le> quote_in st p x"
    and "getAmountOut st d (product_out (quote_in st p x) (res_in q a) (res_out q a)) (b # path) = Some (Inr y)"
proof -
  obtain p where p: "GetTradingPair st d a b = Some p"
    using assms(1) by (auto split: option.splits)
  then obtain q where q: "hop_pool st d a b = Some q" and pos: "0 < res_in q a" "0 < res_out q a"
    using assms(1) by (auto simp: getReserves_pool split: option.splits if_splits)
  let ?tot = "total_rate (getFeeRates st p)"
  have tot: "?tot \<le> precisionReuse" "0 \<le> ?tot"
    using rates_okD [OF assms(3) GetTradingPair_Some(1) [OF assms(4) p]]
    by (simp_all add: fees_ok_def total_rate_def)
  from assms(1) obtain c e r s z where
    c: "getRealInCoeff st p = Some c" and e: "Dec_Mul (ToDec x) c = Some e" and
    r: "Dec_TruncateInt e = Some r" and s: "s = res_in q a + r" and
    z: "mulAndDiv r (res_out q a) s = Some z" and y: "getAmountOut st d z (b # path) = Some (Inr y)"
    using pos by (auto simp: p q getReserves_pool [OF p] go_simps simp del: getAmountOut.simps(2,3)
        split: if_splits)
  have c': "c = precisionReuse - ?tot" using getRealInCoeff_Some [OF c] .
  have "NewDecFromInt x = ToDec x" by (simp add: to_dec_eqs)
  then have "r = quote_in st p x"
    using share_step [of x c e r] e r assms(2) tot by (simp add: quote_in_def c')
  moreover have "0 \<le> quote_in st p x"
    using assms(2) tot by (simp add: quote_in_def pos_imp_zdiv_nonneg_iff)
  ultimately have "z = product_out (quote_in st p x) (res_in q a) (res_out q a)"
    using mulAndDiv_nonneg [OF z] pos s by (simp add: product_out_def add.commute)
  then show ?thesis using that [OF p q pos \<open>0 \<le> quote_in st p x\<close>] y by simp
qed

lemma swap_path_hop:
  assumes "swap_path d (a # b # path) x bc rf st = Some (res, st')"
  obtains p q out bonus fund q' st1 bc' rf' where
    "GetTradingPair st d a b = Some p" and "hop_pool st d a b = Some q"
    and "swap (getFeeRates st p) q a x False st = Some ((out, bonus, fund, q'), st1)"
    and "add_positive a bonus bc = Some bc'" and "add_positive a fund rf = Some rf'"
    and "swap_path d (b # path) out bc' rf' st1 = Some (res, st')"
proof -
  from assms obtain p q where p: "GetTradingPair st d a b = Some p"
    and q: "(if IsPublic p \<and> DexID p \<noteq> 0 then GetTradingPair st 0 a b else Some p) = Some q"
    and rest: "do { ((out, bonus, fund, _), st) \<leftarrow> swap (getFeeRates st p) q a x False st;
       bc \<leftarrow> add_positive a bonus bc;
       rf \<leftarrow> add_positive a fund rf;
       swap_path d (b # path) out bc rf st } = Some (res, st')"
    by (auto simp: bind_Some_iff simp del: swap_path.simps(2,3))
  from p q have "hop_pool st d a b = Some q" by (simp add: hop_pool_def)
  with p rest show ?thesis
    by (auto simp: bind_Some_iff intro!: that simp del: swap_path.simps)
qed

fun hops :: "Symbol list \<Rightarrow> (Symbol \<times> Symbol) list" where
  "hops (a # b # path) = hop a b # hops (b # path)"
| "hops path = []"

definition same_hops :: "Symbol list \<Rightarrow> swap_state \<Rightarrow> swap_state \<Rightarrow> bool" where
  "same_hops path st st' = (sw_params st' = sw_params st \<and>
     (\<forall>a b e. hop a b \<in> set (hops path) \<longrightarrow> GetTradingPair st' e a b = GetTradingPair st e a b))"

lemma same_hops_Cons:
  assumes "same_hops (a # b # path) st st'"
  shows "same_hops (b # path) st st'" "sw_params st' = sw_params st"
    "GetTradingPair st' e a b = GetTradingPair st e a b" "hop_pool st' d a b = hop_pool st d a b"
    "getFeeRates st' p = getFeeRates st p" "getReserves st' p a b = getReserves st p a b"
    "getRealInCoeff st' p = getRealInCoeff st p"
  using assms by (auto simp: same_hops_def hop_pool_def getFeeRates_def getReserves_def
      getRealInCoeff_def cong: if_cong)

lemma getAmountOut_same: "same_hops path st st' \<Longrightarrow> getAmountOut st' d x path = getAmountOut st d x path"
proof (induction st d x path rule: getAmountOut.induct)
  case (1 st d x a b path)
  note same = same_hops_Cons [OF "1.prems"]
  show ?case
  proof (cases "GetTradingPair st d a b")
    case None
    then show ?thesis by (simp add: same)
  next
    case (Some p)
    obtain rin rout where r: "getReserves st p a b = (rin, rout)" by (cases "getReserves st p a b")
    have IH: "getAmountOut st' d z (b # path) = getAmountOut st d z (b # path)"
      if "0 < rin" "0 < rout" "getRealInCoeff st p = Some c" "Dec_Mul (ToDec x) c = Some e"
        "Dec_TruncateInt e = Some u" "Int_Add rin u = Some s" "mulAndDiv u rout s = Some z" for c e u s z
      using "1.IH" [OF Some r [symmetric] refl _ that(3-7)] that(1,2) same(1) by simp
    show ?thesis
      using IH by (auto simp: Some same r simp del: getAmountOut.simps(2,3) intro!: Option.bind_cong)
  qed
qed simp_all

text \<open>Saving the pool of a hop leaves the later hops alone when the hops are distinct.\<close>

lemma same_hops_save:
  assumes "hop (TokenA q) (TokenB q) \<notin> set (hops path)"
  shows "same_hops path st (SaveTradingPair q st)"
  using assms GetTradingPair_save_other unfolding same_hops_def by (metis SaveTradingPair_simps(2))

section \<open>The state after a hop\<close>

lemma pair_ok_res: "pair_ok p \<Longrightarrow> 0 \<le> res_in p t \<and> 0 \<le> res_out p t"
  by (simp add: pair_ok_def res_in_def res_out_def)

lemma pair_ok_update:
  assumes "pair_ok p" and "same_pair p p'" and "0 \<le> res_in p' t" and "0 \<le> res_out p' t"
    and "int_ok (res_in p' t)" and "int_ok (res_out p' t)"
  shows "pair_ok p'"
  using assms by (auto simp: pair_ok_def same_pair_def res_in_def res_out_def split: if_splits)

lemma swap_keeps:
  assumes "swap fr q t x isRep st = Some ((out, bonus, fund, q'), st1)"
    and "pairs_wf st" and "rates_ok st" and "kv_get (sw_pairs st) (pair_key q) = Some q"
    and "fees_ok fr" and "0 \<le> x"
  shows "pairs_wf st1" "rates_ok st1" "st1 = SaveTradingPair q' st" "same_pair q q'" "0 \<le> out"
    "0 \<le> bonus" "0 \<le> fund"
proof -
  have ok: "pair_ok q" using pairs_wfD(2) [OF assms(2,4)] .
  obtain l r where lr: "0 \<le> l" "0 \<le> r" "0 \<le> bonus" "0 \<le> fund"
    and out: "out = product_out r (res_in q t) (res_out q t)"
    and q': "res_in q' t = res_in q t + r + l" "res_out q' t = res_out q t - out"
      "int_ok (res_in q' t)" "int_ok (res_out q' t)" "same_pair q q'" "st1 = SaveTradingPair q' st"
    by (rule swap_result [OF assms(1,5,6)]) (use pair_ok_res [OF ok] in auto)
  note b = product_out_bounds [OF lr(2), of "res_in q t" "res_out q t", folded out]
  have res: "0 \<le> res_in q t" "0 \<le> res_out q t" using pair_ok_res [OF ok] by simp_all
  have "0 \<le> res_in q' t" "0 \<le> res_out q' t" using q' lr res b(2) by simp_all
  then have "pair_ok q'" using pair_ok_update [OF ok q'(5)] q'(3,4) by blast
  then show "pairs_wf st1" "rates_ok st1"
    using pairs_wf_save [OF assms(2,4) same_pair_key [OF q'(5)]] rates_ok_save [OF assms(3,4) q'(5)] q'(6)
    by simp_all
  show "st1 = SaveTradingPair q' st" "same_pair q q'" "0 \<le> out" "0 \<le> bonus" "0 \<le> fund"
    using q' b(1) lr res by simp_all
qed

lemma swap_path_keeps:
  "swap_path d path x bc rf st = Some ((out, bc', rf'), st') \<Longrightarrow> pairs_wf st \<Longrightarrow> rates_ok st \<Longrightarrow> 0 \<le> x \<Longrightarrow>
   pairs_wf st' \<and> rates_ok st' \<and> 0 \<le> out \<and> sw_ledger st' = sw_ledger st \<and> sw_params st' = sw_params st \<and>
   sw_repurchase st' = sw_repurchase st \<and> sw_liquidity st' = sw_liquidity st \<and> sw_orders st' = sw_orders st \<and>
   sw_gas st' = sw_gas st"
proof (induction path arbitrary: x bc rf st rule: hops.induct)
  case (1 a b path)
  obtain p q out1 bonus fund q' st1 bc1 rf1 where
    p: "GetTradingPair st d a b = Some p" and q: "hop_pool st d a b = Some q"
    and sw: "swap (getFeeRates st p) q a x False st = Some ((out1, bonus, fund, q'), st1)"
    and rest: "swap_path d (b # path) out1 bc1 rf1 st1 = Some ((out, bc', rf'), st')"
    using "1.prems"(1) by (rule swap_path_hop)
  have fees: "fees_ok (getFeeRates st p)"
    using rates_okD [OF "1.prems"(3) GetTradingPair_Some(1) [OF "1.prems"(2) p]] .
  note keep = swap_keeps [OF sw "1.prems"(2,3) hop_pool_Some(1) [OF "1.prems"(2) q] fees "1.prems"(4)]
  show ?case using "1.IH" [OF rest keep(1,2,5)] keep(3) by simp
qed auto

section \<open>The quote is a lower bound\<close>

lemma quote_in_le:
  assumes "x * (precisionReuse - total_rate (getFeeRates st p)) \<le> r * precisionReuse" and "0 \<le> x'"
    and "x' \<le> x" and "total_rate (getFeeRates st p) \<le> precisionReuse"
  shows "quote_in st p x' \<le> r"
proof -
  have "x' * (precisionReuse - total_rate (getFeeRates st p)) \<le> x * (precisionReuse - total_rate (getFeeRates st p))"
    using assms by (intro mult_right_mono) auto
  then have "x' * (precisionReuse - total_rate (getFeeRates st p)) < (r + 1) * precisionReuse"
    using assms(1) precisionReuse_pos(1) by (simp only: distrib_right mult_1_left)
  then have "quote_in st p x' < r + 1" 
    unfolding quote_in_def div_less_iff_int [OF precisionReuse_pos(1)] .
  then show ?thesis by simp
qed

lemma swap_path_ge_quote:
  "getAmountOut st d x' path = Some (Inr y) \<Longrightarrow>
   swap_path d path x bc rf st = Some ((out, bc', rf'), st') \<Longrightarrow>
   0 \<le> x' \<Longrightarrow> x' \<le> x \<Longrightarrow> pairs_wf st \<Longrightarrow> rates_ok st \<Longrightarrow> distinct (hops path) \<Longrightarrow> y \<le> out"
proof (induction path arbitrary: x x' bc rf st rule: hops.induct)
  case (1 a b path)
  note wf = "1.prems"(5,6)
  have x: "0 \<le> x" using "1.prems"(3,4) by simp
  obtain p q out1 bonus fund q' st1 bc1 rf1 where
    p: "GetTradingPair st d a b = Some p" and q: "hop_pool st d a b = Some q"
    and sw: "swap (getFeeRates st p) q a x False st = Some ((out1, bonus, fund, q'), st1)"
    and rest: "swap_path d (b # path) out1 bc1 rf1 st1 = Some ((out, bc', rf'), st')"
    using "1.prems"(2) by (rule swap_path_hop)
  obtain p0 q0 where pq: "GetTradingPair st d a b = Some p0" "hop_pool st d a b = Some q0"
    and pos0: "0 < res_in q0 a" "0 < res_out q0 a" and nn0: "0 \<le> quote_in st p0 x'"
    and quote0: "getAmountOut st d (product_out (quote_in st p0 x') (res_in q0 a) (res_out q0 a)) (b # path)
       = Some (Inr y)"
    using getAmountOut_hop [OF "1.prems"(1,3) wf(2,1)] by blast
  have "p0 = p" "q0 = q" using pq p q by simp_all
  note pos = pos0 [unfolded this] and nn = nn0 [unfolded this] and quote = quote0 [unfolded this]
  have fees: "fees_ok (getFeeRates st p)"
    using rates_okD [OF wf(2) GetTradingPair_Some(1) [OF wf(1) p]] .
  note keep = swap_keeps [OF sw wf hop_pool_Some(1) [OF wf(1) q] fees x]
  obtain r where r: "x * (precisionReuse - total_rate (getFeeRates st p)) \<le> r * precisionReuse"
    and out1: "out1 = product_out r (res_in q a) (res_out q a)"
    by (rule swap_result [OF sw fees x]) (use pos in auto)
  let ?x1 = "product_out (quote_in st p x') (res_in q a) (res_out q a)"
  have "quote_in st p x' \<le> r"
    using quote_in_le [OF r "1.prems"(3,4)] fees by (simp add: fees_ok_def)
  then have le: "?x1 \<le> out1"
    unfolding out1 using product_out_mono [OF nn] pos by simp
  have nn1: "0 \<le> ?x1" using product_out_bounds(1) [OF nn] pos by simp
  have "hop (TokenA q') (TokenB q') = hop a b"
    using keep(4) hop_pool_Some(3) [OF wf(1) q] by (simp add: same_pair_def)
  then have "same_hops (b # path) st st1"
    using "1.prems"(7) same_hops_save keep(3) by simp
  then have "getAmountOut st1 d ?x1 (b # path) = Some (Inr y)"
    using quote getAmountOut_same by simp
  from "1.IH" [OF this rest nn1 le keep(1,2)] show ?case using "1.prems"(7) by simp
qed auto

section \<open>The ledger around a swap\<close>

abbreviation swap_bank :: "swap_state \<Rightarrow> bank" where
  "swap_bank st \<equiv> lg_bank (sw_ledger st)"

definition with_bank :: "bank \<Rightarrow> swap_state \<Rightarrow> swap_state" where
  "with_bank b st = st\<lparr>sw_ledger := (sw_ledger st)\<lparr>lg_bank := b\<rparr>\<rparr>"

lemma with_bank_simps [simp]:
  "swap_bank (with_bank b st) = b" "sw_pairs (with_bank b st) = sw_pairs st"
  "sw_params (with_bank b st) = sw_params st" "sw_repurchase (with_bank b st) = sw_repurchase st"
  "lg_supply (sw_ledger (with_bank b st)) = lg_supply (sw_ledger st)"
  "sw_liquidity (with_bank b st) = sw_liquidity st" "sw_orders (with_bank b st) = sw_orders st"
  "with_bank c (with_bank b st) = with_bank c st" "with_bank (swap_bank st) st = st"
  by (simp_all add: with_bank_def)

lemma transfer_Some:
  "transfer f st = Some (r, st') \<longleftrightarrow> (\<exists>b. f (swap_bank st) = Some (r, b) \<and> st' = with_bank b st)"
  by (auto simp: transfer_def on_ledger_def on_bank_def with_bank_def)

lemma with_bank_pairs [simp]:
  "GetTradingPair (with_bank b st) d x y = GetTradingPair st d x y"
  "pairs_wf (with_bank b st) = pairs_wf st" "rates_ok (with_bank b st) = rates_ok st"
  "getFeeRates (with_bank b st) p = getFeeRates st p"
  by (simp_all add: GetTradingPair_def pairs_wf_def rates_ok_def getFeeRates_def cong: option.case_cong)

lemma same_hops_with_bank: "same_hops path st (with_bank b st)"
  by (simp add: same_hops_def)

lemma addRepurchaseFunds_keeps:
  "addRepurchaseFunds cs st = Some st' \<Longrightarrow> sw_ledger st' = sw_ledger st \<and> sw_pairs st' = sw_pairs st \<and>
     sw_params st' = sw_params st \<and> sw_liquidity st' = sw_liquidity st \<and> sw_orders st' = sw_orders st"
proof (induction cs arbitrary: st)
  case (Cons c cs)
  then show ?case by (fastforce simp: go_simps)
qed simp

text \<open>The parts of a direct swap that succeeds.\<close>

lemma directSwap_cases:
  assumes "directSwap d from referer receiver x path st = Some (Inr flows, st')"
  obtains need c fl b1 out bc rf st2 b2 b3 where "path \<noteq> []" and "NewCoin (hd path) x = Some need"
    and "SubCoin from need (swap_bank st) = Some (Inr (c, fl), b1)"
    and "swap_path d path x [] [] (with_bank b1 st) = Some ((out, bc, rf), st2)"
    and "if out > 0 then \<exists>o_coin r. NewCoin (last path) out = Some o_coin \<and>
        AddCoin receiver o_coin (swap_bank st2) = Some (Inr r, b2) else b2 = swap_bank st2"
    and "if Coins_IsValid bc then \<exists>r. AddCoins referer bc b2 = Some (Inr r, b3) else b3 = b2"
    and "addRepurchaseFunds rf (with_bank b3 st2) = Some st'"
proof -
  from assms obtain need c fl b1 where
    1: "path \<noteq> []" "NewCoin (hd path) x = Some need"
      "SubCoin from need (swap_bank st) = Some (Inr (c, fl), b1)" and
    2: "do { ((amountOut, bonusCoins, repurchaseFunds), st) \<leftarrow> swap_path d path x [] [] (with_bank b1 st);
          on_ok (if amountOut > 0 then do {
                   c \<leftarrow> NewCoin (last path) amountOut;
                   on_ok (transfer (AddCoin receiver c) st) (\<lambda>(_, flow) st. Some (Inr [flow], st)) }
                 else Some (Inr [], st)) (\<lambda>flows1 st.
          on_ok (if Coins_IsValid bonusCoins then
                   on_ok (transfer (AddCoins referer bonusCoins) st) (\<lambda>(_, flows) st. Some (Inr flows, st))
                 else Some (Inr [], st)) (\<lambda>flows2 st. do {
          st \<leftarrow> addRepurchaseFunds repurchaseFunds st;
          Some (Inr ([fl] @ flows1 @ flows2), st) })) } = Some (Inr flows, st')"
    by (auto simp: directSwap_def bind_Some_iff on_ok_Inr_iff transfer_Some split: if_splits)
  then obtain out bc rf st2 flows1 flows2 st3 st4 where
    3: "swap_path d path x [] [] (with_bank b1 st) = Some ((out, bc, rf), st2)" and
    4: "(if out > 0 then do { c \<leftarrow> NewCoin (last path) out;
          on_ok (transfer (AddCoin receiver c) st2) (\<lambda>(_, flow) st. Some (Inr [flow], st)) }
        else Some (Inr [], st2)) = Some (Inr flows1, st3)" and
    5: "(if Coins_IsValid bc then
          on_ok (transfer (AddCoins referer bc) st3) (\<lambda>(_, flows) st. Some (Inr flows, st))
        else Some (Inr [], st3)) = Some (Inr flows2, st4)" and
    6: "addRepurchaseFunds rf st4 = Some st'"
    by (auto simp: bind_Some_iff on_ok_Inr_iff)
  from 4 have st3: "st3 = with_bank (swap_bank st3) st2" and
    out: "if out > 0 then \<exists>o_coin r. NewCoin (last path) out = Some o_coin \<and>
        AddCoin receiver o_coin (swap_bank st2) = Some (Inr r, swap_bank st3) else swap_bank st3 = swap_bank st2"
    by (auto simp: bind_Some_iff on_ok_Inr_iff transfer_Some split: if_splits)
  from 5 have st4: "st4 = with_bank (swap_bank st4) st3" and
    bc: "if Coins_IsValid bc then \<exists>r. AddCoins referer bc (swap_bank st3) = Some (Inr r, swap_bank st4)
      else swap_bank st4 = swap_bank st3"
    by (auto simp: on_ok_Inr_iff transfer_Some split: if_splits)
  have "st4 = with_bank (swap_bank st4) st2" using st3 st4 by (metis with_bank_simps(8))
  then show ?thesis using that [OF 1 3 out bc] 6 by metis
qed

lemma directSwap_balances:
  assumes "directSwap d from referer receiver x path st = Some (Inr flows, st')"
    and "pairs_wf st" and "rates_ok st"
  obtains b1 out bc rf st2 where
    "swap_path d path x [] [] (with_bank b1 st) = Some ((out, bc, rf), st2)" and "0 \<le> x"
    and "\<And>y s. GetBalance (swap_bank st') y s = GetBalance (swap_bank st) y s
       - (if y = from \<and> s = hd path then x else 0) + (if y = receiver \<and> s = last path then out else 0)
       + (if y = referer \<and> Coins_IsValid bc then amount_of bc s else 0)"
    and "x \<le> GetBalance (swap_bank st) from (hd path)" and "sw_pairs st' = sw_pairs st2" and "0 \<le> out"
proof -
  obtain need c fl b1 out bc rf st2 b2 b3 where
    need: "NewCoin (hd path) x = Some need" and
    sub: "SubCoin from need (swap_bank st) = Some (Inr (c, fl), b1)" and
    sp: "swap_path d path x [] [] (with_bank b1 st) = Some ((out, bc, rf), st2)" and
    rcv: "if out > 0 then \<exists>o_coin r. NewCoin (last path) out = Some o_coin \<and>
        AddCoin receiver o_coin (swap_bank st2) = Some (Inr r, b2) else b2 = swap_bank st2" and
    ref: "if Coins_IsValid bc then \<exists>r. AddCoins referer bc b2 = Some (Inr r, b3) else b3 = b2" and
    rf: "addRepurchaseFunds rf (with_bank b3 st2) = Some st'"
    using assms(1) by (rule directSwap_cases)
  have n: "0 \<le> x" "need = \<lparr>Denom = hd path, Amount = x\<rparr>" using need by (simp_all add: NewCoin_Some)
  note keep = swap_path_keeps [OF sp] 
  have st2: "swap_bank st2 = b1" "0 \<le> out" using keep assms(2,3) n(1) by simp_all
  have 1: "GetBalance b1 y s = GetBalance (swap_bank st) y s - (if y = from \<and> s = hd path then x else 0)"
    and cover: "x \<le> GetBalance (swap_bank st) from (hd path)" for y s
    using sub n by (auto simp: SubCoin_Inr)
  have 2: "GetBalance b2 y s = GetBalance b1 y s + (if y = receiver \<and> s = last path then out else 0)" for y s
    using rcv st2 by (auto simp: NewCoin_Some AddCoin_Inr split: if_splits)
  have 3: "GetBalance b3 y s = GetBalance b2 y s + (if y = referer \<and> Coins_IsValid bc then amount_of bc s else 0)" for y s
    using ref by (auto simp: AddCoins_get(1) split: if_splits)
  have st': "swap_bank st' = b3" "sw_pairs st' = sw_pairs st2"
    using addRepurchaseFunds_keeps [OF rf] by simp_all
  show ?thesis by (rule that [OF sp n(1) _ cover st'(2) st2(2)]) (simp only: st'(1) 1 2 3)
qed

text \<open>
  C32. The lower bound of a swap holds: when \<open>SwapExactIn\<close> succeeds on a path that uses every pool
  at most once, the receiver's balance of the last token grows by at least \<open>minAmountOut\<close>, and the
  sender's balance of the first token shrinks by at most \<open>amountIn\<close>, although the quote that was
  compared with the bound is computed by other formulas than the swap.
\<close>

theorem SwapExactIn_minimum:
  assumes "SwapExactIn d from referer receiver amountIn minAmountOut path st = Some (Inr flows, st')"
    and "pairs_wf st" and "rates_ok st" and "distinct (hops path)"
    and "from \<noteq> receiver \<or> hd path \<noteq> last path"
  shows "GetBalance (swap_bank st) receiver (last path) + minAmountOut
      \<le> GetBalance (swap_bank st') receiver (last path) \<and>
    GetBalance (swap_bank st) from (hd path) - amountIn \<le> GetBalance (swap_bank st') from (hd path)"
proof -
  obtain y where quote: "getAmountOut st d amountIn path = Some (Inr y)" "minAmountOut \<le> y"
    and ds: "directSwap d from referer receiver amountIn path st = Some (Inr flows, st')"
    using assms(1) by (cases "getAmountOut st d amountIn path")
      (auto simp: SwapExactIn_def split: sum.split_asm if_split_asm)
  obtain b1 out bc rf st2 where
    sp: "swap_path d path amountIn [] [] (with_bank b1 st) = Some ((out, bc, rf), st2)" and x: "0 \<le> amountIn"
    and bal: "\<And>y s. GetBalance (swap_bank st') y s = GetBalance (swap_bank st) y s
       - (if y = from \<and> s = hd path then amountIn else 0) + (if y = receiver \<and> s = last path then out else 0)
       + (if y = referer \<and> Coins_IsValid bc then amount_of bc s else 0)"
    and "amountIn \<le> GetBalance (swap_bank st) from (hd path)" and "sw_pairs st' = sw_pairs st2" and out: "0 \<le> out"
    by (rule directSwap_balances [OF ds assms(2,3)]) (rule that)
  have "getAmountOut (with_bank b1 st) d amountIn path = Some (Inr y)"
    using quote(1) getAmountOut_same [OF same_hops_with_bank] by simp
  then have "y \<le> out"
    using swap_path_ge_quote [OF _ sp x order_refl] assms(2-4) by simp
  moreover have "0 \<le> (if z = referer \<and> Coins_IsValid bc then amount_of bc s else 0)" for z s
    by (simp add: Coins_IsValid_nonneg)
  note this [of receiver "last path"] this [of "from" "hd path"]
  ultimately show ?thesis using bal [of receiver "last path"] bal [of "from" "hd path"] quote(2) assms(5) out
    by (auto split: if_splits)
qed

section \<open>The quote for an exact output\<close>

lemma chop_ge_div: "0 \<le> d \<Longrightarrow> d div precisionReuse \<le> chopPrecisionAndRound d"
  by (simp add: chopPrecisionAndRound_nonneg Let_def)

lemma quo_trunc_above:
  assumes "Dec_Quo (ToDec a) c = Some e" and "Dec_TruncateInt e = Some t" and "0 \<le> a" and "0 < c"
  shows "a * precisionReuse < (t + 1) * c" "0 \<le> t"
proof -
  let ?P = precisionReuse
  define n where "n = a * ?P div c"
  have n: "0 \<le> n" "n * c \<le> a * ?P" "a * ?P < (n + 1) * c"
    using assms(3,4) less_div_mult_int [OF assms(4), of "a * ?P"]
    by (simp_all add: n_def div_mult_le_int pos_imp_zdiv_nonneg_iff)
  let ?X = "a * ?P * ?P * ?P div c"
  have e: "e = chopPrecisionAndRound ?X"
    using assms by (auto simp: Dec_Quo_def Let_def ToDec_eq big_Quo_nonneg dec_checked_eq split: if_splits)
  have X: "0 \<le> ?X" using assms(3,4) by (simp add: pos_imp_zdiv_nonneg_iff)
  have "n * ?P * ?P * c = n * c * ?P * ?P" by (simp add: mult_ac)
  also have "\<dots> \<le> a * ?P * ?P * ?P" using n(2) by (intro mult_right_mono) auto
  finally have "n * ?P * ?P \<le> ?X" using assms(4) by (simp add: le_div_iff_int)
  then have "n * ?P \<le> ?X div ?P" by (simp add: le_div_iff_int)
  then have "n * ?P \<le> e" unfolding e using chop_ge_div [OF X] by (rule order_trans)
  then have "n \<le> e div ?P" by (simp add: le_div_iff_int)
  moreover have "0 \<le> e" unfolding e using X by (rule chopPrecisionAndRound_nonneg_nonneg)
  then have "t = e div ?P" using assms(2) by (simp add: Dec_TruncateInt_nonneg split: if_splits)
  ultimately have "n \<le> t" by simp
  then show "0 \<le> t" using n(1) by simp
  have "(n + 1) * c \<le> (t + 1) * c" using \<open>n \<le> t\<close> assms(4) by (intro mult_right_mono) auto
  with n(3) show "a * ?P < (t + 1) * c" by linarith
qed

lemma getAmountIn_loop_append:
  "getAmountIn_loop st d y (xs @ [b, a]) = do {
     z \<leftarrow> getAmountIn_loop st d y (xs @ [b]);
     case z of Inl e \<Rightarrow> Some (Inl e) | Inr z \<Rightarrow> getAmountIn_loop st d z [b, a] }"
proof (induction st d y xs rule: getAmountIn_loop.induct)
  case (1 st d y u v xs)
  show ?case
  proof (cases "GetTradingPair st d v u")
    case None
    then show ?thesis by simp
  next
    case (Some p)
    obtain rin rout where r: "getReserves st p v u = (rin, rout)" by (cases "getReserves st p v u")
    show ?thesis
    proof (cases "0 < rin \<and> 0 < rout \<and> y < rout")
      case True
      then show ?thesis
        using "1.IH" [OF Some r [symmetric] refl]
        by (auto simp: Some r simp del: getAmountIn_loop.simps(2,3) intro!: Option.bind_cong)
    next
      case False
      then show ?thesis by (auto simp: Some r)
    qed
  qed
next
  case "2_1"
  then show ?case by simp
next
  case "2_2"
  show ?case by (auto split: option.split prod.split intro!: Option.bind_cong simp del: getAmountIn_loop.simps(2,3))
    (simp_all add: getAmountIn_loop.simps(2,3))
qed

lemma getAmountIn_Cons:
  "getAmountIn st d y (a # b # path) = do {
     z \<leftarrow> getAmountIn st d y (b # path);
     case z of Inl e \<Rightarrow> Some (Inl e) | Inr z \<Rightarrow> getAmountIn_loop st d z [b, a] }"
  using getAmountIn_loop_append [of st d y "rev path" b a] by (simp add: getAmountIn_def)

lemma getAmountIn_single: "getAmountIn st d y [a] = Some (Inr y)" "getAmountIn st d y [] = Some (Inr y)"
  by (simp_all add: getAmountIn_def)

lemma getAmountIn_same: "same_hops path st st' \<Longrightarrow> getAmountIn st' d y path = getAmountIn st d y path"
proof (induction path rule: hops.induct)
  case (1 a b path)
  note same = same_hops_Cons [OF "1.prems"]
  have eq: "getAmountIn_loop st' d z [b, a] = getAmountIn_loop st d z [b, a]" for z
    by (auto simp: same split: option.split prod.split)
  show ?case unfolding getAmountIn_Cons "1.IH" [OF same(1)] eq ..
qed (simp_all add: getAmountIn_single)

lemma product_out_reaches:
  assumes "z * rin div (rout - z) < r" and "0 \<le> z" and "z < rout" and "0 < rin" and "0 \<le> r"
  shows "z \<le> product_out r rin rout"
proof -
  have "z * rin < (z * rin div (rout - z) + 1) * (rout - z)"
    using assms(3) by (intro less_div_mult_int) simp
  also have "\<dots> \<le> r * (rout - z)" using assms(1,3) by (intro mult_right_mono) auto
  finally have "z * (r + rin) \<le> r * rout" by (simp add: algebra_simps)
  then show ?thesis unfolding product_out_def using assms(4,5) by (simp add: le_div_iff_int)
qed

lemma getAmountIn_hop:
  assumes "getAmountIn_loop st d z [b, a] = Some (Inr x)" and "0 \<le> z" and "rates_ok st" and "pairs_wf st"
  obtains p q where "GetTradingPair st d a b = Some p" and "hop_pool st d a b = Some q"
    and "0 < res_in q a" and "0 < res_out q a" and "0 < x"
    and "\<And>r. x * (precisionReuse - total_rate (getFeeRates st p)) \<le> r * precisionReuse \<Longrightarrow> 0 \<le> r \<Longrightarrow>
       z \<le> product_out r (res_in q a) (res_out q a)"
proof -
  obtain p where p: "GetTradingPair st d a b = Some p"
    using assms(1) by (auto split: option.splits)
  then obtain q where q: "hop_pool st d a b = Some q" and pos: "0 < res_in q a" "0 < res_out q a"
    and z: "z < res_out q a"
    using assms(1) by (auto simp: getReserves_pool split: option.splits if_splits)
  let ?tot = "total_rate (getFeeRates st p)"
  have tot: "?tot \<le> precisionReuse"
    using rates_okD [OF assms(3) GetTradingPair_Some(1) [OF assms(4) p]] by (simp add: fees_ok_def)
  from assms(1) obtain c base e t where
    c: "getRealInCoeff st p = Some c" and
    base: "mulAndDiv z (res_in q a) (res_out q a - z) = Some base" and
    e: "Dec_Quo (ToDec base) c = Some e" and t: "Dec_TruncateInt e = Some t" and x: "x = t + 1"
    using pos z by (auto simp: p q getReserves_pool [OF p] go_simps split: if_splits)
  have c': "c = precisionReuse - ?tot" using getRealInCoeff_Some [OF c] .
  have "c \<noteq> 0" using e by (auto simp: Dec_Quo_def)
  then have c0: "0 < c" using tot c' by simp
  have b: "base = z * res_in q a div (res_out q a - z)" "0 \<le> base"
    using mulAndDiv_nonneg [OF base] assms(2) pos z by simp_all
  note above = quo_trunc_above [OF e t b(2) c0]
  show ?thesis
  proof (rule that [OF p q pos])
    show "0 < x" using above(2) x by simp
    fix r assume r: "x * (precisionReuse - ?tot) \<le> r * precisionReuse" "0 \<le> r"
    have "base * precisionReuse < r * precisionReuse" 
      using order_less_le_trans [OF above(1)] r(1) by (simp only: x c')
    then have "base < r" by (simp add: mult_less_cancel_right)
    then show "z \<le> product_out r (res_in q a) (res_out q a)"
      using product_out_reaches [of z "res_in q a" "res_out q a" r] assms(2) z pos r(2) by (simp add: b(1))
  qed
qed

lemma getAmountIn_ConsE:
  assumes "getAmountIn st d y (a # b # path) = Some (Inr x)"
  obtains z where "getAmountIn st d y (b # path) = Some (Inr z)"
    and "getAmountIn_loop st d z [b, a] = Some (Inr x)"
  using assms by (cases "getAmountIn st d y (b # path)")
    (auto simp: getAmountIn_Cons simp del: getAmountIn_loop.simps split: sum.split_asm)

lemma getAmountIn_nonneg:
  "getAmountIn st d y path = Some (Inr x) \<Longrightarrow> 0 \<le> y \<Longrightarrow> pairs_wf st \<Longrightarrow> rates_ok st \<Longrightarrow> 0 \<le> x"
proof (induction path arbitrary: x rule: hops.induct)
  case (1 a b path)
  obtain z where "getAmountIn st d y (b # path) = Some (Inr z)"
    and hopz: "getAmountIn_loop st d z [b, a] = Some (Inr x)"
    using "1.prems"(1) by (rule getAmountIn_ConsE)
  then have "0 \<le> z" using "1.IH" "1.prems"(2-4) by blast
  then have "0 < x" using getAmountIn_hop [OF hopz _ "1.prems"(4,3)] by blast
  then show ?case by simp
qed (simp_all add: getAmountIn_single)

lemma swap_path_reaches:
  "getAmountIn st d y path = Some (Inr x) \<Longrightarrow>
   swap_path d path x' bc rf st = Some ((out, bc', rf'), st') \<Longrightarrow>
   0 \<le> y \<Longrightarrow> x \<le> x' \<Longrightarrow> pairs_wf st \<Longrightarrow> rates_ok st \<Longrightarrow> distinct (hops path) \<Longrightarrow> y \<le> out"
proof (induction path arbitrary: x x' bc rf st rule: hops.induct)
  case (1 a b path)
  note wf = "1.prems"(5,6)
  obtain z where z: "getAmountIn st d y (b # path) = Some (Inr z)"
    and hopz: "getAmountIn_loop st d z [b, a] = Some (Inr x)"
    using "1.prems"(1) by (rule getAmountIn_ConsE)
  have z0: "0 \<le> z" and x0: "0 \<le> x"
    using getAmountIn_nonneg [OF z] getAmountIn_nonneg [OF "1.prems"(1)] "1.prems"(3) wf by simp_all
  then have x': "0 \<le> x'" using "1.prems"(4) by simp
  obtain p q out1 bonus fund q' st1 bc1 rf1 where
    p: "GetTradingPair st d a b = Some p" and q: "hop_pool st d a b = Some q"
    and sw: "swap (getFeeRates st p) q a x' False st = Some ((out1, bonus, fund, q'), st1)"
    and rest: "swap_path d (b # path) out1 bc1 rf1 st1 = Some ((out, bc', rf'), st')"
    using "1.prems"(2) by (rule swap_path_hop)
  have fees: "fees_ok (getFeeRates st p)"
    using rates_okD [OF wf(2) GetTradingPair_Some(1) [OF wf(1) p]] .
  let ?c = "precisionReuse - total_rate (getFeeRates st p)"
  have reach: "0 < res_in q a" "0 < res_out q a"
    "\<And>r. x * ?c \<le> r * precisionReuse \<Longrightarrow> 0 \<le> r \<Longrightarrow> z \<le> product_out r (res_in q a) (res_out q a)"
    using getAmountIn_hop [OF hopz z0 wf(2,1)] p q by (metis option.inject)+
  note keep = swap_keeps [OF sw wf hop_pool_Some(1) [OF wf(1) q] fees x']
  obtain r where r: "x' * ?c \<le> r * precisionReuse" "0 \<le> r"
    and out1: "out1 = product_out r (res_in q a) (res_out q a)"
    by (rule swap_result [OF sw fees x']) (use reach(1,2) in auto)
  have "x * ?c \<le> x' * ?c" using "1.prems"(4) fees by (intro mult_right_mono) (auto simp: fees_ok_def)
  then have "z \<le> out1" unfolding out1 using reach(3) r by (meson order_trans)
  have "hop (TokenA q') (TokenB q') = hop a b"
    using keep(4) hop_pool_Some(3) [OF wf(1) q] by (simp add: same_pair_def)
  then have "same_hops (b # path) st st1"
    using "1.prems"(7) same_hops_save keep(3) by simp
  then have "getAmountIn st1 d y (b # path) = Some (Inr z)" using z getAmountIn_same by simp
  from "1.IH" [OF this rest "1.prems"(3) \<open>z \<le> out1\<close> keep(1,2)] show ?case using "1.prems"(7) by simp
qed (auto simp: getAmountIn_single)


lemma sample_pairs_wf: "pairs_wf sample_swap_state" "rates_ok sample_swap_state"
  by (simp_all add: pairs_wf_def rates_ok_def sample_values(1) kv_entries_set pair_key_def pair_ok_def
      sample_fees_ok) (simp_all add: sample_values go_eval)

lemmas sample_eval = sample_swap_state_def sample_ledger_def empty_state_def sample_pair_def

theorem SwapExactIn_minimum_witness:
  "\<exists>flows st'. SwapExactIn 0 ''alice'' ''carol'' ''bob'' 10000 18000 [''hbc'', ''usdt''] sample_swap_state =
       Some (Inr flows, st') \<and>
     GetBalance (swap_bank sample_swap_state) ''bob'' ''usdt'' + 18000 \<le> GetBalance (swap_bank st') ''bob'' ''usdt'' \<and>
     GetBalance (swap_bank sample_swap_state) ''alice'' ''hbc'' - 10000 \<le> GetBalance (swap_bank st') ''alice'' ''hbc''"
proof -
  let ?r = "SwapExactIn 0 ''alice'' ''carol'' ''bob'' 10000 18000 [''hbc'', ''usdt''] sample_swap_state"
  obtain flows st' where r: "?r = Some (Inr flows, st')"
    by (simp add: sample_eval go_eval cong: go_congs)
  then show ?thesis using SwapExactIn_minimum [OF r sample_pairs_wf] by auto
qed


definition cycle_pair :: "Symbol \<Rightarrow> Symbol \<Rightarrow> TradingPair" where
  "cycle_pair a b = (NewDefaultTradingPair a b 1000)\<lparr>TokenAAmount := 100000, TokenBAmount := 100000\<rparr>"

definition cycle_state :: swap_state where
  "cycle_state = SaveTradingPair (cycle_pair ''btc'' ''hbc'') (SaveTradingPair (cycle_pair ''btc'' ''usdt'')
     (SaveTradingPair (cycle_pair ''hbc'' ''usdt'') sample_swap_state))"


end
