(* ===== verification/SwapPoolFacts.thy ===== *)
theory SwapPoolFacts
  imports SwapPath
begin

text \<open>
  Adding and removing liquidity: what is taken from and paid to the provider, that neither dilutes
  the other providers, that adding and removing again never makes a profit, and that the shares of
  all addresses never exceed the total of their pool.
\<close>

section \<open>The integer square root\<close>

lemma isqrt_bounds: "isqrt n * isqrt n \<le> n \<and> n < (isqrt n + 1) * (isqrt n + 1)"
proof (induction n rule: isqrt.induct)
  case (1 n)
  show ?case
  proof (cases "n = 0")
    case False
    define r where "r = isqrt (n div 4)"
    have r: "r * r \<le> n div 4" "n div 4 < (r + 1) * (r + 1)" using 1 [OF False] by (simp_all add: r_def)
    have "r * r * 4 \<le> n" "n < (r + 1) * (r + 1) * 4"
      using r by (simp_all only: less_eq_div_iff_mult_less_eq div_less_iff_less_mult zero_less_numeral)
    moreover have "isqrt n = (if (2 * r + 1) * (2 * r + 1) \<le> n then 2 * r + 1 else 2 * r)"
      unfolding r_def by (subst isqrt.simps) (simp only: False if_False Let_def)
    moreover have "(2 * r + 1 + 1) * (2 * r + 1 + 1) = (r + 1) * (r + 1) * 4" "2 * r * (2 * r) = r * r * 4"
      by (simp_all add: algebra_simps)
    ultimately show ?thesis by (simp del: mult_Suc mult_Suc_right)
  qed (simp add: isqrt.simps [of 0])
qed

lemma big_Sqrt_Some:
  assumes "big_Sqrt x = Some r"
  shows "0 \<le> x" "0 \<le> r" "r * r \<le> x" "x < (r + 1) * (r + 1)"
proof -
  have x: "0 \<le> x" "r = int (isqrt (nat x))" using assms by (auto simp: big_Sqrt_def split: if_splits)
  have "int (isqrt (nat x) * isqrt (nat x)) \<le> int (nat x)"
    "int (nat x) < int ((isqrt (nat x) + 1) * (isqrt (nat x) + 1))"
    using isqrt_bounds [of "nat x"] by (simp_all only: of_nat_le_iff of_nat_less_iff)
  then show "0 \<le> x" "0 \<le> r" "r * r \<le> x" "x < (r + 1) * (r + 1)" using x by (simp_all add: algebra_simps)
qed

section \<open>The steps of adding liquidity\<close>

text \<open>The reserves and the shares of a pool that may not exist yet.\<close>

definition pool_A :: "TradingPair option \<Rightarrow> int" where
  "pool_A p = (case p of None \<Rightarrow> 0 | Some q \<Rightarrow> TokenAAmount q)"

definition pool_B :: "TradingPair option \<Rightarrow> int" where
  "pool_B p = (case p of None \<Rightarrow> 0 | Some q \<Rightarrow> TokenBAmount q)"

definition pool_L :: "TradingPair option \<Rightarrow> int" where
  "pool_L p = (case p of None \<Rightarrow> 0 | Some q \<Rightarrow> TotalLiquidity q)"

text \<open>A pool without shares is empty, and one with shares is not.\<close>

definition pool_ok :: "TradingPair \<Rightarrow> bool" where
  "pool_ok p = (if TotalLiquidity p = 0 then TokenAAmount p = 0 \<and> TokenBAmount p = 0
     else 0 < TokenAAmount p \<and> 0 < TokenBAmount p)"

text \<open>No pair of the two tokens is stored in the other order, neither in the dex nor in dex 0.\<close>

definition oriented :: "swap_state \<Rightarrow> uint32 \<Rightarrow> Symbol \<Rightarrow> Symbol \<Rightarrow> bool" where
  "oriented st d a b = (kv_get (sw_pairs st) (d, b, a) = None \<and> kv_get (sw_pairs st) (0, b, a) = None)"

lemma onUpdateLiquidity_keeps:
  assumes "onUpdateLiquidity addr d a b l st = Some st'"
  shows "sw_ledger st' = sw_ledger st" "sw_params st' = sw_params st" "sw_pairs st' = sw_pairs st"
    "sw_liquidity st' = sw_liquidity st" "sw_repurchase st' = sw_repurchase st" "sw_orders st' = sw_orders st"
proof -
  have "\<exists>x y. st' = st\<lparr>sw_totalShare := x, sw_addrMask := y\<rparr>"
    using assms unfolding onUpdateLiquidity_def Let_def
    by (elim bind_SomeE) (auto split: if_split_asm elim!: bind_SomeE, metis swap_state.surjective swap_state.update_convs(14))
  then show "sw_ledger st' = sw_ledger st" "sw_params st' = sw_params st" "sw_pairs st' = sw_pairs st"
    "sw_liquidity st' = sw_liquidity st" "sw_repurchase st' = sw_repurchase st" "sw_orders st' = sw_orders st"
    by auto
qed

lemma GetLiquidity_same [simp]:
  "GetLiquidity (SaveTradingPair p st) = GetLiquidity st" "GetLiquidity (with_bank b st) = GetLiquidity st"
  by (simp_all add: GetLiquidity_def fun_eq_iff cong: option.case_cong)

lemma AddLiquidity_cases:
  assumes "AddLiquidity from d a b mA mB st = Some (Inr flows, st')"
  obtains nA nB l p0 p need r b1 where
    "(case hop_pool st d a b of None \<Rightarrow> first_liquidity st None a b mA mB
      | Some p \<Rightarrow> if TotalLiquidity p = 0 then first_liquidity st (Some p) a b mA mB else more_liquidity p mA mB)
     = Some (Inr (nA, nB, l, p0))"
    and "GetTradingPair st d a b = None \<longrightarrow> d = 0"
    and "0 < nA" and "0 < nB" and "0 < l"
    and "NewCoins [\<lparr>Denom = a, Amount = nA\<rparr>, \<lparr>Denom = b, Amount = nB\<rparr>] = Some need"
    and "SubCoins from need (swap_bank st) = Some (Inr r, b1)"
    and "p = p0\<lparr>TokenAAmount := TokenAAmount p0 + nA, TokenBAmount := TokenBAmount p0 + nB,
       TotalLiquidity := TotalLiquidity p0 + l\<rparr>"
    and "int_ok (TokenAAmount p)" and "int_ok (TokenBAmount p)" and "int_ok (TotalLiquidity p)"
    and "swap_bank st' = b1" and "sw_params st' = sw_params st"
    and "sw_pairs st' = kv_set (pair_key p) p (sw_pairs st)"
    and "sw_liquidity st' = kv_set (from, DexID p, a, b)
       (GetLiquidity st from (DexID p) (TokenA p) (TokenB p) + l) (sw_liquidity st)"
    and "sw_repurchase st' = sw_repurchase st" and "sw_orders st' = sw_orders st"
proof -
  have calc: "(case (case GetTradingPair st d a b of None \<Rightarrow> None
          | Some p \<Rightarrow> if IsPublic p \<and> DexID p \<noteq> 0 then GetTradingPair st 0 a b else Some p) of
       None \<Rightarrow> first_liquidity st (case GetTradingPair st d a b of None \<Rightarrow> None
          | Some p \<Rightarrow> if IsPublic p \<and> DexID p \<noteq> 0 then GetTradingPair st 0 a b else Some p) a b mA mB
     | Some p \<Rightarrow> if TotalLiquidity p = 0
         then first_liquidity st (case GetTradingPair st d a b of None \<Rightarrow> None
          | Some p \<Rightarrow> if IsPublic p \<and> DexID p \<noteq> 0 then GetTradingPair st 0 a b else Some p) a b mA mB
         else more_liquidity p mA mB) =
    (case hop_pool st d a b of None \<Rightarrow> first_liquidity st None a b mA mB
      | Some p \<Rightarrow> if TotalLiquidity p = 0 then first_liquidity st (Some p) a b mA mB else more_liquidity p mA mB)"
    by (auto simp: hop_pool_def split: option.splits)
  from assms have ex: "GetTradingPair st d a b = None \<longrightarrow> d = 0"
    by (auto simp: AddLiquidity_def Let_def split: if_splits)
  let ?calc = "case hop_pool st d a b of None \<Rightarrow> first_liquidity st None a b mA mB
      | Some p \<Rightarrow> if TotalLiquidity p = 0 then first_liquidity st (Some p) a b mA mB else more_liquidity p mA mB"
  let ?cont = "\<lambda>calc. case calc of Inl e \<Rightarrow> Some (Inl e, st)
      | Inr (nA, nB, l, p0) \<Rightarrow>
          if \<not> nA > 0 \<or> \<not> nB > 0 then Some (Inl ErrInvalidTx, st)
          else if \<not> l > 0 then Some (Inl ErrInvalidTx, st)
          else add_shares from a b nA nB l p0 st"
  have "AddLiquidity from d a b mA mB st = Option.bind ?calc ?cont"
    unfolding AddLiquidity_def Let_def calc using ex by (subst if_not_P) auto
  with assms have "Option.bind ?calc ?cont = Some (Inr flows, st')" by (simp only:)
  then obtain calc where 1: "?calc = Some calc" and k: "?cont calc = Some (Inr flows, st')"
    by (rule bind_SomeE)
  from k obtain nA nB l p0 where
    2: "calc = Inr (nA, nB, l, p0)" "0 < nA" "0 < nB" "0 < l" and
    rest: "add_shares from a b nA nB l p0 st = Some (Inr flows, st')"
    by (cases calc) (auto split: if_splits)
  define p where "p = p0\<lparr>TokenAAmount := TokenAAmount p0 + nA, TokenBAmount := TokenBAmount p0 + nB,
       TotalLiquidity := TotalLiquidity p0 + l\<rparr>"
  have upd: "DexID p = DexID p0" "TokenA p = TokenA p0" "TokenB p = TokenB p0" by (simp_all add: p_def)
  from rest obtain need r b1 st2 where
    3: "NewCoins [\<lparr>Denom = a, Amount = nA\<rparr>, \<lparr>Denom = b, Amount = nB\<rparr>] = Some need"
     "SubCoins from need (swap_bank st) = Some (Inr r, b1)"
     "int_ok (TokenAAmount p)" "int_ok (TokenBAmount p)" "int_ok (TotalLiquidity p)" and
    4: "st2 = saveLiquidity from (DexID p) a b (GetLiquidity st from (DexID p) (TokenA p) (TokenB p) + l)
      (SaveTradingPair p (with_bank b1 st))" and
    5: "onUpdateLiquidity from (DexID p) a b l st2 = Some st'"
    unfolding add_shares_def Let_def upd
    by (auto simp: go_simps on_ok_Inr_iff transfer_Some NewCoin_Some p_def)
  note keep = onUpdateLiquidity_keeps [OF 5]
  have st': "swap_bank st' = b1" "sw_params st' = sw_params st" "sw_pairs st' = kv_set (pair_key p) p (sw_pairs st)"
    "sw_liquidity st' = kv_set (from, DexID p, a, b)
       (GetLiquidity st from (DexID p) (TokenA p) (TokenB p) + l) (sw_liquidity st)"
    "sw_repurchase st' = sw_repurchase st" "sw_orders st' = sw_orders st"
    unfolding keep 4 by (simp_all add: saveLiquidity_def)
  show ?thesis
    by (rule that [OF 1 [unfolded 2(1)] ex 2(2-4) 3(1,2) p_def 3(3-5) st'])
qed

section \<open>The steps of removing liquidity\<close>

lemma RemoveLiquidity_cases:
  assumes "RemoveLiquidity from d a b l st = Some (Inr flows, st')"
  obtains q rA rB paid r b1 p where "hop_pool st d a b = Some q"
    and "l \<le> GetLiquidity st from (DexID q) (TokenA q) (TokenB q)" and "l \<le> TotalLiquidity q"
    and "mulAndDiv l (TokenAAmount q) (TotalLiquidity q) = Some rA"
    and "mulAndDiv l (TokenBAmount q) (TotalLiquidity q) = Some rB"
    and "0 < rA" and "0 < rB"
    and "NewCoins [\<lparr>Denom = a, Amount = rA\<rparr>, \<lparr>Denom = b, Amount = rB\<rparr>] = Some paid"
    and "AddCoins from paid (swap_bank st) = Some (Inr r, b1)"
    and "p = q\<lparr>TokenAAmount := TokenAAmount q - rA, TokenBAmount := TokenBAmount q - rB,
       TotalLiquidity := TotalLiquidity q - l\<rparr>"
    and "int_ok (TokenAAmount p)" and "int_ok (TokenBAmount p)" and "int_ok (TotalLiquidity p)"
    and "swap_bank st' = b1" and "sw_params st' = sw_params st"
    and "sw_pairs st' = kv_set (pair_key p) p (sw_pairs st)"
    and "sw_liquidity st' = kv_set (from, DexID p, a, b)
       (GetLiquidity st from (DexID p) (TokenA p) (TokenB p) - l) (sw_liquidity st)"
    and "sw_repurchase st' = sw_repurchase st" and "sw_orders st' = sw_orders st"
proof -
  obtain q where q: "hop_pool st d a b = Some q" and
    1: "l \<le> GetLiquidity st from (DexID q) (TokenA q) (TokenB q)" "l \<le> TotalLiquidity q" and
    k: "do { rA \<leftarrow> mulAndDiv l (TokenAAmount q) (TotalLiquidity q);
          rB \<leftarrow> mulAndDiv l (TokenBAmount q) (TotalLiquidity q);
          if \<not> rA > 0 \<or> \<not> rB > 0 then Some (Inl ErrInvalidTx, st)
          else remove_shares from a b rA rB (GetLiquidity st from (DexID q) (TokenA q) (TokenB q)) l q st }
       = Some (Inr flows, st')"
    using assms unfolding RemoveLiquidity_def Let_def hop_pool_def
    by (auto simp: bind_Some_iff split: option.split_asm if_split_asm)
  then obtain rA rB where
    2: "mulAndDiv l (TokenAAmount q) (TotalLiquidity q) = Some rA"
      "mulAndDiv l (TokenBAmount q) (TotalLiquidity q) = Some rB" "0 < rA" "0 < rB" and
    rest: "remove_shares from a b rA rB (GetLiquidity st from (DexID q) (TokenA q) (TokenB q)) l q st
      = Some (Inr flows, st')"
    by (auto simp: bind_Some_iff split: if_split_asm)
  define p where "p = q\<lparr>TokenAAmount := TokenAAmount q - rA, TokenBAmount := TokenBAmount q - rB,
       TotalLiquidity := TotalLiquidity q - l\<rparr>"
  have upd: "DexID p = DexID q" "TokenA p = TokenA q" "TokenB p = TokenB q" by (simp_all add: p_def)
  from rest obtain paid r b1 st2 where
    3: "NewCoins [\<lparr>Denom = a, Amount = rA\<rparr>, \<lparr>Denom = b, Amount = rB\<rparr>] = Some paid"
     "AddCoins from paid (swap_bank st) = Some (Inr r, b1)"
     "int_ok (TokenAAmount p)" "int_ok (TokenBAmount p)" "int_ok (TotalLiquidity p)" and
    4: "st2 = saveLiquidity from (DexID p) a b (GetLiquidity st from (DexID p) (TokenA p) (TokenB p) - l)
      (SaveTradingPair p (with_bank b1 st))" and
    5: "onUpdateLiquidity from (DexID p) a b (Int_Neg l) st2 = Some st'"
    unfolding remove_shares_def Let_def upd
    by (auto simp: go_simps on_ok_Inr_iff transfer_Some NewCoin_Some p_def)
  note keep = onUpdateLiquidity_keeps [OF 5]
  have st': "swap_bank st' = b1" "sw_params st' = sw_params st" "sw_pairs st' = kv_set (pair_key p) p (sw_pairs st)"
    "sw_liquidity st' = kv_set (from, DexID p, a, b)
       (GetLiquidity st from (DexID p) (TokenA p) (TokenB p) - l) (sw_liquidity st)"
    "sw_repurchase st' = sw_repurchase st" "sw_orders st' = sw_orders st"
    unfolding keep 4 by (simp_all add: saveLiquidity_def)
  show ?thesis
    by (rule that [OF q 1 2 3(1,2) p_def 3(3-5) st'])
qed

section \<open>What the steps compute\<close>

lemma oriented_pool:
  assumes "pairs_wf st" and "oriented st d a b" and "hop_pool st d a b = Some q"
  shows "TokenA q = a" "TokenB q = b"
proof -
  obtain e where e: "GetTradingPair st e a b = Some q" "e = d \<or> e = 0"
    using assms(3) by (auto simp: hop_pool_def bind_Some_iff split: if_split_asm)
  then have "kv_get (sw_pairs st) (e, a, b) = Some q"
    using assms(2) by (auto simp: oriented_def GetTradingPair_def split: option.split_asm)
  from pairs_wfD(1) [OF assms(1) this] show "TokenA q = a" "TokenB q = b" by (simp_all add: pair_key_def)
qed

text \<open>
  The amounts of an addition are within the sender's limits, and the shares given for them are at
  most what their part of either reserve is worth.
\<close>

lemma more_liquidity_bounds:
  assumes "more_liquidity p mA mB = Some (Inr (nA, nB, l, p0))" and "0 < TokenAAmount p" and "0 < TokenBAmount p"
    and "0 \<le> TotalLiquidity p" and "0 < nA" and "0 < nB"
  shows "p0 = p" "nA \<le> mA" "nB \<le> mB" "l * TokenAAmount p \<le> nA * TotalLiquidity p"
    "l * TokenBAmount p \<le> nB * TotalLiquidity p"
proof -
  obtain lA lB where 1: "p0 = p" "nA \<le> mA" "nB \<le> mB"
    and lA: "mulAndDiv nA (TotalLiquidity p) (TokenAAmount p) = Some lA"
    and lB: "mulAndDiv nB (TotalLiquidity p) (TokenBAmount p) = Some lB" and l: "l \<le> lA" "l \<le> lB"
    using assms(1) unfolding more_liquidity_def
    by (auto simp: bind_Some_iff MinInt_def min_big_def split: if_split_asm option.split_asm)
  from 1 show "p0 = p" "nA \<le> mA" "nB \<le> mB" by simp_all
  have "lA * TokenAAmount p \<le> nA * TotalLiquidity p" "lB * TokenBAmount p \<le> nB * TotalLiquidity p"
    using mulAndDiv_nonneg [OF lA] mulAndDiv_nonneg [OF lB] assms(2-6) by (simp_all add: div_mult_le_int)
  then show "l * TokenAAmount p \<le> nA * TotalLiquidity p" "l * TokenBAmount p \<le> nB * TotalLiquidity p"
    using l assms(2,3) by (meson less_imp_le mult_right_mono order_trans)+
qed

lemma first_liquidity_bounds:
  assumes "first_liquidity st po a b mA mB = Some (Inr (nA, nB, l, p0))"
  shows "nA = mA" "nB = mB" "(l + MinimumLiquidity (sw_params st)) * (l + MinimumLiquidity (sw_params st)) \<le> mA * mB"
    "p0 = (case po of None \<Rightarrow> NewDefaultTradingPair a b (MinimumLiquidity (sw_params st))
       | Some p \<Rightarrow> p\<lparr>TotalLiquidity := MinimumLiquidity (sw_params st)\<rparr>)"
proof -
  obtain r where r: "big_Sqrt (mA * mB) = Some r" and l: "l = r - MinimumLiquidity (sw_params st)"
    and 1: "nA = mA" "nB = mB" "p0 = (case po of None \<Rightarrow> NewDefaultTradingPair a b (MinimumLiquidity (sw_params st))
       | Some p \<Rightarrow> p\<lparr>TotalLiquidity := MinimumLiquidity (sw_params st)\<rparr>)"
    using assms unfolding first_liquidity_def Let_def
    by (elim bind_SomeE) (auto simp: Int_Sub_Some checked_int split: if_split_asm)
  show "nA = mA" "nB = mB" "p0 = (case po of None \<Rightarrow> NewDefaultTradingPair a b (MinimumLiquidity (sw_params st))
       | Some p \<Rightarrow> p\<lparr>TotalLiquidity := MinimumLiquidity (sw_params st)\<rparr>)" by fact+
  show "(l + MinimumLiquidity (sw_params st)) * (l + MinimumLiquidity (sw_params st)) \<le> mA * mB"
    using big_Sqrt_Some(3) [OF r] by (simp add: l)
qed

lemma pairs_cong:
  assumes "sw_pairs st' = sw_pairs st"
  shows "pairs_wf st' = pairs_wf st" "GetTradingPair st' = GetTradingPair st" "hop_pool st' = hop_pool st"
    "oriented st' = oriented st"
proof -
  show "pairs_wf st' = pairs_wf st" "oriented st' = oriented st"
    using assms by (simp_all add: pairs_wf_def oriented_def fun_eq_iff)
  show "GetTradingPair st' = GetTradingPair st"
    using assms by (simp add: GetTradingPair_def fun_eq_iff cong: option.case_cong)
  then show "hop_pool st' = hop_pool st" by (simp add: hop_pool_def fun_eq_iff cong: if_cong)
qed

lemma rates_cong:
  assumes "sw_pairs st' = sw_pairs st" and "sw_params st' = sw_params st"
  shows "rates_ok st' = rates_ok st"
proof -
  have "getFeeRates st' = getFeeRates st" using assms(2) by (simp add: getFeeRates_def fun_eq_iff)
  then show ?thesis using assms(1) by (simp add: rates_ok_def)
qed

lemma pairs_wf_insert:
  assumes wf: "pairs_wf st" and ok: "pair_ok p" and other: "kv_get (sw_pairs st) (DexID p, TokenB p, TokenA p) = None"
  shows "pairs_wf (SaveTradingPair p st)"
proof (rule pairs_wfI)
  fix k q
  assume q: "kv_get (sw_pairs (SaveTradingPair p st)) k = Some q"
  have ne: "(DexID p, TokenB p, TokenA p) \<noteq> pair_key p" using ok by (auto simp: pair_key_def pair_ok_def)
  show "k = pair_key q \<and> pair_ok q \<and> kv_get (sw_pairs (SaveTradingPair p st)) (DexID q, TokenB q, TokenA q) = None"
  proof (cases "k = pair_key p")
    case True
    with q ok other ne show ?thesis by simp
  next
    case False
    then have q': "kv_get (sw_pairs st) k = Some q" using q by simp
    note Q = pairs_wfD [OF wf q']
    have "(DexID q, TokenB q, TokenA q) \<noteq> pair_key p" using Q(1) q' other by (auto simp: pair_key_def)
    then show ?thesis using Q by simp
  qed
qed

lemma hop_pool_after:
  assumes "hop_pool st d a b = Some q \<and> DexID p = DexID q \<and> IsPublic p = IsPublic q \<or>
      hop_pool st d a b = None \<and> DexID p = 0 \<and> (GetTradingPair st d a b = None \<longrightarrow> d = 0)"
    and "pairs_wf st" and "TokenA p = a" and "TokenB p = b"
  shows "hop_pool (SaveTradingPair p st) d a b = Some p"
proof -
  have g: "GetTradingPair (SaveTradingPair p st) e a b = (if e = DexID p then Some p else GetTradingPair st e a b)" for e
    using assms(3,4) by (auto simp: GetTradingPair_def pair_key_def split: option.split)
  have d: "DexID r = e" if "GetTradingPair st e a b = Some r" for e r
    using GetTradingPair_Some(2) [OF assms(2) that] .
  from assms(1) show ?thesis
  proof (elim disjE conjE)
    assume q: "hop_pool st d a b = Some q" and p: "DexID p = DexID q" "IsPublic p = IsPublic q"
    obtain r where r: "GetTradingPair st d a b = Some r"
      and pub: "(if IsPublic r \<and> DexID r \<noteq> 0 then GetTradingPair st 0 a b else Some r) = Some q"
      using q unfolding hop_pool_def by (rule bind_SomeE)
    from pub d [OF r] d [of 0] p show ?thesis
      by (auto simp: hop_pool_def g r split: if_split_asm)
  next
    assume n: "hop_pool st d a b = None" and p: "DexID p = 0" and "GetTradingPair st d a b = None \<longrightarrow> d = 0"
    then show ?thesis by (auto simp: hop_pool_def g bind_eq_None_conv split: if_split_asm)
  qed
qed

section \<open>Fairness\<close>

text \<open>The rates of a pair after a change of liquidity are those it had; a new pair has none of its own.\<close>

definition rates_from :: "TradingPair option \<Rightarrow> TradingPair \<Rightarrow> bool" where
  "rates_from q p =
     (case q of
        None \<Rightarrow> DexID p = 0 \<and> LPRewardRate p = 0 \<and> RefererRewardRate p = 0
      | Some q \<Rightarrow> DexID p = DexID q \<and> IsPublic p = IsPublic q \<and> LPRewardRate p = LPRewardRate q \<and>
          RefererRewardRate p = RefererRewardRate q)"

lemma AddLiquidity_calc:
  fixes st d a b
  defines "L0 \<equiv> if pool_L (hop_pool st d a b) = 0 then MinimumLiquidity (sw_params st) else pool_L (hop_pool st d a b)"
  assumes calc: "(case hop_pool st d a b of None \<Rightarrow> first_liquidity st None a b mA mB
      | Some p \<Rightarrow> if TotalLiquidity p = 0 then first_liquidity st (Some p) a b mA mB else more_liquidity p mA mB)
     = Some (Inr (nA, nB, l, p0))"
    and old: "\<And>q. hop_pool st d a b = Some q \<Longrightarrow> pair_ok q \<and> TokenA q = a \<and> TokenB q = b \<and> pool_ok q"
    and pos: "0 < nA" "0 < nB" "0 < l" and min: "0 < MinimumLiquidity (sw_params st)"
  shows "TokenA p0 = a \<and> TokenB p0 = b \<and> TokenAAmount p0 = pool_A (hop_pool st d a b) \<and>
    TokenBAmount p0 = pool_B (hop_pool st d a b) \<and> TotalLiquidity p0 = L0 \<and> nA \<le> mA \<and> nB \<le> mB \<and> 0 < L0 \<and>
    l * pool_A (hop_pool st d a b) \<le> nA * L0 \<and> l * pool_B (hop_pool st d a b) \<le> nB * L0 \<and>
    0 \<le> TokenAAmount p0 \<and> 0 \<le> TokenBAmount p0 \<and>
    (case hop_pool st d a b of None \<Rightarrow> DexID p0 = 0 | Some q \<Rightarrow> DexID p0 = DexID q \<and> IsPublic p0 = IsPublic q) \<and>
    rates_from (hop_pool st d a b) p0"
proof (cases "hop_pool st d a b")
  case None
  then show ?thesis using calc first_liquidity_bounds [of st None a b mA mB nA nB l p0] pos min
    by (simp add: pool_A_def pool_B_def pool_L_def L0_def NewDefaultTradingPair_def rates_from_def ZeroDec_def)
next
  case (Some q)
  have q: "pair_ok q" "TokenA q = a" "TokenB q = b" "pool_ok q" using old [OF Some] by simp_all
  show ?thesis
  proof (cases "TotalLiquidity q = 0")
    case True
    then show ?thesis using Some calc first_liquidity_bounds [of st "Some q" a b mA mB nA nB l p0] pos min q
      by (simp add: pool_A_def pool_B_def pool_L_def L0_def pool_ok_def rates_from_def)
  next
    case False
    then have "more_liquidity q mA mB = Some (Inr (nA, nB, l, p0))" using Some calc by simp
    from more_liquidity_bounds [OF this] False q pos Some
    show ?thesis by (simp add: pool_A_def pool_B_def pool_L_def L0_def pool_ok_def pair_ok_def rates_from_def)
  qed
qed

lemma AddLiquidity_effect:
  assumes "AddLiquidity from d a b mA mB st = Some (Inr flows, st')"
    and "pairs_wf st" and "oriented st d a b" and "\<And>q. hop_pool st d a b = Some q \<Longrightarrow> pool_ok q"
    and "0 < MinimumLiquidity (sw_params st)"
  obtains nA nB l p L0 where "0 < nA" and "nA \<le> mA" and "0 < nB" and "nB \<le> mB" and "0 < l" and "a \<noteq> b"
    and "L0 = (if pool_L (hop_pool st d a b) = 0 then MinimumLiquidity (sw_params st) else pool_L (hop_pool st d a b))"
    and "0 < L0"
    and "TokenA p = a" and "TokenB p = b" and "TokenAAmount p = pool_A (hop_pool st d a b) + nA"
    and "TokenBAmount p = pool_B (hop_pool st d a b) + nB" and "TotalLiquidity p = L0 + l" and "pair_ok p"
    and "l * pool_A (hop_pool st d a b) \<le> nA * L0" and "l * pool_B (hop_pool st d a b) \<le> nB * L0"
    and "sw_pairs st' = kv_set (pair_key p) p (sw_pairs st)" and "hop_pool st' d a b = Some p" and "pairs_wf st'"
    and "\<And>y s. GetBalance (swap_bank st') y s = GetBalance (swap_bank st) y s -
       (if y = from then (if s = a then nA else 0) + (if s = b then nB else 0) else 0)"
    and "\<And>y e u v. GetLiquidity st' y e u v = GetLiquidity st y e u v + (if (y, e, u, v) = (from, DexID p, a, b) then l else 0)"
    and "sw_params st' = sw_params st" and "sw_repurchase st' = sw_repurchase st" and "sw_orders st' = sw_orders st"
    and "holds (swap_bank st') = holds (swap_bank st)" and "bank_wf (swap_bank st) \<Longrightarrow> bank_wf (swap_bank st')"
    and "\<And>s. free_total (swap_bank st') s = free_total (swap_bank st) s - ((if s = a then nA else 0) + (if s = b then nB else 0))"
    and "kv_get (sw_pairs st) (pair_key p) = hop_pool st d a b"
    and "sw_liquidity st' = kv_set (from, DexID p, a, b) (GetLiquidity st from (DexID p) a b + l) (sw_liquidity st)"
    and "rates_from (hop_pool st d a b) p"
proof -
  obtain nA nB l p0 p need r b1 where
    calc: "(case hop_pool st d a b of None \<Rightarrow> first_liquidity st None a b mA mB
      | Some p \<Rightarrow> if TotalLiquidity p = 0 then first_liquidity st (Some p) a b mA mB else more_liquidity p mA mB)
     = Some (Inr (nA, nB, l, p0))" and new: "GetTradingPair st d a b = None \<longrightarrow> d = 0"
    and pos: "0 < nA" "0 < nB" "0 < l"
    and need: "NewCoins [\<lparr>Denom = a, Amount = nA\<rparr>, \<lparr>Denom = b, Amount = nB\<rparr>] = Some need"
    and sub: "SubCoins from need (swap_bank st) = Some (Inr r, b1)"
    and p: "p = p0\<lparr>TokenAAmount := TokenAAmount p0 + nA, TokenBAmount := TokenBAmount p0 + nB,
       TotalLiquidity := TotalLiquidity p0 + l\<rparr>"
    and ok: "int_ok (TokenAAmount p)" "int_ok (TokenBAmount p)" "int_ok (TotalLiquidity p)"
    and st': "swap_bank st' = b1" "sw_params st' = sw_params st" "sw_pairs st' = kv_set (pair_key p) p (sw_pairs st)"
     "sw_liquidity st' = kv_set (from, DexID p, a, b)
       (GetLiquidity st from (DexID p) (TokenA p) (TokenB p) + l) (sw_liquidity st)"
     "sw_repurchase st' = sw_repurchase st" "sw_orders st' = sw_orders st"
    using assms(1) by (rule AddLiquidity_cases)
  let ?L0 = "if pool_L (hop_pool st d a b) = 0 then MinimumLiquidity (sw_params st) else pool_L (hop_pool st d a b)"
  note coins = NewCoins_two [OF need]
  have ab: "a \<noteq> b" using coins(1) pos by simp
  have old: "pair_ok q" "TokenA q = a" "TokenB q = b" "pool_ok q" if "hop_pool st d a b = Some q" for q
    using that hop_pool_Some(2) [OF assms(2)] oriented_pool [OF assms(2,3)] assms(4) by blast+
  have p0: "TokenA p0 = a" "TokenB p0 = b" "TokenAAmount p0 = pool_A (hop_pool st d a b)"
    "TokenBAmount p0 = pool_B (hop_pool st d a b)" "TotalLiquidity p0 = ?L0" "nA \<le> mA" "nB \<le> mB" "0 < ?L0"
    "l * pool_A (hop_pool st d a b) \<le> nA * ?L0" "l * pool_B (hop_pool st d a b) \<le> nB * ?L0"
    "0 \<le> TokenAAmount p0" "0 \<le> TokenBAmount p0"
    and dex: "case hop_pool st d a b of None \<Rightarrow> DexID p0 = 0 | Some q \<Rightarrow> DexID p0 = DexID q \<and> IsPublic p0 = IsPublic q"
    and rates0: "rates_from (hop_pool st d a b) p0"
    using AddLiquidity_calc [OF calc _ pos assms(5)] old by blast+
  have eq: "TokenA p = a" "TokenB p = b" "TokenAAmount p = pool_A (hop_pool st d a b) + nA"
    "TokenBAmount p = pool_B (hop_pool st d a b) + nB" "TotalLiquidity p = ?L0 + l" "DexID p = DexID p0" "IsPublic p = IsPublic p0"
    using p0(1-5) by (simp_all add: p)
  have rates: "rates_from (hop_pool st d a b) p" using rates0 by (simp add: rates_from_def p cong: option.case_cong)
  have pok: "pair_ok p" using ok eq(1,2) ab p0(8,11,12) pos by (auto simp: pair_ok_def p p0(5))
  have hop: "hop_pool st' d a b = Some p"
    using hop_pool_after [of st d a b "the (hop_pool st d a b)" p] dex eq new assms(2) st'(3)
      pairs_cong(3) [of st' "SaveTradingPair p st"] by (cases "hop_pool st d a b") auto
  have "kv_get (sw_pairs st) (DexID p, TokenB p, TokenA p) = None"
  proof (cases "hop_pool st d a b")
    case None
    then show ?thesis using dex eq assms(3) by (simp add: oriented_def)
  next
    case (Some q)
    then show ?thesis
      using pairs_wfD(3) [OF assms(2) hop_pool_Some(1) [OF assms(2) Some]] old [OF Some] dex eq by simp
  qed
  then have wf: "pairs_wf st'"
    using pairs_wf_insert [OF assms(2) pok] pairs_cong(1) [of st' "SaveTradingPair p st"] st'(3) by simp
  have bal: "GetBalance (swap_bank st') y s = GetBalance (swap_bank st) y s -
       (if y = from then (if s = a then nA else 0) + (if s = b then nB else 0) else 0)" for y s
    using SubCoins_get [OF sub] coins(3) pos st'(1) by simp
  have liq: "GetLiquidity st' y e u v = GetLiquidity st y e u v + (if (y, e, u, v) = (from, DexID p, a, b) then l else 0)" for y e u v
    unfolding GetLiquidity_def st'(4) using eq(1,2) by (simp add: GetLiquidity_def)
  have bank: "holds (swap_bank st') = holds (swap_bank st)" "bank_wf (swap_bank st) \<Longrightarrow> bank_wf (swap_bank st')"
    "free_total (swap_bank st') s = free_total (swap_bank st) s - ((if s = a then nA else 0) + (if s = b then nB else 0))" for s
    using SubCoins_Inr(1) [OF sub, of s] SubCoins_Inr(2) [OF sub] SubCoins_covered(3) [OF sub] coins(3) pos by (simp_all add: st'(1))
  have key: "kv_get (sw_pairs st) (pair_key p) = hop_pool st d a b"
  proof (cases "hop_pool st d a b")
    case None
    then have "GetTradingPair st 0 a b = None"
      using new by (cases "GetTradingPair st d a b") (auto simp: hop_pool_def split: if_split_asm)
    then show ?thesis using None dex eq by (simp add: pair_key_def GetTradingPair_def split: option.split_asm)
  next
    case (Some q)
    then show ?thesis using hop_pool_Some(1) [OF assms(2) Some] old [OF Some] dex eq by (simp add: pair_key_def)
  qed
  show ?thesis
    by (rule that [OF pos(1) p0(6) pos(2) p0(7) pos(3) ab refl p0(8) eq(1-5) pok p0(9,10) st'(3) hop wf bal liq
          st'(2,5,6) bank key st'(4) [unfolded eq(1,2)] rates])
qed

lemma mulAndDiv_pos:
  assumes "mulAndDiv a b c = Some r" and "0 < r" and "0 \<le> b" and "0 < c"
  shows "0 < a"
proof (rule ccontr)
  assume "\<not> 0 < a"
  then have "0 \<le> - a * b" using assms(3) by (intro mult_nonneg_nonneg) auto
  moreover have "r = - big_Quo (- a * b) c" using assms(1) by (simp add: mulAndDiv_Some big_Quo_minus)
  ultimately show False using assms(2,4) pos_imp_zdiv_nonneg_iff [OF assms(4), of "- a * b"]
    by (simp add: big_Quo_nonneg)
qed

lemma share_le: "l \<le> t \<Longrightarrow> 0 \<le> x \<Longrightarrow> 0 < t \<Longrightarrow> l * x div t \<le> x" for l t x :: int
  using zdiv_mono1 [of "l * x" "t * x" t] by (simp add: mult_right_mono)

lemma RemoveLiquidity_effect:
  assumes "RemoveLiquidity from d a b l st = Some (Inr flows, st')" and "pairs_wf st" and "oriented st d a b"
  obtains q p rA rB where "hop_pool st d a b = Some q" and "0 < l" and "l \<le> TotalLiquidity q"
    and "l \<le> GetLiquidity st from (DexID q) a b" and "a \<noteq> b" and "0 < rA" and "0 < rB"
    and "rA = l * TokenAAmount q div TotalLiquidity q" and "rB = l * TokenBAmount q div TotalLiquidity q"
    and "TokenA p = a" and "TokenB p = b" and "DexID p = DexID q" and "pair_ok p"
    and "TokenAAmount p = TokenAAmount q - rA" and "TokenBAmount p = TokenBAmount q - rB"
    and "TotalLiquidity p = TotalLiquidity q - l"
    and "sw_pairs st' = kv_set (pair_key p) p (sw_pairs st)" and "hop_pool st' d a b = Some p" and "pairs_wf st'"
    and "\<And>y s. GetBalance (swap_bank st') y s = GetBalance (swap_bank st) y s +
       (if y = from then (if s = a then rA else 0) + (if s = b then rB else 0) else 0)"
    and "\<And>y e u v. GetLiquidity st' y e u v = GetLiquidity st y e u v - (if (y, e, u, v) = (from, DexID q, a, b) then l else 0)"
    and "sw_params st' = sw_params st" and "sw_repurchase st' = sw_repurchase st" and "sw_orders st' = sw_orders st"
    and "holds (swap_bank st') = holds (swap_bank st)" and "bank_wf (swap_bank st) \<Longrightarrow> bank_wf (swap_bank st')"
    and "\<And>s. free_total (swap_bank st') s = free_total (swap_bank st) s + ((if s = a then rA else 0) + (if s = b then rB else 0))"
    and "kv_get (sw_pairs st) (pair_key p) = Some q"
    and "sw_liquidity st' = kv_set (from, DexID q, a, b) (GetLiquidity st from (DexID q) a b - l) (sw_liquidity st)"
    and "rates_from (Some q) p"
proof -
  obtain q rA rB paid r b1 p where q: "hop_pool st d a b = Some q"
    and l: "l \<le> GetLiquidity st from (DexID q) (TokenA q) (TokenB q)" "l \<le> TotalLiquidity q"
    and mA: "mulAndDiv l (TokenAAmount q) (TotalLiquidity q) = Some rA"
    and mB: "mulAndDiv l (TokenBAmount q) (TotalLiquidity q) = Some rB" and pos: "0 < rA" "0 < rB"
    and paid: "NewCoins [\<lparr>Denom = a, Amount = rA\<rparr>, \<lparr>Denom = b, Amount = rB\<rparr>] = Some paid"
    and add: "AddCoins from paid (swap_bank st) = Some (Inr r, b1)"
    and p: "p = q\<lparr>TokenAAmount := TokenAAmount q - rA, TokenBAmount := TokenBAmount q - rB,
       TotalLiquidity := TotalLiquidity q - l\<rparr>"
    and ok: "int_ok (TokenAAmount p)" "int_ok (TokenBAmount p)" "int_ok (TotalLiquidity p)"
    and st': "swap_bank st' = b1" "sw_params st' = sw_params st" "sw_pairs st' = kv_set (pair_key p) p (sw_pairs st)"
     "sw_liquidity st' = kv_set (from, DexID p, a, b)
       (GetLiquidity st from (DexID p) (TokenA p) (TokenB p) - l) (sw_liquidity st)"
     "sw_repurchase st' = sw_repurchase st" "sw_orders st' = sw_orders st"
    using assms(1) by (rule RemoveLiquidity_cases)
  have tok: "TokenA q = a" "TokenB q = b" using oriented_pool [OF assms(2,3) q] .
  have qok: "pair_ok q" using hop_pool_Some(2) [OF assms(2) q] .
  then have q0: "0 \<le> TokenAAmount q" "0 \<le> TokenBAmount q" "0 < TotalLiquidity q"
    using mA by (auto simp: pair_ok_def mulAndDiv_Some)
  have lpos: "0 < l" using mulAndDiv_pos [OF mA pos(1) q0(1,3)] .
  have rA: "rA = l * TokenAAmount q div TotalLiquidity q" and rB: "rB = l * TokenBAmount q div TotalLiquidity q"
    using mulAndDiv_nonneg [OF mA] mulAndDiv_nonneg [OF mB] lpos q0 by simp_all
  have le: "rA \<le> TokenAAmount q" "rB \<le> TokenBAmount q"
    using share_le [OF l(2) q0(1,3)] share_le [OF l(2) q0(2,3)] by (simp_all only: rA rB)
  have eq: "TokenA p = a" "TokenB p = b" "DexID p = DexID q" "IsPublic p = IsPublic q"
    "TokenAAmount p = TokenAAmount q - rA" "TokenBAmount p = TokenBAmount q - rB" "TotalLiquidity p = TotalLiquidity q - l"
    using tok by (simp_all add: p)
  have rates: "rates_from (Some q) p" by (simp add: rates_from_def p)
  have pok: "pair_ok p" using qok ok le l(2) by (simp add: pair_ok_def p)
  have hop: "hop_pool st' d a b = Some p"
    using hop_pool_after [of st d a b q p] q eq assms(2) st'(3) pairs_cong(3) [of st' "SaveTradingPair p st"] by simp
  have wf: "pairs_wf st'"
    using pairs_wf_insert [OF assms(2) pok] pairs_wfD(3) [OF assms(2) hop_pool_Some(1) [OF assms(2) q]] eq tok
      pairs_cong(1) [of st' "SaveTradingPair p st"] st'(3) by simp
  note coins = NewCoins_two [OF paid]
  have bal: "GetBalance (swap_bank st') y s = GetBalance (swap_bank st) y s +
       (if y = from then (if s = a then rA else 0) + (if s = b then rB else 0) else 0)" for y s
    using AddCoins_get(1) [OF add] coins(3) pos st'(1) by simp
  have liq: "GetLiquidity st' y e u v = GetLiquidity st y e u v - (if (y, e, u, v) = (from, DexID q, a, b) then l else 0)" for y e u v
    unfolding GetLiquidity_def st'(4) using eq(1-3) by (simp add: GetLiquidity_def)
  have ab: "a \<noteq> b" using coins(1) pos by simp
  have bank: "holds (swap_bank st') = holds (swap_bank st)" "bank_wf (swap_bank st) \<Longrightarrow> bank_wf (swap_bank st')"
    "free_total (swap_bank st') s = free_total (swap_bank st) s + ((if s = a then rA else 0) + (if s = b then rB else 0))" for s
    using AddCoins_Inr(1) [OF add, of s] AddCoins_Inr(2) [OF add] AddCoins_get(3) [OF add] coins(3) pos by (simp_all add: st'(1))
  have key: "kv_get (sw_pairs st) (pair_key p) = Some q"
    using hop_pool_Some(1) [OF assms(2) q] eq tok by (simp add: pair_key_def)
  show ?thesis
    by (rule that [OF q lpos l(2) l(1) [unfolded tok] ab pos rA rB eq(1-3) pok eq(5-7) st'(3) hop wf bal liq
          st'(2,5,6) bank key st'(4) [unfolded eq(1-3)] rates])
qed

text \<open>
  C35. Adding liquidity is fair to the others: when \<open>AddLiquidity\<close> succeeds it takes positive amounts
  within the sender's two limits, exactly these amounts arrive in the pool, the sender receives
  exactly the new shares, nobody else's balance changes, and a share of the pool is worth at least as
  much of either token as before.
\<close>

theorem AddLiquidity_fair:
  assumes "AddLiquidity from d a b mA mB st = Some (Inr flows, st')"
    and "pairs_wf st" and "oriented st d a b" and "\<forall>q. hop_pool st d a b = Some q \<longrightarrow> pool_ok q"
    and "0 < MinimumLiquidity (sw_params st)"
  shows "\<exists>nA nB l p. 0 < nA \<and> nA \<le> mA \<and> 0 < nB \<and> nB \<le> mB \<and> 0 < l \<and> hop_pool st' d a b = Some p \<and>
    TokenAAmount p = pool_A (hop_pool st d a b) + nA \<and> TokenBAmount p = pool_B (hop_pool st d a b) + nB \<and>
    (\<forall>y s. GetBalance (swap_bank st') y s = GetBalance (swap_bank st) y s -
       (if y = from then (if s = a then nA else 0) + (if s = b then nB else 0) else 0)) \<and>
    GetLiquidity st' from (DexID p) a b = GetLiquidity st from (DexID p) a b + l \<and>
    pool_A (hop_pool st d a b) * TotalLiquidity p \<le> TokenAAmount p * pool_L (hop_pool st d a b) \<and>
    pool_B (hop_pool st d a b) * TotalLiquidity p \<le> TokenBAmount p * pool_L (hop_pool st d a b) \<and> pool_ok p"
proof -
  obtain nA nB l p L0 where pos: "0 < nA" "nA \<le> mA" "0 < nB" "nB \<le> mB" "0 < l"
    and L0: "L0 = (if pool_L (hop_pool st d a b) = 0 then MinimumLiquidity (sw_params st) else pool_L (hop_pool st d a b))"
      "0 < L0"
    and p: "TokenAAmount p = pool_A (hop_pool st d a b) + nA" "TokenBAmount p = pool_B (hop_pool st d a b) + nB"
      "TotalLiquidity p = L0 + l" "pair_ok p"
    and worth: "l * pool_A (hop_pool st d a b) \<le> nA * L0" "l * pool_B (hop_pool st d a b) \<le> nB * L0"
    and st': "hop_pool st' d a b = Some p"
    and bal: "\<And>y s. GetBalance (swap_bank st') y s = GetBalance (swap_bank st) y s -
       (if y = from then (if s = a then nA else 0) + (if s = b then nB else 0) else 0)"
    and liq: "\<And>y e u v. GetLiquidity st' y e u v =
       GetLiquidity st y e u v + (if (y, e, u, v) = (from, DexID p, a, b) then l else 0)"
    by (rule AddLiquidity_effect [OF assms(1-3) _ assms(5)]) (use assms(4) in blast)+
  have old: "0 \<le> pool_A (hop_pool st d a b)" "0 \<le> pool_B (hop_pool st d a b)"
    "pool_L (hop_pool st d a b) = 0 \<Longrightarrow> pool_A (hop_pool st d a b) = 0 \<and> pool_B (hop_pool st d a b) = 0"
    using hop_pool_Some(2) [OF assms(2)] assms(4)
    by (auto simp: pool_A_def pool_B_def pool_L_def pair_ok_def pool_ok_def split: option.splits)
  have "pool_A (hop_pool st d a b) * TotalLiquidity p \<le> TokenAAmount p * pool_L (hop_pool st d a b)"
    "pool_B (hop_pool st d a b) * TotalLiquidity p \<le> TokenBAmount p * pool_L (hop_pool st d a b)"
    using worth old(3) L0 p(1-3) by (auto simp: algebra_simps split: if_splits)
  moreover have "pool_ok p" using p(1-3) old pos L0(2) by (simp add: pool_ok_def)
  moreover have "GetLiquidity st' from (DexID p) a b = GetLiquidity st from (DexID p) a b + l" using liq by simp
  ultimately show ?thesis using pos st' p(1,2) bal by blast
qed

text \<open>
  C36. Removing liquidity pays the provider the exact share of both reserves, rounded down, and never
  more than its shares are worth: a share of what remains is worth at least as much of either token
  as before.
\<close>

theorem RemoveLiquidity_fair:
  assumes "RemoveLiquidity from d a b l st = Some (Inr flows, st')" and "pairs_wf st" and "oriented st d a b"
  shows "\<exists>q p. hop_pool st d a b = Some q \<and> hop_pool st' d a b = Some p \<and> 0 < l \<and>
    l \<le> GetLiquidity st from (DexID q) a b \<and>
    TotalLiquidity p = TotalLiquidity q - l \<and>
    (\<forall>y s. GetBalance (swap_bank st') y s = GetBalance (swap_bank st) y s +
       (if y = from then (if s = a then l * TokenAAmount q div TotalLiquidity q else 0) +
          (if s = b then l * TokenBAmount q div TotalLiquidity q else 0) else 0)) \<and>
    TokenAAmount q * TotalLiquidity p \<le> TokenAAmount p * TotalLiquidity q \<and>
    TokenBAmount q * TotalLiquidity p \<le> TokenBAmount p * TotalLiquidity q"
proof -
  obtain q p rA rB where q: "hop_pool st d a b = Some q" and l: "0 < l" "l \<le> TotalLiquidity q"
      "l \<le> GetLiquidity st from (DexID q) a b"
    and r: "rA = l * TokenAAmount q div TotalLiquidity q" "rB = l * TokenBAmount q div TotalLiquidity q"
    and p: "TokenAAmount p = TokenAAmount q - rA" "TokenBAmount p = TokenBAmount q - rB"
      "TotalLiquidity p = TotalLiquidity q - l" and st': "hop_pool st' d a b = Some p"
    and bal: "\<And>y s. GetBalance (swap_bank st') y s = GetBalance (swap_bank st) y s +
       (if y = from then (if s = a then rA else 0) + (if s = b then rB else 0) else 0)"
    by (rule RemoveLiquidity_effect [OF assms]) blast
  have "rA * TotalLiquidity q \<le> l * TokenAAmount q" "rB * TotalLiquidity q \<le> l * TokenBAmount q"
    using l by (simp_all add: r div_mult_le_int)
  then have "TokenAAmount q * TotalLiquidity p \<le> TokenAAmount p * TotalLiquidity q"
    "TokenBAmount q * TotalLiquidity p \<le> TokenBAmount p * TotalLiquidity q"
    by (simp_all add: p algebra_simps)
  then show ?thesis using q st' l p(3) bal [unfolded r] by blast
qed

text \<open>
  C37. Adding liquidity and then removing any part of the shares received never leaves the provider
  with more of any token than before, whatever the rounding.
\<close>

theorem liquidity_no_profit:
  assumes "AddLiquidity from d a b mA mB st = Some (Inr flows, st1)"
    and "RemoveLiquidity from d a b l st1 = Some (Inr flows', st2)"
    and "pairs_wf st" and "oriented st d a b" and "oriented st1 d a b"
    and "\<forall>q. hop_pool st d a b = Some q \<longrightarrow> pool_ok q" and "0 < MinimumLiquidity (sw_params st)"
    and "\<forall>p. hop_pool st1 d a b = Some p \<longrightarrow>
      l \<le> GetLiquidity st1 from (DexID p) a b - GetLiquidity st from (DexID p) a b"
  shows "GetBalance (swap_bank st2) from s \<le> GetBalance (swap_bank st) from s"
proof -
  obtain nA nB n p L0 where pos: "0 < nA" "0 < nB" "0 < n" and ab: "a \<noteq> b" and L0: "0 < L0"
    and p: "TokenAAmount p = pool_A (hop_pool st d a b) + nA" "TokenBAmount p = pool_B (hop_pool st d a b) + nB"
      "TotalLiquidity p = L0 + n"
    and worth: "n * pool_A (hop_pool st d a b) \<le> nA * L0" "n * pool_B (hop_pool st d a b) \<le> nB * L0"
    and st1: "hop_pool st1 d a b = Some p" "pairs_wf st1"
    and bal1: "\<And>y s. GetBalance (swap_bank st1) y s = GetBalance (swap_bank st) y s -
       (if y = from then (if s = a then nA else 0) + (if s = b then nB else 0) else 0)"
    and liq: "\<And>y e u v. GetLiquidity st1 y e u v =
       GetLiquidity st y e u v + (if (y, e, u, v) = (from, DexID p, a, b) then n else 0)"
    by (rule AddLiquidity_effect [OF assms(1,3,4) _ assms(7)]) (use assms(6) in blast)+
  obtain rA rB where r: "rA = l * TokenAAmount p div TotalLiquidity p" "rB = l * TokenBAmount p div TotalLiquidity p"
    and bal2: "\<And>y s. GetBalance (swap_bank st2) y s = GetBalance (swap_bank st1) y s +
       (if y = from then (if s = a then rA else 0) + (if s = b then rB else 0) else 0)"
    by (rule RemoveLiquidity_effect [OF assms(2) st1(2) assms(5)]) (use st1(1) in auto)
  have ln: "l \<le> n" using assms(8) st1(1) liq by simp
  have worth_le: "l * (x + m) div (L0 + n) \<le> m" if "n * x \<le> m * L0" "0 \<le> x + m" for x m
  proof -
    have "l * (x + m) \<le> n * (x + m)" using ln that(2) by (rule mult_right_mono)
    also have "\<dots> \<le> m * (L0 + n)" using that(1) by (simp add: algebra_simps)
    finally have "l * (x + m) div (L0 + n) \<le> m * (L0 + n) div (L0 + n)"
      using L0 pos(3) by (intro zdiv_mono1) auto
    then show ?thesis using L0 pos(3) by simp
  qed
  have "0 \<le> TokenAAmount p" "0 \<le> TokenBAmount p"
    using hop_pool_Some(2) [OF st1(2,1)] by (simp_all add: pair_ok_def)
  then have "rA \<le> nA" "rB \<le> nB" using worth_le worth by (simp_all add: r p)
  then show ?thesis using bal1 [of "from" s] bal2 [of "from" s] ab by auto
qed

text \<open>Concrete instances: the sample pool, with a provider that owns both tokens.\<close>

definition provider_state :: swap_state where
  "provider_state = with_bank \<lparr>balances = kv_set (''alice'', ''hbc'') 70000 (kv_set (''alice'', ''usdt'') 90000 kv_empty),
     holds = kv_empty\<rparr> sample_swap_state"

lemmas provider_eval = provider_state_def with_bank_def sample_eval hop_pool_def oriented_def pool_ok_def pair_key_def

lemma provider_ok:
  "pairs_wf provider_state" "oriented provider_state 0 ''hbc'' ''usdt''" "0 < MinimumLiquidity (sw_params provider_state)"
  "hop_pool provider_state 0 ''hbc'' ''usdt'' = Some sample_pair" "pool_ok sample_pair"
  using sample_pairs_wf(1)
  by (simp_all add: provider_state_def sample_values oriented_def hop_pool_def GetTradingPair_def go_eval pool_ok_def)

theorem AddLiquidity_fair_witness:
  "\<exists>flows st' p. AddLiquidity ''alice'' 0 ''hbc'' ''usdt'' 1000 5000 provider_state = Some (Inr flows, st') \<and>
     hop_pool st' 0 ''hbc'' ''usdt'' = Some p \<and> 100000 * TotalLiquidity p \<le> TokenAAmount p * 1400"
proof -
  obtain flows st' where r: "AddLiquidity ''alice'' 0 ''hbc'' ''usdt'' 1000 5000 provider_state = Some (Inr flows, st')"
    by (simp add: provider_eval go_eval cong: go_congs)
  show ?thesis
    using r AddLiquidity_fair [OF r provider_ok(1,2) _ provider_ok(3)] provider_ok(4,5)
    by (auto simp: pool_A_def pool_L_def sample_values)
qed

theorem liquidity_no_profit_witness:
  "\<exists>flows st1 flows' st2. AddLiquidity ''alice'' 0 ''hbc'' ''usdt'' 1000 5000 provider_state = Some (Inr flows, st1) \<and>
     RemoveLiquidity ''alice'' 0 ''hbc'' ''usdt'' 14 st1 = Some (Inr flows', st2) \<and>
     GetBalance (swap_bank st2) ''alice'' ''hbc'' \<le> GetBalance (swap_bank provider_state) ''alice'' ''hbc''"
proof -
  obtain flows st1 flows' st2 where
    r: "AddLiquidity ''alice'' 0 ''hbc'' ''usdt'' 1000 5000 provider_state = Some (Inr flows, st1)"
      "RemoveLiquidity ''alice'' 0 ''hbc'' ''usdt'' 14 st1 = Some (Inr flows', st2)"
    and o1: "oriented st1 0 ''hbc'' ''usdt''"
    and l: "\<forall>p. hop_pool st1 0 ''hbc'' ''usdt'' = Some p \<longrightarrow>
      14 \<le> GetLiquidity st1 ''alice'' (DexID p) ''hbc'' ''usdt'' - GetLiquidity provider_state ''alice'' (DexID p) ''hbc'' ''usdt''"
    by (simp add: provider_eval go_eval cong: go_congs)
  show ?thesis
    using r liquidity_no_profit [OF r provider_ok(1,2) o1 _ provider_ok(3) l] provider_ok(4,5) by auto
qed

theorem RemoveLiquidity_fair_witness:
  "\<exists>flows st1 flows' st2 p q. AddLiquidity ''alice'' 0 ''hbc'' ''usdt'' 1000 5000 provider_state = Some (Inr flows, st1) \<and>
     RemoveLiquidity ''alice'' 0 ''hbc'' ''usdt'' 14 st1 = Some (Inr flows', st2) \<and>
     hop_pool st1 0 ''hbc'' ''usdt'' = Some q \<and> hop_pool st2 0 ''hbc'' ''usdt'' = Some p \<and>
     TokenAAmount q * TotalLiquidity p \<le> TokenAAmount p * TotalLiquidity q"
proof -
  obtain flows st1 flows' st2 where
    r: "AddLiquidity ''alice'' 0 ''hbc'' ''usdt'' 1000 5000 provider_state = Some (Inr flows, st1)"
      "RemoveLiquidity ''alice'' 0 ''hbc'' ''usdt'' 14 st1 = Some (Inr flows', st2)"
    and o1: "oriented st1 0 ''hbc'' ''usdt''"
    by (simp add: provider_eval go_eval cong: go_congs)
  have "pairs_wf st1"
    by (rule AddLiquidity_effect [OF r(1) provider_ok(1,2) _ provider_ok(3)]) (use provider_ok(4,5) in auto)
  then show ?thesis using r RemoveLiquidity_fair [OF r(2) _ o1] by blast
qed

end
