(* ===== verification/SwapConserve.thy ===== *)
theory SwapConserve
  imports SwapPoolFacts
begin

text \<open>
  Conservation: for every token, what the accounts hold, what the pools hold and what is set aside
  for repurchase add up to the same total before and after a trade or a change of liquidity.
\<close>

section \<open>The total of a token\<close>

definition reserve :: "Symbol \<Rightarrow> TradingPair \<Rightarrow> int" where
  "reserve s p = (if TokenA p = s then TokenAAmount p else 0) + (if TokenB p = s then TokenBAmount p else 0)"

definition pool_total :: "swap_state \<Rightarrow> Symbol \<Rightarrow> int" where
  "pool_total st s = kv_sum (\<lambda>_ p. reserve s p) (sw_pairs st)"

definition swap_total :: "swap_state \<Rightarrow> Symbol \<Rightarrow> int" where
  "swap_total st s = bank_total (swap_bank st) s + pool_total st s + getRepurchaseFund st s"

lemma pool_total_save:
  assumes "sw_pairs st' = kv_set (pair_key p) p (sw_pairs st)"
  shows "pool_total st' s = pool_total st s -
     (case kv_get (sw_pairs st) (pair_key p) of None \<Rightarrow> 0 | Some q \<Rightarrow> reserve s q) + reserve s p"
  by (simp add: pool_total_def assms weight_def cong: option.case_cong)

lemma bank_total_split: "bank_total b s = free_total b s + hold_total b s"
  by (simp add: bank_total_def)

lemma bank_total_holds: "holds b' = holds b \<Longrightarrow> bank_total b' s = bank_total b s + (free_total b' s - free_total b s)"
  by (simp add: bank_total_def hold_total_def)

section \<open>Liquidity\<close>

lemma AddLiquidity_conserves:
  assumes "AddLiquidity from d a b mA mB st = Some (Inr flows, st')"
    and "pairs_wf st" and "oriented st d a b" and "\<And>q. hop_pool st d a b = Some q \<Longrightarrow> pool_ok q"
    and "0 < MinimumLiquidity (sw_params st)"
  shows "swap_total st' s = swap_total st s"
proof (rule AddLiquidity_effect [OF assms])
  fix nA nB l p L0
  assume p: "TokenA p = a" "TokenB p = b" "TokenAAmount p = pool_A (hop_pool st d a b) + nA"
      "TokenBAmount p = pool_B (hop_pool st d a b) + nB"
    and st': "sw_pairs st' = kv_set (pair_key p) p (sw_pairs st)" "sw_repurchase st' = sw_repurchase st"
      "holds (swap_bank st') = holds (swap_bank st)"
    and free: "\<And>s. free_total (swap_bank st') s =
      free_total (swap_bank st) s - ((if s = a then nA else 0) + (if s = b then nB else 0))"
    and key: "kv_get (sw_pairs st) (pair_key p) = hop_pool st d a b"
  have "reserve s p = (case hop_pool st d a b of None \<Rightarrow> 0 | Some q \<Rightarrow> reserve s q) +
      ((if s = a then nA else 0) + (if s = b then nB else 0))"
    using oriented_pool [OF assms(2,3)] p
    by (auto simp: reserve_def pool_A_def pool_B_def split: option.split)
  then show ?thesis
    using pool_total_save [OF st'(1), of s] bank_total_holds [OF st'(3), of s] free [of s] st'(2)
    by (simp add: swap_total_def key getRepurchaseFund_def)
qed

lemma RemoveLiquidity_conserves:
  assumes "RemoveLiquidity from d a b l st = Some (Inr flows, st')" and "pairs_wf st" and "oriented st d a b"
  shows "swap_total st' s = swap_total st s"
proof (rule RemoveLiquidity_effect [OF assms])
  fix q p rA rB
  assume q: "hop_pool st d a b = Some q"
    and p: "TokenA p = a" "TokenB p = b" "TokenAAmount p = TokenAAmount q - rA" "TokenBAmount p = TokenBAmount q - rB"
    and st': "sw_pairs st' = kv_set (pair_key p) p (sw_pairs st)" "sw_repurchase st' = sw_repurchase st"
      "holds (swap_bank st') = holds (swap_bank st)"
    and free: "\<And>s. free_total (swap_bank st') s =
      free_total (swap_bank st) s + ((if s = a then rA else 0) + (if s = b then rB else 0))"
    and key: "kv_get (sw_pairs st) (pair_key p) = Some q"
  have "reserve s p = reserve s q - ((if s = a then rA else 0) + (if s = b then rB else 0))"
    using oriented_pool [OF assms(2,3) q] p by (auto simp: reserve_def)
  then show ?thesis
    using pool_total_save [OF st'(1), of s] bank_total_holds [OF st'(3), of s] free [of s] st'(2)
    by (simp add: swap_total_def key getRepurchaseFund_def)
qed

section \<open>Trades\<close>

lemma swap_pool_total:
  assumes "swap fr q t x isRep st = Some ((out, bonus, fund, q'), st1)"
    and "TokenA q \<noteq> TokenB q" and "(TokenA q = t \<and> TokenB q = t') \<or> (TokenA q = t' \<and> TokenB q = t)"
    and "kv_get (sw_pairs st) (pair_key q) = Some q"
  shows "pool_total st1 s = pool_total st s + (if s = t then x - bonus - fund else 0) - (if s = t' then out else 0)"
proof -
  obtain l r where r: "r = x - l - bonus - fund"
    and q': "res_in q' t = res_in q t + r + l" "res_out q' t = res_out q t - out" "same_pair q q'"
      "st1 = SaveTradingPair q' st"
    using assms(1) by (rule swap_cases)
  have "sw_pairs st1 = kv_set (pair_key q') q' (sw_pairs st)" by (simp add: q'(4))
  from pool_total_save [OF this, of s]
  have "pool_total st1 s = pool_total st s - reserve s q + reserve s q'"
    using assms(4) same_pair_key [OF q'(3)] by simp
  moreover have "reserve s q' - reserve s q = (if s = t then x - bonus - fund else 0) - (if s = t' then out else 0)"
    using assms(2,3) q'(1-3) r by (auto simp: reserve_def res_in_def res_out_def same_pair_def split: if_splits)
  ultimately show ?thesis by linarith
qed

definition coins_ok :: "Coins \<Rightarrow> bool" where
  "coins_ok cs = (Coins_IsValid cs \<and> denoms_valid cs)"

lemma add_positive_amount:
  assumes "add_positive a n cs = Some cs'" and "0 \<le> n" and "coins_ok cs"
  shows "coins_ok cs'" "amount_of cs' s = amount_of cs s + (if s = a then n else 0)"
proof -
  have "coins_ok cs' \<and> amount_of cs' s = amount_of cs s + (if s = a then n else 0)"
  proof (cases "0 < n")
    case True
    then have add: "Coins_Add cs [\<lparr>Denom = a, Amount = n\<rparr>] = Some cs'" and v: "validateDenom a"
      using assms(1) by (auto simp: add_positive_def bind_Some_iff NewCoin_Some NewCoins_single split: if_splits)
    have d: "denoms_valid [\<lparr>Denom = a, Amount = n\<rparr>]" using v by (simp add: denoms_valid_def)
    have c: "Coins_IsValid [\<lparr>Denom = a, Amount = n\<rparr>]" using d True by (intro Coins_IsValid_intro) simp_all
    have ok: "Coins_IsValid cs" "denoms_valid cs" using assms(3) by (simp_all add: coins_ok_def)
    from Coins_Add_valid [OF ok(1) c ok(2) d add] show ?thesis by (auto simp: coins_ok_def)
  next
    case False
    then show ?thesis using assms by (simp add: add_positive_def)
  qed
  then show "coins_ok cs'" "amount_of cs' s = amount_of cs s + (if s = a then n else 0)" by simp_all
qed

lemma swap_path_total:
  "swap_path d path x bc rf st = Some ((out, bc', rf'), st') \<Longrightarrow> path \<noteq> [] \<Longrightarrow> pairs_wf st \<Longrightarrow> rates_ok st \<Longrightarrow>
   0 \<le> x \<Longrightarrow> coins_ok bc \<Longrightarrow> coins_ok rf \<Longrightarrow>
   coins_ok bc' \<and> coins_ok rf' \<and>
   pool_total st' s + amount_of bc' s + amount_of rf' s + (if s = last path then out else 0) =
   pool_total st s + amount_of bc s + amount_of rf s + (if s = hd path then x else 0)"
proof (induction path arbitrary: x bc rf st rule: hops.induct)
  case (1 a b path)
  obtain p q out1 bonus fund q' st1 bc1 rf1 where
    p: "GetTradingPair st d a b = Some p" and q: "hop_pool st d a b = Some q"
    and sw: "swap (getFeeRates st p) q a x False st = Some ((out1, bonus, fund, q'), st1)"
    and bc: "add_positive a bonus bc = Some bc1" and rf: "add_positive a fund rf = Some rf1"
    and rest: "swap_path d (b # path) out1 bc1 rf1 st1 = Some ((out, bc', rf'), st')"
    using "1.prems"(1) by (rule swap_path_hop)
  have fees: "fees_ok (getFeeRates st p)"
    using rates_okD [OF "1.prems"(4) GetTradingPair_Some(1) [OF "1.prems"(3) p]] .
  note Q = hop_pool_Some [OF "1.prems"(3) q]
  note keep = swap_keeps [OF sw "1.prems"(3,4) Q(1) fees "1.prems"(5)]
  note bc1 = add_positive_amount [OF bc keep(6) "1.prems"(6)]
  note rf1 = add_positive_amount [OF rf keep(7) "1.prems"(7)]
  have ne: "TokenA q \<noteq> TokenB q" using Q(2) by (simp add: pair_ok_def)
  note tot = swap_pool_total [OF sw ne Q(4) Q(1), of s]
  show ?case
    using "1.IH" [OF rest _ keep(1,2,5) bc1(1) rf1(1)] tot bc1(2) [of s] rf1(2) [of s] by auto
qed auto

lemma addRepurchaseFunds_get:
  "addRepurchaseFunds cs st = Some st' \<Longrightarrow> denoms_sorted cs \<Longrightarrow>
     getRepurchaseFund st' s = getRepurchaseFund st s + amount_of cs s"
proof (induction cs arbitrary: st)
  case (Cons c cs)
  let ?st = "st\<lparr>sw_repurchase := kv_set (Denom c) (Amount c + getRepurchaseFund st (Denom c)) (sw_repurchase st)\<rparr>"
  have "addRepurchaseFunds cs ?st = Some st'" using Cons.prems(1) by (auto simp: bind_Some_iff Int_Add_Some)
  then have "getRepurchaseFund st' s = getRepurchaseFund ?st s + amount_of cs s"
    using Cons.IH Cons.prems(2) by simp
  moreover have "amount_of cs (Denom c) = 0" using Cons.prems(2) amount_of_below [of cs "Denom c"] by simp
  ultimately show ?case by (auto simp: getRepurchaseFund_def)
qed simp

lemma directSwap_conserves:
  assumes "directSwap d from referer receiver x path st = Some (Inr flows, st')" and "pairs_wf st" and "rates_ok st"
  shows "swap_total st' s = swap_total st s" "pairs_wf st'" "rates_ok st'"
    "bank_wf (swap_bank st) \<Longrightarrow> bank_wf (swap_bank st')"
proof -
  obtain need c fl b1 out bc rf st2 b2 b3 where ne: "path \<noteq> []" and
    need: "NewCoin (hd path) x = Some need" and
    sub: "SubCoin from need (swap_bank st) = Some (Inr (c, fl), b1)" and
    sp: "swap_path d path x [] [] (with_bank b1 st) = Some ((out, bc, rf), st2)" and
    rcv: "if out > 0 then \<exists>o_coin r. NewCoin (last path) out = Some o_coin \<and>
        AddCoin receiver o_coin (swap_bank st2) = Some (Inr r, b2) else b2 = swap_bank st2" and
    ref: "if Coins_IsValid bc then \<exists>r. AddCoins referer bc b2 = Some (Inr r, b3) else b3 = b2" and
    rf: "addRepurchaseFunds rf (with_bank b3 st2) = Some st'"
    using assms(1) by (rule directSwap_cases)
  have n: "0 \<le> x" "need = \<lparr>Denom = hd path, Amount = x\<rparr>" using need by (simp_all add: NewCoin_Some)
  have keep: "pairs_wf st2" "rates_ok st2" "0 \<le> out" "swap_bank st2 = b1" "sw_repurchase st2 = sw_repurchase st"
    using swap_path_keeps [OF sp] assms(2,3) n(1) by simp_all
  have "coins_ok []" by (simp add: coins_ok_def Coins_IsValid_intro denoms_valid_def)
  then have bc: "Coins_IsValid bc" and rfok: "Coins_IsValid rf" and
    tot: "pool_total st2 s + amount_of bc s + amount_of rf s + (if s = last path then out else 0) =
      pool_total st s + (if s = hd path then x else 0)"
    using swap_path_total [OF sp ne, of s] assms(2,3) n(1) by (simp_all add: coins_ok_def pool_total_def)
  have 1: "free_total b1 s = free_total (swap_bank st) s - (if s = hd path then x else 0)" "holds b1 = holds (swap_bank st)"
    using sub_coin.op_part [OF sub, of s] sub_coin.op_other [OF sub] n(2) by auto
  have 2: "free_total b2 s = free_total b1 s + (if s = last path then out else 0)" "holds b2 = holds b1"
    using rcv keep(3,4) add_coin.op_part add_coin.op_other by (auto simp: NewCoin_Some split: if_splits)
  have 3: "free_total b3 s = free_total b2 s + amount_of bc s" "holds b3 = holds b2"
    using ref bc AddCoins_Inr by auto
  note fin = addRepurchaseFunds_keeps [OF rf]
  have st': "swap_bank st' = b3" "sw_pairs st' = sw_pairs st2" "sw_params st' = sw_params st2" using fin by simp_all
  have fund: "getRepurchaseFund st' s = getRepurchaseFund st s + amount_of rf s"
    using addRepurchaseFunds_get [OF rf Coins_IsValid_norm(1) [OF rfok], of s] keep(5)
    by (simp add: getRepurchaseFund_def)
  have "bank_total b3 s = bank_total (swap_bank st) s - (if s = hd path then x else 0) +
      (if s = last path then out else 0) + amount_of bc s"
    using 1 2 3 by (simp add: bank_total_def hold_total_def)
  then show "swap_total st' s = swap_total st s"
    using tot fund st' by (simp add: swap_total_def pool_total_def)
  show "pairs_wf st'" "rates_ok st'"
    using keep(1,2) pairs_cong(1) [OF st'(2)] rates_cong [OF st'(2,3)] by simp_all
  show "bank_wf (swap_bank st')" if "bank_wf (swap_bank st)"
  proof -
    have "bank_wf b1" using SubCoin_wf [OF sub that] .
    then have "bank_wf b2" using rcv keep(4) AddCoin_wf by (auto split: if_splits)
    then show ?thesis using ref bc AddCoins_get(3) st'(1) by auto
  qed
qed

end
