(* ===== verification/SwapOrderFacts.thy ===== *)
theory SwapOrderFacts
  imports SwapConserve SwapOrder
begin

text \<open>
  Limit orders: what one attempt to fill an order changes, that it pays for what it takes as long as
  the funds of the order are on hold, and that closing an order gives back exactly what is left.
\<close>

section \<open>The transfers of an order\<close>

lemma with_bank_self: "\<exists>b. st = with_bank b st"
  by (rule exI [of _ "swap_bank st"]) simp

lemma ignore_error_Some: "ignore_error z r = Some (x, st') \<Longrightarrow> \<exists>y. r = Some (y, st')"
  by (auto simp: ignore_error_def)

lemma coin_flow_Some:
  assumes "coin_flow f st = Some (fl, st')"
  obtains r b where "f (swap_bank st) = Some (r, b)" and "st' = with_bank b st"
  using assms unfolding coin_flow_def
  by (auto simp: bind_Some_iff transfer_Some dest!: ignore_error_Some split: prod.splits)

lemma coin_flow_add:
  assumes "coin_flow (AddCoin a c) st = Some (fl, st')" and "NewCoin d n = Some c"
  obtains c' fl' b where "AddCoin a c (swap_bank st) = Some (Inr (c', fl'), b)" and "st' = with_bank b st"
proof -
  obtain r b where r: "AddCoin a c (swap_bank st) = Some (r, b)" "st' = with_bank b st"
    using assms(1) by (rule coin_flow_Some)
  have "Coin_IsValid c" using assms(2) by (auto simp: NewCoin_Some Coin_IsValid_iff)
  then show ?thesis using r that coin_op_Inl(1) [of a c "swap_bank st" _ b] by (cases r) auto
qed

lemma coin_flow_sub_hold:
  assumes "coin_flow (SubCoinHold a c) st = Some (fl, st')" and "NewCoin d n = Some c"
    and "n \<le> GetHoldBalance (swap_bank st) a d"
  obtains c' fl' b where "SubCoinHold a c (swap_bank st) = Some (Inr (c', fl'), b)" and "st' = with_bank b st"
proof -
  obtain r b where r: "SubCoinHold a c (swap_bank st) = Some (r, b)" "st' = with_bank b st"
    using assms(1) by (rule coin_flow_Some)
  have "Coin_IsValid c" "c = \<lparr>Denom = d, Amount = n\<rparr>" using assms(2) by (auto simp: NewCoin_Some Coin_IsValid_iff)
  then show ?thesis using r that coin_op_Inl(4) [of a c "swap_bank st" _ b] assms(3) by (cases r) auto
qed

lemma addRepurchaseFunds_state: "addRepurchaseFunds cs st = Some st' \<Longrightarrow> \<exists>r. st' = st\<lparr>sw_repurchase := r\<rparr>"
proof (induction cs arbitrary: st)
  case Nil
  then have "st' = st\<lparr>sw_repurchase := sw_repurchase st\<rparr>" by simp
  then show ?case by blast
next
  case (Cons c cs)
  then show ?case by (fastforce simp: bind_Some_iff)
qed

text \<open>
  The payments of an attempt touch the bank and the repurchase funds only.  When the hold covers the
  input, everything that leaves the hold or the pool arrives somewhere.
\<close>

definition paid :: "int \<Rightarrow> Symbol \<Rightarrow> (Coin \<Rightarrow> bank \<Rightarrow> (Coin \<times> BalanceFlow, bank) outcome) \<Rightarrow>
    swap_state \<Rightarrow> swap_state \<Rightarrow> bool" where
  "paid n s f st st' = (if n > 0 then \<exists>c fl. NewCoin s n = Some c \<and> coin_flow (f c) st = Some (fl, st') else st' = st)"

lemma limit_payments_cases:
  assumes "limit_payments ord tin tout x out bonus fund st = Some (flows, st')"
  obtains st1 st2 st3 where "paid x tin (SubCoinHold (o_From ord)) st st1"
    and "paid out tout (AddCoin (o_Receiver ord)) st1 st2" and "paid bonus tin (AddCoin (o_Referer ord)) st2 st3"
    and "if fund > 0 then validateDenom tin \<and> addRepurchaseFunds [\<lparr>Denom = tin, Amount = fund\<rparr>] st3 = Some st' else st' = st3"
proof -
  obtain f1 st1 f2 st2 f3 st3 where
    1: "(if x > 0 then do { c \<leftarrow> NewCoin tin x; (flow, st) \<leftarrow> coin_flow (SubCoinHold (o_From ord) c) st; Some ([flow], st) }
       else Some ([], st)) = Some (f1, st1)" and
    2: "(if out > 0 then do { c \<leftarrow> NewCoin tout out; (flow, st) \<leftarrow> coin_flow (AddCoin (o_Receiver ord) c) st1; Some ([flow], st) }
       else Some ([], st1)) = Some (f2, st2)" and
    3: "(if bonus > 0 then do { c \<leftarrow> NewCoin tin bonus; (flow, st) \<leftarrow> coin_flow (AddCoin (o_Referer ord) c) st2; Some ([flow], st) }
       else Some ([], st2)) = Some (f3, st3)" and
    4: "(if fund > 0 then do { c \<leftarrow> NewCoin tin fund; cs \<leftarrow> NewCoins [c]; addRepurchaseFunds cs st3 } else Some st3) = Some st'"
    using assms unfolding limit_payments_def bind_Some_iff split_paired_Ex prod.case by blast
  show ?thesis
  proof (rule that)
    show "paid x tin (SubCoinHold (o_From ord)) st st1" using 1 by (auto simp: paid_def bind_Some_iff split: if_split_asm)
    show "paid out tout (AddCoin (o_Receiver ord)) st1 st2" using 2 by (auto simp: paid_def bind_Some_iff split: if_split_asm)
    show "paid bonus tin (AddCoin (o_Referer ord)) st2 st3" using 3 by (auto simp: paid_def bind_Some_iff split: if_split_asm)
    show "if fund > 0 then validateDenom tin \<and> addRepurchaseFunds [\<lparr>Denom = tin, Amount = fund\<rparr>] st3 = Some st' else st' = st3"
      using 4 by (auto simp: bind_Some_iff NewCoin_Some NewCoins_single split: if_split_asm)
  qed
qed

lemma paid_add:
  assumes "paid n s (AddCoin a) st st'" and "0 \<le> n"
  shows "\<exists>b. st' = with_bank b st" "holds (swap_bank st') = holds (swap_bank st)"
    "bank_total (swap_bank st') t = bank_total (swap_bank st) t + (if t = s then n else 0)"
    "bank_wf (swap_bank st) \<Longrightarrow> bank_wf (swap_bank st')"
proof -
  have "(\<exists>b. st' = with_bank b st) \<and> holds (swap_bank st') = holds (swap_bank st) \<and>
      bank_total (swap_bank st') t = bank_total (swap_bank st) t + (if t = s then n else 0) \<and>
      (bank_wf (swap_bank st) \<longrightarrow> bank_wf (swap_bank st'))"
  proof (cases "n > 0")
    case True
    then obtain c fl where c: "NewCoin s n = Some c" and fl: "coin_flow (AddCoin a c) st = Some (fl, st')"
      using assms(1) by (auto simp: paid_def)
    obtain c' fl' b where b: "AddCoin a c (swap_bank st) = Some (Inr (c', fl'), b)" "st' = with_bank b st"
      by (rule coin_flow_add [OF fl c])
    have "c = \<lparr>Denom = s, Amount = n\<rparr>" using c by (simp add: NewCoin_Some)
    then show ?thesis
      using b add_coin.op_other [OF b(1)] add_coin.op_part [OF b(1), of t] add_coin.op_wf [OF b(1)]
      by (auto simp: bank_total_def hold_total_def)
  next
    case False
    then have "st' = st" "n = 0" using assms by (auto simp: paid_def)
    then show ?thesis using with_bank_self by auto
  qed
  then show "\<exists>b. st' = with_bank b st" "holds (swap_bank st') = holds (swap_bank st)"
    "bank_total (swap_bank st') t = bank_total (swap_bank st) t + (if t = s then n else 0)"
    "bank_wf (swap_bank st) \<Longrightarrow> bank_wf (swap_bank st')" by blast+
qed

lemma paid_hold:
  assumes "paid n s (SubCoinHold a) st st'" and "0 \<le> n"
  shows "\<exists>b. st' = with_bank b st"
    "bank_wf (swap_bank st) \<Longrightarrow> bank_wf (swap_bank st')"
    "n \<le> GetHoldBalance (swap_bank st) a s \<Longrightarrow>
       bank_total (swap_bank st') t = bank_total (swap_bank st) t - (if t = s then n else 0)"
    "n \<le> GetHoldBalance (swap_bank st) a s \<Longrightarrow>
       GetHoldBalance (swap_bank st') y t = GetHoldBalance (swap_bank st) y t - (if y = a \<and> t = s then n else 0)"
proof -
  have "(\<exists>b. st' = with_bank b st) \<and> (bank_wf (swap_bank st) \<longrightarrow> bank_wf (swap_bank st')) \<and>
     (n \<le> GetHoldBalance (swap_bank st) a s \<longrightarrow>
       bank_total (swap_bank st') t = bank_total (swap_bank st) t - (if t = s then n else 0) \<and>
       GetHoldBalance (swap_bank st') y t = GetHoldBalance (swap_bank st) y t - (if y = a \<and> t = s then n else 0))"
  proof (cases "n > 0")
    case True
    then obtain c fl where c: "NewCoin s n = Some c" and fl: "coin_flow (SubCoinHold a c) st = Some (fl, st')"
      using assms(1) by (auto simp: paid_def)
    obtain r b where r: "SubCoinHold a c (swap_bank st) = Some (r, b)" "st' = with_bank b st"
      using fl by (rule coin_flow_Some)
    have cc: "c = \<lparr>Denom = s, Amount = n\<rparr>" using c by (simp add: NewCoin_Some)
    have "bank_total b t = bank_total (swap_bank st) t - (if t = s then n else 0) \<and>
       GetHoldBalance b y t = GetHoldBalance (swap_bank st) y t - (if y = a \<and> t = s then n else 0)"
      if "n \<le> GetHoldBalance (swap_bank st) a s"
    proof (rule coin_flow_sub_hold [OF fl c that])
      fix c' fl' b'
      assume o: "SubCoinHold a c (swap_bank st) = Some (Inr (c', fl'), b')"
      then have "b' = b" using r(1) by simp
      then show ?thesis
        using sub_hold.op_other [OF o] sub_hold.op_part [OF o, of t] sub_hold.op_get [OF o, of y t] cc
        by (auto simp: bank_total_def free_total_def)
    qed
    then show ?thesis using r sub_hold.op_wf [OF r(1)] by auto
  next
    case False
    then have "st' = st" "n = 0" using assms by (auto simp: paid_def)
    then show ?thesis using with_bank_self by auto
  qed
  then show "\<exists>b. st' = with_bank b st" "bank_wf (swap_bank st) \<Longrightarrow> bank_wf (swap_bank st')"
    "n \<le> GetHoldBalance (swap_bank st) a s \<Longrightarrow>
       bank_total (swap_bank st') t = bank_total (swap_bank st) t - (if t = s then n else 0)"
    "n \<le> GetHoldBalance (swap_bank st) a s \<Longrightarrow>
       GetHoldBalance (swap_bank st') y t = GetHoldBalance (swap_bank st) y t - (if y = a \<and> t = s then n else 0)"
    by blast+
qed

lemma GetHoldBalance_holds: "holds b' = holds b \<Longrightarrow> GetHoldBalance b' = GetHoldBalance b"
  by (simp add: GetHoldBalance_def fun_eq_iff)

lemma limit_payments_effect:
  assumes "limit_payments ord tin tout x out bonus fund st = Some (flows, st')"
    and "0 \<le> x" and "0 \<le> out" and "0 \<le> bonus" and "0 \<le> fund"
  obtains b r where "st' = (with_bank b st)\<lparr>sw_repurchase := r\<rparr>"
    and "bank_wf (swap_bank st) \<Longrightarrow> bank_wf b"
    and "\<And>s. getRepurchaseFund st' s = getRepurchaseFund st s + (if s = tin then fund else 0)"
    and "\<And>s. x \<le> GetHoldBalance (swap_bank st) (o_From ord) tin \<Longrightarrow>
      bank_total b s = bank_total (swap_bank st) s - (if s = tin then x - bonus else 0) + (if s = tout then out else 0)"
    and "\<And>y s. x \<le> GetHoldBalance (swap_bank st) (o_From ord) tin \<Longrightarrow>
      GetHoldBalance b y s = GetHoldBalance (swap_bank st) y s - (if y = o_From ord \<and> s = tin then x else 0)"
proof -
  obtain st1 st2 st3 where 1: "paid x tin (SubCoinHold (o_From ord)) st st1"
    and 2: "paid out tout (AddCoin (o_Receiver ord)) st1 st2" and 3: "paid bonus tin (AddCoin (o_Referer ord)) st2 st3"
    and 4: "if fund > 0 then validateDenom tin \<and> addRepurchaseFunds [\<lparr>Denom = tin, Amount = fund\<rparr>] st3 = Some st' else st' = st3"
    using assms(1) by (rule limit_payments_cases)
  note p1 = paid_hold [OF 1 assms(2)] and p2 = paid_add [OF 2 assms(3)] and p3 = paid_add [OF 3 assms(4)]
  obtain b where b: "st3 = with_bank b st" using p1(1) p2(1) p3(1) by auto
  have "\<exists>r. st' = st3\<lparr>sw_repurchase := r\<rparr>"
  proof (cases "fund > 0")
    case True
    then show ?thesis using 4 addRepurchaseFunds_state by metis
  next
    case False
    then have "st' = st3\<lparr>sw_repurchase := sw_repurchase st3\<rparr>" using 4 by simp
    then show ?thesis by blast
  qed
  then obtain r where st': "st' = (with_bank b st)\<lparr>sw_repurchase := r\<rparr>" using b by blast
  have rep: "getRepurchaseFund st' s = getRepurchaseFund st s + (if s = tin then fund else 0)" for s
    using 4 assms(5) addRepurchaseFunds_get [of "[\<lparr>Denom = tin, Amount = fund\<rparr>]" st3 st' s] b
    by (auto simp: getRepurchaseFund_def split: if_splits)
  have sb: "swap_bank st3 = b" using b by simp
  show ?thesis
  proof (rule that [OF st' _ rep])
    show "bank_wf b" if "bank_wf (swap_bank st)" using p1(2) [OF that] p2(4) p3(4) sb by simp
    show "bank_total b s = bank_total (swap_bank st) s - (if s = tin then x - bonus else 0) + (if s = tout then out else 0)"
      if "x \<le> GetHoldBalance (swap_bank st) (o_From ord) tin" for s
      using p1(3) [OF that, of s] p2(3) [of s] p3(3) [of s] sb by (auto split: if_splits)
    show "GetHoldBalance b y s = GetHoldBalance (swap_bank st) y s - (if y = o_From ord \<and> s = tin then x else 0)"
      if "x \<le> GetHoldBalance (swap_bank st) (o_From ord) tin" for y s
      using p1(4) [OF that, of y s] GetHoldBalance_holds [OF p2(2)] GetHoldBalance_holds [OF p3(2)] sb by simp
  qed
qed

section \<open>One attempt\<close>

definition order_in :: "Order \<Rightarrow> TradingPair \<Rightarrow> Symbol" where
  "order_in ord pair = (if o_Side ord = OrderSideBuy then TokenB pair else TokenA pair)"

definition order_out :: "Order \<Rightarrow> TradingPair \<Rightarrow> Symbol" where
  "order_out ord pair = (if o_Side ord = OrderSideBuy then TokenA pair else TokenB pair)"

text \<open>The order after an attempt that put \<open>x\<close> in.\<close>

definition fill :: "Context \<Rightarrow> int \<Rightarrow> Order \<Rightarrow> Order" where
  "fill ctx x ord =
     (if o_LockedFund ord - x = 0
      then ord\<lparr>o_LockedFund := 0, o_Status := OrderStatusFilled, o_FinishedTime := BlockTime ctx\<rparr>
      else ord\<lparr>o_LockedFund := o_LockedFund ord - x, o_Status := OrderStatusPartiallyFilled\<rparr>)"

lemma limitSwap_cases:
  assumes "limitSwap ctx ord pair st = Some ((flows, ev, pair', suit, ord'), st')"
  obtains (none) "calLimitSwapAmount ord pair = Some (0, suit)" and "flows = []" and "ev = None" and "pair' = pair"
      and "ord' = ord" and "st' = st"
  | (some) most x out bonus fund st1 st2 e where "calLimitSwapAmount ord pair = Some (most, suit)" and "most \<noteq> 0"
      and "limit_amount ord most = Some x"
      and "swap (o_FeeRate ord) pair (order_in ord pair) x False st = Some ((out, bonus, fund, pair'), st1)"
      and "limit_payments ord (order_in ord pair) (order_out ord pair) x out bonus fund st1 = Some (flows, st2)"
      and "ord' = fill ctx x ord" and "int_ok (o_LockedFund ord - x)" and "st' = saveOrder ord' st2"
      and "ev = Some e" and "ev_AmountIn e = x" and "ev_AmountOut e = out"
proof -
  have "calLimitSwapAmount ord pair \<noteq> None"
  proof
    assume "calLimitSwapAmount ord pair = None"
    then have "limitSwap ctx ord pair st = None" by (simp add: limitSwap_def)
    with assms show False by simp
  qed
  then obtain most s where c: "calLimitSwapAmount ord pair = Some (most, s)" by auto
  show ?thesis
  proof (cases "most = 0")
    case True
    then have "((flows, ev, pair', suit, ord'), st') = (([], None, pair, s, ord), st)"
      using assms by (simp add: limitSwap_def c)
    then show ?thesis using none c True by auto
  next
    case False
    have tok: "(if o_Side ord = OrderSideBuy then (TokenB pair, TokenA pair) else (TokenA pair, TokenB pair)) =
        (order_in ord pair, order_out ord pair)" by (simp add: order_in_def order_out_def)
    obtain x out bonus fund p1 st1 fl st2 rest where x: "limit_amount ord most = Some x"
      and sw: "swap (o_FeeRate ord) pair (order_in ord pair) x False st = Some ((out, bonus, fund, p1), st1)"
      and pay: "limit_payments ord (order_in ord pair) (order_out ord pair) x out bonus fund st1 = Some (fl, st2)"
      and rest: "Int_Sub (o_LockedFund ord) x = Some rest"
      and res: "((fl, Some (NewEventSwap (o_From ord) (o_OrderID ord) (DexID p1) (TokenA p1) (TokenB p1) (order_in ord pair)
          (TokenAAmount p1) (TokenBAmount p1) x out), p1, s,
         if rest = 0 then ord\<lparr>o_LockedFund := rest, o_Status := OrderStatusFilled, o_FinishedTime := BlockTime ctx\<rparr>
         else ord\<lparr>o_LockedFund := rest, o_Status := OrderStatusPartiallyFilled\<rparr>),
         saveOrder (if rest = 0 then ord\<lparr>o_LockedFund := rest, o_Status := OrderStatusFilled, o_FinishedTime := BlockTime ctx\<rparr>
         else ord\<lparr>o_LockedFund := rest, o_Status := OrderStatusPartiallyFilled\<rparr>) st2) = ((flows, ev, pair', suit, ord'), st')"
      using assms
      unfolding limitSwap_def c Option.bind.bind_lunit prod.case if_not_P [OF False] tok Let_def bind_Some_iff split_paired_Ex option.inject
      by blast
    have r: "rest = o_LockedFund ord - x" "int_ok (o_LockedFund ord - x)" using rest by (auto simp: Int_Sub_Some)
    have "ord' = fill ctx x ord" using res unfolding r fill_def by auto
    then show ?thesis using some [OF _ False x _ _ _ r(2)] c sw pay res by (auto simp: NewEventSwap_def)
  qed
qed

subsection \<open>The amount\<close>

lemma twice_abs: "2 * \<bar>u\<bar> \<le> p \<Longrightarrow> 2 * u \<le> p" for u p :: int
  by linarith

lemma quo_trunc_below:
  assumes "Dec_Quo (ToDec a) c = Some e" and "Dec_TruncateInt e = Some t" and "0 \<le> a" and "0 < c"
  shows "2 * t * precisionReuse * c \<le> 2 * a * precisionReuse * precisionReuse + c"
proof -
  let ?P = precisionReuse and ?X = "a * precisionReuse * precisionReuse * precisionReuse div c"
  have e: "e = chopPrecisionAndRound ?X"
    using assms by (auto simp: Dec_Quo_def Let_def ToDec_eq big_Quo_nonneg dec_checked_eq split: if_splits)
  have X: "0 \<le> ?X" using assms(3,4) by (simp add: pos_imp_zdiv_nonneg_iff)
  then have "0 \<le> e" unfolding e by (rule chopPrecisionAndRound_nonneg_nonneg)
  then have "t = e div ?P" using assms(2) by (simp add: Dec_TruncateInt_nonneg split: if_splits)
  then have "t * ?P \<le> e" by (simp add: div_mult_le_int)
  then have "2 * (t * ?P) * ?P \<le> 2 * e * ?P" by (intro mult_right_mono mult_left_mono) auto
  also have "\<dots> = 2 * (e * ?P - ?X) + 2 * ?X" by (simp add: algebra_simps)
  also have "\<dots> \<le> 2 * ?X + ?P"
    using twice_abs [OF chop_nearest_nonneg(1) [OF X, folded e]] by (simp only: add.commute add_left_mono)
  finally have "2 * (t * ?P) * ?P * c \<le> (2 * ?X + ?P) * c" using assms(4) by (intro mult_right_mono) auto
  also have "\<dots> = 2 * (?X * c) + ?P * c" by (simp add: algebra_simps)
  also have "\<dots> \<le> 2 * (a * ?P * ?P * ?P) + ?P * c" using assms(4) by (simp add: div_mult_le_int)
  finally have "?P * (2 * t * ?P * c) \<le> ?P * (2 * a * ?P * ?P + c)" by (simp add: algebra_simps)
  then show ?thesis using precisionReuse_pos(1) by (simp only: mult_le_cancel_left_pos)
qed

lemma limit_amount_bounds:
  assumes "limit_amount ord most = Some x" and "fees_ok (o_FeeRate ord)" and "0 < most" and "0 \<le> o_LockedFund ord"
  shows "0 \<le> x" "x \<le> o_LockedFund ord" "total_rate (o_FeeRate ord) < precisionReuse"
    "x * (precisionReuse - total_rate (o_FeeRate ord)) \<le> most * precisionReuse"
proof -
  let ?P = precisionReuse and ?c = "precisionReuse - total_rate (o_FeeRate ord)"
  obtain c d t where "c = ?c" and d: "Dec_Quo (ToDec most) ?c = Some d" and t: "Dec_TruncateInt d = Some t"
    and x: "x = (if t > o_LockedFund ord then o_LockedFund ord else t)"
    using assms(1) by (auto simp: limit_amount_def bind_Some_iff Dec_Sub_def OneDec_def go_simps dest!: TotalFeeRate_Some)
  have "?c \<noteq> 0" using d by (auto simp: Dec_Quo_def)
  moreover have "0 \<le> ?c" "?c \<le> ?P" using assms(2) by (auto simp: fees_ok_def total_rate_def)
  ultimately have c: "0 < ?c" "?c \<le> ?P" by simp_all
  then show "total_rate (o_FeeRate ord) < ?P" by simp
  have "0 \<le> t" using quo_trunc_above(2) [OF d t] assms(3) c by simp
  then show "0 \<le> x" "x \<le> o_LockedFund ord" using x assms(4) by auto
  have "2 * ?P * (t * ?c - most * ?P) \<le> ?c"
    using quo_trunc_below [OF d t] assms(3) c by (simp add: algebra_simps)
  then have "2 * ?P * (t * ?c - most * ?P) < 2 * ?P * 1" using c by linarith
  then have "t * ?c - most * ?P < 1" by (rule iffD1 [OF mult_less_cancel_left_pos, rotated]) simp
  moreover have "x * ?c \<le> t * ?c" using x c by (intro mult_right_mono) auto
  ultimately show "x * ?c \<le> most * ?P" by linarith
qed

lemma calLimitSwapAmount_Some:
  assumes "calLimitSwapAmount ord pair = Some (most, suit)"
  shows "0 \<le> most" "most \<noteq> 0 \<Longrightarrow> suit \<and> 0 < TokenAAmount pair \<and> 0 < TokenBAmount pair"
  using assms by (auto simp: calLimitSwapAmount_def bind_Some_iff split: if_split_asm prod.split_asm)

subsection \<open>The effect\<close>

lemma swap_positive:
  assumes "swap fr q t x isRep st = Some ((out, bonus, fund, q'), st1)" and "fees_ok fr" and "0 \<le> x"
    and "0 < res_in q t" and "0 < res_out q t"
  shows "0 < res_in q' t" "0 < res_out q' t"
proof -
  obtain l r where lr: "0 \<le> l" "0 \<le> r" and out: "out = product_out r (res_in q t) (res_out q t)"
    and q': "res_in q' t = res_in q t + r + l" "res_out q' t = res_out q t - out"
    by (rule swap_result [OF assms(1-3)]) (use assms(4,5) in auto)
  show "0 < res_in q' t" using q'(1) lr assms(4) by simp
  show "0 < res_out q' t" using product_out_bounds(4) [OF lr(2) _ _ assms(4,5)] assms(4,5) q'(2) out by simp
qed

lemma order_tokens:
  "(TokenA p = order_in ord p \<and> TokenB p = order_out ord p) \<or> (TokenA p = order_out ord p \<and> TokenB p = order_in ord p)"
  by (simp add: order_in_def order_out_def)

lemma saveOrder_simps [simp]:
  "swap_bank (saveOrder ord st) = swap_bank st" "sw_pairs (saveOrder ord st) = sw_pairs st"
  "sw_params (saveOrder ord st) = sw_params st" "sw_repurchase (saveOrder ord st) = sw_repurchase st"
  "sw_orders (saveOrder ord st) = kv_set (o_OrderID ord) ord (sw_orders st)"
  by (simp_all add: saveOrder_def)

lemma fill_simps [simp]:
  "o_OrderID (fill ctx x ord) = o_OrderID ord" "o_From (fill ctx x ord) = o_From ord"
  "o_FeeRate (fill ctx x ord) = o_FeeRate ord" "o_LockedFund (fill ctx x ord) = o_LockedFund ord - x"
  "o_Side (fill ctx x ord) = o_Side ord" "o_Price (fill ctx x ord) = o_Price ord"
  "o_BaseSymbol (fill ctx x ord) = o_BaseSymbol ord" "o_QuoteSymbol (fill ctx x ord) = o_QuoteSymbol ord"
  "o_DexID (fill ctx x ord) = o_DexID ord" "o_CreatedTime (fill ctx x ord) = o_CreatedTime ord"
  "o_ExpiredTime (fill ctx x ord) = o_ExpiredTime ord"
  by (simp_all add: fill_def)

lemma swap_total_parts:
  "swap_total st s = bank_total (swap_bank st) s + kv_sum (\<lambda>_ p. reserve s p) (sw_pairs st) +
     (case kv_get (sw_repurchase st) s of None \<Rightarrow> 0 | Some n \<Rightarrow> n)"
  by (simp add: swap_total_def pool_total_def getRepurchaseFund_def cong: option.case_cong)

text \<open>The store after an attempt.\<close>

definition attempted :: "swap_state \<Rightarrow> swap_state \<Rightarrow> TradingPair \<Rightarrow> (string, Order) kv \<Rightarrow> bool" where
  "attempted st st' pair' ords =
     (\<exists>b r. st' = (with_bank b st)\<lparr>sw_pairs := kv_set (pair_key pair') pair' (sw_pairs st), sw_repurchase := r,
        sw_orders := ords\<rparr>)"

lemma limitSwap_effect:
  assumes "limitSwap ctx ord pair st = Some ((flows, ev, pair', suit, ord'), st')"
    and wf: "pairs_wf st" and ro: "rates_ok st" and st: "kv_get (sw_pairs st) (pair_key pair) = Some pair"
    and fees: "fees_ok (o_FeeRate ord)" and lf: "0 \<le> o_LockedFund ord"
  obtains x where "0 \<le> x" and "x \<le> o_LockedFund ord" and "ord' = (if ev = None then ord else fill ctx x ord)"
    and "case ev of None \<Rightarrow> x = 0 | Some e \<Rightarrow> ev_AmountIn e = x \<and> suit"
    and "pairs_wf st'" and "rates_ok st'" and "same_pair pair pair'"
    and "kv_get (sw_pairs st') (pair_key pair') = Some pair'" and "pool_ok pair \<Longrightarrow> pool_ok pair'"
    and "attempted st st' pair' (if ev = None then sw_orders st else kv_set (o_OrderID ord) ord' (sw_orders st))"
    and "bank_wf (swap_bank st) \<Longrightarrow> bank_wf (swap_bank st')"
    and "\<And>s. o_LockedFund ord \<le> GetHoldBalance (swap_bank st) (o_From ord) (order_in ord pair) \<Longrightarrow>
      swap_total st' s = swap_total st s"
    and "\<And>y s. o_LockedFund ord \<le> GetHoldBalance (swap_bank st) (o_From ord) (order_in ord pair) \<Longrightarrow>
      GetHoldBalance (swap_bank st') y s =
        GetHoldBalance (swap_bank st) y s - (if y = o_From ord \<and> s = order_in ord pair then x else 0)"
  using assms(1)
proof (cases rule: limitSwap_cases)
  case none
  have "kv_set (pair_key pair) pair (sw_pairs st) = sw_pairs st" using st by (rule kv_set_id)
  then have "st' = (with_bank (swap_bank st) st)\<lparr>sw_pairs := kv_set (pair_key pair) pair (sw_pairs st),
      sw_repurchase := sw_repurchase st, sw_orders := sw_orders st\<rparr>" using none by simp
  then have "attempted st st' pair' (sw_orders st)" unfolding attempted_def none(4) by blast
  then show ?thesis using none lf wf ro st by (intro that [of 0]) (auto simp: same_pair_def)
next
  case (some most x out bonus fund st1 st2 e)
  let ?tin = "order_in ord pair" and ?tout = "order_out ord pair"
  note c = calLimitSwapAmount_Some [OF some(1)]
  have pos: "0 < most" "0 < TokenAAmount pair" "0 < TokenBAmount pair" suit using c some(2) by auto
  have x: "0 \<le> x" "x \<le> o_LockedFund ord" using limit_amount_bounds [OF some(3) fees pos(1) lf] by simp_all
  note keep = swap_keeps [OF some(4) wf ro st fees x(1)]
  obtain b r where st2: "st2 = (with_bank b st1)\<lparr>sw_repurchase := r\<rparr>"
    and bwf: "bank_wf (swap_bank st1) \<Longrightarrow> bank_wf b"
    and rep: "\<And>s. getRepurchaseFund st2 s = getRepurchaseFund st1 s + (if s = ?tin then fund else 0)"
    and tot: "\<And>s. x \<le> GetHoldBalance (swap_bank st1) (o_From ord) ?tin \<Longrightarrow>
      bank_total b s = bank_total (swap_bank st1) s - (if s = ?tin then x - bonus else 0) + (if s = ?tout then out else 0)"
    and hold: "\<And>y s. x \<le> GetHoldBalance (swap_bank st1) (o_From ord) ?tin \<Longrightarrow>
      GetHoldBalance b y s = GetHoldBalance (swap_bank st1) y s - (if y = o_From ord \<and> s = ?tin then x else 0)"
    by (rule limit_payments_effect [OF some(5) x(1) keep(5-7)]) (rule that; assumption)
  have b1: "swap_bank st1 = swap_bank st" using keep(3) by simp
  have b': "swap_bank st' = b" "sw_pairs st' = sw_pairs st1" "sw_params st' = sw_params st1"
    using some(8) st2 by simp_all
  have key: "pair_key pair' = pair_key pair" using same_pair_key [OF keep(4)] .
  have ok: "TokenA pair \<noteq> TokenB pair" using pairs_wfD(2) [OF wf st] by (simp add: pair_ok_def)
  note pt = swap_pool_total [OF some(4) ok order_tokens st]
  have "attempted st st' pair' (kv_set (o_OrderID ord) ord' (sw_orders st))"
    unfolding attempted_def some(8) st2 keep(3) some(6)
    by (rule exI [of _ b], rule exI [of _ r])
      (simp add: saveOrder_def SaveTradingPair_def with_bank_def pair_key_def)
  moreover have "swap_total st' s = swap_total st s" 
    if "o_LockedFund ord \<le> GetHoldBalance (swap_bank st) (o_From ord) ?tin" for s
  proof -
    have "pool_total st' s = pool_total st1 s" using b' by (simp add: pool_total_def)
    moreover have "getRepurchaseFund st' s = getRepurchaseFund st2 s" "getRepurchaseFund st1 s = getRepurchaseFund st s"
      using some(8) keep(3) by (simp_all add: getRepurchaseFund_def)
    ultimately show ?thesis
      using tot [of s] pt [of s] rep [of s] that x b1 b' by (auto simp: swap_total_def split: if_splits)
  qed
  moreover have "pool_ok pair'" if "pool_ok pair"
  proof -
    have "0 < res_in pair ?tin" "0 < res_out pair ?tin" using pos(2,3) by (simp_all add: res_in_def res_out_def)
    from swap_positive [OF some(4) fees x(1) this] have "0 < TokenAAmount pair'" "0 < TokenBAmount pair'"
      by (auto simp: res_in_def res_out_def split: if_splits)
    then show ?thesis using that pos(2) keep(4) by (auto simp: pool_ok_def same_pair_def)
  qed
  moreover have "pairs_wf st'" "rates_ok st'" using keep(1,2) pairs_cong(1) [OF b'(2)] rates_cong [OF b'(2,3)] by simp_all
  moreover have "kv_get (sw_pairs st') (pair_key pair') = Some pair'" using b'(2) keep(3) by simp
  moreover have "GetHoldBalance (swap_bank st') y s =
        GetHoldBalance (swap_bank st) y s - (if y = o_From ord \<and> s = ?tin then x else 0)"
    if "o_LockedFund ord \<le> GetHoldBalance (swap_bank st) (o_From ord) ?tin" for y s
    using hold [of y s] that x b1 b'(1) by simp
  moreover have "bank_wf (swap_bank st')" if "bank_wf (swap_bank st)" using bwf that b1 b'(1) by simp
  ultimately show ?thesis using x some(6,9,10) keep(4) pos(4)
    by (intro that [of x]) auto
qed

section \<open>The limit price\<close>

lemma limit_sell_bound:
  fixes r :: int
  assumes "0 \<le> r" and "0 < a" and "0 \<le> b" and "r + a - 2 \<le> t" and "2 * t * P * price \<le> 2 * b * P * P + price"
    and "0 < price" and "0 < P"
  shows "r * price < (product_out r a b + 1) * P + 3 * price"
proof -
  let ?D = "r + a" and ?o = "product_out r a b + 1"
  have D: "0 < ?D" "r \<le> ?D" using assms(1,2) by auto
  have 1: "r * b < ?o * ?D" using D less_div_mult_int [OF D(1), of "r * b"] by (simp add: product_out_def)
  have "2 * (?D - 2) * P * price \<le> 2 * t * P * price" using assms(4,6,7) by (intro mult_right_mono) auto
  then have "r * (2 * (?D - 2) * P * price) \<le> r * (2 * b * P * P + price)"
    using assms(1,5) by (intro mult_left_mono) auto
  then have 2: "2 * P * (r * price * ?D) \<le> 2 * P * P * (r * b) + r * price + 4 * P * (price * r)"
    by (simp add: algebra_simps)
  have 3: "2 * P * P * (r * b) < 2 * P * P * (?o * ?D)" using 1 assms(7) by (intro mult_strict_left_mono) auto
  have "r * price \<le> 2 * P * (price * r)" using assms(1,6,7) mult_right_mono [of 1 "2 * P" "price * r"] by (simp add: mult.commute)
  moreover have "6 * P * (price * r) \<le> 6 * P * (price * ?D)" using D assms(6,7) by (intro mult_left_mono) auto
  ultimately have "2 * P * (r * price * ?D) < 2 * P * P * (?o * ?D) + 6 * P * (price * ?D)"
    using 2 3 by linarith
  then have "(2 * P * ?D) * (r * price) < (2 * P * ?D) * (?o * P + 3 * price)" by (simp add: algebra_simps)
  then show ?thesis by (rule iffD1 [OF mult_less_cancel_left_pos, rotated]) (use D assms(7) in simp)
qed

lemma limit_buy_bound:
  fixes r :: int
  assumes "0 \<le> r" and "0 < a" and "0 \<le> b" and "r + a - 2 \<le> t" and "t * P \<le> b * price" and "0 < price" and "0 < P"
  shows "r * P < (product_out r a b + 1) * price + 2 * P"
proof -
  let ?D = "r + a" and ?o = "product_out r a b + 1"
  have D: "0 < ?D" "r \<le> ?D" using assms(1,2) by auto
  have "r * b < ?o * ?D" using D less_div_mult_int [OF D(1), of "r * b"] by (simp add: product_out_def)
  then have 1: "r * b * price < ?o * ?D * price" using assms(6) by (rule mult_strict_right_mono)
  have "(?D - 2) * P \<le> t * P" using assms(4,7) by (intro mult_right_mono) auto
  then have "r * ((?D - 2) * P) \<le> r * (b * price)" using assms(1,5) by (intro mult_left_mono) auto
  then have 2: "r * P * ?D \<le> r * b * price + 2 * P * r" by (simp add: algebra_simps)
  have "2 * P * r \<le> 2 * P * ?D" using D assms(7) by (intro mult_left_mono) auto
  then have "r * P * ?D < ?o * ?D * price + 2 * P * ?D" using 1 2 by linarith
  then have "?D * (r * P) < ?D * (?o * price + 2 * P)" by (simp add: algebra_simps)
  then show ?thesis using D(1) by (simp only: mult_less_cancel_left_pos)
qed

text \<open>The three fees are rounded down, which adds less than three units to the net input.\<close>

lemma swap_fees_upper:
  assumes "swap_fees st fr tok x False = Some (l, b, f)" and "fees_ok fr" and "0 \<le> x"
  shows "(x - l - b - f) * precisionReuse < x * (precisionReuse - total_rate fr) + 3 * precisionReuse"
proof -
  let ?P = precisionReuse and ?s = "\<lambda>r. x * r div precisionReuse"
  obtain d1 l1 d2 f1 d3 where
    "Dec_Mul (NewDecFromInt x) (fr_LPRewardRate fr) = Some d1" "Dec_TruncateInt d1 = Some l1"
    "Dec_Mul (NewDecFromInt x) (fr_RepurchaseRate fr) = Some d2" "Dec_TruncateInt d2 = Some f1"
    "Dec_Mul (NewDecFromInt x) (fr_RefererRewardRate fr) = Some d3" "Dec_TruncateInt d3 = Some b"
    and split: "(l = l1 \<and> f = f1) \<or> (l = l1 + f1 \<and> f = 0)"
    using assms(1) by (auto simp: swap_fees_def Let_def go_simps split: if_splits)
  then have "l1 = ?s (fr_LPRewardRate fr)" "f1 = ?s (fr_RepurchaseRate fr)" "b = ?s (fr_RefererRewardRate fr)"
    using share_step assms(2,3) by (auto simp: fees_ok_def)
  moreover have "x * r < (?s r + 1) * ?P" for r using less_div_mult_int [OF precisionReuse_pos(1), of "x * r"] .
  ultimately have "x * fr_LPRewardRate fr < (l1 + 1) * ?P" "x * fr_RepurchaseRate fr < (f1 + 1) * ?P"
    "x * fr_RefererRewardRate fr < (b + 1) * ?P" by simp_all
  moreover have "l + b + f = l1 + b + f1" using split by auto
  then have "(x - l - b - f) * ?P = x * ?P - (l1 * ?P + b * ?P + f1 * ?P)"
    by (metis (no_types, opaque_lifting) diff_diff_eq left_diff_distrib distrib_right)
  ultimately show ?thesis by (simp add: algebra_simps total_rate_def)
qed

lemma calLimitSwapAmount_sell:
  assumes "calLimitSwapAmount ord pair = Some (most, suit)" and "most \<noteq> 0" and "o_Side ord = OrderSideSell"
  obtains d where "Dec_Quo (ToDec (TokenBAmount pair)) (o_Price ord) = Some d"
    and "Dec_TruncateInt d = Some (TokenAAmount pair + most)"
  using assms by (auto simp: calLimitSwapAmount_def bind_Some_iff Int_Sub_Some split: if_split_asm)

lemma calLimitSwapAmount_buy:
  assumes "calLimitSwapAmount ord pair = Some (most, suit)" and "most \<noteq> 0" and "o_Side ord = OrderSideBuy"
  obtains d where "Dec_Mul (ToDec (TokenAAmount pair)) (o_Price ord) = Some d"
    and "Dec_TruncateInt d = Some (TokenBAmount pair + most)"
  using assms by (auto simp: calLimitSwapAmount_def bind_Some_iff Int_Sub_Some split: if_split_asm)


section \<open>Closing an order\<close>

definition order_tok :: "Order \<Rightarrow> Symbol" where
  "order_tok ord = (if o_Side ord = OrderSideBuy then o_QuoteSymbol ord else o_BaseSymbol ord)"

definition finish :: "Context \<Rightarrow> OrderStatus \<Rightarrow> Order \<Rightarrow> Order" where
  "finish ctx status ord =
     ord\<lparr>o_FinishedTime := BlockTime ctx, o_Status := status,
       o_LockedFund := (if o_LockedFund ord > 0 then 0 else o_LockedFund ord)\<rparr>"

lemma finish_simps [simp]:
  "o_OrderID (finish ctx status ord) = o_OrderID ord" "o_From (finish ctx status ord) = o_From ord"
  "o_FeeRate (finish ctx status ord) = o_FeeRate ord" "order_tok (finish ctx status ord) = order_tok ord"
  "0 \<le> o_LockedFund ord \<Longrightarrow> o_LockedFund (finish ctx status ord) = 0" "o_Status (finish ctx status ord) = status"
  by (simp_all add: finish_def order_tok_def)

lemma finish_zero: "\<not> 0 < o_LockedFund ord \<Longrightarrow> finish ctx status ord = ord\<lparr>o_FinishedTime := BlockTime ctx, o_Status := status\<rparr>"
  by (cases ord) (simp add: finish_def)

lemma finishOrder_effect:
  assumes "finishOrderWithStatus ctx ord status st = Some ((flows, ord'), st')"
  obtains b where "ord' = finish ctx status ord" and "st' = delUnfinishedOrder ord' (saveOrder ord' (with_bank b st))"
    and "\<And>s. bank_total b s = bank_total (swap_bank st) s" and "bank_wf (swap_bank st) \<Longrightarrow> bank_wf b"
    and "\<And>y s. 0 \<le> o_LockedFund ord \<Longrightarrow> o_LockedFund ord \<le> GetHoldBalance (swap_bank st) (o_From ord) (order_tok ord) \<Longrightarrow>
      GetHoldBalance b y s =
        GetHoldBalance (swap_bank st) y s - (if y = o_From ord \<and> s = order_tok ord then o_LockedFund ord else 0)"
    and "\<And>y s. 0 \<le> o_LockedFund ord \<Longrightarrow> o_LockedFund ord \<le> GetHoldBalance (swap_bank st) (o_From ord) (order_tok ord) \<Longrightarrow>
      GetBalance b y s =
        GetBalance (swap_bank st) y s + (if y = o_From ord \<and> s = order_tok ord then o_LockedFund ord else 0)"
proof (cases "o_LockedFund ord > 0")
  case False
  then have "ord' = finish ctx status ord" "st' = delUnfinishedOrder ord' (saveOrder ord' (with_bank (swap_bank st) st))"
    using assms finish_zero [OF False] by (auto simp: finishOrderWithStatus_def Let_def)
  then show ?thesis using False by (intro that [of "swap_bank st"]) auto
next
  case True
  let ?o = "ord\<lparr>o_FinishedTime := BlockTime ctx, o_Status := status\<rparr>"
  obtain coin fl st1 where c: "getOrderLockedCoin ?o = Some coin"
    and t: "ignore_error [] (transfer (UnlockCoin (o_From ord) coin) st) = Some (fl, st1)"
    and ord': "ord' = ?o\<lparr>o_LockedFund := 0\<rparr>" and st': "st' = delUnfinishedOrder ord' (saveOrder ord' st1)"
    using assms True by (auto simp: finishOrderWithStatus_def Let_def bind_Some_iff split: prod.splits)
  obtain r b where u: "UnlockCoin (o_From ord) coin (swap_bank st) = Some (r, b)" and st1: "st1 = with_bank b st"
    using ignore_error_Some [OF t] by (auto simp: transfer_Some)
  have coin: "coin = \<lparr>Denom = order_tok ord, Amount = o_LockedFund ord\<rparr>" "Coin_IsValid coin"
    using c by (auto simp: getOrderLockedCoin_def order_tok_def NewCoin_Some Coin_IsValid_iff)
  show ?thesis
  proof (rule that)
    show "ord' = finish ctx status ord" using ord' True by (simp add: finish_def)
    show "st' = delUnfinishedOrder ord' (saveOrder ord' (with_bank b st))" using st' st1 by simp
    show "bank_total b s = bank_total (swap_bank st) s" for s
      using u by (cases r) (auto dest!: UnlockCoin_Inl simp: UnlockCoin_Inr(5))
    show "bank_wf b" if "bank_wf (swap_bank st)" using UnlockCoin_wf [OF u that] .
    have ok: "\<exists>fls. r = Inr fls" if "o_LockedFund ord \<le> GetHoldBalance (swap_bank st) (o_From ord) (order_tok ord)"
      using u that coin
      by (cases r) (auto simp: UnlockCoin_def elim!: on_ok_cases dest!: coin_op_Inl(1,4) split: prod.splits)
    show "GetHoldBalance b y s =
        GetHoldBalance (swap_bank st) y s - (if y = o_From ord \<and> s = order_tok ord then o_LockedFund ord else 0)"
      if "o_LockedFund ord \<le> GetHoldBalance (swap_bank st) (o_From ord) (order_tok ord)" for y s
      using ok [OF that] u UnlockCoin_Inr(4) coin(1) by auto
    show "GetBalance b y s =
        GetBalance (swap_bank st) y s + (if y = o_From ord \<and> s = order_tok ord then o_LockedFund ord else 0)"
      if "o_LockedFund ord \<le> GetHoldBalance (swap_bank st) (o_From ord) (order_tok ord)" for y s
      using ok [OF that] u UnlockCoin_Inr(3) coin(1) by auto
  qed
qed

section \<open>Opening an order\<close>

lemma LimitSwap_cases:
  assumes "LimitSwap ctx d i from referer receiver amountIn price base quote side exp st = Some (Inr flows, st')"
  obtains p pair coin fl b ord fl2 ev pair' suit ord' st2 where "GetTradingPair st d base quote = Some p"
    and "(if IsPublic p \<and> d \<noteq> 0 then GetTradingPair st 0 base quote else Some p) = Some pair"
    and "0 < TokenAAmount pair" and "0 < TokenBAmount pair"
    and "NewCoin (if side = OrderSideBuy then quote else base) amountIn = Some coin"
    and "LockCoin from coin (swap_bank st) = Some (Inr fl, b)"
    and "ord = \<lparr>o_OrderID = i, o_DexID = DexID pair, o_From = from, o_Referer = referer,
       o_Receiver = receiver, o_CreatedTime = BlockTime ctx, o_ExpiredTime = exp,
       o_FinishedTime = 0, o_Status = OrderStatusNew, o_Side = side,
       o_BaseSymbol = base, o_QuoteSymbol = quote, o_Price = price,
       o_AmountIn = amountIn, o_LockedFund = amountIn, o_FeeRate = getFeeRates st p\<rparr>"
    and "limitSwap ctx ord pair (saveOrder ord (with_bank b st)) = Some ((fl2, ev, pair', suit, ord'), st2)"
    and "\<exists>u w g. st' = st2\<lparr>sw_unfinished := u, sw_waitInsert := w, sw_gas := g\<rparr>"
proof -
  obtain p where p: "GetTradingPair st d base quote = Some p"
    using assms by (auto simp: LimitSwap_def split: option.split_asm)
  obtain ao where ao: "limit_order_out (getFeeRates st p) amountIn price side = Some ao" "0 < ao"
    using assms by (auto simp: LimitSwap_def p Let_def bind_Some_iff split: if_split_asm)
  obtain pair where pair: "(if IsPublic p \<and> d \<noteq> 0 then GetTradingPair st 0 base quote else Some p) = Some pair"
    and pos: "0 < TokenAAmount pair" "0 < TokenBAmount pair"
    using assms unfolding LimitSwap_def p option.case Let_def ao Option.bind.bind_lunit
    by (simp add: ao split: option.split_asm if_split_asm)
  let ?sym = "if side = OrderSideBuy then quote else base"
  let ?ord = "\<lparr>o_OrderID = i, o_DexID = DexID pair, o_From = from, o_Referer = referer,
       o_Receiver = receiver, o_CreatedTime = BlockTime ctx, o_ExpiredTime = exp,
       o_FinishedTime = 0, o_Status = OrderStatusNew, o_Side = side,
       o_BaseSymbol = base, o_QuoteSymbol = quote, o_Price = price,
       o_AmountIn = amountIn, o_LockedFund = amountIn, o_FeeRate = getFeeRates st p\<rparr>"
  have "do { coin \<leftarrow> NewCoin ?sym amountIn;
      on_ok (transfer (LockCoin from coin) st) (\<lambda>flows st. do {
        ((balanceFlows, _, _, _, ord), st) \<leftarrow> limitSwap ctx ?ord pair (saveOrder ?ord st);
        st \<leftarrow> (if o_Status ord \<noteq> OrderStatusFilled then
            if LimitSwapMatchingGas (sw_params (addUnfinishedOrder ord st)) < 2 ^ 64
            then consume_gas (of_nat (LimitSwapMatchingGas (sw_params (addUnfinishedOrder ord st)))) (addUnfinishedOrder ord st)
            else None
          else Some st);
        Some (Inr (flows @ balanceFlows), st) }) } = Some (Inr flows, st')"
    using assms unfolding LimitSwap_def p option.case Let_def ao Option.bind.bind_lunit pair using ao(2) pos by simp
  then obtain coin fl b fl2 ev pair' suit ord' st2 where c: "NewCoin ?sym amountIn = Some coin"
    and l: "LockCoin from coin (swap_bank st) = Some (Inr fl, b)"
    and ls: "limitSwap ctx ?ord pair (saveOrder ?ord (with_bank b st)) = Some ((fl2, ev, pair', suit, ord'), st2)"
    and fin: "(if o_Status ord' \<noteq> OrderStatusFilled then
            if LimitSwapMatchingGas (sw_params (addUnfinishedOrder ord' st2)) < 2 ^ 64
            then consume_gas (of_nat (LimitSwapMatchingGas (sw_params (addUnfinishedOrder ord' st2)))) (addUnfinishedOrder ord' st2)
            else None
          else Some st2) = Some st'"
    unfolding bind_Some_iff on_ok_Inr_iff transfer_Some split_paired_Ex prod.case by blast
  have "\<exists>u w g. st' = st2\<lparr>sw_unfinished := u, sw_waitInsert := w, sw_gas := g\<rparr>"
  proof (cases "o_Status ord' = OrderStatusFilled")
    case True
    then have "st' = st2\<lparr>sw_unfinished := sw_unfinished st2, sw_waitInsert := sw_waitInsert st2, sw_gas := sw_gas st2\<rparr>"
      using fin by simp
    then show ?thesis by blast
  next
    case False
    then show ?thesis using fin
      by (auto simp: consume_gas_def addUnfinishedOrder_def addWaitToInsertMatchingOrderID_def
          split: prod.split_asm option.split_asm if_split_asm)
  qed
  then show ?thesis by (rule that [OF p pair pos c l refl ls])
qed

section \<open>A concrete order\<close>

text \<open>An offer of 1000 \<open>hbc\<close> at 1.5 \<open>usdt\<close>, while the sample pool stands at 2.\<close>

definition sell_order :: Order where
  "sell_order =
     \<lparr>o_OrderID = ''o1'', o_DexID = 0, o_From = ''alice'', o_Referer = ''carol'', o_Receiver = ''bob'',
      o_CreatedTime = 1, o_ExpiredTime = -1, o_FinishedTime = 0, o_Status = OrderStatusNew,
      o_Side = OrderSideSell, o_BaseSymbol = ''hbc'', o_QuoteSymbol = ''usdt'', o_Price = 1500000000000000000,
      o_AmountIn = 1000, o_LockedFund = 1000, o_FeeRate = NewFeeRate 2500000000000000 400000000000000 100000000000000\<rparr>"

definition seller_state :: swap_state where
  "seller_state = with_bank \<lparr>balances = kv_empty, holds = kv_set (''alice'', ''hbc'') 1000 kv_empty\<rparr> sample_swap_state"

definition block_ctx :: "int \<Rightarrow> Context" where
  "block_ctx t = \<lparr>BlockHeight = 7, BlockTime = t, GetToken = (\<lambda>_. Some \<lparr>tok_Weight = 1, tok_SendEnabled = True, tok_TotalSupply = 0\<rparr>),
     ctx_permAddrs = (\<lambda>_. None), ctx_hash = (\<lambda>_. ''openswap'')\<rparr>"

lemmas seller_eval = sell_order_def seller_state_def block_ctx_def with_bank_def sample_eval pair_key_def


end
