(* ===== verification/SwapMatching.thy ===== *)
theory SwapMatching
  imports Orderbook
begin

text \<open>
  \<open>x/openswap/keeper/order.go\<close> and \<open>x/openswap/module.go\<close>, the work at the end of a block: expired
  orders are closed, new orders enter the books and cancelled ones leave them, and the books are
  matched against the pools until nothing moves.  The state is the store together with the books
  in memory.  The matching loop of the source has no bound; it runs here on fuel, and
  \<open>SwapMatchingFacts\<close> shows that the funds locked in the market are enough fuel.
\<close>

section \<open>Matching\<close>

text \<open>
  One pass over the orders of a book, in the order of its iterator: the pair is passed on from
  order to order, an order whose price does not suit ends the pass, and one that traded nothing is
  skipped.  The identifiers of the orders that were filled are collected.
\<close>

record 't pass_state =
  ps_book :: "'t Orderbook"
  ps_pair :: TradingPair
  ps_matched :: bool
  ps_finished :: "Order list"

fun match_pass :: "Context \<Rightarrow> string list \<Rightarrow> 't pass_state \<Rightarrow> swap_state \<Rightarrow> ('t pass_state \<times> swap_state) option" where
  "match_pass ctx [] ps st = Some (ps, st)"
| "match_pass ctx (orderID # orderIDs) ps st = do {
     ord \<leftarrow> kv_get (idToOrder (ps_book ps)) orderID;
     ((_, event, pair, priceSuitable, ord), st) \<leftarrow> limitSwap ctx ord (ps_pair ps) st;
     let ps = ps\<lparr>ps_book := book_write ord (ps_book ps), ps_pair := pair\<rparr>;
     if \<not> priceSuitable then Some (ps, st)
     else if (case event of None \<Rightarrow> True | Some e \<Rightarrow> ev_AmountIn e = 0) then match_pass ctx orderIDs ps st
     else match_pass ctx orderIDs
       (ps\<lparr>ps_matched := True,
           ps_finished := (if o_Status ord = OrderStatusFilled then ps_finished ps @ [ord] else ps_finished ps)\<rparr>) st }"

text \<open>The orders that were filled leave the store of unfinished orders and the books.\<close>

fun drop_finished :: "'t tree_ops \<Rightarrow> Order list \<Rightarrow> 't Market \<Rightarrow> swap_state \<Rightarrow> 't Market \<times> swap_state" where
  "drop_finished T [] market st = (market, st)"
| "drop_finished T (ord # ords) market st =
     drop_finished T ords (market_DelOrder T ord market) (delUnfinishedOrder ord st)"

text \<open>One round: the sell orders by rising price, then the buy orders by falling price.\<close>

definition match_round ::
  "'t tree_ops \<Rightarrow> Context \<Rightarrow> 't Market \<Rightarrow> TradingPair \<Rightarrow> swap_state \<Rightarrow>
   ((bool \<times> 't Market \<times> TradingPair) \<times> swap_state) option" where
  "match_round T ctx market pair st = do {
     (ps, st) \<leftarrow> match_pass ctx (book_Iterator T (mk_sellOrders market))
       \<lparr>ps_book = mk_sellOrders market, ps_pair = pair, ps_matched = False, ps_finished = []\<rparr> st;
     let market = market\<lparr>mk_sellOrders := ps_book ps\<rparr>;
     (qs, st) \<leftarrow> match_pass ctx (book_ReverseIterator T (mk_buyOrders market))
       \<lparr>ps_book = mk_buyOrders market, ps_pair = ps_pair ps, ps_matched = False, ps_finished = ps_finished ps\<rparr> st;
     let market = market\<lparr>mk_buyOrders := ps_book qs\<rparr>;
     if \<not> ps_matched ps \<and> \<not> ps_matched qs then Some ((False, market, ps_pair qs), st)
     else
       let (market, st) = drop_finished T (ps_finished qs) market st
       in Some ((True, market, ps_pair qs), st) }"

text \<open>The outer option is the panic, the inner one runs out of fuel.\<close>

fun match_market ::
  "nat \<Rightarrow> 't tree_ops \<Rightarrow> Context \<Rightarrow> 't Market \<Rightarrow> TradingPair \<Rightarrow> swap_state \<Rightarrow> ('t Market \<times> swap_state) option option" where
  "match_market 0 T ctx market pair st = Some None"
| "match_market (Suc n) T ctx market pair st = do {
     ((again, market, pair), st) \<leftarrow> match_round T ctx market pair st;
     if again then match_market n T ctx market pair st else Some (Some (market, st)) }"

text \<open>The funds locked in the orders of a book and of a market.\<close>

definition book_funds :: "'t Orderbook \<Rightarrow> int" where
  "book_funds b = kv_sum (\<lambda>_ ord. o_LockedFund ord) (idToOrder b)"

definition market_fuel :: "'t Market \<Rightarrow> nat" where
  "market_fuel e = nat (book_funds (mk_sellOrders e) + book_funds (mk_buyOrders e)) + 1"

fun match_markets ::
  "'t tree_ops \<Rightarrow> Context \<Rightarrow> string list \<Rightarrow> 't Manager \<Rightarrow> swap_state \<Rightarrow> ('t Manager \<times> swap_state) option" where
  "match_markets T ctx [] m st = Some (m, st)"
| "match_markets T ctx (key # keys) m st = do {
     market \<leftarrow> kv_get (mg_markets m) key;
     case GetTradingPair st (mk_dexID market) (mk_baseSymbol market) (mk_quoteSymbol market) of
       None \<Rightarrow> match_markets T ctx keys m st
     | Some pair \<Rightarrow> do {
         r \<leftarrow> match_market (market_fuel market) T ctx market pair st;
         (market, st) \<leftarrow> r;
         match_markets T ctx keys (m\<lparr>mg_markets := kv_set key market (mg_markets m)\<rparr>) st } }"

definition MatchingOrders :: "'t tree_ops \<Rightarrow> Context \<Rightarrow> 't Manager \<times> swap_state \<Rightarrow> ('t Manager \<times> swap_state) option" where
  "MatchingOrders T ctx s = (case s of (m, st) \<Rightarrow> match_markets T ctx (mg_marketKeys m) m st)"

section \<open>The books and the store\<close>

text \<open>Expired orders are closed through their pointers; they stay in the books.\<close>

fun expire_loop :: "Context \<Rightarrow> Order list \<Rightarrow> 't Manager \<Rightarrow> swap_state \<Rightarrow> ('t Manager \<times> swap_state) option" where
  "expire_loop ctx [] m st = Some (m, st)"
| "expire_loop ctx (ord # ords) m st = do {
     (ord, st) \<leftarrow> ExpireOrder ctx ord st;
     expire_loop ctx ords (mgr_write ord m) st }"

definition clearExpiredOrders ::
  "'t tree_ops \<Rightarrow> Context \<Rightarrow> 't Manager \<times> swap_state \<Rightarrow> ('t Manager \<times> swap_state) option" where
  "clearExpiredOrders T ctx s =
     (case s of (m, st) \<Rightarrow> do {
        ords \<leftarrow> mgr_GetExpiredOrders T ctx m;
        expire_loop ctx ords m st })"

text \<open>An order that is not in the store is a nil pointer, which both loops dereference.\<close>

fun insert_loop :: "'t tree_ops \<Rightarrow> string list \<Rightarrow> 't Manager \<Rightarrow> swap_state \<Rightarrow> 't Manager option" where
  "insert_loop T [] m st = Some m"
| "insert_loop T (orderID # orderIDs) m st = do {
     ord \<leftarrow> GetOrder st orderID;
     insert_loop T orderIDs (if \<not> IsFinished ord then mgr_AddOrder T ord m else m) st }"

definition insertOrderToMatching ::
  "'t tree_ops \<Rightarrow> 't Manager \<times> swap_state \<Rightarrow> ('t Manager \<times> swap_state) option" where
  "insertOrderToMatching T s =
     (case s of (m, st) \<Rightarrow>
        let orderIDs = getWaitToInsertMatchingOrderIDs st
        in if orderIDs = [] then Some (m, st)
           else do {
             m \<leftarrow> insert_loop T orderIDs m st;
             Some (m, st\<lparr>sw_waitInsert := []\<rparr>) })"

fun remove_loop :: "'t tree_ops \<Rightarrow> string list \<Rightarrow> 't Manager \<Rightarrow> swap_state \<Rightarrow> 't Manager option" where
  "remove_loop T [] m st = Some m"
| "remove_loop T (orderID # orderIDs) m st = do {
     ord \<leftarrow> GetOrder st orderID;
     remove_loop T orderIDs (mgr_DelOrder T ord m) st }"

definition removeOrderFromMatching ::
  "'t tree_ops \<Rightarrow> 't Manager \<times> swap_state \<Rightarrow> ('t Manager \<times> swap_state) option" where
  "removeOrderFromMatching T s =
     (case s of (m, st) \<Rightarrow>
        let orderIDs = getWaitToRemoveFromMatchingOrderIDs st
        in if orderIDs = [] then Some (m, st)
           else do {
             m \<leftarrow> remove_loop T orderIDs m st;
             Some (m, st\<lparr>sw_waitRemove := []\<rparr>) })"

definition UpdateOrdersInMatching ::
  "'t tree_ops \<Rightarrow> Context \<Rightarrow> 't Manager \<times> swap_state \<Rightarrow> ('t Manager \<times> swap_state) option" where
  "UpdateOrdersInMatching T ctx s = do {
     s \<leftarrow> clearExpiredOrders T ctx s;
     s \<leftarrow> insertOrderToMatching T s;
     removeOrderFromMatching T s }"

section \<open>Blocks\<close>

text \<open>The first block after a start of the process fills the books from the store.\<close>

definition BeginBlock :: "'t tree_ops \<Rightarrow> bool \<Rightarrow> 't Manager \<times> swap_state \<Rightarrow> ('t Manager \<times> swap_state) option" where
  "BeginBlock T once s =
     (case s of (m, st) \<Rightarrow> if once then map_option (\<lambda>m. (m, st)) (mgr_Init T st m) else Some (m, st))"

definition EndBlock :: "'t tree_ops \<Rightarrow> Context \<Rightarrow> 't Manager \<times> swap_state \<Rightarrow> ('t Manager \<times> swap_state) option" where
  "EndBlock T ctx s =
     (case s of (m, st) \<Rightarrow> do {
        st \<leftarrow> Mining ctx st;
        s \<leftarrow> UpdateOrdersInMatching T ctx (m, st);
        (m, st) \<leftarrow> MatchingOrders T ctx s;
        (_, st) \<leftarrow> RepurchaseAndBurn ctx st;
        Some (m, st) })"

end
