(* ===== verification/SwapHandler.thy ===== *)
theory SwapHandler
  imports SwapMatching
begin

text \<open>
  \<open>x/openswap/types/msg.go\<close>, \<open>x/openswap/handler.go\<close> and \<open>x/openswap/genesis.go\<close>: the messages of the
  module with their stateless validation, and the handlers that run them.  The validation of an
  address and of an order identifier is done by third-party decoders, which are the parameters
  \<open>decodes\<close> and \<open>uuid_ok\<close>.  A validation returns the error, \<open>None\<close> for nil.
\<close>

section \<open>Messages\<close>

record MsgCreateDex =
  cd_From :: CUAddress
  cd_Name :: string
  cd_IncomeReceiver :: CUAddress

record MsgEditDex =
  ed_From :: CUAddress
  ed_DexID :: uint32
  ed_Name :: string
  ed_IncomeReceiver :: "CUAddress option"

record MsgCreateTradingPair =
  ct_From :: CUAddress
  ct_DexID :: uint32
  ct_TokenA :: Symbol
  ct_TokenB :: Symbol
  ct_IsPublic :: bool
  ct_LPRewardRate :: Dec
  ct_RefererRewardRate :: Dec

record MsgEditTradingPair =
  et_From :: CUAddress
  et_DexID :: uint32
  et_TokenA :: Symbol
  et_TokenB :: Symbol
  et_IsPublic :: "bool option"
  et_LPRewardRate :: "Dec option"
  et_RefererRewardRate :: "Dec option"

record MsgAddLiquidity =
  al_From :: CUAddress
  al_DexID :: uint32
  al_TokenA :: Symbol
  al_TokenB :: Symbol
  al_MaxTokenAAmount :: int
  al_MaxTokenBAmount :: int
  al_ExpiredAt :: int

record MsgRemoveLiquidity =
  rl_From :: CUAddress
  rl_DexID :: uint32
  rl_TokenA :: Symbol
  rl_TokenB :: Symbol
  rl_Liquidity :: int
  rl_ExpiredAt :: int

record MsgSwapExactIn =
  si_From :: CUAddress
  si_DexID :: uint32
  si_Referer :: CUAddress
  si_Receiver :: CUAddress
  si_AmountIn :: int
  si_MinAmountOut :: int
  si_SwapPath :: "Symbol list"
  si_ExpiredAt :: int

record MsgSwapExactOut =
  so_From :: CUAddress
  so_DexID :: uint32
  so_Referer :: CUAddress
  so_Receiver :: CUAddress
  so_MaxAmountIn :: int
  so_AmountOut :: int
  so_SwapPath :: "Symbol list"
  so_ExpiredAt :: int

text \<open>The side of an order is an integer in the message; 0 is buy and 1 is sell.\<close>

record MsgLimitSwap =
  ls_From :: CUAddress
  ls_DexID :: uint32
  ls_OrderID :: string
  ls_Referer :: CUAddress
  ls_Receiver :: CUAddress
  ls_AmountIn :: int
  ls_Price :: Dec
  ls_BaseSymbol :: Symbol
  ls_QuoteSymbol :: Symbol
  ls_Side :: int
  ls_ExpiredAt :: int

record MsgCancelLimitSwap =
  cl_From :: CUAddress
  cl_OrderIDs :: "string list"

record MsgClaimEarning =
  ce_From :: CUAddress
  ce_DexID :: uint32
  ce_TokenA :: Symbol
  ce_TokenB :: Symbol

datatype swap_msg =
    CreateDex MsgCreateDex | EditDex MsgEditDex
  | CreateTradingPair MsgCreateTradingPair | EditTradingPair MsgEditTradingPair
  | MAddLiquidity MsgAddLiquidity | MRemoveLiquidity MsgRemoveLiquidity
  | MSwapExactIn MsgSwapExactIn | MSwapExactOut MsgSwapExactOut
  | MLimitSwap MsgLimitSwap | MCancelLimitSwap MsgCancelLimitSwap
  | MClaimEarning MsgClaimEarning

section \<open>Validation\<close>

fun first_error :: "(bool \<times> sdk_error) list \<Rightarrow> sdk_error option" where
  "first_error [] = None"
| "first_error ((failed, e) # checks) = (if failed then Some e else first_error checks)"

definition MsgCreateDex_ValidateBasic :: "(CUAddress \<Rightarrow> bool) \<Rightarrow> MsgCreateDex \<Rightarrow> sdk_error option" where
  "MsgCreateDex_ValidateBasic decodes msg = first_error
     [(\<not> IsValidAddr decodes (cd_From msg), ErrInvalidAddr),
      (\<not> IsValidAddr decodes (cd_IncomeReceiver msg), ErrInvalidAddr),
      (cd_Name msg = '''' \<or> length (cd_Name msg) > maxDexNameLength, ErrInvalidTx)]"

definition MsgEditDex_ValidateBasic :: "(CUAddress \<Rightarrow> bool) \<Rightarrow> MsgEditDex \<Rightarrow> sdk_error option" where
  "MsgEditDex_ValidateBasic decodes msg = first_error
     [(\<not> IsValidAddr decodes (ed_From msg), ErrInvalidAddr),
      (case ed_IncomeReceiver msg of None \<Rightarrow> False | Some r \<Rightarrow> \<not> IsValidAddr decodes r, ErrInvalidAddr),
      (length (ed_Name msg) > maxDexNameLength, ErrInvalidTx)]"

definition MsgCreateTradingPair_ValidateBasic ::
  "(CUAddress \<Rightarrow> bool) \<Rightarrow> MsgCreateTradingPair \<Rightarrow> sdk_error option" where
  "MsgCreateTradingPair_ValidateBasic decodes msg = first_error
     [(\<not> IsValidAddr decodes (ct_From msg), ErrInvalidAddr),
      (ct_DexID msg = 0, ErrInvalidTx),
      (\<not> Symbol_IsValid (ct_TokenA msg) \<or> \<not> Symbol_IsValid (ct_TokenB msg), ErrInvalidSymbol),
      (ct_TokenA msg = ct_TokenB msg, ErrInvalidSymbol),
      (ct_LPRewardRate msg < 0 \<or> ct_LPRewardRate msg \<ge> OneDec, ErrInvalidAddr),
      (ct_RefererRewardRate msg < 0 \<or> ct_RefererRewardRate msg \<ge> OneDec, ErrInvalidAddr)]"

definition MsgEditTradingPair_ValidateBasic ::
  "(CUAddress \<Rightarrow> bool) \<Rightarrow> MsgEditTradingPair \<Rightarrow> sdk_error option" where
  "MsgEditTradingPair_ValidateBasic decodes msg = first_error
     [(\<not> IsValidAddr decodes (et_From msg), ErrInvalidAddr),
      (et_DexID msg = 0, ErrInvalidTx),
      (\<not> Symbol_IsValid (et_TokenA msg) \<or> \<not> Symbol_IsValid (et_TokenB msg), ErrInvalidSymbol),
      (et_TokenA msg = et_TokenB msg, ErrInvalidSymbol),
      (case et_LPRewardRate msg of None \<Rightarrow> False | Some r \<Rightarrow> r < 0 \<or> r \<ge> OneDec, ErrInvalidAddr),
      (case et_RefererRewardRate msg of None \<Rightarrow> False | Some r \<Rightarrow> r < 0 \<or> r \<ge> OneDec, ErrInvalidAddr)]"

definition MsgAddLiquidity_ValidateBasic :: "(CUAddress \<Rightarrow> bool) \<Rightarrow> MsgAddLiquidity \<Rightarrow> sdk_error option" where
  "MsgAddLiquidity_ValidateBasic decodes msg = first_error
     [(\<not> IsValidAddr decodes (al_From msg), ErrInvalidAddr),
      (\<not> Symbol_IsValid (al_TokenA msg) \<or> \<not> Symbol_IsValid (al_TokenB msg), ErrInvalidSymbol),
      (al_TokenA msg = al_TokenB msg, ErrInvalidSymbol),
      (\<not> al_MaxTokenAAmount msg > 0 \<or> \<not> al_MaxTokenBAmount msg > 0, ErrInvalidAmount)]"

definition MsgRemoveLiquidity_ValidateBasic :: "(CUAddress \<Rightarrow> bool) \<Rightarrow> MsgRemoveLiquidity \<Rightarrow> sdk_error option" where
  "MsgRemoveLiquidity_ValidateBasic decodes msg = first_error
     [(\<not> IsValidAddr decodes (rl_From msg), ErrInvalidAddr),
      (\<not> Symbol_IsValid (rl_TokenA msg) \<or> \<not> Symbol_IsValid (rl_TokenB msg), ErrInvalidSymbol),
      (rl_TokenA msg = rl_TokenB msg, ErrInvalidSymbol),
      (\<not> rl_Liquidity msg > 0, ErrInvalidAmount)]"

fun path_error :: "Symbol option \<Rightarrow> Symbol list \<Rightarrow> sdk_error option" where
  "path_error prev [] = None"
| "path_error prev (s # path) =
     (if \<not> Symbol_IsValid s then Some ErrInvalidSymbol
      else if prev = Some s then Some ErrInvalidSymbol
      else path_error (Some s) path)"

text \<open>The part the two swap messages share.\<close>

definition swap_ValidateBasic ::
  "(CUAddress \<Rightarrow> bool) \<Rightarrow> CUAddress \<Rightarrow> CUAddress \<Rightarrow> CUAddress \<Rightarrow> Symbol list \<Rightarrow> int \<Rightarrow> int \<Rightarrow> sdk_error option" where
  "swap_ValidateBasic decodes from referer receiver path amount1 amount2 =
     (if \<not> IsValidAddr decodes from then Some ErrInvalidAddr
      else if \<not> IsValidAddr decodes referer then Some ErrInvalidAddr
      else if \<not> IsValidAddr decodes receiver then Some ErrInvalidAddr
      else if length path < 2 then Some ErrInvalidSymbol
      else case path_error None path of
          Some e \<Rightarrow> Some e
        | None \<Rightarrow> if \<not> amount1 > 0 \<or> \<not> amount2 > 0 then Some ErrInvalidAmount else None)"

definition MsgSwapExactIn_ValidateBasic :: "(CUAddress \<Rightarrow> bool) \<Rightarrow> MsgSwapExactIn \<Rightarrow> sdk_error option" where
  "MsgSwapExactIn_ValidateBasic decodes msg =
     swap_ValidateBasic decodes (si_From msg) (si_Referer msg) (si_Receiver msg) (si_SwapPath msg)
       (si_AmountIn msg) (si_MinAmountOut msg)"

definition MsgSwapExactOut_ValidateBasic :: "(CUAddress \<Rightarrow> bool) \<Rightarrow> MsgSwapExactOut \<Rightarrow> sdk_error option" where
  "MsgSwapExactOut_ValidateBasic decodes msg =
     swap_ValidateBasic decodes (so_From msg) (so_Referer msg) (so_Receiver msg) (so_SwapPath msg)
       (so_MaxAmountIn msg) (so_AmountOut msg)"

definition MsgLimitSwap_ValidateBasic ::
  "(CUAddress \<Rightarrow> bool) \<Rightarrow> (string \<Rightarrow> bool) \<Rightarrow> MsgLimitSwap \<Rightarrow> sdk_error option" where
  "MsgLimitSwap_ValidateBasic decodes uuid_ok msg = first_error
     [(\<not> IsValidAddr decodes (ls_From msg), ErrInvalidAddr),
      (IsIllegalOrderID uuid_ok (ls_OrderID msg), ErrInvalidTx),
      (\<not> IsValidAddr decodes (ls_Referer msg), ErrInvalidAddr),
      (\<not> IsValidAddr decodes (ls_Receiver msg), ErrInvalidAddr),
      (\<not> Symbol_IsValid (ls_BaseSymbol msg), ErrInvalidSymbol),
      (\<not> Symbol_IsValid (ls_QuoteSymbol msg), ErrInvalidSymbol),
      (\<not> ls_AmountIn msg > 0, ErrInvalidAmount),
      (\<not> ls_Price msg > 0, ErrInvalidAmount),
      (ls_Side msg \<noteq> 0 \<and> ls_Side msg \<noteq> 1, ErrInvalidTx)]"

definition MsgCancelLimitSwap_ValidateBasic ::
  "(CUAddress \<Rightarrow> bool) \<Rightarrow> (string \<Rightarrow> bool) \<Rightarrow> MsgCancelLimitSwap \<Rightarrow> sdk_error option" where
  "MsgCancelLimitSwap_ValidateBasic decodes uuid_ok msg = first_error
     [(\<not> IsValidAddr decodes (cl_From msg), ErrInvalidAddr),
      (cl_OrderIDs msg = [], ErrInvalidTx),
      (IsIllegalOrderIDList uuid_ok (cl_OrderIDs msg), ErrInvalidTx)]"

definition MsgClaimEarning_ValidateBasic :: "(CUAddress \<Rightarrow> bool) \<Rightarrow> MsgClaimEarning \<Rightarrow> sdk_error option" where
  "MsgClaimEarning_ValidateBasic decodes msg = first_error
     [(\<not> IsValidAddr decodes (ce_From msg), ErrInvalidAddr),
      (\<not> Symbol_IsValid (ce_TokenA msg) \<or> \<not> Symbol_IsValid (ce_TokenB msg), ErrInvalidSymbol),
      (ce_TokenA msg = ce_TokenB msg, ErrInvalidSymbol)]"

fun ValidateBasic :: "(CUAddress \<Rightarrow> bool) \<Rightarrow> (string \<Rightarrow> bool) \<Rightarrow> swap_msg \<Rightarrow> sdk_error option" where
  "ValidateBasic decodes uuid_ok (CreateDex msg) = MsgCreateDex_ValidateBasic decodes msg"
| "ValidateBasic decodes uuid_ok (EditDex msg) = MsgEditDex_ValidateBasic decodes msg"
| "ValidateBasic decodes uuid_ok (CreateTradingPair msg) = MsgCreateTradingPair_ValidateBasic decodes msg"
| "ValidateBasic decodes uuid_ok (EditTradingPair msg) = MsgEditTradingPair_ValidateBasic decodes msg"
| "ValidateBasic decodes uuid_ok (MAddLiquidity msg) = MsgAddLiquidity_ValidateBasic decodes msg"
| "ValidateBasic decodes uuid_ok (MRemoveLiquidity msg) = MsgRemoveLiquidity_ValidateBasic decodes msg"
| "ValidateBasic decodes uuid_ok (MSwapExactIn msg) = MsgSwapExactIn_ValidateBasic decodes msg"
| "ValidateBasic decodes uuid_ok (MSwapExactOut msg) = MsgSwapExactOut_ValidateBasic decodes msg"
| "ValidateBasic decodes uuid_ok (MLimitSwap msg) = MsgLimitSwap_ValidateBasic decodes uuid_ok msg"
| "ValidateBasic decodes uuid_ok (MCancelLimitSwap msg) = MsgCancelLimitSwap_ValidateBasic decodes uuid_ok msg"
| "ValidateBasic decodes uuid_ok (MClaimEarning msg) = MsgClaimEarning_ValidateBasic decodes msg"

section \<open>Handlers\<close>

definition handleMsgCreateDex :: "MsgCreateDex \<Rightarrow> swap_state \<Rightarrow> (BalanceFlow list, swap_state) outcome" where
  "handleMsgCreateDex msg st =
     (let dex = \<lparr>dex_ID = 0, dex_Name = cd_Name msg, dex_Owner = cd_From msg,
            dex_IncomeReceiver = cd_IncomeReceiver msg\<rparr>
      in Some (Inr [], snd (SaveDex dex st)))"

definition handleMsgEditDex :: "MsgEditDex \<Rightarrow> swap_state \<Rightarrow> (BalanceFlow list, swap_state) outcome" where
  "handleMsgEditDex msg st =
     (case GetDex st (ed_DexID msg) of
        None \<Rightarrow> Some (Inl ErrInvalidTx, st)
      | Some dex \<Rightarrow>
          if dex_Owner dex \<noteq> ed_From msg then Some (Inl ErrInvalidTx, st)
          else
            let dex = (if ed_Name msg \<noteq> '''' then dex\<lparr>dex_Name := ed_Name msg\<rparr> else dex);
                dex = (case ed_IncomeReceiver msg of None \<Rightarrow> dex | Some r \<Rightarrow> dex\<lparr>dex_IncomeReceiver := r\<rparr>)
            in Some (Inr [], snd (SaveDex dex st)))"

text \<open>The two checks of the fee rates of a pair, on the rates the pair would have.\<close>

definition check_pair_rates :: "Params \<Rightarrow> bool \<Rightarrow> Dec \<Rightarrow> Dec \<Rightarrow> sdk_error option option" where
  "check_pair_rates params isPublic lpRate refererRate =
     (if isPublic \<and> refererRate < RefererTransactionBonusRate params then Some (Some ErrInvalidTx)
      else do {
        let lpRewardRate = (if isPublic then LpRewardRate params else lpRate);
        s \<leftarrow> Dec_Add lpRewardRate refererRate;
        s \<leftarrow> Dec_Add s (RepurchaseRate params);
        Some (if s > MaxFeeRate params then Some ErrInvalidTx else None) })"

definition handleMsgCreateTradingPair ::
  "Context \<Rightarrow> MsgCreateTradingPair \<Rightarrow> swap_state \<Rightarrow> (BalanceFlow list, swap_state) outcome" where
  "handleMsgCreateTradingPair ctx msg st =
     (case GetDex st (ct_DexID msg) of
        None \<Rightarrow> Some (Inl ErrInvalidTx, st)
      | Some dex \<Rightarrow>
          if dex_Owner dex \<noteq> ct_From msg then Some (Inl ErrInvalidTx, st)
          else
            case SortTokens ctx (ct_TokenA msg) (ct_TokenB msg) of
              (_, Some e) \<Rightarrow> Some (Inl e, st)
            | ((tokenA, tokenB), None) \<Rightarrow>
                if GetTradingPair st (ct_DexID msg) tokenA tokenB \<noteq> None then Some (Inl ErrInvalidTx, st)
                else do {
                  check \<leftarrow> check_pair_rates (sw_params st) (ct_IsPublic msg) (ct_LPRewardRate msg)
                    (ct_RefererRewardRate msg);
                  case check of
                    Some e \<Rightarrow> Some (Inl e, st)
                  | None \<Rightarrow> Some (Inr [], SaveTradingPair
                      (NewCustomTradingPair (ct_DexID msg) tokenA tokenB (ct_IsPublic msg)
                        (ct_LPRewardRate msg) (ct_RefererRewardRate msg)) st) })"

definition handleMsgEditTradingPair ::
  "Context \<Rightarrow> MsgEditTradingPair \<Rightarrow> swap_state \<Rightarrow> (BalanceFlow list, swap_state) outcome" where
  "handleMsgEditTradingPair ctx msg st =
     (case GetDex st (et_DexID msg) of
        None \<Rightarrow> Some (Inl ErrInvalidTx, st)
      | Some dex \<Rightarrow>
          if dex_Owner dex \<noteq> et_From msg then Some (Inl ErrInvalidTx, st)
          else
            case SortTokens ctx (et_TokenA msg) (et_TokenB msg) of
              (_, Some e) \<Rightarrow> Some (Inl e, st)
            | ((tokenA, tokenB), None) \<Rightarrow>
                (case GetTradingPair st (et_DexID msg) tokenA tokenB of
                   None \<Rightarrow> Some (Inl ErrInvalidTx, st)
                 | Some pair \<Rightarrow>
                     if et_IsPublic msg \<noteq> None \<and> \<not> IsPublic pair \<and> TotalLiquidity pair > 0
                     then Some (Inl ErrInvalidTx, st)
                     else
                       let pair = (case et_IsPublic msg of None \<Rightarrow> pair | Some p \<Rightarrow> pair\<lparr>IsPublic := p\<rparr>);
                           pair = (case et_LPRewardRate msg of None \<Rightarrow> pair | Some r \<Rightarrow> pair\<lparr>LPRewardRate := r\<rparr>);
                           pair = (case et_RefererRewardRate msg of None \<Rightarrow> pair
                                   | Some r \<Rightarrow> pair\<lparr>RefererRewardRate := r\<rparr>)
                       in do {
                         check \<leftarrow> check_pair_rates (sw_params st) (IsPublic pair) (LPRewardRate pair)
                           (RefererRewardRate pair);
                         case check of
                           Some e \<Rightarrow> Some (Inl e, st)
                         | None \<Rightarrow> Some (Inr [], SaveTradingPair pair st) }))"

definition tx_expired :: "Context \<Rightarrow> int \<Rightarrow> bool" where
  "tx_expired ctx expiredAt = (expiredAt > 0 \<and> BlockTime ctx \<ge> expiredAt)"

definition handleMsgAddLiquidity ::
  "Context \<Rightarrow> MsgAddLiquidity \<Rightarrow> swap_state \<Rightarrow> (BalanceFlow list, swap_state) outcome" where
  "handleMsgAddLiquidity ctx msg st =
     (case SortTokens ctx (al_TokenA msg) (al_TokenB msg) of
        (_, Some e) \<Rightarrow> Some (Inl e, st)
      | ((tokenA, tokenB), None) \<Rightarrow>
          if tx_expired ctx (al_ExpiredAt msg) then Some (Inl ErrInvalidTx, st)
          else
            let (maxTokenAAmount, maxTokenBAmount) =
                  (if tokenA \<noteq> al_TokenA msg then (al_MaxTokenBAmount msg, al_MaxTokenAAmount msg)
                   else (al_MaxTokenAAmount msg, al_MaxTokenBAmount msg))
            in AddLiquidity (al_From msg) (al_DexID msg) tokenA tokenB maxTokenAAmount maxTokenBAmount st)"

definition handleMsgRemoveLiquidity ::
  "Context \<Rightarrow> MsgRemoveLiquidity \<Rightarrow> swap_state \<Rightarrow> (BalanceFlow list, swap_state) outcome" where
  "handleMsgRemoveLiquidity ctx msg st =
     (case SortTokens ctx (rl_TokenA msg) (rl_TokenB msg) of
        (_, Some e) \<Rightarrow> Some (Inl e, st)
      | ((tokenA, tokenB), None) \<Rightarrow>
          if tx_expired ctx (rl_ExpiredAt msg) then Some (Inl ErrInvalidTx, st)
          else RemoveLiquidity (rl_From msg) (rl_DexID msg) tokenA tokenB (rl_Liquidity msg) st)"

fun check_path :: "Context \<Rightarrow> Symbol list \<Rightarrow> sdk_error option" where
  "check_path ctx [] = None"
| "check_path ctx (token # path) =
     (case CheckSymbol ctx token of Inl e \<Rightarrow> Some e | Inr _ \<Rightarrow> check_path ctx path)"

text \<open>Who is paid the bonus: the owner of a custom dex, else the bound referer or the one of the message.\<close>

definition find_referer ::
  "uint32 \<Rightarrow> CUAddress \<Rightarrow> CUAddress \<Rightarrow> swap_state \<Rightarrow> sdk_error + CUAddress \<times> swap_state" where
  "find_referer dexID from referer st =
     (if dexID \<noteq> 0 then
        (case GetDex st dexID of None \<Rightarrow> Inl ErrInvalidTx | Some dex \<Rightarrow> Inr (dex_IncomeReceiver dex, st))
      else
        (case GetReferer st from of
           Some r \<Rightarrow> Inr (r, st)
         | None \<Rightarrow> Inr (referer, BindReferer from referer st)))"

definition handleMsgSwapExactIn ::
  "Context \<Rightarrow> MsgSwapExactIn \<Rightarrow> swap_state \<Rightarrow> (BalanceFlow list, swap_state) outcome" where
  "handleMsgSwapExactIn ctx msg st =
     (case check_path ctx (si_SwapPath msg) of
        Some e \<Rightarrow> Some (Inl e, st)
      | None \<Rightarrow>
          if tx_expired ctx (si_ExpiredAt msg) then Some (Inl ErrInvalidTx, st)
          else case find_referer (si_DexID msg) (si_From msg) (si_Referer msg) st of
              Inl e \<Rightarrow> Some (Inl e, st)
            | Inr (referer, st) \<Rightarrow>
                SwapExactIn (si_DexID msg) (si_From msg) referer (si_Receiver msg) (si_AmountIn msg)
                  (si_MinAmountOut msg) (si_SwapPath msg) st)"

definition handleMsgSwapExactOut ::
  "Context \<Rightarrow> MsgSwapExactOut \<Rightarrow> swap_state \<Rightarrow> (BalanceFlow list, swap_state) outcome" where
  "handleMsgSwapExactOut ctx msg st =
     (case check_path ctx (so_SwapPath msg) of
        Some e \<Rightarrow> Some (Inl e, st)
      | None \<Rightarrow>
          if tx_expired ctx (so_ExpiredAt msg) then Some (Inl ErrInvalidTx, st)
          else case find_referer (so_DexID msg) (so_From msg) (so_Referer msg) st of
              Inl e \<Rightarrow> Some (Inl e, st)
            | Inr (referer, st) \<Rightarrow>
                SwapExactOut (so_DexID msg) (so_From msg) referer (so_Receiver msg) (so_AmountOut msg)
                  (so_MaxAmountIn msg) (so_SwapPath msg) st)"

text \<open>\<open>byte(side)\<close> of a side that passed the validation.\<close>

definition order_side :: "int \<Rightarrow> OrderSide" where
  "order_side i = (if i = 0 then OrderSideBuy else OrderSideSell)"

definition handleMsgLimitSwap ::
  "Context \<Rightarrow> MsgLimitSwap \<Rightarrow> swap_state \<Rightarrow> (BalanceFlow list, swap_state) outcome" where
  "handleMsgLimitSwap ctx msg st =
     (case SortTokens ctx (ls_BaseSymbol msg) (ls_QuoteSymbol msg) of
        (_, Some e) \<Rightarrow> Some (Inl e, st)
      | ((tokenA, tokenB), None) \<Rightarrow>
          if tokenA \<noteq> ls_BaseSymbol msg \<or> tokenB \<noteq> ls_QuoteSymbol msg then Some (Inl ErrInvalidSymbol, st)
          else if tx_expired ctx (ls_ExpiredAt msg) then Some (Inl ErrInvalidTx, st)
          else if GetOrder st (ls_OrderID msg) \<noteq> None then Some (Inl ErrInvalidTx, st)
          else case find_referer (ls_DexID msg) (ls_From msg) (ls_Referer msg) st of
              Inl e \<Rightarrow> Some (Inl e, st)
            | Inr (referer, st) \<Rightarrow>
                LimitSwap ctx (ls_DexID msg) (ls_OrderID msg) (ls_From msg) referer (ls_Receiver msg)
                  (ls_AmountIn msg) (ls_Price msg) (ls_BaseSymbol msg) (ls_QuoteSymbol msg)
                  (order_side (ls_Side msg)) (ls_ExpiredAt msg) st)"

definition handleMsgCancelLimitSwap ::
  "Context \<Rightarrow> MsgCancelLimitSwap \<Rightarrow> swap_state \<Rightarrow> (BalanceFlow list, swap_state) outcome" where
  "handleMsgCancelLimitSwap ctx msg st = CancelOrders ctx (cl_From msg) (cl_OrderIDs msg) st"

definition handleMsgClaimEarning ::
  "Context \<Rightarrow> MsgClaimEarning \<Rightarrow> swap_state \<Rightarrow> (BalanceFlow list, swap_state) outcome" where
  "handleMsgClaimEarning ctx msg st =
     (case SortTokens ctx (ce_TokenA msg) (ce_TokenB msg) of
        (_, Some e) \<Rightarrow> Some (Inl e, st)
      | ((tokenA, tokenB), None) \<Rightarrow> ClaimEarning ctx (ce_From msg) (ce_DexID msg) tokenA tokenB st)"

fun NewHandler :: "Context \<Rightarrow> swap_msg \<Rightarrow> swap_state \<Rightarrow> (BalanceFlow list, swap_state) outcome" where
  "NewHandler ctx (CreateDex msg) st = handleMsgCreateDex msg st"
| "NewHandler ctx (EditDex msg) st = handleMsgEditDex msg st"
| "NewHandler ctx (CreateTradingPair msg) st = handleMsgCreateTradingPair ctx msg st"
| "NewHandler ctx (EditTradingPair msg) st = handleMsgEditTradingPair ctx msg st"
| "NewHandler ctx (MAddLiquidity msg) st = handleMsgAddLiquidity ctx msg st"
| "NewHandler ctx (MRemoveLiquidity msg) st = handleMsgRemoveLiquidity ctx msg st"
| "NewHandler ctx (MSwapExactIn msg) st = handleMsgSwapExactIn ctx msg st"
| "NewHandler ctx (MSwapExactOut msg) st = handleMsgSwapExactOut ctx msg st"
| "NewHandler ctx (MLimitSwap msg) st = handleMsgLimitSwap ctx msg st"
| "NewHandler ctx (MCancelLimitSwap msg) st = handleMsgCancelLimitSwap ctx msg st"
| "NewHandler ctx (MClaimEarning msg) st = handleMsgClaimEarning ctx msg st"

section \<open>Genesis\<close>

record GenesisState =
  gs_Params :: Params

definition DefaultGenesisState :: GenesisState where
  "DefaultGenesisState = \<lparr>gs_Params = DefaultParams\<rparr>"

definition ValidateGenesis :: "GenesisState \<Rightarrow> bool option" where
  "ValidateGenesis data = Params_Validate (gs_Params data)"

definition InitGenesis :: "GenesisState \<Rightarrow> swap_state \<Rightarrow> swap_state" where
  "InitGenesis data st = st\<lparr>sw_params := gs_Params data\<rparr>"

definition ExportGenesis :: "swap_state \<Rightarrow> GenesisState" where
  "ExportGenesis st = \<lparr>gs_Params = sw_params st\<rparr>"

declare handleMsgLimitSwap_def [go_eval] handleMsgCancelLimitSwap_def [go_eval] find_referer_def [go_eval]
  tx_expired_def [go_eval] order_side_def [go_eval] BindReferer_def [go_eval]

end
