(* ===== verification/SwapInvariant.thy ===== *)
theory SwapInvariant
  imports SwapOrderFacts SwapHandler
begin

text \<open>
  The invariant of the exchange between messages: every message that succeeds keeps it, and keeps
  the total of every token over balances, holds, pools and repurchase funds.
\<close>

section \<open>The order of the tokens\<close>

definition sorted_tokens :: "(Symbol \<Rightarrow> Token option) \<Rightarrow> Symbol \<Rightarrow> Symbol \<Rightarrow> bool" where
  "sorted_tokens tk a b =
     (case (tk a, tk b) of
        (Some ta, Some tb) \<Rightarrow> (if tok_Weight ta = tok_Weight tb then a \<le> b else tok_Weight tb < tok_Weight ta)
      | _ \<Rightarrow> False)"

lemma SortTokens_sorted:
  assumes "SortTokens ctx x y = ((a, b), None)"
  shows "sorted_tokens (GetToken ctx) a b" "(a = x \<and> b = y) \<or> (a = y \<and> b = x)"
  using assms by (auto simp: SortTokens_def CheckSymbol_def sorted_tokens_def split: sum.splits option.splits if_splits)

lemma sorted_tokens_antisym: "sorted_tokens tk a b \<Longrightarrow> sorted_tokens tk b a \<Longrightarrow> a = b"
  by (auto simp: sorted_tokens_def split: option.splits if_splits)

section \<open>The invariant\<close>

definition pair_inv :: "(Symbol \<Rightarrow> Token option) \<Rightarrow> TradingPair \<Rightarrow> bool" where
  "pair_inv tk p = (pool_ok p \<and> sorted_tokens tk (TokenA p) (TokenB p) \<and>
     0 \<le> LPRewardRate p \<and> 0 \<le> RefererRewardRate p)"

definition pairs_inv :: "(Symbol \<Rightarrow> Token option) \<Rightarrow> swap_state \<Rightarrow> bool" where
  "pairs_inv tk st = kv_all (\<lambda>_. pair_inv tk) (sw_pairs st)"

lemma pairs_invD: "pairs_inv tk st \<Longrightarrow> kv_get (sw_pairs st) k = Some p \<Longrightarrow> pair_inv tk p"
  by (auto simp: pairs_inv_def dest: kv_allD)

definition orders_inv :: "swap_state \<Rightarrow> bool" where
  "orders_inv st =
     kv_all (\<lambda>i ord. o_OrderID ord = i \<and> 0 \<le> o_LockedFund ord \<and> fees_ok (o_FeeRate ord) \<and>
       validateDenom (order_tok ord)) (sw_orders st)"

text \<open>What the orders of an address have locked of a token, which its hold must cover.\<close>

definition locked :: "swap_state \<Rightarrow> CUAddress \<Rightarrow> Symbol \<Rightarrow> int" where
  "locked st a s =
     kv_sum (\<lambda>_ ord. if o_From ord = a \<and> order_tok ord = s then o_LockedFund ord else 0) (sw_orders st)"

definition holds_cover :: "swap_state \<Rightarrow> bool" where
  "holds_cover st = (\<forall>a s. locked st a s \<le> GetHoldBalance (swap_bank st) a s)"

definition swap_inv :: "(Symbol \<Rightarrow> Token option) \<Rightarrow> swap_state \<Rightarrow> bool" where
  "swap_inv tk st = (pairs_wf st \<and> rates_ok st \<and> bank_wf (swap_bank st) \<and> pairs_inv tk st \<and> orders_inv st \<and>
     holds_cover st \<and> Params_Validate (sw_params st) = Some True)"

lemma swap_inv_oriented:
  assumes "swap_inv tk st" and "sorted_tokens tk a b" and "a \<noteq> b"
  shows "oriented st d a b"
proof -
  have "kv_get (sw_pairs st) (e, b, a) = None" for e
  proof (rule ccontr)
    assume "kv_get (sw_pairs st) (e, b, a) \<noteq> None"
    then obtain p where p: "kv_get (sw_pairs st) (e, b, a) = Some p" by auto
    have "TokenA p = b" "TokenB p = a" using pairs_wfD(1) [OF _ p] assms(1) by (auto simp: swap_inv_def pair_key_def)
    moreover have "sorted_tokens tk (TokenA p) (TokenB p)"
      using pairs_invD [OF _ p] assms(1) by (auto simp: swap_inv_def pair_inv_def)
    ultimately show False using sorted_tokens_antisym assms(2,3) by blast
  qed
  then show ?thesis by (simp add: oriented_def)
qed

lemma params_valid:
  assumes "Params_Validate p = Some True"
  shows "0 < MinimumLiquidity p" "0 \<le> MaxFeeRate p" "MaxFeeRate p \<le> precisionReuse" "0 \<le> LpRewardRate p"
    "0 \<le> RepurchaseRate p" "0 \<le> RefererTransactionBonusRate p"
    "LpRewardRate p + RepurchaseRate p + RefererTransactionBonusRate p \<le> MaxFeeRate p"
  using assms by (auto simp: Params_Validate_def OneDec_def Dec_Add_def bind_Some_iff dec_checked_eq split: if_split_asm)

text \<open>The parts of the state the invariant and the totals read.\<close>

definition core :: "swap_state \<Rightarrow> _" where
  "core st = (sw_pairs st, sw_params st, swap_bank st, sw_orders st, sw_repurchase st)"

lemma core_same:
  assumes "core st' = core st"
  shows "swap_inv tk st' = swap_inv tk st" "swap_total st' s = swap_total st s"
proof -
  have eq: "sw_pairs st' = sw_pairs st" "sw_params st' = sw_params st" "swap_bank st' = swap_bank st"
    "sw_orders st' = sw_orders st" "sw_repurchase st' = sw_repurchase st"
    using assms by (simp_all add: core_def)
  show "swap_inv tk st' = swap_inv tk st"
    using pairs_cong(1) [OF eq(1)] rates_cong [OF eq(1,2)] eq
    by (simp add: swap_inv_def pairs_inv_def orders_inv_def holds_cover_def locked_def)
  show "swap_total st' s = swap_total st s" using eq by (simp add: swap_total_parts)
qed

text \<open>What a step keeps.\<close>

definition kept :: "(Symbol \<Rightarrow> Token option) \<Rightarrow> swap_state \<Rightarrow> swap_state \<Rightarrow> bool" where
  "kept tk st st' = (swap_inv tk st' \<and> (\<forall>s. swap_total st' s = swap_total st s))"

lemma kept_core: "swap_inv tk st \<Longrightarrow> core st' = core st \<Longrightarrow> kept tk st st'"
  unfolding kept_def using core_same by blast

lemma kept_trans: "kept tk st st1 \<Longrightarrow> kept tk st1 st2 \<Longrightarrow> kept tk st st2"
  by (simp add: kept_def)

section \<open>Pairs\<close>

lemma rates_ok_set:
  assumes "rates_ok st" and "fees_ok (getFeeRates st p)"
  shows "rates_ok (SaveTradingPair p st)"
proof (rule rates_okI)
  fix k q
  assume "kv_get (sw_pairs (SaveTradingPair p st)) k = Some q"
  then have "q = p \<or> kv_get (sw_pairs st) k = Some q" by (auto split: if_splits)
  moreover have "getFeeRates (SaveTradingPair p st) q = getFeeRates st q" by (simp add: getFeeRates_def)
  ultimately show "fees_ok (getFeeRates (SaveTradingPair p st) q)" using assms rates_okD by metis
qed

text \<open>A pair is replaced, and the orders, the holds and the parameters stay.\<close>

lemma swap_inv_pair:
  assumes inv: "swap_inv tk st" and pairs: "sw_pairs st' = kv_set (pair_key p) p (sw_pairs st)"
    and wf: "pairs_wf st'" and fees: "fees_ok (getFeeRates st p)"
    and p: "pool_ok p" "sorted_tokens tk (TokenA p) (TokenB p)" "0 \<le> LPRewardRate p" "0 \<le> RefererRewardRate p"
    and same: "sw_params st' = sw_params st" "sw_orders st' = sw_orders st"
    and hold: "holds (swap_bank st') = holds (swap_bank st)" and bank: "bank_wf (swap_bank st')"
  shows "swap_inv tk st'"
proof -
  have "rates_ok (SaveTradingPair p st)" using inv fees by (intro rates_ok_set) (simp_all add: swap_inv_def)
  then have "rates_ok st'" using rates_cong [of st' "SaveTradingPair p st"] pairs same by simp
  moreover have "pairs_inv tk st'" using inv p pairs by (auto simp: swap_inv_def pairs_inv_def pair_inv_def intro: kv_all_set)
  moreover have "locked st' = locked st" using same(2) by (simp add: locked_def fun_eq_iff)
  ultimately show ?thesis
    using inv wf bank same GetHoldBalance_holds [OF hold] by (simp add: swap_inv_def orders_inv_def holds_cover_def)
qed

subsection \<open>Dexes and pairs\<close>

lemma SaveDex_core: "core (snd (SaveDex dex st)) = core st"
  by (simp add: SaveDex_def core_def incDexID_def SetDexID_def Let_def split: prod.split)

lemma CreateDex_kept:
  "swap_inv tk st \<Longrightarrow> handleMsgCreateDex msg st = Some (Inr flows, st') \<Longrightarrow> kept tk st st'"
  by (auto simp: handleMsgCreateDex_def Let_def intro!: kept_core SaveDex_core)

lemma EditDex_kept:
  "swap_inv tk st \<Longrightarrow> handleMsgEditDex msg st = Some (Inr flows, st') \<Longrightarrow> kept tk st st'"
  by (auto simp: handleMsgEditDex_def Let_def split: option.splits if_splits intro!: kept_core SaveDex_core)

lemma check_pair_rates_ok:
  assumes "check_pair_rates ps pub lp ref = Some None" and "Params_Validate ps = Some True" and "0 \<le> lp" and "0 \<le> ref"
  shows "fees_ok (NewFeeRate (if pub then LpRewardRate ps else lp) (RepurchaseRate ps) ref)"
  using assms(1,3,4) params_valid [OF assms(2)]
  by (auto simp: check_pair_rates_def Let_def bind_Some_iff Dec_Add_def dec_checked_eq fees_ok_def NewFeeRate_def
      total_rate_def split: if_split_asm)

lemma getFeeRates_custom:
  "DexID p \<noteq> 0 \<Longrightarrow> getFeeRates st p =
     NewFeeRate (if IsPublic p then LpRewardRate (sw_params st) else LPRewardRate p) (RepurchaseRate (sw_params st))
       (RefererRewardRate p)"
  by (simp add: getFeeRates_def)

lemma swap_total_save:
  assumes "kv_get (sw_pairs st) (pair_key p) = q"
  shows "swap_total (SaveTradingPair p st) s = swap_total st s - (case q of None \<Rightarrow> 0 | Some q \<Rightarrow> reserve s q) + reserve s p"
proof -
  have "sw_pairs (SaveTradingPair p st) = kv_set (pair_key p) p (sw_pairs st)" by simp
  from pool_total_save [OF this, of s] show ?thesis
    using assms by (simp add: swap_total_def getRepurchaseFund_def cong: option.case_cong)
qed

lemma CreateTradingPair_kept:
  assumes inv: "swap_inv (GetToken ctx) st" and valid: "MsgCreateTradingPair_ValidateBasic decodes msg = None"
    and run: "handleMsgCreateTradingPair ctx msg st = Some (Inr flows, st')"
  shows "kept (GetToken ctx) st st'"
proof -
  obtain a b where sort: "SortTokens ctx (ct_TokenA msg) (ct_TokenB msg) = ((a, b), None)"
    and new: "GetTradingPair st (ct_DexID msg) a b = None"
    and chk: "check_pair_rates (sw_params st) (ct_IsPublic msg) (ct_LPRewardRate msg) (ct_RefererRewardRate msg) = Some None"
    and st': "st' = SaveTradingPair (NewCustomTradingPair (ct_DexID msg) a b (ct_IsPublic msg) (ct_LPRewardRate msg)
        (ct_RefererRewardRate msg)) st"
    using run by (auto simp: handleMsgCreateTradingPair_def bind_Some_iff split: option.split_asm if_split_asm prod.split_asm)
  have v: "ct_DexID msg \<noteq> 0" "ct_TokenA msg \<noteq> ct_TokenB msg" "0 \<le> ct_LPRewardRate msg" "0 \<le> ct_RefererRewardRate msg"
    using valid by (auto simp: MsgCreateTradingPair_ValidateBasic_def split: if_split_asm)
  let ?p = "NewCustomTradingPair (ct_DexID msg) a b (ct_IsPublic msg) (ct_LPRewardRate msg) (ct_RefererRewardRate msg)"
  have ps: "Params_Validate (sw_params st) = Some True" using inv by (simp add: swap_inv_def)
  note srt = SortTokens_sorted [OF sort]
  have ab: "a \<noteq> b" using srt(2) v(2) by auto
  have none: "kv_get (sw_pairs st) (ct_DexID msg, a, b) = None" "kv_get (sw_pairs st) (ct_DexID msg, b, a) = None"
    using new by (auto simp: GetTradingPair_def split: option.split_asm)
  have pok: "pair_ok ?p" using ab by (simp add: pair_ok_def NewCustomTradingPair_def)
  have "swap_inv (GetToken ctx) st'"
  proof (rule swap_inv_pair [OF inv])
    show "sw_pairs st' = kv_set (pair_key ?p) ?p (sw_pairs st)" by (simp add: st')
    show "pairs_wf st'"
      using inv pok none(2) unfolding st' by (intro pairs_wf_insert) (simp_all add: swap_inv_def NewCustomTradingPair_def)
    show "fees_ok (getFeeRates st ?p)"
      using check_pair_rates_ok [OF chk ps v(3,4)] v(1) by (simp add: getFeeRates_custom NewCustomTradingPair_def split: if_split_asm)
    show "bank_wf (swap_bank st')" using inv by (simp add: st' swap_inv_def)
  qed (use srt(1) v in \<open>simp_all add: st' pool_ok_def NewCustomTradingPair_def\<close>)
  moreover have "swap_total st' s = swap_total st s" for s
    using swap_total_save [of st ?p None s] none(1)
    by (simp add: st' pair_key_def NewCustomTradingPair_def reserve_def)
  ultimately show ?thesis by (simp add: kept_def)
qed

lemma EditTradingPair_kept:
  assumes inv: "swap_inv (GetToken ctx) st" and valid: "MsgEditTradingPair_ValidateBasic decodes msg = None"
    and run: "handleMsgEditTradingPair ctx msg st = Some (Inr flows, st')"
  shows "kept (GetToken ctx) st st'"
proof -
  obtain a b q p where sort: "SortTokens ctx (et_TokenA msg) (et_TokenB msg) = ((a, b), None)"
    and q: "GetTradingPair st (et_DexID msg) a b = Some q"
    and p: "p = (let pair = (case et_IsPublic msg of None \<Rightarrow> q | Some p \<Rightarrow> q\<lparr>IsPublic := p\<rparr>);
        pair = (case et_LPRewardRate msg of None \<Rightarrow> pair | Some r \<Rightarrow> pair\<lparr>LPRewardRate := r\<rparr>)
      in (case et_RefererRewardRate msg of None \<Rightarrow> pair | Some r \<Rightarrow> pair\<lparr>RefererRewardRate := r\<rparr>))"
    and chk: "check_pair_rates (sw_params st) (IsPublic p) (LPRewardRate p) (RefererRewardRate p) = Some None"
    and st': "st' = SaveTradingPair p st"
    using run unfolding handleMsgEditTradingPair_def Let_def
    by (simp split: option.split_asm if_split_asm prod.split_asm bind_split_asm)
  have v: "et_DexID msg \<noteq> 0" "\<And>r. et_LPRewardRate msg = Some r \<Longrightarrow> 0 \<le> r" "\<And>r. et_RefererRewardRate msg = Some r \<Longrightarrow> 0 \<le> r"
    using valid by (auto simp: MsgEditTradingPair_ValidateBasic_def split: if_split_asm option.split_asm)
  have wf: "pairs_wf st" and ps: "Params_Validate (sw_params st) = Some True" using inv by (simp_all add: swap_inv_def)
  note Q = GetTradingPair_Some [OF wf q]
  have Qi: "pool_ok q" "sorted_tokens (GetToken ctx) (TokenA q) (TokenB q)" "0 \<le> LPRewardRate q" "0 \<le> RefererRewardRate q"
    using pairs_invD [OF _ Q(1)] inv by (auto simp: swap_inv_def pair_inv_def)
  have same: "pair_key p = pair_key q" "TokenA p = TokenA q" "TokenB p = TokenB q" "TokenAAmount p = TokenAAmount q"
    "TokenBAmount p = TokenBAmount q" "TotalLiquidity p = TotalLiquidity q" "DexID p = DexID q"
    unfolding p Let_def by (auto simp: pair_key_def split: option.split)
  have rates: "0 \<le> LPRewardRate p" "0 \<le> RefererRewardRate p"
    unfolding p Let_def using Qi v(2,3) by (auto split: option.split)
  have "swap_inv (GetToken ctx) st'"
  proof (rule swap_inv_pair [OF inv])
    show "sw_pairs st' = kv_set (pair_key p) p (sw_pairs st)" by (simp add: st')
    show "pairs_wf st'" unfolding st'
      by (rule pairs_wf_save [OF wf Q(1) same(1)]) (use Q(3) same in \<open>simp add: pair_ok_def\<close>)
    show "fees_ok (getFeeRates st p)"
      using check_pair_rates_ok [OF chk ps rates] v(1) Q(2) same(7) by (simp add: getFeeRates_custom)
    show "bank_wf (swap_bank st')" using inv by (simp add: st' swap_inv_def)
  qed (use Qi same rates in \<open>simp_all add: st' pool_ok_def\<close>)
  moreover have "swap_total st' s = swap_total st s" for s
    using swap_total_save [of st p "Some q" s] Q(1) same by (simp add: st' reserve_def)
  ultimately show ?thesis by (simp add: kept_def)
qed

subsection \<open>Liquidity\<close>

lemma fees_ok_from:
  assumes inv: "swap_inv tk st" and q: "\<And>q. old = Some q \<Longrightarrow> kv_get (sw_pairs st) (pair_key q) = Some q"
    and rf: "rates_from old p"
  shows "fees_ok (getFeeRates st p)" "0 \<le> LPRewardRate p" "0 \<le> RefererRewardRate p"
proof -
  have "fees_ok (getFeeRates st p) \<and> 0 \<le> LPRewardRate p \<and> 0 \<le> RefererRewardRate p"
  proof (cases old)
    case None
    have "Params_Validate (sw_params st) = Some True" using inv by (simp add: swap_inv_def)
    from params_valid [OF this] show ?thesis
      using rf None by (simp add: rates_from_def getFeeRates_def fees_ok_def NewFeeRate_def total_rate_def)
  next
    case (Some r)
    have k: "kv_get (sw_pairs st) (pair_key r) = Some r" using q [OF Some] .
    have "getFeeRates st p = getFeeRates st r" using rf Some by (simp add: rates_from_def getFeeRates_def)
    then show ?thesis
      using rf Some rates_okD [OF _ k] pairs_invD [OF _ k] inv
      by (auto simp: rates_from_def swap_inv_def pair_inv_def)
  qed
  then show "fees_ok (getFeeRates st p)" "0 \<le> LPRewardRate p" "0 \<le> RefererRewardRate p" by auto
qed

lemma hop_pool_inv:
  assumes "swap_inv tk st" and "hop_pool st d a b = Some q"
  shows "pool_ok q" "kv_get (sw_pairs st) (pair_key q) = Some q"
proof -
  have wf: "pairs_wf st" using assms(1) by (simp add: swap_inv_def)
  show k: "kv_get (sw_pairs st) (pair_key q) = Some q" using hop_pool_Some(1) [OF wf assms(2)] .
  show "pool_ok q" using pairs_invD [OF _ k] assms(1) by (auto simp: swap_inv_def pair_inv_def)
qed

lemma AddLiquidity_kept:
  assumes inv: "swap_inv tk st" and sort: "sorted_tokens tk a b"
    and run: "AddLiquidity from d a b mA mB st = Some (Inr flows, st')" and ab: "a \<noteq> b"
  shows "kept tk st st'"
proof -
  have wf: "pairs_wf st" and bwf: "bank_wf (swap_bank st)" and ps: "Params_Validate (sw_params st) = Some True"
    using inv by (simp_all add: swap_inv_def)
  note o = swap_inv_oriented [OF inv sort ab, of d]
  have pool: "pool_ok q" if "hop_pool st d a b = Some q" for q using hop_pool_inv(1) [OF inv that] .
  have "swap_inv tk st'"
  proof (rule AddLiquidity_effect [OF run wf o pool params_valid(1) [OF ps]])
    fix nA nB l p L0
    assume pos: "0 < nA" "0 < nB" "0 < l" "0 < L0"
      and p: "TokenA p = a" "TokenB p = b" "TokenAAmount p = pool_A (hop_pool st d a b) + nA"
        "TokenBAmount p = pool_B (hop_pool st d a b) + nB" "TotalLiquidity p = L0 + l"
      and st': "sw_pairs st' = kv_set (pair_key p) p (sw_pairs st)" "pairs_wf st'" "sw_params st' = sw_params st"
        "sw_orders st' = sw_orders st" "holds (swap_bank st') = holds (swap_bank st)"
        "bank_wf (swap_bank st) \<Longrightarrow> bank_wf (swap_bank st')"
      and r: "rates_from (hop_pool st d a b) p"
    have nn: "0 \<le> pool_A (hop_pool st d a b)" "0 \<le> pool_B (hop_pool st d a b)"
      using hop_pool_Some(2) [OF wf] by (auto simp: pool_A_def pool_B_def pair_ok_def split: option.split)
    note f = fees_ok_from [OF inv hop_pool_inv(2) [OF inv] r]
    show ?thesis
      by (rule swap_inv_pair [OF inv st'(1,2) f(1) _ _ f(2,3) st'(3-5) st'(6) [OF bwf]])
        (use nn pos p sort in \<open>simp_all add: pool_ok_def\<close>)
  qed simp
  moreover have "swap_total st' s = swap_total st s" for s
    using AddLiquidity_conserves [OF run wf o pool params_valid(1) [OF ps]] by simp
  ultimately show ?thesis by (simp add: kept_def)
qed

lemma remove_leaves:
  fixes A T l :: int
  assumes "0 < A" and "l \<le> T" and "0 < T" and "0 \<le> A" and "0 < l"
  shows "l < T \<Longrightarrow> 0 < A - l * A div T" "l = T \<Longrightarrow> A - l * A div T = 0"
proof -
  assume "l < T"
  then have "l * A < A * T" using assms(1) by (simp add: mult.commute)
  then have "l * A div T < A" using div_less_iff_int [OF assms(3), of "l * A" A] by simp
  then show "0 < A - l * A div T" by simp
next
  assume "l = T"
  then show "A - l * A div T = 0" using assms(3) by simp
qed

lemma RemoveLiquidity_kept:
  assumes inv: "swap_inv tk st" and sort: "sorted_tokens tk a b"
    and run: "RemoveLiquidity from d a b l st = Some (Inr flows, st')" and ab: "a \<noteq> b"
  shows "kept tk st st'"
proof -
  have wf: "pairs_wf st" and bwf: "bank_wf (swap_bank st)" using inv by (simp_all add: swap_inv_def)
  note o = swap_inv_oriented [OF inv sort ab, of d]
  have "swap_inv tk st'"
  proof (rule RemoveLiquidity_effect [OF run wf o])
    fix q p rA rB
    assume q: "hop_pool st d a b = Some q" "0 < l" "l \<le> TotalLiquidity q"
        "rA = l * TokenAAmount q div TotalLiquidity q" "rB = l * TokenBAmount q div TotalLiquidity q"
      and p: "TokenA p = a" "TokenB p = b" "TokenAAmount p = TokenAAmount q - rA" "TokenBAmount p = TokenBAmount q - rB"
        "TotalLiquidity p = TotalLiquidity q - l"
      and st': "sw_pairs st' = kv_set (pair_key p) p (sw_pairs st)" "pairs_wf st'" "sw_params st' = sw_params st"
        "sw_orders st' = sw_orders st" "holds (swap_bank st') = holds (swap_bank st)"
        "bank_wf (swap_bank st) \<Longrightarrow> bank_wf (swap_bank st')"
      and r: "rates_from (Some q) p"
    have "pool_ok q" using hop_pool_inv(1) [OF inv q(1)] .
    then have q0: "0 < TotalLiquidity q" "0 < TokenAAmount q" "0 < TokenBAmount q"
      using q(2,3) by (auto simp: pool_ok_def split: if_split_asm)
    have pok: "pool_ok p"
    proof (cases "l = TotalLiquidity q")
      case True
      then show ?thesis using remove_leaves(2) [OF _ q(3)] q0 p(3-5) unfolding q(4,5) by (simp add: pool_ok_def)
    next
      case False
      then have "l < TotalLiquidity q" using q(3) by simp
      with remove_leaves(1) [OF q0(2) q(3) q0(1)] remove_leaves(1) [OF q0(3) q(3) q0(1)]
      have "0 < TokenAAmount p" "0 < TokenBAmount p" using q0 q(2) unfolding p(3,4) q(4,5) by simp_all
      then show ?thesis using False p(5) by (simp add: pool_ok_def)
    qed
    have f: "fees_ok (getFeeRates st p)" "0 \<le> LPRewardRate p" "0 \<le> RefererRewardRate p"
      using fees_ok_from [OF inv _ r] hop_pool_inv(2) [OF inv q(1)] by auto
    show ?thesis
      by (rule swap_inv_pair [OF inv st'(1,2) f(1) pok _ f(2,3) st'(3-5) st'(6) [OF bwf]]) (use p sort in simp)
  qed
  moreover have "swap_total st' s = swap_total st s" for s using RemoveLiquidity_conserves [OF run wf o] .
  ultimately show ?thesis by (simp add: kept_def)
qed

subsection \<open>Trades\<close>

text \<open>The pools along a path have reserves; the quotes check it, and a swap keeps it.\<close>

definition filled :: "TradingPair option \<Rightarrow> bool" where
  "filled q = (case q of None \<Rightarrow> False | Some p \<Rightarrow> 0 < TokenAAmount p \<and> 0 < TokenBAmount p)"

fun live :: "swap_state \<Rightarrow> uint32 \<Rightarrow> Symbol list \<Rightarrow> bool" where
  "live st d (a # b # path) = (filled (hop_pool st d a b) \<and> live st d (b # path))"
| "live st d path = True"

lemma getReserves_filled:
  assumes "GetTradingPair st d a b = Some p" and "getReserves st p a b = (x, y)" and "0 < x" and "0 < y"
  shows "filled (hop_pool st d a b)"
  using assms getReserves_pool [OF assms(1)]
  by (auto simp: filled_def res_in_def res_out_def split: option.split_asm if_split_asm)

lemma getAmountOut_live: "getAmountOut st d x path = Some (Inr y) \<Longrightarrow> live st d path"
proof (induction path arbitrary: x rule: hops.induct)
  case (1 a b path)
  obtain p where p: "GetTradingPair st d a b = Some p" using "1.prems" by (auto split: option.splits)
  obtain rin rout where r: "getReserves st p a b = (rin, rout)" by (cases "getReserves st p a b")
  have pos: "0 < rin" "0 < rout" using "1.prems" by (auto simp: p r split: if_split_asm)
  obtain z where "getAmountOut st d z (b # path) = Some (Inr y)"
    using "1.prems" pos by (auto simp: p r bind_Some_iff simp del: getAmountOut.simps(2,3))
  then show ?case using "1.IH" getReserves_filled [OF p r pos] by simp
qed simp_all

lemma getAmountIn_live: "getAmountIn st d y path = Some (Inr x) \<Longrightarrow> live st d path"
proof (induction path arbitrary: x rule: hops.induct)
  case (1 a b path)
  obtain z where z: "getAmountIn st d y (b # path) = Some (Inr z)" and h: "getAmountIn_loop st d z [b, a] = Some (Inr x)"
    using "1.prems" by (rule getAmountIn_ConsE)
  obtain p where p: "GetTradingPair st d a b = Some p" using h by (auto split: option.splits)
  obtain rin rout where r: "getReserves st p a b = (rin, rout)" by (cases "getReserves st p a b")
  have pos: "0 < rin" "0 < rout" using h by (auto simp: p r split: if_split_asm)
  show ?case using "1.IH" [OF z] getReserves_filled [OF p r pos] by simp
qed simp_all

lemma GetTradingPair_update:
  assumes wf: "pairs_wf st" and q: "kv_get (sw_pairs st) (pair_key q) = Some q" and same: "pair_key q' = pair_key q"
  shows "GetTradingPair (SaveTradingPair q' st) e a b =
    map_option (\<lambda>p. if pair_key p = pair_key q then q' else p) (GetTradingPair st e a b)"
proof -
  have "kv_get (sw_pairs (SaveTradingPair q' st)) k =
      map_option (\<lambda>p. if pair_key p = pair_key q then q' else p) (kv_get (sw_pairs st) k)" for k
    using pairs_wfD(1) [OF wf, of k] q same by (cases "kv_get (sw_pairs st) k") auto
  then show ?thesis by (simp add: GetTradingPair_def split: option.split)
qed

lemma hop_pool_update:
  assumes wf: "pairs_wf st" and q: "kv_get (sw_pairs st) (pair_key q) = Some q" and same: "same_pair q q'"
  shows "hop_pool (SaveTradingPair q' st) d a b =
    map_option (\<lambda>p. if pair_key p = pair_key q then q' else p) (hop_pool st d a b)"
proof (cases "GetTradingPair st d a b")
  case None
  then show ?thesis by (simp add: hop_pool_def GetTradingPair_update [OF wf q same_pair_key [OF same]])
next
  case (Some p)
  have "p = q" if "pair_key p = pair_key q" using GetTradingPair_Some(1) [OF wf Some] q that by (metis option.inject)
  then show ?thesis using Some same
    by (auto simp: hop_pool_def GetTradingPair_update [OF wf q same_pair_key [OF same]] same_pair_def)
qed

lemma live_update:
  assumes "pairs_wf st" and "kv_get (sw_pairs st) (pair_key q) = Some q" and "same_pair q q'"
    and "0 < TokenAAmount q'" and "0 < TokenBAmount q'"
  shows "live st d path \<Longrightarrow> live (SaveTradingPair q' st) d path"
proof (induction path rule: hops.induct)
  case (1 a b path)
  then show ?case using assms(4,5)
    by (auto simp: hop_pool_update [OF assms(1-3)] filled_def split: option.split_asm)
qed simp_all

lemma swap_path_pairs:
  "swap_path d path x bc rf st = Some (res, st') \<Longrightarrow> pairs_wf st \<Longrightarrow> rates_ok st \<Longrightarrow> 0 \<le> x \<Longrightarrow>
   live st d path \<Longrightarrow> pairs_inv tk st \<Longrightarrow> pairs_inv tk st'"
proof (induction path arbitrary: x bc rf st rule: hops.induct)
  case (1 a b path)
  obtain p q out bonus fund q' st1 bc1 rf1 where
    p: "GetTradingPair st d a b = Some p" and q: "hop_pool st d a b = Some q"
    and sw: "swap (getFeeRates st p) q a x False st = Some ((out, bonus, fund, q'), st1)"
    and rest: "swap_path d (b # path) out bc1 rf1 st1 = Some (res, st')"
    using "1.prems"(1) by (rule swap_path_hop)
  have fees: "fees_ok (getFeeRates st p)"
    using rates_okD [OF "1.prems"(3) GetTradingPair_Some(1) [OF "1.prems"(2) p]] .
  note Q = hop_pool_Some [OF "1.prems"(2) q]
  note keep = swap_keeps [OF sw "1.prems"(2,3) Q(1) fees "1.prems"(4)]
  have "0 < TokenAAmount q" "0 < TokenBAmount q" using "1.prems"(5) q by (simp_all add: filled_def)
  then have "0 < res_in q a" "0 < res_out q a" by (simp_all add: res_in_def res_out_def)
  from swap_positive [OF sw fees "1.prems"(4) this] have pos: "0 < TokenAAmount q'" "0 < TokenBAmount q'"
    by (auto simp: res_in_def res_out_def split: if_splits)
  have "live st1 d (b # path)" unfolding keep(3)
    using live_update [OF "1.prems"(2) Q(1) keep(4) pos] "1.prems"(5) by simp
  moreover have "pair_inv tk q'"
    using pairs_invD [OF "1.prems"(6) Q(1)] keep(4) pos \<open>0 < TokenAAmount q\<close>
    by (auto simp: pair_inv_def pool_ok_def same_pair_def split: if_split_asm)
  then have "pairs_inv tk st1" using "1.prems"(6) keep(3) by (simp add: pairs_inv_def kv_all_set)
  ultimately show ?case using "1.IH" [OF rest keep(1,2,5)] by blast
qed simp_all

lemma directSwap_kept:
  assumes inv: "swap_inv tk st" and live: "live st d path"
    and run: "directSwap d from referer receiver x path st = Some (Inr flows, st')"
  shows "kept tk st st'"
proof -
  have wf: "pairs_wf st" and ro: "rates_ok st" and bwf: "bank_wf (swap_bank st)" using inv by (simp_all add: swap_inv_def)
  note con = directSwap_conserves [OF run wf ro]
  obtain need c fl b1 out bc rf st2 b2 b3 where
    need: "NewCoin (hd path) x = Some need" and
    sub: "SubCoin from need (swap_bank st) = Some (Inr (c, fl), b1)" and
    sp: "swap_path d path x [] [] (with_bank b1 st) = Some ((out, bc, rf), st2)" and
    rcv: "if out > 0 then \<exists>o_coin r. NewCoin (last path) out = Some o_coin \<and>
        AddCoin receiver o_coin (swap_bank st2) = Some (Inr r, b2) else b2 = swap_bank st2" and
    ref: "if Coins_IsValid bc then \<exists>r. AddCoins referer bc b2 = Some (Inr r, b3) else b3 = b2" and
    rf: "addRepurchaseFunds rf (with_bank b3 st2) = Some st'"
    using run by (rule directSwap_cases)
  have x: "0 \<le> x" using need by (simp add: NewCoin_Some)
  have keep: "sw_ledger st2 = sw_ledger (with_bank b1 st)" "sw_params st2 = sw_params st" "sw_orders st2 = sw_orders st"
    using swap_path_keeps [OF sp] wf ro x by simp_all
  have "live (with_bank b1 st) d path \<longleftrightarrow> live st d path"
    using pairs_cong(3) [of "with_bank b1 st" st] by (induction path rule: hops.induct) auto
  then have "pairs_inv tk st2"
    using swap_path_pairs [OF sp, of tk] wf ro x live inv by (simp add: swap_inv_def pairs_inv_def)
  moreover note fin = addRepurchaseFunds_keeps [OF rf]
  moreover have "holds b1 = holds (swap_bank st)" using sub_coin.op_other [OF sub] .
  moreover have "holds b2 = holds (swap_bank st2)" using rcv add_coin.op_other by (auto split: if_split_asm)
  moreover have "holds b3 = holds b2" using ref AddCoins_Inr(2) by (auto split: if_split_asm)
  ultimately have h: "holds (swap_bank st') = holds (swap_bank st)" and pi: "pairs_inv tk st'"
    and same: "sw_params st' = sw_params st" "sw_orders st' = sw_orders st" using keep by (simp_all add: pairs_inv_def)
  have "orders_inv st'" "holds_cover st'"
    using inv same GetHoldBalance_holds [OF h] by (simp_all add: swap_inv_def orders_inv_def holds_cover_def locked_def)
  then show ?thesis using con(1-3) con(4) [OF bwf] pi same(1) inv by (simp add: kept_def swap_inv_def)
qed

subsection \<open>Orders\<close>

lemma locked_save:
  "sw_orders st' = kv_set i ord (sw_orders st) \<Longrightarrow> locked st' a s = locked st a s -
     (case kv_get (sw_orders st) i of None \<Rightarrow> 0 | Some old \<Rightarrow> if o_From old = a \<and> order_tok old = s then o_LockedFund old else 0) +
     (if o_From ord = a \<and> order_tok ord = s then o_LockedFund ord else 0)"
  by (simp add: locked_def weight_def)

lemma locked_ge:
  assumes "orders_inv st" and "kv_get (sw_orders st) i = Some ord"
  shows "o_LockedFund ord \<le> locked st (o_From ord) (order_tok ord)"
proof -
  let ?f = "\<lambda>_ x. if o_From x = o_From ord \<and> order_tok x = order_tok ord then o_LockedFund x else 0"
  have "weight ?f i (kv_get (sw_orders st) i) \<le> kv_sum ?f (sw_orders st)"
    by (rule kv_sum_ge) (use assms(1) in \<open>auto simp: orders_inv_def kv_all_iff\<close>)
  then show ?thesis using assms(2) by (simp add: locked_def)
qed

lemma fill_tok [simp]: "order_tok (fill ctx x ord) = order_tok ord"
  by (simp add: order_tok_def)

lemma attempted_simps:
  assumes "attempted st st' pair' ords"
  shows "sw_pairs st' = kv_set (pair_key pair') pair' (sw_pairs st)" "sw_params st' = sw_params st" "sw_orders st' = ords"
  using assms by (auto simp: attempted_def)

text \<open>An attempt on an order of the store, whose funds are on hold.\<close>

lemma limitSwap_kept:
  assumes inv: "swap_inv tk st" and run: "limitSwap ctx ord pair st = Some ((flows, ev, pair', suit, ord'), st')"
    and pair: "kv_get (sw_pairs st) (pair_key pair) = Some pair" and tok: "order_in ord pair = order_tok ord"
    and ord: "kv_get (sw_orders st) (o_OrderID ord) = Some ord"
  shows "kept tk st st'" "kv_get (sw_orders st') (o_OrderID ord) = Some ord'" "kv_get (sw_pairs st') (pair_key pair') = Some pair'"
    "same_pair pair pair'"
proof -
  have i: "pairs_wf st" "rates_ok st" "bank_wf (swap_bank st)" "pairs_inv tk st" "orders_inv st" "holds_cover st"
    "Params_Validate (sw_params st) = Some True" using inv by (simp_all add: swap_inv_def)
  have o: "0 \<le> o_LockedFund ord" "fees_ok (o_FeeRate ord)" "validateDenom (order_tok ord)" using kv_allD [OF i(5) [unfolded orders_inv_def] ord] by simp_all
  have hold: "o_LockedFund ord \<le> GetHoldBalance (swap_bank st) (o_From ord) (order_in ord pair)"
    using locked_ge [OF i(5) ord] i(6) unfolding holds_cover_def tok by (meson order_trans)
  obtain x where x: "0 \<le> x" "x \<le> o_LockedFund ord" "ord' = (if ev = None then ord else fill ctx x ord)"
    "case ev of None \<Rightarrow> x = 0 | Some e \<Rightarrow> ev_AmountIn e = x \<and> suit"
    and st': "pairs_wf st'" "rates_ok st'" "same_pair pair pair'" "kv_get (sw_pairs st') (pair_key pair') = Some pair'"
      "pool_ok pair \<Longrightarrow> pool_ok pair'"
    and att: "attempted st st' pair' (if ev = None then sw_orders st else kv_set (o_OrderID ord) ord' (sw_orders st))"
    and bank: "bank_wf (swap_bank st) \<Longrightarrow> bank_wf (swap_bank st')" 
    and tot: "\<And>s. o_LockedFund ord \<le> GetHoldBalance (swap_bank st) (o_From ord) (order_in ord pair) \<Longrightarrow>
        swap_total st' s = swap_total st s"
    and bal: "\<And>y s. o_LockedFund ord \<le> GetHoldBalance (swap_bank st) (o_From ord) (order_in ord pair) \<Longrightarrow>
        GetHoldBalance (swap_bank st') y s =
        GetHoldBalance (swap_bank st) y s - (if y = o_From ord \<and> s = order_in ord pair then x else 0)"
    by (rule limitSwap_effect [OF run i(1,2) pair o(2,1)]) (rule that; blast)
  note a = attempted_simps [OF att]
  have lf: "o_LockedFund ord' = o_LockedFund ord - x" "o_OrderID ord' = o_OrderID ord" "o_From ord' = o_From ord"
    "order_tok ord' = order_tok ord" "o_FeeRate ord' = o_FeeRate ord"
    using x(3,4) by (auto split: option.split_asm)
  have ords: "sw_orders st' = kv_set (o_OrderID ord) ord' (sw_orders st)"
    using a(3) x(3) kv_set_id [OF ord] by (simp split: if_split_asm)
  have "pair_inv tk pair'" using pairs_invD [OF i(4) pair] st'(3,5) by (auto simp: pair_inv_def same_pair_def)
  then have "pairs_inv tk st'" using i(4) a(1) by (simp add: pairs_inv_def kv_all_set)
  moreover have "orders_inv st'" using i(5) o x(1,2) lf by (simp add: orders_inv_def ords kv_all_set)
  moreover have "locked st' y s = locked st y s - (if y = o_From ord \<and> s = order_tok ord then x else 0)" for y s
    using locked_save [OF ords, of y s] ord lf by auto
  then have "holds_cover st'" using i(6) bal [OF hold] tok by (simp add: holds_cover_def)
  ultimately show "kept tk st st'" using st'(1,2) bank [OF i(3)] i(7) a(2) tot [OF hold] by (simp add: kept_def swap_inv_def)
  show "kv_get (sw_orders st') (o_OrderID ord) = Some ord'" using ords by simp
  show "kv_get (sw_pairs st') (pair_key pair') = Some pair'" "same_pair pair pair'" using st' by simp_all
qed

lemma LimitSwap_kept:
  assumes inv: "swap_inv tk st" and sort: "sorted_tokens tk base quote" and new: "GetOrder st i = None"
    and run: "LimitSwap ctx d i from referer receiver amountIn price base quote side exp st = Some (Inr flows, st')"
  shows "kept tk st st'"
  using run
proof (rule LimitSwap_cases)
  fix p pair coin fl b ord fl2 ev pair' suit ord' st2
  assume p: "GetTradingPair st d base quote = Some p"
    and pair: "(if IsPublic p \<and> d \<noteq> 0 then GetTradingPair st 0 base quote else Some p) = Some pair"
    and c: "NewCoin (if side = OrderSideBuy then quote else base) amountIn = Some coin"
    and l: "LockCoin from coin (swap_bank st) = Some (Inr fl, b)"
    and ord: "ord = \<lparr>o_OrderID = i, o_DexID = DexID pair, o_From = from, o_Referer = referer,
       o_Receiver = receiver, o_CreatedTime = BlockTime ctx, o_ExpiredTime = exp,
       o_FinishedTime = 0, o_Status = OrderStatusNew, o_Side = side,
       o_BaseSymbol = base, o_QuoteSymbol = quote, o_Price = price,
       o_AmountIn = amountIn, o_LockedFund = amountIn, o_FeeRate = getFeeRates st p\<rparr>"
    and ls: "limitSwap ctx ord pair (saveOrder ord (with_bank b st)) = Some ((fl2, ev, pair', suit, ord'), st2)"
    and fin: "\<exists>u w g. st' = st2\<lparr>sw_unfinished := u, sw_waitInsert := w, sw_gas := g\<rparr>"
  let ?st = "saveOrder ord (with_bank b st)"
  have i: "pairs_wf st" "rates_ok st" "bank_wf (swap_bank st)" "pairs_inv tk st" "orders_inv st" "holds_cover st"
    "Params_Validate (sw_params st) = Some True" using inv by (simp_all add: swap_inv_def)
  have coin: "coin = \<lparr>Denom = order_tok ord, Amount = amountIn\<rparr>" "0 \<le> amountIn" "validateDenom (order_tok ord)"
    using c by (auto simp: NewCoin_Some order_tok_def ord)
  have hop: "hop_pool st d base quote = Some pair"
    using p pair GetTradingPair_Some(2) [OF i(1) p] by (simp add: hop_pool_def)
  have ab: "base \<noteq> quote" using GetTradingPair_Some(3,4) [OF i(1) p] by (auto simp: pair_ok_def)
  have tok: "order_in ord pair = order_tok ord"
    using oriented_pool [OF i(1) swap_inv_oriented [OF inv sort ab] hop] by (simp add: order_in_def order_tok_def ord)
  have fees: "fees_ok (getFeeRates st p)" using rates_okD [OF i(2) GetTradingPair_Some(1) [OF i(1) p]] .
  have none: "kv_get (sw_orders st) i = None" using new by (simp add: GetOrder_def)
  have ords: "sw_orders ?st = kv_set i ord (sw_orders st)" by (simp add: ord)
  note L = LockCoin_Inr [OF l, unfolded coin(1)]
  have "locked ?st y s = locked st y s + (if y = from \<and> s = order_tok ord then amountIn else 0)" for y s
    using locked_save [OF ords, of y s] none by (auto simp: ord)
  then have "holds_cover ?st" using i(6) L(4) by (simp add: holds_cover_def)
  moreover have "orders_inv ?st" using i(5) coin(2,3) fees
    unfolding orders_inv_def ords by (intro kv_all_set) (simp_all add: ord)
  moreover have "pairs_inv tk ?st" "pairs_wf ?st" "rates_ok ?st"
    using i(1,2,4) pairs_cong(1) [of ?st st] rates_cong [of ?st st] by (simp_all add: pairs_inv_def)
  moreover have "swap_total ?st s = swap_total st s" for s using L(5) by (simp add: swap_total_parts)
  ultimately have kept: "kept tk st ?st"
    using LockCoin_wf [OF l i(3)] i(7) by (simp add: kept_def swap_inv_def)
  have "kept tk ?st st2"
  proof (rule limitSwap_kept(1) [OF _ ls _ tok])
    show "swap_inv tk ?st" using kept by (simp add: kept_def)
    show "kv_get (sw_pairs ?st) (pair_key pair) = Some pair" using hop_pool_Some(1) [OF i(1) hop] by simp
    show "kv_get (sw_orders ?st) (o_OrderID ord) = Some ord" by simp
  qed
  then have "kept tk st st2" using kept kept_trans by blast
  moreover have "core st' = core st2" using fin by (auto simp: core_def)
  ultimately show ?thesis using kept_core kept_trans unfolding kept_def by metis
qed

text \<open>An order is finished: what it had locked is free again.\<close>

lemma finishOrder_kept:
  assumes inv: "swap_inv tk st" and run: "finishOrderWithStatus ctx ord status st = Some ((flows, ord'), st')"
    and ord: "kv_get (sw_orders st) (o_OrderID ord) = Some ord"
  shows "kept tk st st'"
proof -
  have i: "pairs_wf st" "rates_ok st" "bank_wf (swap_bank st)" "pairs_inv tk st" "orders_inv st" "holds_cover st"
    "Params_Validate (sw_params st) = Some True" using inv by (simp_all add: swap_inv_def)
  have o: "0 \<le> o_LockedFund ord" "fees_ok (o_FeeRate ord)" "validateDenom (order_tok ord)" using kv_allD [OF i(5) [unfolded orders_inv_def] ord] by simp_all
  have hold: "o_LockedFund ord \<le> GetHoldBalance (swap_bank st) (o_From ord) (order_tok ord)"
    using locked_ge [OF i(5) ord] i(6) unfolding holds_cover_def by (meson order_trans)
  obtain b where ord': "ord' = finish ctx status ord" and st': "st' = delUnfinishedOrder ord' (saveOrder ord' (with_bank b st))"
    and tot: "\<And>s. bank_total b s = bank_total (swap_bank st) s" and bwf: "bank_wf (swap_bank st) \<Longrightarrow> bank_wf b"
    and bal: "\<And>y s. 0 \<le> o_LockedFund ord \<Longrightarrow> o_LockedFund ord \<le> GetHoldBalance (swap_bank st) (o_From ord) (order_tok ord) \<Longrightarrow>
      GetHoldBalance b y s =
        GetHoldBalance (swap_bank st) y s - (if y = o_From ord \<and> s = order_tok ord then o_LockedFund ord else 0)"
    by (rule finishOrder_effect [OF run]) (rule that; blast)
  let ?st = "saveOrder ord' (with_bank b st)"
  have ords: "sw_orders ?st = kv_set (o_OrderID ord) ord' (sw_orders st)" using ord' by simp
  have "locked ?st y s = locked st y s - (if y = o_From ord \<and> s = order_tok ord then o_LockedFund ord else 0)" for y s
    using locked_save [OF ords, of y s] ord ord' o(1) by auto
  then have "holds_cover ?st" using i(6) bal [OF o(1) hold] by (simp add: holds_cover_def)
  moreover have "orders_inv ?st" using i(5) o ord' by (simp add: orders_inv_def kv_all_set)
  moreover have "pairs_inv tk ?st" "pairs_wf ?st" "rates_ok ?st"
    using i(1,2,4) pairs_cong(1) [of ?st st] rates_cong [of ?st st] by (simp_all add: pairs_inv_def)
  moreover have "swap_total ?st s = swap_total st s" for s using tot by (simp add: swap_total_parts)
  ultimately have "kept tk st ?st" using bwf [OF i(3)] i(7) by (simp add: kept_def swap_inv_def)
  moreover have "core st' = core ?st" by (simp add: st' core_def delUnfinishedOrder_def)
  ultimately show ?thesis using kept_core kept_trans unfolding kept_def by metis
qed

lemma orders_stored: "swap_inv tk st \<Longrightarrow> GetOrder st i = Some ord \<Longrightarrow> kv_get (sw_orders st) (o_OrderID ord) = Some ord"
  by (auto simp: swap_inv_def orders_inv_def GetOrder_def dest!: kv_allD)

lemma cancel_loop_kept:
  "cancel_loop ctx from ids flows st = Some (Inr flows', st') \<Longrightarrow> swap_inv tk st \<Longrightarrow> kept tk st st'"
proof (induction ids arbitrary: flows st)
  case (Cons i ids)
  obtain ord where ord: "GetOrder st i = Some ord" using Cons.prems(1) by (auto split: option.splits)
  obtain fl ord' st1 where f: "finishOrderWithStatus ctx ord OrderStatusCanceled st = Some ((fl, ord'), st1)"
    and rest: "cancel_loop ctx from ids (flows @ fl) st1 = Some (Inr flows', st')"
    using Cons.prems(1) by (auto simp: ord bind_Some_iff split: if_split_asm)
  note k = finishOrder_kept [OF Cons.prems(2) f orders_stored [OF Cons.prems(2) ord]]
  show ?case using Cons.IH [OF rest] k kept_trans unfolding kept_def by metis
qed (simp add: kept_def)

lemma CancelOrders_kept:
  assumes "swap_inv tk st" and "CancelOrders ctx from ids st = Some (Inr flows, st')"
  shows "kept tk st st'"
proof -
  obtain st1 where l: "cancel_loop ctx from ids [] st = Some (Inr flows, st1)"
    and st': "st' = addWaitToRemoveFromMatchingOrderID ids st1"
    using assms(2) by (auto simp: CancelOrders_def on_ok_def split: option.split_asm sum.split_asm)
  have "core st' = core st1" by (simp add: st' core_def addWaitToRemoveFromMatchingOrderID_def)
  then show ?thesis using cancel_loop_kept [OF l assms(1)] kept_core kept_trans unfolding kept_def by metis
qed

section \<open>Earnings\<close>

lemma panic_on_error_Inr: "panic_on_error m = Some (x, s) \<longleftrightarrow> m = Some (Inr x, s)"
  by (auto simp: panic_on_error_def split: option.splits sum.splits)

lemma send_earning_kept:
  assumes inv: "swap_inv tk st" and run: "send_earning ctx a x st = Some (flows, st')"
  shows "kept tk st st'"
proof -
  obtain cs where "on_ledger (SendCoinsFromModuleToAccount (ctx_permAddrs ctx) ModuleName a cs) st = Some (Inr flows, st')"
    using run by (auto simp: send_earning_def bind_Some_iff panic_on_error_Inr)
  then obtain m b where s: "SendCoins m a cs (swap_bank st) = Some (Inr flows, b)" and st': "st' = with_bank b st"
    by (auto simp: on_ledger_def SendCoinsFromModuleToAccount_def on_bank_def with_bank_def split: option.split_asm)
  note S = SendCoins_keeps [OF s]
  have "bank_total b s = bank_total (swap_bank st) s" for s
    using S(2,3) by (simp add: bank_total_def hold_total_def)
  then have "swap_total st' s = swap_total st s" for s by (simp add: st' swap_total_parts)
  moreover have "swap_inv tk st'" using inv S(1) pairs_cong(1) [of st' st] rates_cong [of st' st] GetHoldBalance_holds [OF S(3)]
    by (simp add: st' swap_inv_def pairs_inv_def orders_inv_def holds_cover_def locked_def)
  ultimately show ?thesis by (simp add: kept_def)
qed

lemma ClaimEarning_kept:
  assumes inv: "swap_inv tk st" and run: "ClaimEarning ctx a d x y st = Some (Inr flows, st')"
  shows "kept tk st st'"
proof -
  obtain u v where uv: "fst (SortTokens ctx x y) = (u, v)" by fastforce
  obtain e where e: "CalculateEarning ctx st a d u v = Some e"
    using run by (auto simp: ClaimEarning_def uv bind_Some_iff)
  show ?thesis
  proof (cases "e > 0")
    case False
    then show ?thesis using run inv by (simp add: ClaimEarning_def uv e kept_def)
  next
    case True
    obtain st1 m where k: "kept tk st st1" and st': "st' = st1\<lparr>sw_addrMask := m\<rparr>"
    proof (cases "GetReferer st a")
      case None
      with run True obtain st1 fl m where "send_earning ctx a e st = Some (fl, st1)" "st' = st1\<lparr>sw_addrMask := m\<rparr>"
        by (auto simp: ClaimEarning_def uv e bind_Some_iff)
      then show ?thesis using that send_earning_kept [OF inv] by blast
    next
      case (Some r)
      with run True obtain x1 f1 st1 x2 f2 st2 m where "send_earning ctx r x1 st = Some (f1, st1)"
        "send_earning ctx a x2 st1 = Some (f2, st2)" "st' = st2\<lparr>sw_addrMask := m\<rparr>"
        by (auto simp: ClaimEarning_def uv e bind_Some_iff)
      then show ?thesis using that send_earning_kept inv kept_trans unfolding kept_def by metis
    qed
    have "core st' = core st1" by (simp add: st' core_def)
    then show ?thesis using k kept_core kept_trans unfolding kept_def by metis
  qed
qed

section \<open>The handler\<close>

lemma find_referer_core: "find_referer d a r st = Inr (r', st') \<Longrightarrow> core st' = core st"
  by (auto simp: find_referer_def BindReferer_def core_def split: if_split_asm option.split_asm)

lemma kept_from_core: "core st1 = core st \<Longrightarrow> swap_inv tk st \<Longrightarrow> (swap_inv tk st1 \<Longrightarrow> kept tk st1 st') \<Longrightarrow> kept tk st st'"
  unfolding kept_def using core_same by metis

lemma first_error_None: "first_error checks = None \<longleftrightarrow> (\<forall>(failed, _) \<in> set checks. \<not> failed)"
  by (induction checks rule: first_error.induct) auto

lemma AddLiquidity_handler_kept:
  assumes inv: "swap_inv (GetToken ctx) st" and ok: "MsgAddLiquidity_ValidateBasic decodes msg = None"
    and run: "handleMsgAddLiquidity ctx msg st = Some (Inr flows, st')"
  shows "kept (GetToken ctx) st st'"
proof -
  obtain a b where ab: "SortTokens ctx (al_TokenA msg) (al_TokenB msg) = ((a, b), None)"
    using run by (auto simp: handleMsgAddLiquidity_def split: prod.split_asm option.split_asm)
  note S = SortTokens_sorted [OF ab]
  have "al_TokenA msg \<noteq> al_TokenB msg" using ok by (auto simp: MsgAddLiquidity_ValidateBasic_def split: if_split_asm)
  then have ne: "a \<noteq> b" using S(2) by auto
  obtain x y where "AddLiquidity (al_From msg) (al_DexID msg) a b x y st = Some (Inr flows, st')"
    using run by (auto simp: handleMsgAddLiquidity_def ab split: if_split_asm)
  then show ?thesis by (rule AddLiquidity_kept [OF inv S(1) _ ne])
qed

lemma RemoveLiquidity_handler_kept:
  assumes inv: "swap_inv (GetToken ctx) st" and ok: "MsgRemoveLiquidity_ValidateBasic decodes msg = None"
    and run: "handleMsgRemoveLiquidity ctx msg st = Some (Inr flows, st')"
  shows "kept (GetToken ctx) st st'"
proof -
  obtain a b where ab: "SortTokens ctx (rl_TokenA msg) (rl_TokenB msg) = ((a, b), None)"
    using run by (auto simp: handleMsgRemoveLiquidity_def split: prod.split_asm option.split_asm)
  note S = SortTokens_sorted [OF ab]
  have "rl_TokenA msg \<noteq> rl_TokenB msg" using ok by (auto simp: MsgRemoveLiquidity_ValidateBasic_def split: if_split_asm)
  then have ne: "a \<noteq> b" using S(2) by auto
  have "RemoveLiquidity (rl_From msg) (rl_DexID msg) a b (rl_Liquidity msg) st = Some (Inr flows, st')"
    using run by (auto simp: handleMsgRemoveLiquidity_def ab split: if_split_asm)
  then show ?thesis by (rule RemoveLiquidity_kept [OF inv S(1) _ ne])
qed

lemma SwapExactIn_kept:
  assumes inv: "swap_inv tk st" and run: "SwapExactIn d from referer receiver x m path st = Some (Inr flows, st')"
  shows "kept tk st st'"
proof -
  obtain y where q: "getAmountOut st d x path = Some (Inr y)" and r: "directSwap d from referer receiver x path st = Some (Inr flows, st')"
    using run by (auto simp: SwapExactIn_def elim!: bind_SomeE split: sum.split_asm if_split_asm)
  show ?thesis by (rule directSwap_kept [OF inv getAmountOut_live [OF q] r])
qed

lemma SwapExactOut_kept:
  assumes inv: "swap_inv tk st" and run: "SwapExactOut d from referer receiver y m path st = Some (Inr flows, st')"
  shows "kept tk st st'"
proof -
  obtain x where q: "getAmountIn st d y path = Some (Inr x)" and r: "directSwap d from referer receiver x path st = Some (Inr flows, st')"
    using run by (auto simp: SwapExactOut_def elim!: bind_SomeE split: sum.split_asm if_split_asm)
  show ?thesis by (rule directSwap_kept [OF inv getAmountIn_live [OF q] r])
qed

lemma SwapExactIn_handler_kept:
  assumes inv: "swap_inv tk st" and run: "handleMsgSwapExactIn ctx msg st = Some (Inr flows, st')"
  shows "kept tk st st'"
proof -
  obtain r st1 where f: "find_referer (si_DexID msg) (si_From msg) (si_Referer msg) st = Inr (r, st1)"
    and s: "SwapExactIn (si_DexID msg) (si_From msg) r (si_Receiver msg) (si_AmountIn msg)
      (si_MinAmountOut msg) (si_SwapPath msg) st1 = Some (Inr flows, st')"
    using run by (auto simp: handleMsgSwapExactIn_def split: sum.split_asm option.split_asm if_split_asm)
  show ?thesis by (rule kept_from_core [OF find_referer_core [OF f] inv SwapExactIn_kept [OF _ s]])
qed

lemma SwapExactOut_handler_kept:
  assumes inv: "swap_inv tk st" and run: "handleMsgSwapExactOut ctx msg st = Some (Inr flows, st')"
  shows "kept tk st st'"
proof -
  obtain r st1 where f: "find_referer (so_DexID msg) (so_From msg) (so_Referer msg) st = Inr (r, st1)"
    and s: "SwapExactOut (so_DexID msg) (so_From msg) r (so_Receiver msg) (so_AmountOut msg)
      (so_MaxAmountIn msg) (so_SwapPath msg) st1 = Some (Inr flows, st')"
    using run by (auto simp: handleMsgSwapExactOut_def split: sum.split_asm option.split_asm if_split_asm)
  show ?thesis by (rule kept_from_core [OF find_referer_core [OF f] inv SwapExactOut_kept [OF _ s]])
qed

lemma LimitSwap_handler_kept:
  assumes inv: "swap_inv (GetToken ctx) st" and run: "handleMsgLimitSwap ctx msg st = Some (Inr flows, st')"
  shows "kept (GetToken ctx) st st'"
proof -
  obtain a b where ab: "SortTokens ctx (ls_BaseSymbol msg) (ls_QuoteSymbol msg) = ((a, b), None)"
    using run by (auto simp: handleMsgLimitSwap_def split: prod.split_asm option.split_asm)
  obtain r st1 where eq: "a = ls_BaseSymbol msg" "b = ls_QuoteSymbol msg" and new: "GetOrder st (ls_OrderID msg) = None"
    and f: "find_referer (ls_DexID msg) (ls_From msg) (ls_Referer msg) st = Inr (r, st1)"
    and s: "LimitSwap ctx (ls_DexID msg) (ls_OrderID msg) (ls_From msg) r (ls_Receiver msg)
      (ls_AmountIn msg) (ls_Price msg) (ls_BaseSymbol msg) (ls_QuoteSymbol msg)
      (order_side (ls_Side msg)) (ls_ExpiredAt msg) st1 = Some (Inr flows, st')"
    using run by (auto simp: handleMsgLimitSwap_def ab split: sum.split_asm if_split_asm)
  note c = find_referer_core [OF f]
  have "GetOrder st1 (ls_OrderID msg) = None" using c new by (simp add: core_def GetOrder_def)
  then show ?thesis
    using kept_from_core [OF c inv LimitSwap_kept [OF _ SortTokens_sorted(1) [OF ab, unfolded eq] _ s]] by blast
qed

lemma ClaimEarning_handler_kept:
  "swap_inv tk st \<Longrightarrow> handleMsgClaimEarning ctx msg st = Some (Inr flows, st') \<Longrightarrow> kept tk st st'"
  by (auto simp: handleMsgClaimEarning_def split: prod.split_asm option.split_asm intro: ClaimEarning_kept)

lemma NewHandler_kept:
  assumes inv: "swap_inv (GetToken ctx) st" and ok: "ValidateBasic decodes uuid_ok msg = None"
    and run: "NewHandler ctx msg st = Some (Inr flows, st')"
  shows "kept (GetToken ctx) st st'"
proof (cases msg)
  case (MAddLiquidity m)
  then show ?thesis using AddLiquidity_handler_kept [OF inv] ok run by simp
next
  case (MRemoveLiquidity m)
  then show ?thesis using RemoveLiquidity_handler_kept [OF inv] ok run by simp
next
  case (CreateTradingPair m)
  then show ?thesis using CreateTradingPair_kept [OF inv] ok run by simp
next
  case (EditTradingPair m)
  then show ?thesis using EditTradingPair_kept [OF inv] ok run by simp
next
  case (MLimitSwap m)
  then show ?thesis using LimitSwap_handler_kept [OF inv] run by simp
next
  case (MCancelLimitSwap m)
  then show ?thesis using CancelOrders_kept [OF inv] run by (simp add: handleMsgCancelLimitSwap_def)
qed (use run in \<open>auto intro: CreateDex_kept [OF inv] EditDex_kept [OF inv] SwapExactIn_handler_kept [OF inv]
    SwapExactOut_handler_kept [OF inv] ClaimEarning_handler_kept [OF inv]\<close>)

text \<open>
  C1. Every message of the exchange that passes its validation and succeeds keeps the invariant - pairs
  stored once, under their key and in the order of their tokens, reserves of a live pool positive,
  fees below one, orders covered by the holds of their owners - and creates and destroys no token.
\<close>

theorem NewHandler_keeps_invariant:
  assumes "swap_inv (GetToken ctx) st" and "ValidateBasic decodes uuid_ok msg = None"
    and "NewHandler ctx msg st = Some (Inr flows, st')"
  shows "swap_inv (GetToken ctx) st' \<and> (\<forall>s. swap_total st' s = swap_total st s)"
  using NewHandler_kept [OF assms] by (simp add: kept_def)

section \<open>Reachable states\<close>

text \<open>The states after any sequence of transactions; a transaction that fails leaves the state.\<close>

inductive reaches ::
  "(CUAddress \<Rightarrow> bool) \<Rightarrow> (string \<Rightarrow> bool) \<Rightarrow> (Symbol \<Rightarrow> Token option) \<Rightarrow> swap_state \<Rightarrow> swap_state \<Rightarrow> bool"
  for decodes uuid_ok tk st where
    start: "reaches decodes uuid_ok tk st st"
  | message: "reaches decodes uuid_ok tk st st1 \<Longrightarrow> GetToken ctx = tk \<Longrightarrow> ValidateBasic decodes uuid_ok msg = None \<Longrightarrow>
      NewHandler ctx msg st1 = Some (Inr flows, st2) \<Longrightarrow> reaches decodes uuid_ok tk st st2"

lemma reaches_kept: "reaches decodes uuid_ok tk st st' \<Longrightarrow> swap_inv tk st \<Longrightarrow> kept tk st st'"
proof (induction rule: reaches.induct)
  case (message st1 ctx msg flows st2)
  then show ?case using NewHandler_kept kept_trans unfolding kept_def by metis
qed (simp add: kept_def)

lemma genesis_inv:
  assumes "ValidateGenesis data = Some True" and "bank_wf (lg_bank lg)"
  shows "swap_inv tk (InitGenesis data (empty_state lg))"
proof -
  have "locked (InitGenesis data (empty_state lg)) a s = 0" for a s
    by (simp add: locked_def InitGenesis_def empty_state_def)
  then show ?thesis using assms bank_wf_get(3)
    by (simp add: swap_inv_def pairs_wf_def rates_ok_def pairs_inv_def orders_inv_def holds_cover_def
        InitGenesis_def empty_state_def ValidateGenesis_def)
qed

lemma UnlockCoin_covered:
  assumes "bank_wf b" and "Coin_IsValid c" and "Amount c \<le> GetHoldBalance b a (Denom c)"
    and "int_ok (GetBalance b a (Denom c) + Amount c)"
  shows "\<exists>flows b'. UnlockCoin a c b = Some (Inr flows, b')"
proof -
  let ?s = "Denom c"
  note w = bank_wf_get [OF assms(1), of a ?s]
  let ?h = "GetHoldBalance b a ?s - Amount c"
  have v: "0 \<le> Amount c" using assms(2) by (simp add: Coin_IsValid_iff)
  have "int_ok ?h" using w v assms(3) by (auto simp: int_ok_def)
  then have "SubCoinHold a c b = Some (Inr (\<lparr>Denom = ?s, Amount = ?h\<rparr>,
      hold_flow a ?s (GetHoldBalance b a ?s) (- Amount c)), setHoldBalance a ?s ?h b)"
    using assms(2,3) by (simp add: SubCoinHold_Inr)
  moreover have "\<exists>r b'. AddCoin a c (setHoldBalance a ?s ?h b) = Some (Inr r, b')"
    using assms(2,4) w v by (auto simp: AddCoin_Inr split_paired_Ex)
  ultimately show ?thesis by (auto simp: UnlockCoin_def)
qed

lemma cancel_one:
  assumes inv: "swap_inv tk st" and ord: "GetOrder st i = Some ord" and nf: "\<not> IsFinished ord"
    and ok: "int_ok (GetBalance (swap_bank st) (o_From ord) (order_tok ord) + o_LockedFund ord)"
  shows "\<exists>flows st'. CancelOrders ctx (o_From ord) [i] st = Some (Inr flows, st') \<and>
     GetBalance (swap_bank st') (o_From ord) (order_tok ord) =
       GetBalance (swap_bank st) (o_From ord) (order_tok ord) + o_LockedFund ord \<and>
     (\<exists>ord'. GetOrder st' i = Some ord' \<and> o_Status ord' = OrderStatusCanceled \<and> o_LockedFund ord' = 0)"
proof -
  note st = orders_stored [OF inv ord]
  have i: "bank_wf (swap_bank st)" "orders_inv st" "holds_cover st" using inv by (simp_all add: swap_inv_def)
  have id: "o_OrderID ord = i" and o: "0 \<le> o_LockedFund ord" "validateDenom (order_tok ord)"
    using kv_allD [OF i(2) [unfolded orders_inv_def], of i ord] ord by (simp_all add: GetOrder_def)
  have hold: "o_LockedFund ord \<le> GetHoldBalance (swap_bank st) (o_From ord) (order_tok ord)"
    using locked_ge [OF i(2) st] i(3) unfolding holds_cover_def by (meson order_trans)
  let ?c = "\<lparr>Denom = order_tok ord, Amount = o_LockedFund ord\<rparr>"
  obtain fl b where u: "UnlockCoin (o_From ord) ?c (swap_bank st) = Some (Inr fl, b)"
    using UnlockCoin_covered [OF i(1), of ?c "o_From ord"] o hold ok by (auto simp: Coin_IsValid_iff)
  have coin: "getOrderLockedCoin (ord\<lparr>o_FinishedTime := t, o_Status := s\<rparr>) = Some ?c" for t s
    using o by (cases "o_Side ord = OrderSideBuy") (simp_all add: getOrderLockedCoin_def NewCoin_Some order_tok_def)
  have "\<exists>fl ord' st1. finishOrderWithStatus ctx ord OrderStatusCanceled st = Some ((fl, ord'), st1)"
    using u by (simp add: finishOrderWithStatus_def Let_def coin transfer_def on_ledger_def on_bank_def ignore_error_def)
  then obtain fl1 ord' st1 where f: "finishOrderWithStatus ctx ord OrderStatusCanceled st = Some ((fl1, ord'), st1)" by blast
  obtain b where ord': "ord' = finish ctx OrderStatusCanceled ord" and st1: "st1 = delUnfinishedOrder ord' (saveOrder ord' (with_bank b st))"
    and bal: "\<And>y s. 0 \<le> o_LockedFund ord \<Longrightarrow> o_LockedFund ord \<le> GetHoldBalance (swap_bank st) (o_From ord) (order_tok ord) \<Longrightarrow>
      GetBalance b y s =
        GetBalance (swap_bank st) y s + (if y = o_From ord \<and> s = order_tok ord then o_LockedFund ord else 0)"
    by (rule finishOrder_effect [OF f]) (rule that; blast)
  let ?st' = "addWaitToRemoveFromMatchingOrderID [i] st1"
  have "CancelOrders ctx (o_From ord) [i] st = Some (Inr fl1, ?st')"
    using f by (simp add: CancelOrders_def ord nf)
  moreover have "swap_bank ?st' = b" "GetOrder ?st' i = Some ord'"
    using id by (simp_all add: st1 addWaitToRemoveFromMatchingOrderID_def delUnfinishedOrder_def GetOrder_def ord')
  ultimately show ?thesis using bal [OF o(1) hold] ord' o(1) by auto
qed




section \<open>A run\<close>

definition launch_ledger :: ledger where
  "launch_ledger = sample_ledger\<lparr>lg_bank :=
     \<lparr>balances = kv_set (''alice000000000000000'', ''hbc'') 70000 (kv_set (''alice000000000000000'', ''usdt'') 90000 kv_empty), holds = kv_empty\<rparr>\<rparr>"

definition launch_msg :: swap_msg where
  "launch_msg = MAddLiquidity \<lparr>al_From = ''alice000000000000000'', al_DexID = 0, al_TokenA = ''usdt'', al_TokenB = ''hbc'',
     al_MaxTokenAAmount = 80000, al_MaxTokenBAmount = 20000, al_ExpiredAt = 9\<rparr>"

lemma launch_root: "isqrt 1600000000 = 40000"
  by (simp add: isqrt.simps)

lemmas launch_eval = launch_msg_def launch_ledger_def block_ctx_def sample_eval pair_key_def handleMsgAddLiquidity_def
  InitGenesis_def DefaultGenesisState_def launch_root

lemma launch_run:
  "\<exists>flows st. NewHandler (block_ctx 5) launch_msg (InitGenesis DefaultGenesisState (empty_state launch_ledger)) =
     Some (Inr flows, st) \<and> GetBalance (swap_bank st) ''alice000000000000000'' ''usdt'' = 10000"
  by (simp add: launch_eval go_eval Let_def cong: go_congs)

lemma launch_ok:
  "ValidateBasic (\<lambda>_. True) (\<lambda>_. True) launch_msg = None" "ValidateGenesis DefaultGenesisState = Some True"
  "bank_wf (lg_bank launch_ledger)"
proof -
  show "ValidateBasic (\<lambda>_. True) (\<lambda>_. True) launch_msg = None"
    by (simp add: launch_msg_def MsgAddLiquidity_ValidateBasic_def IsValidAddr_def AddrLen_def Symbol_IsValid_def
        validateDenom_def is_alnum_def)
  show "ValidateGenesis DefaultGenesisState = Some True"
    by (simp add: ValidateGenesis_def DefaultGenesisState_def Params_Validate_def go_eval)
  show "bank_wf (lg_bank launch_ledger)"
    by (simp add: launch_ledger_def bank_wf_def entries_ok_iff int_ok_def)
qed

theorem NewHandler_keeps_invariant_witness:
  "\<exists>flows st. NewHandler (block_ctx 5) launch_msg (InitGenesis DefaultGenesisState (empty_state launch_ledger)) =
     Some (Inr flows, st) \<and> swap_inv (GetToken (block_ctx 5)) st"
  using launch_run NewHandler_keeps_invariant [OF genesis_inv [OF launch_ok(2,3)] launch_ok(1)] by blast


text \<open>An open order on its own, its funds on hold.\<close>

definition waiting_state :: swap_state where
  "waiting_state = saveOrder sell_order (empty_state (sample_ledger\<lparr>lg_bank :=
     \<lparr>balances = kv_empty, holds = kv_set (''alice'', ''hbc'') 1000 kv_empty\<rparr>\<rparr>))"

lemma waiting_inv: "swap_inv tk waiting_state"
proof -
  have "fees_ok (o_FeeRate sell_order)" by (simp add: sell_order_def fees_ok_def total_rate_def NewFeeRate_def precisionReuse_val)
  moreover have "validateDenom (order_tok sell_order)" by (simp add: sell_order_def order_tok_def validateDenom_def is_alnum_def)
  ultimately have "orders_inv waiting_state"
    unfolding orders_inv_def waiting_state_def saveOrder_simps empty_state_def swap_state.simps
    by (intro kv_all_set) (simp_all add: sell_order_def)
  moreover have "locked waiting_state a s \<le> GetHoldBalance (swap_bank waiting_state) a s" for a s
    by (simp add: locked_def waiting_state_def empty_state_def sell_order_def order_tok_def GetHoldBalance_def weight_def)
  moreover have "bank_wf (swap_bank waiting_state)"
    by (simp add: waiting_state_def empty_state_def bank_wf_def entries_ok_iff int_ok_def)
  moreover have "sw_pairs waiting_state = kv_empty" "sw_params waiting_state = gs_Params DefaultGenesisState"
    by (simp_all add: waiting_state_def empty_state_def DefaultGenesisState_def)
  ultimately show ?thesis using launch_ok(2) [unfolded ValidateGenesis_def]
    by (simp add: swap_inv_def pairs_wf_def rates_ok_def pairs_inv_def holds_cover_def)
qed


end
