(* ===== verification/BaseApp.thy ===== *)
theory BaseApp
  imports Gas SdkCoin SdkDec
begin

text \<open>
  \<open>baseapp/baseapp.go\<close>: the application that drives the modules - blocks, the check, simulation and
  delivery of transactions, and the commit.  The handlers of the modules are fields of the
  application, as in the code; the contents of the multi-store are the type parameter, a cached
  multi-store is a copy of the contents and \<open>Write\<close> puts it back (\<open>CacheKVRefine\<close> shows that for the
  cache of one store).  A panic is a value where the code recovers from it, and the end of the
  process (\<open>None\<close>) where it does not.  Responses keep the code and the gas; logs, data and events
  are left out.
\<close>

section \<open>Contexts, results and handlers\<close>

datatype panic = GasErr gas_panic | OtherPanic

record Result =
  res_Code :: "sdk_error option"
  res_GasWanted :: uint64
  res_GasUsed :: uint64

definition Result_IsOK :: "Result \<Rightarrow> bool" where
  "Result_IsOK res = (res_Code res = None)"

definition ok_Result :: Result where
  "ok_Result = \<lparr>res_Code = None, res_GasWanted = 0, res_GasUsed = 0\<rparr>"

definition error_Result :: "sdk_error \<Rightarrow> Result" where
  "error_Result e = ok_Result\<lparr>res_Code := Some e\<rparr>"

text \<open>The gas each validator may settle without a fee in one block.\<close>

record BasicSettleQuota =
  sq_limit :: uint64
  sq_consumed :: "(string, uint64) kv"

definition NewBasicSettleQuota :: "uint64 \<Rightarrow> BasicSettleQuota" where
  "NewBasicSettleQuota limit = \<lparr>sq_limit = limit, sq_consumed = kv_empty\<rparr>"

definition SettleQuota_Consume :: "string \<Rightarrow> uint64 \<Rightarrow> BasicSettleQuota \<Rightarrow> bool \<times> BasicSettleQuota" where
  "SettleQuota_Consume valAddress current b =
     (let after = (case kv_get (sq_consumed b) valAddress of
            Some before \<Rightarrow> before + current
          | None \<Rightarrow> current)
      in if after \<le> sq_limit b then (True, b\<lparr>sq_consumed := kv_set valAddress after (sq_consumed b)\<rparr>)
         else (False, b))"

record Header =
  hd_ChainID :: string
  hd_Height :: int
  hd_Time :: int

text \<open>
  The context of a call.  The gas meters and the quota are pointers: a call returns the context with
  what it did to them.
\<close>

record 's Ctx =
  cx_ms :: 's
  cx_header :: Header
  cx_checkTx :: bool
  cx_txBytes :: bytes
  cx_gasMeter :: GasMeter
  cx_blockGasMeter :: "GasMeter option"
  cx_settleQuota :: "BasicSettleQuota option"
  cx_minGasPrices :: "(string \<times> Dec) list"

definition NewContext :: "'s \<Rightarrow> Header \<Rightarrow> bool \<Rightarrow> 's Ctx" where
  "NewContext ms header isCheckTx =
     \<lparr>cx_ms = ms, cx_header = header, cx_checkTx = isCheckTx, cx_txBytes = [],
      cx_gasMeter = NewInfiniteGasMeter, cx_blockGasMeter = None, cx_settleQuota = None, cx_minGasPrices = []\<rparr>"

type_synonym ('m, 's) Handler = "'s Ctx \<Rightarrow> 'm \<Rightarrow> (panic + Result) \<times> 's Ctx"

text \<open>An ante handler returns the new context (\<open>None\<close> for the zero context), the result and the abort flag.\<close>

type_synonym ('tx, 's) AnteHandler = "'s Ctx \<Rightarrow> 'tx \<Rightarrow> bool \<Rightarrow> (panic + 's Ctx option \<times> Result \<times> bool) \<times> 's Ctx"

type_synonym ('tx, 's) GasRefundHandler = "'s Ctx \<Rightarrow> 'tx \<Rightarrow> uint64 \<Rightarrow> uint64 \<Rightarrow> (panic + bool) \<times> 's Ctx"

datatype runTxMode = runTxModeCheck | runTxModeSimulate | runTxModeDeliver

text \<open>What is configured once: the routes, the decoder, the message methods and the handlers.\<close>

record ('m, 'tx, 's) Config =
  cf_router :: "(string, ('m, 's) Handler) kv"
  cf_txDecoder :: "bytes \<Rightarrow> sdk_error + 'tx"
  cf_GetMsgs :: "'tx \<Rightarrow> 'm list"
  cf_Route :: "'m \<Rightarrow> string"
  cf_ValidateBasic :: "'m \<Rightarrow> sdk_error option"
  cf_anteHandler :: "('tx, 's) AnteHandler option"
  cf_gasRefundHandler :: "('tx, 's) GasRefundHandler option"
  cf_initChainer :: "('s Ctx \<Rightarrow> 's Ctx option) option"
  cf_beginBlocker :: "('s Ctx \<Rightarrow> 's Ctx option) option"
  cf_endBlocker :: "('s Ctx \<Rightarrow> 's Ctx option) option"
  cf_minGasPrices :: "(string \<times> Dec) list"
  cf_haltHeight :: uint64
  cf_haltTime :: uint64

text \<open>What changes: the committed store and its height, the two volatile states, and the block gas of the
  consensus parameters (\<open>None\<close> when they are not set).\<close>

record 's AppState =
  ap_cms :: 's
  ap_LastBlockHeight :: int
  ap_checkState :: "'s Ctx option"
  ap_deliverState :: "'s Ctx option"
  ap_maxGas :: "int option"

section \<open>The router\<close>

definition isAlphaNumeric :: "string \<Rightarrow> bool" where
  "isAlphaNumeric s = (s \<noteq> [] \<and> list_all
     (\<lambda>c. (CHR ''a'' \<le> c \<and> c \<le> CHR ''z'') \<or> (CHR ''A'' \<le> c \<and> c \<le> CHR ''Z'') \<or> (CHR ''0'' \<le> c \<and> c \<le> CHR ''9'')) s)"

definition AddRoute :: "string \<Rightarrow> ('m, 's) Handler \<Rightarrow> (string, ('m, 's) Handler) kv \<Rightarrow> (string, ('m, 's) Handler) kv option" where
  "AddRoute path h rtr =
     (if \<not> isAlphaNumeric path then None
      else if kv_get rtr path \<noteq> None then None
      else Some (kv_set path h rtr))"

definition router_Route :: "(string, ('m, 's) Handler) kv \<Rightarrow> string \<Rightarrow> ('m, 's) Handler option" where
  "router_Route rtr path = kv_get rtr path"

section \<open>States\<close>

definition setCheckState :: "('m, 'tx, 's) Config \<Rightarrow> Header \<Rightarrow> 's AppState \<Rightarrow> 's AppState" where
  "setCheckState cf header st =
     st\<lparr>ap_checkState := Some ((NewContext (ap_cms st) header True)\<lparr>cx_minGasPrices := cf_minGasPrices cf\<rparr>)\<rparr>"

definition setDeliverState :: "Header \<Rightarrow> 's AppState \<Rightarrow> 's AppState" where
  "setDeliverState header st = st\<lparr>ap_deliverState := Some (NewContext (ap_cms st) header False)\<rparr>"

definition getMaximumBlockGas :: "'s AppState \<Rightarrow> uint64 option" where
  "getMaximumBlockGas st =
     (case ap_maxGas st of
        None \<Rightarrow> Some 0
      | Some maxGas \<Rightarrow>
          if maxGas < -1 then None
          else if maxGas = -1 then Some 0
          else Some (of_int maxGas))"

definition getState :: "runTxMode \<Rightarrow> 's AppState \<Rightarrow> 's Ctx option" where
  "getState mode st =
     (if mode = runTxModeCheck \<or> mode = runTxModeSimulate then ap_checkState st else ap_deliverState st)"

text \<open>The context of a simulation has a cached store of its own, so what is written there is dropped.\<close>

definition getContextForTx :: "runTxMode \<Rightarrow> bytes \<Rightarrow> 's AppState \<Rightarrow> 's Ctx option" where
  "getContextForTx mode txBytes st = map_option (\<lambda>ctx. ctx\<lparr>cx_txBytes := txBytes\<rparr>) (getState mode st)"

definition putState :: "runTxMode \<Rightarrow> 's Ctx \<Rightarrow> 's AppState \<Rightarrow> 's AppState" where
  "putState mode ctx st =
     (case mode of
        runTxModeDeliver \<Rightarrow> st\<lparr>ap_deliverState := Some ctx\<rparr>
      | _ \<Rightarrow> st\<lparr>ap_checkState := Some ctx\<rparr>)"

section \<open>Transactions\<close>

fun validate_msgs :: "('m \<Rightarrow> sdk_error option) \<Rightarrow> 'm list \<Rightarrow> sdk_error option" where
  "validate_msgs vb [] = None"
| "validate_msgs vb (msg # msgs) =
     (case vb msg of Some e \<Rightarrow> Some e | None \<Rightarrow> validate_msgs vb msgs)"

definition validateBasicTxMsgs :: "('m \<Rightarrow> sdk_error option) \<Rightarrow> 'm list \<Rightarrow> sdk_error option" where
  "validateBasicTxMsgs vb msgs =
     (if msgs = [] then Some ErrUnknownRequest else validate_msgs vb msgs)"

text \<open>
  The messages one after the other, until one fails or has no handler; in a check the handlers are
  not run.  The result of an unknown route has no gas in it.
\<close>

fun runMsgs_loop ::
  "('m, 'tx, 's) Config \<Rightarrow> runTxMode \<Rightarrow> 'm list \<Rightarrow> 's Ctx \<Rightarrow> (panic + Result) \<times> 's Ctx" where
  "runMsgs_loop cf mode [] ctx = (Inr (ok_Result\<lparr>res_GasUsed := GasConsumed (cx_gasMeter ctx)\<rparr>), ctx)"
| "runMsgs_loop cf mode (msg # msgs) ctx =
     (case router_Route (cf_router cf) (cf_Route cf msg) of
        None \<Rightarrow> (Inr (error_Result ErrUnknownRequest), ctx)
      | Some handler \<Rightarrow>
          (case (if mode \<noteq> runTxModeCheck then handler ctx msg else (Inr ok_Result, ctx)) of
             (Inl p, ctx) \<Rightarrow> (Inl p, ctx)
           | (Inr msgResult, ctx) \<Rightarrow>
               if \<not> Result_IsOK msgResult
               then (Inr (ok_Result\<lparr>res_Code := res_Code msgResult, res_GasUsed := GasConsumed (cx_gasMeter ctx)\<rparr>), ctx)
               else runMsgs_loop cf mode msgs ctx))"

definition runMsgs ::
  "('m, 'tx, 's) Config \<Rightarrow> 's Ctx \<Rightarrow> 'm list \<Rightarrow> runTxMode \<Rightarrow> (panic + Result) \<times> 's Ctx" where
  "runMsgs cf ctx msgs mode = runMsgs_loop cf mode msgs ctx"

text \<open>
  The variables of \<open>runTx\<close> that its deferred functions read: the context with the contents of its
  store, the gas wanted, and the meter of the context the transaction started with when the ante
  handler has replaced it.
\<close>

record 's tx_vars =
  tv_ctx :: "'s Ctx"
  tv_gasWanted :: uint64
  tv_baseMeter :: "GasMeter option"

text \<open>After the ante handler: the messages on a cached store, and the refund.\<close>

definition run_messages ::
  "('m, 'tx, 's) Config \<Rightarrow> runTxMode \<Rightarrow> 'tx \<Rightarrow> 's tx_vars \<Rightarrow> (panic + Result) \<times> 's tx_vars" where
  "run_messages cf mode tx v =
     (let ms = cx_ms (tv_ctx v)
      in case runMsgs cf (tv_ctx v) (cf_GetMsgs cf tx) mode of
           (Inl p, ctx) \<Rightarrow> (Inl p, v\<lparr>tv_ctx := ctx\<lparr>cx_ms := ms\<rparr>\<rparr>)
         | (Inr result, ctx) \<Rightarrow>
             let result = result\<lparr>res_GasWanted := tv_gasWanted v\<rparr>
             in if mode \<noteq> runTxModeDeliver then (Inr result, v\<lparr>tv_ctx := ctx\<lparr>cx_ms := ms\<rparr>\<rparr>)
                else
                  let runMsgCtxFinal = (if Result_IsOK result then ctx else ctx\<lparr>cx_ms := ms\<rparr>)
                  in case (case cf_gasRefundHandler cf of
                             None \<Rightarrow> (Inl OtherPanic, runMsgCtxFinal)
                           | Some refund \<Rightarrow> refund runMsgCtxFinal tx (res_GasWanted result) (res_GasUsed result)) of
                       (Inl p, ctx) \<Rightarrow> (Inl p, v\<lparr>tv_ctx := ctx\<lparr>cx_ms := ms\<rparr>\<rparr>)
                     | (Inr refunded, ctx) \<Rightarrow>
                         (Inr result, v\<lparr>tv_ctx := (if Result_IsOK result \<or> refunded then ctx else ctx\<lparr>cx_ms := ms\<rparr>)\<rparr>))"

text \<open>
  The body of \<open>runTx\<close>: the stateless checks, then the ante handler on a cached store of its own
  which is written when it does not abort.
\<close>

definition run_ante ::
  "('tx, 's) AnteHandler \<Rightarrow> runTxMode \<Rightarrow> 'tx \<Rightarrow> 's Ctx \<Rightarrow> (panic + Result \<times> bool) \<times> 's tx_vars" where
  "run_ante ante mode tx ctx =
     (case ante ctx tx (mode = runTxModeSimulate) of
        (Inl p, anteCtx) \<Rightarrow>
          (Inl p, \<lparr>tv_ctx = anteCtx\<lparr>cx_ms := cx_ms ctx\<rparr>, tv_gasWanted = 0, tv_baseMeter = None\<rparr>)
      | (Inr (newCtx, result, abort), anteCtx) \<Rightarrow>
          (let ms = (if abort then cx_ms ctx else cx_ms anteCtx)
           in (Inr (result, abort),
               (case newCtx of
                  None \<Rightarrow> \<lparr>tv_ctx = anteCtx\<lparr>cx_ms := ms\<rparr>, tv_gasWanted = res_GasWanted result, tv_baseMeter = None\<rparr>
                | Some c \<Rightarrow> \<lparr>tv_ctx = c\<lparr>cx_ms := ms\<rparr>, tv_gasWanted = res_GasWanted result,
                             tv_baseMeter = Some (cx_gasMeter anteCtx)\<rparr>))))"

definition run_body ::
  "('m, 'tx, 's) Config \<Rightarrow> runTxMode \<Rightarrow> 'tx \<Rightarrow> 's Ctx \<Rightarrow> (panic + Result) \<times> 's tx_vars" where
  "run_body cf mode tx ctx =
     (let start = \<lparr>tv_ctx = ctx, tv_gasWanted = 0, tv_baseMeter = None\<rparr>
      in case validateBasicTxMsgs (cf_ValidateBasic cf) (cf_GetMsgs cf tx) of
           Some e \<Rightarrow> (Inr (error_Result e), start)
         | None \<Rightarrow>
             (case cf_anteHandler cf of
                None \<Rightarrow> run_messages cf mode tx start
              | Some ante \<Rightarrow>
                  (case run_ante ante mode tx ctx of
                     (Inl p, v) \<Rightarrow> (Inl p, v)
                   | (Inr (result, abort), v) \<Rightarrow>
                       if abort then (Inr result, v) else run_messages cf mode tx v)))"

text \<open>The deferred charge of the block gas meter in a delivery.\<close>

definition charge_block :: "uint64 \<Rightarrow> 's Ctx \<Rightarrow> panic option \<times> 's Ctx" where
  "charge_block startingGas ctx =
     (case cx_blockGasMeter ctx of
        None \<Rightarrow> (Some OtherPanic, ctx)
      | Some block \<Rightarrow>
          (case ConsumeGas (GasConsumedToLimit (cx_gasMeter ctx)) block of
             (Some p, block) \<Rightarrow> (Some (GasErr p), ctx\<lparr>cx_blockGasMeter := Some block\<rparr>)
           | (None, block) \<Rightarrow>
               ((if GasConsumed block < startingGas then Some (GasErr ErrorGasOverflow) else None),
                ctx\<lparr>cx_blockGasMeter := Some block\<rparr>)))"

text \<open>The deferred recovery, which turns a panic into a result and fills in the gas.\<close>

definition recover_result :: "panic option \<Rightarrow> panic + Result \<Rightarrow> 's tx_vars \<Rightarrow> Result" where
  "recover_result late r v =
     (let result = (case (case late of Some p \<Rightarrow> Inl p | None \<Rightarrow> r) of
            Inl (GasErr ErrorOutOfGas) \<Rightarrow> error_Result ErrOutOfGas
          | Inl _ \<Rightarrow> error_Result ErrInternal
          | Inr result \<Rightarrow> result)
      in result\<lparr>res_GasWanted := tv_gasWanted v, res_GasUsed := GasConsumed (cx_gasMeter (tv_ctx v))\<rparr>)"

text \<open>What a transaction leaves of the state it ran on: the store, unless it was simulated, and the pointers.\<close>

definition leave_state :: "runTxMode \<Rightarrow> 's Ctx \<Rightarrow> 's tx_vars \<Rightarrow> 's Ctx" where
  "leave_state mode ctx v =
     ctx\<lparr>cx_ms := (if mode = runTxModeSimulate then cx_ms ctx else cx_ms (tv_ctx v)),
         cx_gasMeter := (case tv_baseMeter v of None \<Rightarrow> cx_gasMeter (tv_ctx v) | Some m \<Rightarrow> m),
         cx_blockGasMeter := cx_blockGasMeter (tv_ctx v), cx_settleQuota := cx_settleQuota (tv_ctx v)\<rparr>"

definition runTx ::
  "('m, 'tx, 's) Config \<Rightarrow> runTxMode \<Rightarrow> bytes \<Rightarrow> 'tx \<Rightarrow> 's AppState \<Rightarrow> (Result \<times> 's AppState) option" where
  "runTx cf mode txBytes tx st = do {
     old \<leftarrow> getState mode st;
     ctx \<leftarrow> getContextForTx mode txBytes st;
     block \<leftarrow> (if mode = runTxModeDeliver then cx_blockGasMeter ctx else Some NewInfiniteGasMeter);
     if mode = runTxModeDeliver \<and> IsOutOfGas block then Some (error_Result ErrOutOfGas, st)
     else
       let (r, v) = run_body cf mode tx ctx;
           (late, ctx) = (if mode = runTxModeDeliver then charge_block (GasConsumed block) (tv_ctx v)
                          else (None, tv_ctx v));
           v = v\<lparr>tv_ctx := ctx\<rparr>
       in Some (recover_result late r v, putState mode (leave_state mode old v) st) }"

definition CheckTx :: "('m, 'tx, 's) Config \<Rightarrow> bytes \<Rightarrow> 's AppState \<Rightarrow> (Result \<times> 's AppState) option" where
  "CheckTx cf txBytes st =
     (case cf_txDecoder cf txBytes of
        Inl e \<Rightarrow> Some (error_Result e, st)
      | Inr tx \<Rightarrow> runTx cf runTxModeCheck txBytes tx st)"

definition DeliverTx :: "('m, 'tx, 's) Config \<Rightarrow> bytes \<Rightarrow> 's AppState \<Rightarrow> (Result \<times> 's AppState) option" where
  "DeliverTx cf txBytes st =
     (case cf_txDecoder cf txBytes of
        Inl e \<Rightarrow> Some (error_Result e, st)
      | Inr tx \<Rightarrow> runTx cf runTxModeDeliver txBytes tx st)"

section \<open>Blocks\<close>

definition InitChain ::
  "('m, 'tx, 's) Config \<Rightarrow> (int option \<Rightarrow> 's \<Rightarrow> 's) \<Rightarrow> int option \<Rightarrow> string \<Rightarrow> int \<Rightarrow> 's AppState \<Rightarrow> 's AppState option" where
  "InitChain cf storeConsensusParams maxGas chainId time st =
     (let st = (case maxGas of
            None \<Rightarrow> st
          | Some g \<Rightarrow> st\<lparr>ap_maxGas := Some g, ap_cms := storeConsensusParams (Some g) (ap_cms st)\<rparr>);
          initHeader = \<lparr>hd_ChainID = chainId, hd_Height = 0, hd_Time = time\<rparr>;
          st = setCheckState cf initHeader (setDeliverState initHeader st)
      in case cf_initChainer cf of
           None \<Rightarrow> Some st
         | Some init \<Rightarrow> do {
             deliver \<leftarrow> ap_deliverState st;
             ctx \<leftarrow> init (deliver\<lparr>cx_blockGasMeter := Some NewInfiniteGasMeter\<rparr>);
             Some (st\<lparr>ap_deliverState := Some ctx\<rparr>) })"

definition validateHeight :: "Header \<Rightarrow> 's AppState \<Rightarrow> bool" where
  "validateHeight header st =
     (if hd_Height header < 1 then False else hd_Height header = ap_LastBlockHeight st + 1)"

definition DefaultSettleQuota :: uint64 where
  "DefaultSettleQuota = 20000000"

definition BeginBlock_app :: "('m, 'tx, 's) Config \<Rightarrow> Header \<Rightarrow> 's AppState \<Rightarrow> 's AppState option" where
  "BeginBlock_app cf header st =
     (if \<not> validateHeight header st then None
      else do {
        let st = (case ap_deliverState st of
            None \<Rightarrow> setDeliverState header st
          | Some ctx \<Rightarrow> st\<lparr>ap_deliverState := Some (ctx\<lparr>cx_header := header\<rparr>)\<rparr>);
        maxGas \<leftarrow> getMaximumBlockGas st;
        let gasMeter = (if maxGas > 0 then NewGasMeter maxGas else NewInfiniteGasMeter);
        ctx \<leftarrow> ap_deliverState st;
        let ctx = ctx\<lparr>cx_blockGasMeter := Some gasMeter, cx_settleQuota := Some (NewBasicSettleQuota DefaultSettleQuota)\<rparr>;
        ctx \<leftarrow> (case cf_beginBlocker cf of None \<Rightarrow> Some ctx | Some begin_blocker \<Rightarrow> begin_blocker ctx);
        Some (st\<lparr>ap_deliverState := Some ctx\<rparr>) })"

definition EndBlock_app :: "('m, 'tx, 's) Config \<Rightarrow> 's AppState \<Rightarrow> 's AppState option" where
  "EndBlock_app cf st = do {
     ctx \<leftarrow> ap_deliverState st;
     ctx \<leftarrow> (case cf_endBlocker cf of None \<Rightarrow> Some ctx | Some end_blocker \<Rightarrow> end_blocker ctx);
     Some (st\<lparr>ap_deliverState := Some ctx\<rparr>) }"

text \<open>A commit at or past the configured height or time halts the process and stores nothing.\<close>

definition halts :: "('m, 'tx, 's) Config \<Rightarrow> Header \<Rightarrow> bool" where
  "halts cf header =
     ((cf_haltHeight cf > 0 \<and> (of_int (hd_Height header) :: uint64) \<ge> cf_haltHeight cf) \<or>
      (cf_haltTime cf > 0 \<and> hd_Time header \<ge> sint (cf_haltTime cf)))"

definition Commit :: "('m, 'tx, 's) Config \<Rightarrow> 's AppState \<Rightarrow> 's AppState option" where
  "Commit cf st = do {
     deliver \<leftarrow> ap_deliverState st;
     let header = cx_header deliver;
     Some (if halts cf header then st
       else
         let st = st\<lparr>ap_cms := cx_ms deliver, ap_LastBlockHeight := ap_LastBlockHeight st + 1\<rparr>;
             st = setCheckState cf header st
         in st\<lparr>ap_deliverState := None\<rparr>) }"

end
