(* ===== verification/Auth.thy ===== *)
theory Auth
  imports BaseApp Supply
begin

text \<open>
  \<open>x/custodianunit/ante.go\<close> and \<open>x/custodianunit/types/stdtx.go\<close>: the checks every transaction passes
  before its messages run - size, memo, signatures, sequence numbers, fees - and the refund of the
  fee for the gas that was not used.  What is outside the repository is a parameter, the record
  \<open>AuthEnv\<close>: the hash that gives a key its address, the verification of a signature, the canonical bytes
  to sign, the decoding of a multi-signature, and the gas the stores charge for an access, which
  depends on the length of the encoded records.  The chain's store is a type parameter that contains
  the ledger and the parameters of this module.
\<close>

section \<open>Transactions\<close>

record StdFee =
  fee_Amount :: Coins
  fee_Gas :: uint64

record StdSignature =
  sig_PubKey :: "PubKey option"
  sig_Signature :: bytes

record 'm StdTx =
  tx_Msgs :: "'m list"
  tx_Fee :: StdFee
  tx_Signatures :: "StdSignature list"
  tx_Memo :: string

text \<open>A transaction of the interface is a \<open>StdTx\<close> or something else with messages.\<close>

datatype 'm Tx = Std "'m StdTx" | OtherTx "'m list"

fun GetMsgs :: "'m Tx \<Rightarrow> 'm list" where
  "GetMsgs (Std tx) = tx_Msgs tx"
| "GetMsgs (OtherTx msgs) = msgs"

record AuthParams =
  ap_MaxMemoCharacters :: uint64
  ap_TxSigLimit :: uint64
  ap_TxSizeCostPerByte :: uint64
  ap_SigVerifyCostED25519 :: uint64
  ap_SigVerifyCostSecp256k1 :: uint64

definition DefaultAuthParams :: AuthParams where
  "DefaultAuthParams =
     \<lparr>ap_MaxMemoCharacters = 256, ap_TxSigLimit = 7, ap_TxSizeCostPerByte = 10,
      ap_SigVerifyCostED25519 = 590, ap_SigVerifyCostSecp256k1 = 1000\<rparr>"

definition ValidateAuthGenesis :: "AuthParams \<Rightarrow> bool" where
  "ValidateAuthGenesis p =
     (if ap_TxSigLimit p = 0 then False
      else if ap_SigVerifyCostED25519 p = 0 then False
      else if ap_SigVerifyCostSecp256k1 p = 0 then False
      else if ap_MaxMemoCharacters p = 0 then False
      else if ap_TxSizeCostPerByte p = 0 then False
      else True)"

text \<open>The accesses that are charged by the stores.\<close>

datatype access =
    ReadParams
  | ReadCU CUAddress
  | WriteCU CU
  | ReadKeyNodes
  | TransferCoins CUAddress CUAddress Coins

record ('m, 's) AuthEnv =
  ae_GetSigners :: "'m \<Rightarrow> CUAddress list"
  ae_IsSettleOnlyMsg :: "'m \<Rightarrow> bool option"
  ae_addressOf :: "PubKey \<Rightarrow> CUAddress"
  ae_VerifyBytes :: "PubKey \<Rightarrow> bytes \<Rightarrow> bytes \<Rightarrow> bool"
  ae_SignBytes :: "string \<Rightarrow> uint64 \<Rightarrow> StdFee \<Rightarrow> 'm list \<Rightarrow> string \<Rightarrow> bytes"
  ae_decodeMultisig :: "bytes \<Rightarrow> (bool list \<times> bytes list) option"
  ae_simSigSize :: "PubKey \<Rightarrow> StdSignature \<Rightarrow> uint64"
  ae_simPubKey :: PubKey
  ae_gas :: "access \<Rightarrow> uint64"
  ae_permAddrs :: permAddrs
  ae_IsActiveKeyNode :: "'s \<Rightarrow> CUAddress \<Rightarrow> bool"
  ae_params :: "'s \<Rightarrow> AuthParams"
  ae_ledger :: "'s \<Rightarrow> ledger"
  ae_setLedger :: "ledger \<Rightarrow> 's \<Rightarrow> 's"

definition maxGasWanted :: uint64 where
  "maxGasWanted = 0x7FFFFFFFFFFFFFFF"

fun dedup_signers :: "CUAddress list \<Rightarrow> CUAddress list \<Rightarrow> CUAddress list" where
  "dedup_signers signers [] = signers"
| "dedup_signers signers (addr # addrs) =
     (if addr \<in> set signers then dedup_signers signers addrs else dedup_signers (signers @ [addr]) addrs)"

definition GetSigners :: "('m, 's) AuthEnv \<Rightarrow> 'm StdTx \<Rightarrow> CUAddress list" where
  "GetSigners env tx = dedup_signers [] (concat (map (ae_GetSigners env) (tx_Msgs tx)))"

definition StdTx_ValidateBasic :: "('m, 's) AuthEnv \<Rightarrow> 'm StdTx \<Rightarrow> sdk_error option" where
  "StdTx_ValidateBasic env tx =
     (if fee_Gas (tx_Fee tx) > maxGasWanted then Some ErrGasOverflow
      else if IsAnyNegative (fee_Amount (tx_Fee tx)) then Some ErrInsufficientFee
      else if length (tx_Signatures tx) = 0 then Some ErrNoSignatures
      else if length (tx_Signatures tx) \<noteq> length (GetSigners env tx) then Some ErrUnauthorized
      else None)"

definition IsSettleTx :: "('m, 's) AuthEnv \<Rightarrow> 'm StdTx \<Rightarrow> bool" where
  "IsSettleTx env tx = list_all (\<lambda>msg. ae_IsSettleOnlyMsg env msg \<noteq> None) (tx_Msgs tx)"

definition IsSettleOnlyTx :: "('m, 's) AuthEnv \<Rightarrow> 'm StdTx \<Rightarrow> bool" where
  "IsSettleOnlyTx env tx = list_ex (\<lambda>msg. ae_IsSettleOnlyMsg env msg = Some True) (tx_Msgs tx)"

fun CountSubKeys :: "PubKey \<Rightarrow> nat" where
  "CountSubKeys (PubKeyMultisigThreshold k pubKeys) = sum_list (map CountSubKeys pubKeys)"
| "CountSubKeys (PubKeyEd25519 b) = 1"
| "CountSubKeys (PubKeySecp256k1 b) = 1"
| "CountSubKeys (OtherPubKey b) = 1"

text \<open>A signature without a key counts as one.\<close>

fun sig_count_loop :: "uint64 \<Rightarrow> nat \<Rightarrow> StdSignature list \<Rightarrow> sdk_error option" where
  "sig_count_loop limit sigCount [] = None"
| "sig_count_loop limit sigCount (s # sigs) =
     (let sigCount = sigCount + (case sig_PubKey s of None \<Rightarrow> 1 | Some pub \<Rightarrow> CountSubKeys pub)
      in if (of_nat sigCount :: uint64) > limit then Some ErrTooManySignatures
         else sig_count_loop limit sigCount sigs)"

definition ValidateSigCount :: "'m StdTx \<Rightarrow> AuthParams \<Rightarrow> sdk_error option" where
  "ValidateSigCount stdTx params = sig_count_loop (ap_TxSigLimit params) 0 (tx_Signatures stdTx)"

definition ValidateMemo :: "'m StdTx \<Rightarrow> AuthParams \<Rightarrow> sdk_error option" where
  "ValidateMemo stdTx params =
     (if (of_nat (length (tx_Memo stdTx)) :: uint64) > ap_MaxMemoCharacters params then Some ErrMemoTooLarge else None)"

section \<open>Steps on a metered context\<close>

text \<open>
  A step of the ante handler ends with a panic, with the result that aborts the transaction, or
  with a value.  Its state is the new context and the meter of the old one, which some reads charge.
\<close>

datatype 'a ante_result = APanic panic | AAbort sdk_error | AOk 'a

record 's ante_state =
  an_ctx :: "'s Ctx"
  an_base :: GasMeter

type_synonym ('a, 's) ante_step = "'s ante_state \<Rightarrow> 'a ante_result \<times> 's ante_state"

definition ante_then :: "('a, 's) ante_step \<Rightarrow> ('a \<Rightarrow> ('b, 's) ante_step) \<Rightarrow> ('b, 's) ante_step" where
  "ante_then m k an =
     (case m an of
        (APanic p, an) \<Rightarrow> (APanic p, an)
      | (AAbort e, an) \<Rightarrow> (AAbort e, an)
      | (AOk x, an) \<Rightarrow> k x an)"

definition ante_check :: "sdk_error option \<Rightarrow> (unit, 's) ante_step" where
  "ante_check e an = ((case e of None \<Rightarrow> AOk () | Some e \<Rightarrow> AAbort e), an)"

definition ante_gas :: "uint64 \<Rightarrow> (unit, 's) ante_step" where
  "ante_gas amount an =
     (case ConsumeGas amount (cx_gasMeter (an_ctx an)) of
        (None, m) \<Rightarrow> (AOk (), an\<lparr>an_ctx := (an_ctx an)\<lparr>cx_gasMeter := m\<rparr>\<rparr>)
      | (Some p, m) \<Rightarrow> (APanic (GasErr p), an\<lparr>an_ctx := (an_ctx an)\<lparr>cx_gasMeter := m\<rparr>\<rparr>))"

definition base_gas :: "uint64 \<Rightarrow> (unit, 's) ante_step" where
  "base_gas amount an =
     (case ConsumeGas amount (an_base an) of
        (None, m) \<Rightarrow> (AOk (), an\<lparr>an_base := m\<rparr>)
      | (Some p, m) \<Rightarrow> (APanic (GasErr p), an\<lparr>an_base := m\<rparr>))"

text \<open>A keeper call on the ledger; \<open>None\<close> is its panic.\<close>

definition on_store :: "('m, 's) AuthEnv \<Rightarrow> (ledger \<Rightarrow> ('a, ledger) outcome) \<Rightarrow> ('a, 's) ante_step" where
  "on_store env f an =
     (case f (ae_ledger env (cx_ms (an_ctx an))) of
        None \<Rightarrow> (APanic OtherPanic, an)
      | Some (r, lg) \<Rightarrow>
          ((case r of Inl e \<Rightarrow> AAbort e | Inr x \<Rightarrow> AOk x),
           an\<lparr>an_ctx := (an_ctx an)\<lparr>cx_ms := ae_setLedger env lg (cx_ms (an_ctx an))\<rparr>\<rparr>))"

section \<open>Signatures\<close>

definition SetGasMeter :: "bool \<Rightarrow> 's Ctx \<Rightarrow> uint64 \<Rightarrow> 's Ctx" where
  "SetGasMeter simulate ctx gasLimit =
     (if simulate \<or> hd_Height (cx_header ctx) = 0 then ctx\<lparr>cx_gasMeter := NewInfiniteGasMeter\<rparr>
      else ctx\<lparr>cx_gasMeter := NewGasMeter gasLimit\<rparr>)"

fun CheckCUType :: "('m, 's) AuthEnv \<Rightarrow> CUAddress list \<Rightarrow> (unit, 's) ante_step" where
  "CheckCUType env [] an = (AOk (), an)"
| "CheckCUType env (s # signers) an =
     ante_then (ante_gas (ae_gas env (ReadCU s)))
       (\<lambda>_ an. case GetCU (lg_accounts (ae_ledger env (cx_ms (an_ctx an)))) s of
            Some cu \<Rightarrow> if cu_Type (CU_base cu) = CUTypeOp then (AAbort ErrInvalidAddr, an)
                       else CheckCUType env signers an
          | None \<Rightarrow> CheckCUType env signers an) an"

text \<open>
  The gas of verifying a signature, by the kind of the key; of a multi-signature, the gas of every
  sub-key whose bit is set, whose own result is ignored.  An index out of range panics.
\<close>

fun DefaultSigVerificationGasConsumer ::
    "('m, 's) AuthEnv \<Rightarrow> AuthParams \<Rightarrow> PubKey \<Rightarrow> bytes \<Rightarrow> ('s ante_state \<Rightarrow> sdk_error option ante_result \<times> 's ante_state)"
  and multisig_loop ::
    "('m, 's) AuthEnv \<Rightarrow> AuthParams \<Rightarrow> PubKey list \<Rightarrow> bool list \<Rightarrow> bytes list \<Rightarrow> 's ante_state \<Rightarrow> unit ante_result \<times> 's ante_state"
where
  "DefaultSigVerificationGasConsumer env params (PubKeyEd25519 b) s an =
     ante_then (ante_gas (ap_SigVerifyCostED25519 params)) (\<lambda>_ an. (AOk (Some ErrInvalidPubKey), an)) an"
| "DefaultSigVerificationGasConsumer env params (PubKeySecp256k1 b) s an =
     ante_then (ante_gas (ap_SigVerifyCostSecp256k1 params)) (\<lambda>_ an. (AOk None, an)) an"
| "DefaultSigVerificationGasConsumer env params (PubKeyMultisigThreshold k pubKeys) s an =
     (case ae_decodeMultisig env s of
        None \<Rightarrow> (APanic OtherPanic, an)
      | Some (bits, sigs) \<Rightarrow> ante_then (multisig_loop env params pubKeys bits sigs) (\<lambda>_ an. (AOk None, an)) an)"
| "DefaultSigVerificationGasConsumer env params (OtherPubKey b) s an = (AOk (Some ErrInvalidPubKey), an)"
| "multisig_loop env params pubKeys [] sigs an = (AOk (), an)"
| "multisig_loop env params [] (b # bits) sigs an =
     (if b then (APanic OtherPanic, an) else multisig_loop env params [] bits sigs an)"
| "multisig_loop env params (pub # pubKeys) (b # bits) sigs an =
     (if \<not> b then multisig_loop env params pubKeys bits sigs an
      else case sigs of
          [] \<Rightarrow> (APanic OtherPanic, an)
        | s # sigs \<Rightarrow>
            ante_then (DefaultSigVerificationGasConsumer env params pub s)
              (\<lambda>_. multisig_loop env params pubKeys bits sigs) an)"

definition consumeSimSigGas ::
  "('m, 's) AuthEnv \<Rightarrow> PubKey \<Rightarrow> StdSignature \<Rightarrow> AuthParams \<Rightarrow> (unit, 's) ante_step" where
  "consumeSimSigGas env pubkey s params =
     (let cost = ae_simSigSize env pubkey s + 6;
          cost = (case pubkey of PubKeyMultisigThreshold _ _ \<Rightarrow> cost * ap_TxSigLimit params | _ \<Rightarrow> cost)
      in ante_gas (ap_TxSizeCostPerByte params * cost))"

definition ProcessPubKey ::
  "('m, 's) AuthEnv \<Rightarrow> CU \<Rightarrow> StdSignature \<Rightarrow> bool \<Rightarrow> sdk_error + PubKey" where
  "ProcessPubKey env cu s simulate =
     (let pubKey = cu_PubKey (CU_base cu)
      in if simulate then Inr (case pubKey of None \<Rightarrow> ae_simPubKey env | Some pub \<Rightarrow> pub)
         else
           case pubKey of
             Some pub \<Rightarrow> Inr pub
           | None \<Rightarrow>
               (case sig_PubKey s of
                  None \<Rightarrow> Inl ErrInvalidPubKey
                | Some pub \<Rightarrow>
                    if ae_addressOf env pub \<noteq> CU_Address cu then Inl ErrInvalidPubKey else Inr pub))"

definition processSig ::
  "('m, 's) AuthEnv \<Rightarrow> CU \<Rightarrow> StdSignature \<Rightarrow> bytes \<Rightarrow> bool \<Rightarrow> AuthParams \<Rightarrow> (CU, 's) ante_step" where
  "processSig env cu s signBytes simulate params an =
     (case ProcessPubKey env cu s simulate of
        Inl e \<Rightarrow> (AAbort e, an)
      | Inr pubKey \<Rightarrow>
          (case CU_SetPubKey (Some pubKey) cu of
             None \<Rightarrow> (AAbort ErrInternal, an)
           | Some cu \<Rightarrow>
               ante_then (if simulate then consumeSimSigGas env pubKey s params else (\<lambda>an. (AOk (), an))) (\<lambda>_.
               ante_then (DefaultSigVerificationGasConsumer env params pubKey (sig_Signature s)) (\<lambda>res.
               ante_then (ante_check res) (\<lambda>_.
               ante_then (ante_check (if \<not> simulate \<and> \<not> ae_VerifyBytes env pubKey signBytes (sig_Signature s)
                                      then Some ErrUnauthorized else None)) (\<lambda>_ an.
                 case CU_SetSequence (cu_Sequence (CU_base cu) + 1) cu of
                   None \<Rightarrow> (APanic OtherPanic, an)
                 | Some cu \<Rightarrow> (AOk cu, an))))) an))"

section \<open>Fees\<close>

definition FeeCollectorName :: string where
  "FeeCollectorName = ''fee_collector''"

definition DeductFees :: "('m, 's) AuthEnv \<Rightarrow> CU \<Rightarrow> Coins \<Rightarrow> (unit, 's) ante_step" where
  "DeductFees env cu fees =
     ante_then (ante_gas (ae_gas env (TransferCoins (CU_Address cu) FeeCollectorName fees))) (\<lambda>_.
     ante_then (on_store env (SendCoinsFromAccountToModule (ae_permAddrs env) (CU_Address cu) FeeCollectorName fees))
       (\<lambda>_ an. (AOk (), an)))"

fun required_fees :: "Dec \<Rightarrow> (string \<times> Dec) list \<Rightarrow> Coins option" where
  "required_fees glDec [] = Some []"
| "required_fees glDec ((denom, price) # prices) = do {
     fee \<leftarrow> Dec_Mul price glDec;
     amount \<leftarrow> Dec_RoundInt (Dec_Ceil fee);
     coin \<leftarrow> NewCoin denom amount;
     coins \<leftarrow> required_fees glDec prices;
     Some (coin # coins) }"

text \<open>\<open>None\<close> is a panic; \<open>int64(stdFee.Gas)\<close> wraps.\<close>

definition EnsureSufficientMempoolFees :: "(string \<times> Dec) list \<Rightarrow> StdFee \<Rightarrow> sdk_error option option" where
  "EnsureSufficientMempoolFees minGasPrices stdFee =
     (if list_all (\<lambda>(_, price). price = 0) minGasPrices then Some None
      else do {
        requiredFees \<leftarrow> required_fees (NewDec (sint (fee_Gas stdFee))) minGasPrices;
        enough \<leftarrow> IsAnyGTE (fee_Amount stdFee) requiredFees;
        Some (if \<not> enough then Some ErrInsufficientFee else None) })"

text \<open>A settlement by an active key node is free while its quota of the block lasts.\<close>

definition should_deduct :: "('m, 's) AuthEnv \<Rightarrow> 'm StdTx \<Rightarrow> CU \<Rightarrow> (bool, 's) ante_step" where
  "should_deduct env stdTx cu an =
     (if \<not> cx_checkTx (an_ctx an) \<and> IsSettleTx env stdTx then
        ante_then (ante_gas (ae_gas env ReadKeyNodes)) (\<lambda>_ an.
          if ae_IsActiveKeyNode env (cx_ms (an_ctx an)) (CU_Address cu) then
            (case cx_settleQuota (an_ctx an) of
               None \<Rightarrow> (APanic OtherPanic, an)
             | Some quota \<Rightarrow>
                 (case SettleQuota_Consume (CU_Address cu) (fee_Gas (tx_Fee stdTx)) quota of
                    (ok, quota) \<Rightarrow> (AOk (\<not> ok), an\<lparr>an_ctx := (an_ctx an)\<lparr>cx_settleQuota := Some quota\<rparr>\<rparr>)))
          else (AOk True, an)) an
      else (AOk True, an))"

definition pay_fees :: "('m, 's) AuthEnv \<Rightarrow> 'm StdTx \<Rightarrow> CU \<Rightarrow> (unit, 's) ante_step" where
  "pay_fees env stdTx cu =
     (if Coins_IsZero (fee_Amount (tx_Fee stdTx)) then (\<lambda>an. (AOk (), an))
      else ante_then (should_deduct env stdTx cu) (\<lambda>deduct.
        if deduct then DeductFees env cu (fee_Amount (tx_Fee stdTx)) else (\<lambda>an. (AOk (), an))))"

definition check_settle_only :: "('m, 's) AuthEnv \<Rightarrow> 'm StdTx \<Rightarrow> CU \<Rightarrow> (unit, 's) ante_step" where
  "check_settle_only env stdTx cu an =
     (if IsSettleOnlyTx env stdTx then
        ante_then (ante_gas (ae_gas env ReadKeyNodes)) (\<lambda>_ an.
          if \<not> ae_IsActiveKeyNode env (cx_ms (an_ctx an)) (CU_Address cu) then (AAbort ErrInvalidAccount, an)
          else (AOk (), an)) an
      else (AOk (), an))"

section \<open>The ante handler\<close>

text \<open>A signer's unit is read through the old context, which shares the store of the new one; a nil unit is
  dereferenced.\<close>

definition get_signer :: "('m, 's) AuthEnv \<Rightarrow> CUAddress \<Rightarrow> (CU, 's) ante_step" where
  "get_signer env addr =
     ante_then (base_gas (ae_gas env (ReadCU addr))) (\<lambda>_ an.
       case GetOrNewCU (lg_accounts (ae_ledger env (cx_ms (an_ctx an)))) CUTypeUser addr of
         Some (Some cu) \<Rightarrow> (AOk cu, an)
       | _ \<Rightarrow> (APanic OtherPanic, an))"

definition store_signer :: "('m, 's) AuthEnv \<Rightarrow> CU \<Rightarrow> (unit, 's) ante_step" where
  "store_signer env cu =
     ante_then (ante_gas (ae_gas env (WriteCU cu))) (\<lambda>_.
       on_store env (\<lambda>lg. do { cus \<leftarrow> SetCU cu (lg_accounts lg); Some (Inr (), lg\<lparr>lg_accounts := cus\<rparr>) }))"

definition sign_one ::
  "('m, 's) AuthEnv \<Rightarrow> 'm StdTx \<Rightarrow> bool \<Rightarrow> AuthParams \<Rightarrow> CU \<Rightarrow> StdSignature \<Rightarrow> (unit, 's) ante_step" where
  "sign_one env stdTx simulate params cu s an =
     (let signBytes = ae_SignBytes env (hd_ChainID (cx_header (an_ctx an))) (cu_Sequence (CU_base cu))
            (tx_Fee stdTx) (tx_Msgs stdTx) (tx_Memo stdTx)
      in ante_then (processSig env cu s signBytes simulate params) (store_signer env) an)"

text \<open>The signatures after the first one, with their signers.\<close>

fun sign_rest ::
  "('m, 's) AuthEnv \<Rightarrow> 'm StdTx \<Rightarrow> bool \<Rightarrow> AuthParams \<Rightarrow> CUAddress list \<Rightarrow> StdSignature list \<Rightarrow> (unit, 's) ante_step" where
  "sign_rest env stdTx simulate params addrs [] an = (AOk (), an)"
| "sign_rest env stdTx simulate params [] (s # sigs) an = (APanic OtherPanic, an)"
| "sign_rest env stdTx simulate params (addr # addrs) (s # sigs) an =
     ante_then (get_signer env addr) (\<lambda>cu.
     ante_then (sign_one env stdTx simulate params cu s) (\<lambda>_.
     sign_rest env stdTx simulate params addrs sigs)) an"

text \<open>From the count of the signatures to the end, the part under the handler's own recovery.\<close>

definition ante_body :: "('m, 's) AuthEnv \<Rightarrow> 'm StdTx \<Rightarrow> bool \<Rightarrow> AuthParams \<Rightarrow> (unit, 's) ante_step" where
  "ante_body env stdTx simulate params =
     ante_then (ante_check (ValidateSigCount stdTx params)) (\<lambda>_.
     ante_then (ante_check (StdTx_ValidateBasic env stdTx)) (\<lambda>_.
     ante_then (\<lambda>an. ante_gas (ap_TxSizeCostPerByte params * of_nat (length (cx_txBytes (an_ctx an)))) an) (\<lambda>_.
     ante_then (ante_check (ValidateMemo stdTx params)) (\<lambda>_.
     ante_then (CheckCUType env (GetSigners env stdTx)) (\<lambda>_.
     case GetSigners env stdTx of
       [] \<Rightarrow> (\<lambda>an. (APanic OtherPanic, an))
     | payer # others \<Rightarrow>
         ante_then (get_signer env payer) (\<lambda>cu.
         ante_then (pay_fees env stdTx cu) (\<lambda>_.
         ante_then (check_settle_only env stdTx cu) (\<lambda>_.
         case tx_Signatures stdTx of
           [] \<Rightarrow> (\<lambda>an. (AOk (), an))
         | s # sigs \<Rightarrow>
             ante_then (sign_one env stdTx simulate params cu s) (\<lambda>_.
             sign_rest env stdTx simulate params others sigs)))))))))"

text \<open>The two contexts share the store and the quota, and have a meter each.\<close>

definition ante_ctx :: "'s Ctx \<Rightarrow> 's ante_state \<Rightarrow> 's Ctx" where
  "ante_ctx ctx an =
     ctx\<lparr>cx_ms := cx_ms (an_ctx an), cx_gasMeter := an_base an, cx_settleQuota := cx_settleQuota (an_ctx an)\<rparr>"

definition NewAnteHandler :: "('m, 's) AuthEnv \<Rightarrow> ('m Tx, 's) AnteHandler" where
  "NewAnteHandler env ctx tx simulate =
     (if GetModuleAddress (ae_permAddrs env) FeeCollectorName = None then (Inl OtherPanic, ctx)
      else case tx of
        OtherTx _ \<Rightarrow> (Inr (Some (SetGasMeter simulate ctx 0), error_Result ErrInternal, True), ctx)
      | Std stdTx \<Rightarrow>
          (case base_gas (ae_gas env ReadParams) \<lparr>an_ctx = ctx, an_base = cx_gasMeter ctx\<rparr> of
             (APanic p, an) \<Rightarrow> (Inl p, ante_ctx ctx an)
           | (_, an) \<Rightarrow>
               (let params = ae_params env (cx_ms ctx);
                    fees = (if cx_checkTx ctx \<and> \<not> simulate
                            then EnsureSufficientMempoolFees (cx_minGasPrices ctx) (tx_Fee stdTx) else Some None)
                in case fees of
                     None \<Rightarrow> (Inl OtherPanic, ante_ctx ctx an)
                   | Some (Some e) \<Rightarrow> (Inr (None, error_Result e, True), ante_ctx ctx an)
                   | Some None \<Rightarrow>
                       (let newCtx = SetGasMeter simulate ctx (fee_Gas (tx_Fee stdTx))
                        in case ante_body env stdTx simulate params (an\<lparr>an_ctx := newCtx\<rparr>) of
                             (AOk _, an) \<Rightarrow>
                               (Inr (Some (an_ctx an), ok_Result\<lparr>res_GasWanted := fee_Gas (tx_Fee stdTx)\<rparr>, False), ante_ctx ctx an)
                           | (AAbort e, an) \<Rightarrow> (Inr (Some (an_ctx an), error_Result e, True), ante_ctx ctx an)
                           | (APanic p, an) \<Rightarrow>
                               if p = GasErr ErrorOutOfGas
                               then (Inr (Some (an_ctx an), (error_Result ErrOutOfGas)
                                       \<lparr>res_GasWanted := fee_Gas (tx_Fee stdTx), res_GasUsed := GasConsumed (cx_gasMeter (an_ctx an))\<rparr>,
                                     True), ante_ctx ctx an)
                               else (Inl p, ante_ctx ctx an)))))"

section \<open>The refund\<close>

definition DefaultGasUsedForRefund :: uint64 where
  "DefaultGasUsedForRefund = 20000"

fun refund_coins :: "Dec \<Rightarrow> Coins \<Rightarrow> Coins \<Rightarrow> Coins option" where
  "refund_coins fraction refundCoins [] = Some refundCoins"
| "refund_coins fraction refundCoins (coin # coins) = do {
     d \<leftarrow> Dec_Mul (NewDecFromInt (Amount coin)) fraction;
     amount \<leftarrow> Dec_TruncateInt d;
     c \<leftarrow> NewCoin (Denom coin) amount;
     cs \<leftarrow> NewCoins [c];
     refundCoins \<leftarrow> Coins_Add refundCoins cs;
     refund_coins fraction refundCoins coins }"

definition refund_amount :: "StdFee \<Rightarrow> uint64 \<Rightarrow> uint64 \<Rightarrow> Coins option" where
  "refund_amount fee gasWanted gasUsed = do {
     usedFraction \<leftarrow> Dec_Quo (NewDec (sint (gasUsed + DefaultGasUsedForRefund))) (NewDec (sint gasWanted));
     refundFraction \<leftarrow> Dec_Sub OneDec usedFraction;
     refund_coins refundFraction [] (fee_Amount fee) }"

text \<open>The error of the transfer is dropped.\<close>

definition NewGasRefundHandler :: "('m, 's) AuthEnv \<Rightarrow> ('m Tx, 's) GasRefundHandler" where
  "NewGasRefundHandler env ctx tx gasWanted gasUsed =
     (case tx of
        OtherTx _ \<Rightarrow> (Inl OtherPanic, ctx)
      | Std stdTx \<Rightarrow>
          if gasWanted < gasUsed + DefaultGasUsedForRefund \<or> IsSettleTx env stdTx then (Inr False, ctx)
          else
            case refund_amount (tx_Fee stdTx) gasWanted gasUsed of
              None \<Rightarrow> (Inl OtherPanic, ctx)
            | Some refundCoins \<Rightarrow>
                if \<not> Coins_IsValid refundCoins then (Inr False, ctx)
                else
                  case GetSigners env stdTx of
                    [] \<Rightarrow> (Inl OtherPanic, ctx)
                  | payer # _ \<Rightarrow>
                      (case ConsumeGas (ae_gas env (TransferCoins FeeCollectorName payer refundCoins)) (cx_gasMeter ctx) of
                         (Some p, m) \<Rightarrow> (Inl (GasErr p), ctx\<lparr>cx_gasMeter := m\<rparr>)
                       | (None, m) \<Rightarrow>
                           (case SendCoinsFromModuleToAccount (ae_permAddrs env) FeeCollectorName payer refundCoins
                                   (ae_ledger env (cx_ms ctx)) of
                              None \<Rightarrow> (Inl OtherPanic, ctx\<lparr>cx_gasMeter := m\<rparr>)
                            | Some (_, lg) \<Rightarrow>
                                (Inr True, ctx\<lparr>cx_gasMeter := m, cx_ms := ae_setLedger env lg (cx_ms ctx)\<rparr>))))"

end
