(* ===== verification/AuthFacts.thy ===== *)
theory AuthFacts
  imports Auth
begin

text \<open>
  What the ante handler and the refund guarantee: a transaction that passes was signed by every
  signer for the sequence number that signer had, and cannot pass a second time; its fee goes to the
  fee collector; the refund is never more than the fee; and the settlements a key node makes for
  free in one block stay within its quota.
\<close>

section \<open>Steps that pass\<close>

lemma ante_then_AOk:
  "ante_then m k an = (AOk y, an') \<longleftrightarrow> (\<exists>x an1. m an = (AOk x, an1) \<and> k x an1 = (AOk y, an'))"
  by (auto simp: ante_then_def split: prod.splits ante_result.splits)

text \<open>A property of the context that looks neither at the gas meter nor at the quota.\<close>

definition gas_free :: "('s Ctx \<Rightarrow> bool) \<Rightarrow> bool" where
  "gas_free Q = (\<forall>c m q. Q (c\<lparr>cx_gasMeter := m\<rparr>) = Q c \<and> Q (c\<lparr>cx_settleQuota := q\<rparr>) = Q c)"

lemma gas_freeD: "gas_free Q \<Longrightarrow> Q (c\<lparr>cx_gasMeter := m\<rparr>) = Q c" "gas_free Q \<Longrightarrow> Q (c\<lparr>cx_settleQuota := q\<rparr>) = Q c"
  by (simp_all add: gas_free_def)

definition step_keeps :: "('s Ctx \<Rightarrow> bool) \<Rightarrow> ('a, 's) ante_step \<Rightarrow> bool" where
  "step_keeps Q m = (\<forall>an x an'. m an = (AOk x, an') \<longrightarrow> Q (an_ctx an) \<longrightarrow> Q (an_ctx an'))"

lemma step_keepsD: "step_keeps Q m \<Longrightarrow> m an = (AOk x, an') \<Longrightarrow> Q (an_ctx an) \<Longrightarrow> Q (an_ctx an')"
  by (auto simp: step_keeps_def)

named_theorems keeping

lemma keeps_then [keeping]: "step_keeps Q m \<Longrightarrow> (\<And>x. step_keeps Q (k x)) \<Longrightarrow> step_keeps Q (ante_then m k)"
  by (simp add: step_keeps_def ante_then_AOk) blast

lemma keeps_const [keeping]: "step_keeps Q (\<lambda>an. (r, an))"
  by (simp add: step_keeps_def)

lemma keeps_check [keeping]: "step_keeps Q (ante_check e)"
  by (simp add: step_keeps_def ante_check_def)

lemma keeps_gas [keeping]: "gas_free Q \<Longrightarrow> step_keeps Q (ante_gas g)"
  by (auto simp: step_keeps_def ante_gas_def gas_free_def split: prod.splits option.splits)

lemma base_gas_ctx: "base_gas g an = (AOk x, an') \<Longrightarrow> an_ctx an' = an_ctx an"
  by (auto simp: base_gas_def split: prod.splits option.splits)

text \<open>A step that looks at its state first.\<close>

lemma keeps_look: "(\<And>an. step_keeps Q (f an)) \<Longrightarrow> step_keeps Q (\<lambda>an. f an an)"
  by (auto simp: step_keeps_def)

lemma keeps_CheckCUType [keeping]: "gas_free Q \<Longrightarrow> step_keeps Q (CheckCUType env signers)"
proof (induction signers)
  case Nil
  have "CheckCUType env [] = (\<lambda>an. (AOk (), an))" by (rule ext) simp
  then show ?case by (simp add: keeps_const)
next
  case (Cons s signers)
  then show ?case
    by (auto simp: step_keeps_def ante_then_AOk ante_gas_def gas_free_def split: option.splits if_splits prod.splits)
qed

lemma keeps_sig_gas:
  fixes env :: "('m, 's) AuthEnv" and params :: AuthParams and Q :: "'s Ctx \<Rightarrow> bool"
  assumes "gas_free Q"
  shows "DefaultSigVerificationGasConsumer env params pub s an = (AOk x, an') \<Longrightarrow> Q (an_ctx an) \<Longrightarrow> Q (an_ctx an')"
    and "multisig_loop env params pubs bits sigs an = (AOk y, an') \<Longrightarrow> Q (an_ctx an) \<Longrightarrow> Q (an_ctx an')"
proof (induction env params pub s an and env params pubs bits sigs an
    arbitrary: x an' and y an' rule: DefaultSigVerificationGasConsumer_multisig_loop.induct)
  case (1 env params b s an)
  then show ?case using step_keepsD [OF keeps_gas [OF assms]] by (auto simp: ante_then_AOk)
next
  case (2 env params b s an)
  then show ?case using step_keepsD [OF keeps_gas [OF assms]] by (auto simp: ante_then_AOk)
next
  case (3 env params k pubKeys s an)
  then show ?case by (auto simp: ante_then_AOk split: option.splits prod.splits)
next
  case (7 env params pub pubKeys b bits sigs an)
  then show ?case by (fastforce simp: ante_then_AOk split: list.splits if_splits)
qed (auto split: if_splits)

lemma keeps_processSig [keeping]: "gas_free Q \<Longrightarrow> step_keeps Q (processSig env cu s signBytes simulate params)"
  unfolding step_keeps_def processSig_def consumeSimSigGas_def
  by (auto simp: ante_then_AOk ante_check_def Let_def split: sum.splits option.splits if_splits
      dest: step_keepsD [OF keeps_gas] keeps_sig_gas(1))

lemma keeps_should_deduct [keeping]:
  assumes Q: "gas_free Q"
  shows "step_keeps Q (should_deduct env tx cu)"
  unfolding step_keeps_def should_deduct_def
  by (auto simp: ante_then_AOk gas_freeD [OF Q] split: option.split_asm if_split_asm prod.split_asm
      dest!: step_keepsD [OF keeps_gas [OF Q]])

lemma keeps_check_settle_only [keeping]: "gas_free Q \<Longrightarrow> step_keeps Q (check_settle_only env tx cu)"
  unfolding step_keeps_def check_settle_only_def
  by (auto simp: ante_then_AOk split: option.split_asm if_split_asm prod.split_asm dest!: step_keepsD [OF keeps_gas])

lemma keeps_get_signer [keeping]: "step_keeps Q (get_signer env addr)"
  unfolding step_keeps_def get_signer_def
  by (auto simp: ante_then_AOk split: option.split_asm dest: base_gas_ctx)


section \<open>Invariants of the store\<close>

text \<open>
  The contract between the checks of a transaction and the store: a property of the store that is
  kept by the update of a unit, and one that is kept by a transfer to or from the fee collector as well.
\<close>

locale unit_client =
  fixes env :: "('m, 's) AuthEnv" and P :: "'s \<Rightarrow> bool"
  assumes unit_keeps: "P s \<Longrightarrow> SetCU cu (lg_accounts (ae_ledger env s)) = Some cus \<Longrightarrow>
      P (ae_setLedger env ((ae_ledger env s)\<lparr>lg_accounts := cus\<rparr>) s)"
begin

abbreviation keeps :: "('a, 's) ante_step \<Rightarrow> bool" where
  "keeps \<equiv> step_keeps (\<lambda>c. P (cx_ms c))"

lemma P_gas_free: "gas_free (\<lambda>c. P (cx_ms c))"
  by (simp add: gas_free_def)

lemma keeps_store: "(\<And>s x lg. P s \<Longrightarrow> f (ae_ledger env s) = Some (Inr x, lg) \<Longrightarrow> P (ae_setLedger env lg s)) \<Longrightarrow> keeps (on_store env f)"
  unfolding step_keeps_def on_store_def by (auto split: option.split_asm prod.split_asm sum.split_asm)

lemma keeps_store_signer: "keeps (store_signer env cu)"
  unfolding store_signer_def
  by (intro keeping P_gas_free keeps_store) (auto simp: bind_Some_iff intro: unit_keeps)

lemma keeps_sign_one: "keeps (sign_one env tx simulate params cu s)"
  unfolding sign_one_def Let_def by (rule keeps_look) (intro keeping P_gas_free keeps_store_signer)

lemma keeps_sign_rest: "keeps (sign_rest env tx simulate params addrs sigs)"
proof (induction addrs sigs rule: list_induct2')
  case (4 a as s ss)
  have "sign_rest env tx simulate params (a # as) (s # ss) =
      ante_then (get_signer env a) (\<lambda>cu. ante_then (sign_one env tx simulate params cu s) (\<lambda>_. sign_rest env tx simulate params as ss))"
    by (rule ext) simp
  then show ?case using 4 by (auto intro!: keeping keeps_sign_one)
qed (simp_all add: step_keeps_def)

end

locale ledger_client = unit_client +
  assumes fee_keeps: "P s \<Longrightarrow>
      SendCoinsFromAccountToModule (ae_permAddrs env) a FeeCollectorName cs (ae_ledger env s) = Some (Inr fl, lg) \<Longrightarrow>
      P (ae_setLedger env lg s)"
    and back_keeps: "P s \<Longrightarrow>
      SendCoinsFromModuleToAccount (ae_permAddrs env) FeeCollectorName a cs (ae_ledger env s) = Some (r, lg) \<Longrightarrow>
      P (ae_setLedger env lg s)"
begin

lemma keeps_DeductFees: "keeps (DeductFees env cu fees)"
  unfolding DeductFees_def by (intro keeping P_gas_free keeps_store) (rule fee_keeps)

lemma keeps_pay_fees: "keeps (pay_fees env tx cu)"
  unfolding pay_fees_def by (auto intro!: keeping P_gas_free keeps_DeductFees)

lemma keeps_ante_body: "keeps (ante_body env tx simulate params)"
  unfolding ante_body_def
  by (intro keeping P_gas_free, rule keeps_look)
    (auto intro!: keeping P_gas_free keeps_pay_fees keeps_sign_one keeps_sign_rest split: list.split)

lemma NewAnteHandler_keeps:
  assumes "NewAnteHandler env ctx tx simulate = (Inr (nc, res, False), c)" and "P (cx_ms ctx)"
  shows "P (cx_ms c)"
proof (cases tx)
  case (Std stdTx)
  then show ?thesis using assms
    by (auto simp: NewAnteHandler_def ante_ctx_def SetGasMeter_def Let_def dest!: step_keepsD [OF keeps_ante_body]
        split: if_split_asm prod.split_asm ante_result.split_asm option.split_asm)
qed (use assms in \<open>auto simp: NewAnteHandler_def split: if_split_asm\<close>)

lemma NewGasRefundHandler_keeps:
  assumes "NewGasRefundHandler env ctx tx wanted used = (Inr b, c)" and "P (cx_ms ctx)"
  shows "P (cx_ms c)"
  using assms
  by (auto simp: NewGasRefundHandler_def split: Tx.split_asm if_split_asm prod.split_asm option.split_asm list.split_asm
      intro: back_keeps)

end


section \<open>Signatures and sequence numbers\<close>

definition key_of :: "CUStore \<Rightarrow> CUAddress \<Rightarrow> PubKey option" where
  "key_of cus a = (case GetCU cus a of None \<Rightarrow> None | Some cu \<Rightarrow> cu_PubKey (CU_base cu))"

definition sequence_of :: "CUStore \<Rightarrow> CUAddress \<Rightarrow> uint64" where
  "sequence_of cus a = (case GetCU cus a of None \<Rightarrow> 0 | Some cu \<Rightarrow> cu_Sequence (CU_base cu))"

definition cus_keyed :: "CUStore \<Rightarrow> bool" where
  "cus_keyed cus = (\<forall>a cu. GetCU cus a = Some cu \<longrightarrow> CU_Address cu = a)"

text \<open>The store is read back as it was written.\<close>

definition ledger_lens :: "('m, 's) AuthEnv \<Rightarrow> bool" where
  "ledger_lens env = (\<forall>lg s. ae_ledger env (ae_setLedger env lg s) = lg)"

abbreviation accounts :: "('m, 's) AuthEnv \<Rightarrow> 's Ctx \<Rightarrow> CUStore" where
  "accounts env c \<equiv> lg_accounts (ae_ledger env (cx_ms c))"

text \<open>
  A signer has signed: with the key of its unit, or with the key of its address if the unit has none
  yet, over the transaction and the sequence number of the unit, which has grown by one.
\<close>

definition has_signed ::
  "('m, 's) AuthEnv \<Rightarrow> string \<Rightarrow> 'm StdTx \<Rightarrow> CUStore \<Rightarrow> CUStore \<Rightarrow> CUAddress \<Rightarrow> StdSignature \<Rightarrow> bool" where
  "has_signed env chainID tx before after a s =
     (\<exists>pub. key_of after a = Some pub \<and>
        (key_of before a = Some pub \<or> key_of before a = None \<and> ae_addressOf env pub = a) \<and>
        ae_VerifyBytes env pub (ae_SignBytes env chainID (sequence_of before a) (tx_Fee tx) (tx_Msgs tx) (tx_Memo tx))
          (sig_Signature s) \<and>
        sequence_of after a = sequence_of before a + 1)"

lemma keyed_SetCU: "SetCU cu cus = Some cus' \<Longrightarrow> cus_keyed cus \<Longrightarrow> cus_keyed cus'"
  by (auto simp: cus_keyed_def SetCU_GetCU split: if_split_asm)

lemma get_signer_AOk:
  assumes "get_signer env a an = (AOk cu, an')" and "cus_keyed (accounts env (an_ctx an))"
  shows "an_ctx an' = an_ctx an" "CU_Address cu = a" "cu_PubKey (CU_base cu) = key_of (accounts env (an_ctx an)) a"
    "cu_Sequence (CU_base cu) = sequence_of (accounts env (an_ctx an)) a"
proof -
  obtain an1 where an1: "base_gas (ae_gas env (ReadCU a)) an = (AOk (), an1)" "an' = an1"
    and cu: "GetOrNewCU (accounts env (an_ctx an)) CUTypeUser a = Some (Some cu)"
    using assms(1) by (auto simp: get_signer_def ante_then_AOk base_gas_ctx split: option.split_asm)
  show "an_ctx an' = an_ctx an" using base_gas_ctx [OF an1(1)] an1(2) by simp
  have "a \<noteq> ''''" using cu by (auto simp: GetOrNewCU_def)
  then have "cu = (case GetCU (accounts env (an_ctx an)) a of None \<Rightarrow> BaseAccount (NewBaseCU CUTypeUser a None 0) | Some cu \<Rightarrow> cu)"
    using cu GetOrNewCU_user by (simp add: GetCU_def)
  then show "CU_Address cu = a" "cu_PubKey (CU_base cu) = key_of (accounts env (an_ctx an)) a"
    "cu_Sequence (CU_base cu) = sequence_of (accounts env (an_ctx an)) a"
    using assms(2) by (auto simp: key_of_def sequence_of_def cus_keyed_def NewBaseCU_def split: option.split)
qed

lemma processSig_AOk:
  assumes "processSig env cu s sb False params an = (AOk cu', an')"
  obtains pub where "cu_PubKey (CU_base cu) = Some pub \<or> cu_PubKey (CU_base cu) = None \<and> ae_addressOf env pub = CU_Address cu"
    and "ae_VerifyBytes env pub sb (sig_Signature s)" and "CU_Address cu' = CU_Address cu"
    and "cu_PubKey (CU_base cu') = Some pub" and "cu_Sequence (CU_base cu') = cu_Sequence (CU_base cu) + 1"
proof -
  obtain pub where pub: "ProcessPubKey env cu s False = Inr pub" using assms by (auto simp: processSig_def split: sum.split_asm)
  obtain cu1 where cu1: "CU_SetPubKey (Some pub) cu = Some cu1" using assms pub by (auto simp: processSig_def split: option.split_asm)
  then obtain b where b: "cu = BaseAccount b" by (cases cu) auto
  have cu1': "cu1 = BaseAccount (b\<lparr>cu_PubKey := Some pub\<rparr>)"
    using cu1 b by (cases "cu_PubKey b") (auto simp: BaseCU_SetPubKey_def split: if_split_asm)
  have v: "ae_VerifyBytes env pub sb (sig_Signature s)" "CU_SetSequence (cu_Sequence (CU_base cu) + 1) cu1 = Some cu'"
    using assms by (auto simp: processSig_def pub cu1 ante_then_AOk ante_check_def split: if_split_asm option.split_asm)
      (auto simp: cu1' b)
  have p: "cu_PubKey b = Some pub \<or> cu_PubKey b = None \<and> ae_addressOf env pub = cu_Address b"
    using pub b by (auto simp: ProcessPubKey_def split: option.split_asm if_split_asm)
  show ?thesis by (rule that [of pub]) (use v p b cu1' in \<open>auto simp: BaseCU_SetSequence_def\<close>)
qed

text \<open>What a step that reads only leaves alone.\<close>

lemma same_store:
  assumes "step_keeps (\<lambda>c. cx_ms c = cx_ms (an_ctx an) \<and> cx_header c = cx_header (an_ctx an)) m" and "m an = (AOk x, an')"
  shows "cx_ms (an_ctx an') = cx_ms (an_ctx an)" "cx_header (an_ctx an') = cx_header (an_ctx an)"
  using step_keepsD [OF assms] by simp_all

lemma sign_one_AOk:
  assumes run: "sign_one env tx False params cu s an = (AOk (), an')" and lens: "ledger_lens env"
  obtains pub cu' where "cu_PubKey (CU_base cu) = Some pub \<or> cu_PubKey (CU_base cu) = None \<and> ae_addressOf env pub = CU_Address cu"
    and "ae_VerifyBytes env pub (ae_SignBytes env (hd_ChainID (cx_header (an_ctx an))) (cu_Sequence (CU_base cu))
       (tx_Fee tx) (tx_Msgs tx) (tx_Memo tx)) (sig_Signature s)"
    and "CU_Address cu' = CU_Address cu" and "cu_PubKey (CU_base cu') = Some pub"
    and "cu_Sequence (CU_base cu') = cu_Sequence (CU_base cu) + 1"
    and "SetCU cu' (accounts env (an_ctx an)) = Some (accounts env (an_ctx an'))"
    and "cx_header (an_ctx an') = cx_header (an_ctx an)"
proof -
  obtain cu' an1 where p: "processSig env cu s (ae_SignBytes env (hd_ChainID (cx_header (an_ctx an))) (cu_Sequence (CU_base cu))
       (tx_Fee tx) (tx_Msgs tx) (tx_Memo tx)) False params an = (AOk cu', an1)" and st: "store_signer env cu' an1 = (AOk (), an')"
    using run by (auto simp: sign_one_def ante_then_AOk)
  have s1: "cx_ms (an_ctx an1) = cx_ms (an_ctx an)" "cx_header (an_ctx an1) = cx_header (an_ctx an)"
    by (rule same_store [OF keeps_processSig p]; simp add: gas_free_def)+
  obtain an2 where g: "ante_gas (ae_gas env (WriteCU cu')) an1 = (AOk (), an2)"
    and w: "on_store env (\<lambda>lg. do { cus \<leftarrow> SetCU cu' (lg_accounts lg); Some (Inr (), lg\<lparr>lg_accounts := cus\<rparr>) }) an2 = (AOk (), an')"
    using st by (auto simp: store_signer_def ante_then_AOk)
  have s2: "cx_ms (an_ctx an2) = cx_ms (an_ctx an1)" "cx_header (an_ctx an2) = cx_header (an_ctx an1)"
    by (rule same_store [OF keeps_gas g]; simp add: gas_free_def)+
  have w': "SetCU cu' (accounts env (an_ctx an)) = Some (accounts env (an_ctx an'))" "cx_header (an_ctx an') = cx_header (an_ctx an)"
    using w s1 s2 lens by (auto simp: on_store_def ledger_lens_def bind_Some_iff split: option.split_asm prod.split_asm sum.split_asm)
  show ?thesis by (rule processSig_AOk [OF p]) (rule that [OF _ _ _ _ _ w']; assumption)
qed


text \<open>The fee may open the account of the fee collector, with no key and no sequence number.\<close>

definition same_units :: "CUStore \<Rightarrow> CUStore \<Rightarrow> bool" where
  "same_units A B = ((\<forall>a. key_of B a = key_of A a \<and> sequence_of B a = sequence_of A a) \<and> (cus_keyed A \<longrightarrow> cus_keyed B))"

lemma same_units_refl [simp]: "same_units A A"
  by (simp add: same_units_def)

lemma same_units_new:
  assumes "GetCU A (CU_Address cu) = None" and "cu_PubKey (CU_base cu) = None" and "cu_Sequence (CU_base cu) = 0" and "SetCU cu A = Some B"
  shows "same_units A B"
  using assms keyed_SetCU [OF assms(4)] by (auto simp: same_units_def key_of_def sequence_of_def SetCU_GetCU [OF assms(4)])

lemma GetModuleAccount_units:
  "GetModuleAccount pa m lg = Some (acc, lg') \<Longrightarrow> same_units (lg_accounts lg) (lg_accounts lg')"
  by (auto simp: GetModuleAccount_def NewEmptyModuleAccount_def NewBaseCUWithAddress_def NewBaseCU_def bind_Some_iff
      split: option.split_asm CU.split_asm if_split_asm intro!: same_units_new)

lemma SendCoinsFromAccountToModule_units:
  "SendCoinsFromAccountToModule pa a m cs lg = Some (r, lg') \<Longrightarrow> same_units (lg_accounts lg) (lg_accounts lg')"
  by (auto simp: SendCoinsFromAccountToModule_def on_bank_def bind_Some_iff dest: GetModuleAccount_units)

lemma DeductFees_units:
  assumes "DeductFees env cu fees an = (AOk (), an')" and "ledger_lens env"
  shows "same_units (accounts env (an_ctx an)) (accounts env (an_ctx an'))" "cx_header (an_ctx an') = cx_header (an_ctx an)"
proof -
  obtain an1 where g: "ante_gas (ae_gas env (TransferCoins (CU_Address cu) FeeCollectorName fees)) an = (AOk (), an1)"
    and w: "\<exists>x. on_store env (SendCoinsFromAccountToModule (ae_permAddrs env) (CU_Address cu) FeeCollectorName fees) an1 = (AOk x, an')"
    using assms(1) by (auto simp: DeductFees_def ante_then_AOk)
  have s1: "cx_ms (an_ctx an1) = cx_ms (an_ctx an)" "cx_header (an_ctx an1) = cx_header (an_ctx an)"
    by (rule same_store [OF keeps_gas g]; simp add: gas_free_def)+
  show "same_units (accounts env (an_ctx an)) (accounts env (an_ctx an'))" "cx_header (an_ctx an') = cx_header (an_ctx an)"
    using w s1 assms(2)
    by (auto simp: on_store_def ledger_lens_def split: option.split_asm prod.split_asm sum.split_asm dest: SendCoinsFromAccountToModule_units)
qed

lemma pay_fees_units:
  assumes "pay_fees env tx cu an = (AOk (), an')" and "ledger_lens env"
  shows "same_units (accounts env (an_ctx an)) (accounts env (an_ctx an'))" "cx_header (an_ctx an') = cx_header (an_ctx an)"
proof -
  have *: "same_units (accounts env (an_ctx an)) (accounts env (an_ctx an')) \<and> cx_header (an_ctx an') = cx_header (an_ctx an)"
  proof (cases "Coins_IsZero (fee_Amount (tx_Fee tx))")
    case True
    then show ?thesis using assms by (simp add: pay_fees_def)
  next
    case False
    then obtain d an1 where d: "should_deduct env tx cu an = (AOk d, an1)"
      and r: "if d then DeductFees env cu (fee_Amount (tx_Fee tx)) an1 = (AOk (), an') else an' = an1"
      using assms(1) by (auto simp: pay_fees_def ante_then_AOk split: if_split_asm)
    have s1: "cx_ms (an_ctx an1) = cx_ms (an_ctx an)" "cx_header (an_ctx an1) = cx_header (an_ctx an)"
      by (rule same_store [OF keeps_should_deduct d]; simp add: gas_free_def)+
    then show ?thesis using r DeductFees_units [OF _ assms(2), of cu _ an1 an'] by (cases d) auto
  qed
  then show "same_units (accounts env (an_ctx an)) (accounts env (an_ctx an'))" "cx_header (an_ctx an') = cx_header (an_ctx an)" by simp_all
qed

text \<open>One signer: the unit may have been read before the fee was paid.\<close>

lemma sign_one_signed:
  assumes run: "sign_one env tx False params cu s an = (AOk (), an')" and lens: "ledger_lens env"
    and keyed: "cus_keyed (accounts env (an_ctx an))"
    and cu: "CU_Address cu = a" "cu_PubKey (CU_base cu) = key_of A a" "cu_Sequence (CU_base cu) = sequence_of A a"
  shows "has_signed env (hd_ChainID (cx_header (an_ctx an))) tx A (accounts env (an_ctx an')) a s"
    "\<And>x. x \<noteq> a \<Longrightarrow> GetCU (accounts env (an_ctx an')) x = GetCU (accounts env (an_ctx an)) x"
    "cus_keyed (accounts env (an_ctx an'))" "cx_header (an_ctx an') = cx_header (an_ctx an)"
proof -
  obtain pub cu' where r: "cu_PubKey (CU_base cu) = Some pub \<or> cu_PubKey (CU_base cu) = None \<and> ae_addressOf env pub = CU_Address cu"
      "ae_VerifyBytes env pub (ae_SignBytes env (hd_ChainID (cx_header (an_ctx an))) (cu_Sequence (CU_base cu))
         (tx_Fee tx) (tx_Msgs tx) (tx_Memo tx)) (sig_Signature s)"
      "CU_Address cu' = CU_Address cu" "cu_PubKey (CU_base cu') = Some pub" "cu_Sequence (CU_base cu') = cu_Sequence (CU_base cu) + 1"
      "SetCU cu' (accounts env (an_ctx an)) = Some (accounts env (an_ctx an'))" "cx_header (an_ctx an') = cx_header (an_ctx an)"
    by (rule sign_one_AOk [OF run lens])
  note get = SetCU_GetCU [OF r(6)]
  show "has_signed env (hd_ChainID (cx_header (an_ctx an))) tx A (accounts env (an_ctx an')) a s"
    unfolding has_signed_def using r cu by (intro exI [of _ pub]) (auto simp: key_of_def sequence_of_def get)
  show "\<And>x. x \<noteq> a \<Longrightarrow> GetCU (accounts env (an_ctx an')) x = GetCU (accounts env (an_ctx an)) x" using get r(3) cu(1) by simp
  show "cus_keyed (accounts env (an_ctx an'))" by (rule keyed_SetCU [OF r(6) keyed])
  show "cx_header (an_ctx an') = cx_header (an_ctx an)" by (rule r(7))
qed

text \<open>\<open>has_signed\<close> looks at its signer only.\<close>

lemma signed_cong:
  assumes "key_of A' a = key_of A a" and "sequence_of A' a = sequence_of A a"
    and "key_of B' a = key_of B a" and "sequence_of B' a = sequence_of B a"
  shows "has_signed env ch tx A' B' a s = has_signed env ch tx A B a s"
  using assms by (simp add: has_signed_def)

lemma units_cong: "GetCU B a = GetCU A a \<Longrightarrow> key_of B a = key_of A a \<and> sequence_of B a = sequence_of A a"
  by (simp add: key_of_def sequence_of_def)

lemma sign_rest_signed:
  "sign_rest env tx False params addrs sigs an = (AOk (), an') \<Longrightarrow> ledger_lens env \<Longrightarrow> distinct addrs \<Longrightarrow>
   cus_keyed (accounts env (an_ctx an)) \<Longrightarrow>
   length sigs \<le> length addrs \<and>
   (\<forall>i < length sigs. has_signed env (hd_ChainID (cx_header (an_ctx an))) tx (accounts env (an_ctx an)) (accounts env (an_ctx an')) (addrs ! i) (sigs ! i)) \<and>
   (\<forall>x. x \<notin> set addrs \<longrightarrow> GetCU (accounts env (an_ctx an')) x = GetCU (accounts env (an_ctx an)) x) \<and>
   cus_keyed (accounts env (an_ctx an'))"
proof (induction addrs sigs arbitrary: an rule: list_induct2')
  case (4 a as s ss)
  obtain cu an1 an2 where g: "get_signer env a an = (AOk cu, an1)" and o1: "sign_one env tx False params cu s an1 = (AOk (), an2)"
    and rest: "sign_rest env tx False params as ss an2 = (AOk (), an')"
    using "4.prems"(1) by (auto simp: ante_then_AOk)
  note G = get_signer_AOk [OF g "4.prems"(4)]
  have k1: "cus_keyed (accounts env (an_ctx an1))" using G(1) "4.prems"(4) by simp
  note S = sign_one_signed [OF o1 "4.prems"(2) k1 G(2-4)]
  have ch: "cx_header (an_ctx an2) = cx_header (an_ctx an)" using S(4) G(1) by simp
  note R = "4.IH" [OF rest "4.prems"(2) _ S(3), unfolded ch]
  have d: "distinct as" "a \<notin> set as" using "4.prems"(3) by auto
  have head: "has_signed env (hd_ChainID (cx_header (an_ctx an))) tx (accounts env (an_ctx an)) (accounts env (an_ctx an')) a s"
    using S(1) G(1) R d units_cong [of "accounts env (an_ctx an')" a "accounts env (an_ctx an2)"] by (auto simp: has_signed_def)
  have "has_signed env (hd_ChainID (cx_header (an_ctx an))) tx (accounts env (an_ctx an)) (accounts env (an_ctx an')) (as ! i) (ss ! i)"
    if "i < length ss" for i
  proof -
    have "as ! i \<noteq> a" using that R d by (metis nth_mem order_less_le_trans)
    then have "GetCU (accounts env (an_ctx an2)) (as ! i) = GetCU (accounts env (an_ctx an)) (as ! i)" using S(2) G(1) by simp
    from units_cong [OF this] have u: "key_of (accounts env (an_ctx an2)) (as ! i) = key_of (accounts env (an_ctx an)) (as ! i)"
      "sequence_of (accounts env (an_ctx an2)) (as ! i) = sequence_of (accounts env (an_ctx an)) (as ! i)" by simp_all
    have "has_signed env (hd_ChainID (cx_header (an_ctx an))) tx (accounts env (an_ctx an2)) (accounts env (an_ctx an')) (as ! i) (ss ! i)"
      using R d(1) that by blast
    then show ?thesis unfolding signed_cong [OF u refl refl] .
  qed
  then show ?case using head R d S(2) G(1) by (auto simp: nth_Cons split: nat.split)
qed auto


lemma dedup_signers_distinct: "distinct acc \<Longrightarrow> distinct (dedup_signers acc addrs)"
  by (induction addrs arbitrary: acc) auto

lemma ante_body_AOk:
  assumes "ante_body env tx simulate params an = (AOk (), an')"
  obtains payer others s sigs cu an1 an2 an3 an4 an5 where
    "GetSigners env tx = payer # others" and "tx_Signatures tx = s # sigs" and "length sigs = length others"
    and "cx_ms (an_ctx an1) = cx_ms (an_ctx an)" and "cx_header (an_ctx an1) = cx_header (an_ctx an)"
    and "get_signer env payer an1 = (AOk cu, an2)" and "pay_fees env tx cu an2 = (AOk (), an3)"
    and "cx_ms (an_ctx an4) = cx_ms (an_ctx an3)" and "cx_header (an_ctx an4) = cx_header (an_ctx an3)"
    and "sign_one env tx simulate params cu s an4 = (AOk (), an5)"
    and "sign_rest env tx simulate params others sigs an5 = (AOk (), an')"
proof -
  have v: "StdTx_ValidateBasic env tx = None" using assms by (auto simp: ante_body_def ante_then_AOk ante_check_def split: option.split_asm)
  have len: "tx_Signatures tx \<noteq> []" "length (tx_Signatures tx) = length (GetSigners env tx)"
    using v by (auto simp: StdTx_ValidateBasic_def split: if_split_asm)
  obtain payer others s sigs where p: "GetSigners env tx = payer # others" "tx_Signatures tx = s # sigs" "length sigs = length others"
    using len by (cases "GetSigners env tx"; cases "tx_Signatures tx") auto
  obtain an0 an1 cu an2 an3 an4 an5 where
    g: "ante_gas (ap_TxSizeCostPerByte params * of_nat (length (cx_txBytes (an_ctx an)))) an = (AOk (), an0)"
    and c: "CheckCUType env (payer # others) an0 = (AOk (), an1)"
    and r: "get_signer env payer an1 = (AOk cu, an2)" "pay_fees env tx cu an2 = (AOk (), an3)"
    and so: "check_settle_only env tx cu an3 = (AOk (), an4)"
    and sg: "sign_one env tx simulate params cu s an4 = (AOk (), an5)" "sign_rest env tx simulate params others sigs an5 = (AOk (), an')"
    using assms by (auto simp: ante_body_def ante_then_AOk ante_check_def p simp del: CheckCUType.simps split: option.split_asm)
  have "cx_ms (an_ctx an0) = cx_ms (an_ctx an)" "cx_header (an_ctx an0) = cx_header (an_ctx an)"
    by (rule same_store [OF keeps_gas g]; simp add: gas_free_def)+
  moreover have "cx_ms (an_ctx an1) = cx_ms (an_ctx an0)" "cx_header (an_ctx an1) = cx_header (an_ctx an0)"
    by (rule same_store [OF keeps_CheckCUType c]; simp add: gas_free_def)+
  moreover have "cx_ms (an_ctx an4) = cx_ms (an_ctx an3)" "cx_header (an_ctx an4) = cx_header (an_ctx an3)"
    by (rule same_store [OF keeps_check_settle_only so]; simp add: gas_free_def)+
  ultimately show ?thesis using that [OF p _ _ r _ _ sg] by simp
qed

text \<open>The outcome that lets a transaction pass.\<close>

lemma NewAnteHandler_passes:
  assumes "NewAnteHandler env ctx (Std tx) simulate = (Inr (nc, res, False), c)"
  obtains an an' where "ante_body env tx simulate (ae_params env (cx_ms ctx)) an = (AOk (), an')"
    and "an_ctx an = SetGasMeter simulate ctx (fee_Gas (tx_Fee tx))" and "cx_ms c = cx_ms (an_ctx an')"
  using assms
  by (auto simp: NewAnteHandler_def ante_ctx_def Let_def
      split: if_split_asm prod.split_asm ante_result.split_asm option.split_asm)

lemma SetGasMeter_same [simp]: "cx_ms (SetGasMeter simulate ctx g) = cx_ms ctx" "cx_header (SetGasMeter simulate ctx g) = cx_header ctx"
  by (simp_all add: SetGasMeter_def)

lemma passes_signed:
  assumes run: "NewAnteHandler env ctx (Std tx) False = (Inr (nc, res, False), c)" and lens: "ledger_lens env"
    and keyed: "cus_keyed (accounts env ctx)"
  shows "length (tx_Signatures tx) = length (GetSigners env tx) \<and> tx_Signatures tx \<noteq> [] \<and>
    (\<forall>i < length (tx_Signatures tx).
       has_signed env (hd_ChainID (cx_header ctx)) tx (accounts env ctx) (accounts env c) (GetSigners env tx ! i) (tx_Signatures tx ! i)) \<and>
    (\<forall>a. a \<notin> set (GetSigners env tx) \<longrightarrow>
       key_of (accounts env c) a = key_of (accounts env ctx) a \<and> sequence_of (accounts env c) a = sequence_of (accounts env ctx) a) \<and>
    cus_keyed (accounts env c)"
proof -
  obtain an an' where body: "ante_body env tx False (ae_params env (cx_ms ctx)) an = (AOk (), an')"
    and an: "an_ctx an = SetGasMeter False ctx (fee_Gas (tx_Fee tx))" and c: "cx_ms c = cx_ms (an_ctx an')"
    by (rule NewAnteHandler_passes [OF run])
  obtain payer others s sigs cu an1 an2 an3 an4 an5 where
    p: "GetSigners env tx = payer # others" "tx_Signatures tx = s # sigs" "length sigs = length others"
    and e1: "cx_ms (an_ctx an1) = cx_ms (an_ctx an)" "cx_header (an_ctx an1) = cx_header (an_ctx an)"
    and g: "get_signer env payer an1 = (AOk cu, an2)" and f: "pay_fees env tx cu an2 = (AOk (), an3)"
    and e2: "cx_ms (an_ctx an4) = cx_ms (an_ctx an3)" "cx_header (an_ctx an4) = cx_header (an_ctx an3)"
    and s1: "sign_one env tx False (ae_params env (cx_ms ctx)) cu s an4 = (AOk (), an5)"
    and sr: "sign_rest env tx False (ae_params env (cx_ms ctx)) others sigs an5 = (AOk (), an')"
    by (rule ante_body_AOk [OF body])
  let ?A = "accounts env ctx" and ?ch = "hd_ChainID (cx_header ctx)"
  have A1: "accounts env (an_ctx an1) = ?A" using e1 an by simp
  note G = get_signer_AOk [OF g, unfolded A1, OF keyed]
  note U = pay_fees_units [OF f lens]
  have A4: "same_units ?A (accounts env (an_ctx an4))" "cx_header (an_ctx an4) = cx_header ctx"
    using U G(1) A1 e1 e2 an by simp_all
  then have k4: "cus_keyed (accounts env (an_ctx an4))" using keyed by (simp add: same_units_def)
  note S = sign_one_signed [OF s1 lens k4 G(2-4), unfolded A4(2)]
  have d: "payer \<notin> set others" "distinct others"
    using dedup_signers_distinct [of "[]"] p(1) by (auto simp: GetSigners_def) (metis distinct.simps(2))+
  note R = sign_rest_signed [OF sr lens d(2) S(3), unfolded S(4)]
  have An: "accounts env (an_ctx an') = accounts env c" using c by simp
  have u5: "key_of (accounts env (an_ctx an5)) a = key_of ?A a \<and> sequence_of (accounts env (an_ctx an5)) a = sequence_of ?A a"
    if "a \<noteq> payer" for a
    using units_cong [OF S(2) [OF that]] A4(1) by (simp add: same_units_def)
  have first: "has_signed env ?ch tx ?A (accounts env c) payer s"
    using S(1) R d(1) An units_cong [of "accounts env c" payer "accounts env (an_ctx an5)"] by (simp add: has_signed_def)
  have later: "has_signed env ?ch tx ?A (accounts env c) (others ! i) (sigs ! i)" if i: "i < length sigs" for i
  proof -
    have "others ! i \<noteq> payer" using i p(3) d(1) by (metis nth_mem)
    with u5 [of "others ! i"] have u: "key_of (accounts env (an_ctx an5)) (others ! i) = key_of ?A (others ! i)"
      "sequence_of (accounts env (an_ctx an5)) (others ! i) = sequence_of ?A (others ! i)" by simp_all
    have "has_signed env ?ch tx (accounts env (an_ctx an5)) (accounts env c) (others ! i) (sigs ! i)" using R i An by simp
    then show ?thesis unfolding signed_cong [OF u refl refl] .
  qed
  have rest: "key_of (accounts env c) a = key_of ?A a \<and> sequence_of (accounts env c) a = sequence_of ?A a"
    if "a \<notin> set (GetSigners env tx)" for a
    using that p(1) R An units_cong [of "accounts env c" a "accounts env (an_ctx an5)"] u5 [of a] by simp
  show ?thesis using p first later rest R An by (auto simp: nth_Cons split: nat.split)
qed


text \<open>
  C12. A transaction that passes the ante handler was signed by everyone who had to sign: there are as many
  signatures as signers, and each signer's signature verifies, with the key its unit has or, for a
  unit without a key, with a key whose hash is its address, over the messages, the fee, the memo, the
  chain and the sequence number its unit had.  Every signer's sequence number has grown by one and its
  key is recorded; no other unit's key or sequence number has changed.
\<close>

theorem ante_authenticates:
  assumes "NewAnteHandler env ctx (Std tx) False = (Inr (nc, res, False), c)" and "ledger_lens env"
    and "cus_keyed (lg_accounts (ae_ledger env (cx_ms ctx)))"
  shows "length (tx_Signatures tx) = length (GetSigners env tx) \<and>
    (\<forall>i < length (tx_Signatures tx).
       has_signed env (hd_ChainID (cx_header ctx)) tx (lg_accounts (ae_ledger env (cx_ms ctx)))
         (lg_accounts (ae_ledger env (cx_ms c))) (GetSigners env tx ! i) (tx_Signatures tx ! i)) \<and>
    (\<forall>a. a \<notin> set (GetSigners env tx) \<longrightarrow>
       sequence_of (lg_accounts (ae_ledger env (cx_ms c))) a = sequence_of (lg_accounts (ae_ledger env (cx_ms ctx))) a)"
  using passes_signed [OF assms] by simp


section \<open>Fees\<close>

definition fee_of :: "Coins \<Rightarrow> Symbol \<Rightarrow> int" where
  "fee_of cs s = (\<Sum>c\<leftarrow>cs. if Denom c = s then Amount c else 0)"

lemma fee_of_zero: "Coins_IsZero cs \<Longrightarrow> fee_of cs s = 0"
  by (induction cs) (auto simp: fee_of_def Coins_IsZero_def)

lemma flows_loop_moves:
  "flows_loop (SendCoin p q) cs fls b = Some (Inr fl, b') \<Longrightarrow>
   GetBalance b' x s = GetBalance b x s - (if x = p then fee_of cs s else 0) + (if x = q then fee_of cs s else 0) \<and> holds b' = holds b"
proof (induction cs arbitrary: b fls)
  case (Cons c cs)
  then obtain f b1 where f: "SendCoin p q c b = Some (Inr f, b1)" and r: "flows_loop (SendCoin p q) cs (fls @ f) b1 = Some (Inr fl, b')"
    by (auto simp: go_simps)
  show ?case using Cons.IH [OF r] SendCoin_Inr(3,4) [OF f] by (auto simp: fee_of_def)
qed (simp add: fee_of_def)

lemma unit_client_bank: "ledger_lens env \<Longrightarrow> unit_client env (\<lambda>s. lg_bank (ae_ledger env s) = b)"
  by unfold_locales (simp add: ledger_lens_def)

lemma pay_fees_bank:
  assumes run: "pay_fees env tx cu an = (AOk (), an')" and lens: "ledger_lens env" and settle: "\<not> IsSettleTx env tx"
    and coll: "GetModuleAddress (ae_permAddrs env) FeeCollectorName = Some coll"
    and some: "\<not> Coins_IsZero (fee_Amount (tx_Fee tx))"
  shows "\<exists>fl. SendCoins (CU_Address cu) coll (fee_Amount (tx_Fee tx)) (lg_bank (ae_ledger env (cx_ms (an_ctx an)))) =
    Some (Inr fl, lg_bank (ae_ledger env (cx_ms (an_ctx an'))))"
proof -
  let ?fees = "fee_Amount (tx_Fee tx)"
  have "DeductFees env cu ?fees an = (AOk (), an')"
    using run some settle by (auto simp: pay_fees_def ante_then_AOk should_deduct_def)
  then obtain an1 x where g: "ante_gas (ae_gas env (TransferCoins (CU_Address cu) FeeCollectorName ?fees)) an = (AOk (), an1)"
    and w: "on_store env (SendCoinsFromAccountToModule (ae_permAddrs env) (CU_Address cu) FeeCollectorName ?fees) an1 = (AOk x, an')"
    by (auto simp: DeductFees_def ante_then_AOk)
  have s1: "cx_ms (an_ctx an1) = cx_ms (an_ctx an)"
    by (rule same_store [OF keeps_gas g]; simp add: gas_free_def)
  obtain lg where lg: "SendCoinsFromAccountToModule (ae_permAddrs env) (CU_Address cu) FeeCollectorName ?fees
      (ae_ledger env (cx_ms (an_ctx an))) = Some (Inr x, lg)" "ae_ledger env (cx_ms (an_ctx an')) = lg"
    using w s1 lens by (auto simp: on_store_def ledger_lens_def split: option.split_asm prod.split_asm sum.split_asm)
  obtain acc lg1 where m: "GetModuleAccount (ae_permAddrs env) FeeCollectorName (ae_ledger env (cx_ms (an_ctx an))) = Some (acc, lg1)"
    using lg by (auto simp: SendCoinsFromAccountToModule_def bind_Some_iff)
  have "\<exists>perms. acc = Some (coll, perms)"
    using m coll by (auto simp: GetModuleAccount_def GetModuleAddress_def bind_Some_iff split: option.split_asm CU.split_asm if_split_asm)
  then obtain b where "SendCoins (CU_Address cu) coll ?fees (lg_bank (ae_ledger env (cx_ms (an_ctx an)))) = Some (Inr x, b)"
    and "lg = lg1\<lparr>lg_bank := b\<rparr>"
    using lg(1) m GetModuleAccount_keeps [OF m] by (auto simp: SendCoinsFromAccountToModule_def on_bank_def bind_Some_iff)
  then show ?thesis using lg(2) by simp
qed


section \<open>Refunds\<close>

lemma fee_of_amount_of: "denoms_sorted cs \<Longrightarrow> fee_of cs s = amount_of cs s"
proof (induction cs)
  case (Cons c cs)
  have "amount_of cs (Denom c) = 0" using Cons.prems by (intro amount_of_below) auto
  then show ?case using Cons by (auto simp: fee_of_def)
qed (simp add: fee_of_def)

lemma sint_small: "w \<le> maxGasWanted \<Longrightarrow> sint w = uint w"
proof -
  assume "w \<le> maxGasWanted"
  then have "uint w \<le> 9223372036854775807" by (simp add: maxGasWanted_def word_le_def)
  moreover have "- 9223372036854775808 \<le> uint w" by (rule order_trans [OF _ uint_nonnegative]) simp
  ultimately show ?thesis by (simp add: sint_uint signed_take_bit_int_eq_self)
qed

lemma chop_le:
  assumes "0 \<le> x" and "x \<le> precisionReuse * precisionReuse"
  shows "chopPrecisionAndRound x \<le> precisionReuse"
proof (cases "x = precisionReuse * precisionReuse")
  case False
  then have "x < precisionReuse * precisionReuse" using assms(2) by simp
  then have "x div precisionReuse < precisionReuse" unfolding precisionReuse_val by linarith
  then show ?thesis using assms(1) by (auto simp: chopPrecisionAndRound_nonneg Let_def)
qed simp

lemma used_fraction:
  assumes "Dec_Quo (NewDec u) (NewDec w) = Some q" and "0 \<le> u" and "u \<le> w"
  shows "0 \<le> q" "q \<le> precisionReuse"
proof -
  have "w \<noteq> 0" using assms(1) by (auto simp: Dec_Quo_def NewDec_eq)
  then have w: "0 < w" using assms(2,3) by simp
  let ?x = "u * precisionReuse * precisionReuse * precisionReuse div (w * precisionReuse)"
  have "u * precisionReuse * precisionReuse * precisionReuse \<le> (w * precisionReuse) * (precisionReuse * precisionReuse)"
    using assms(3) by (simp add: mult.assoc mult_right_mono)
  then have "?x \<le> (w * precisionReuse) * (precisionReuse * precisionReuse) div (w * precisionReuse)"
    using w by (intro zdiv_mono1) simp_all
  then have x: "0 \<le> ?x" "?x \<le> precisionReuse * precisionReuse"
    using w assms(2) by (simp_all add: pos_imp_zdiv_nonneg_iff)
  have "q = chopPrecisionAndRound ?x"
    using assms w by (auto simp: Dec_Quo_def NewDec_eq Let_def big_Quo_nonneg go_simps)
  then show "0 \<le> q" "q \<le> precisionReuse" using chop_le [OF x] chopPrecisionAndRound_nonneg_nonneg [OF x(1)] by simp_all
qed

lemma refund_coins_le:
  "refund_coins f acc cs = Some coins \<Longrightarrow> 0 \<le> f \<Longrightarrow> f \<le> precisionReuse \<Longrightarrow> \<forall>c \<in> set cs. 0 \<le> Amount c \<Longrightarrow> denoms_sorted acc \<Longrightarrow>
   denoms_sorted coins \<and> (\<forall>s. amount_of acc s \<le> amount_of coins s \<and> amount_of coins s \<le> amount_of acc s + fee_of cs s)"
proof (induction cs arbitrary: acc)
  case (Cons c cs)
  then obtain d a x xs acc' where
    d: "Dec_Mul (NewDecFromInt (Amount c)) f = Some d" "Dec_TruncateInt d = Some a" "NewCoin (Denom c) a = Some x"
    and xs: "NewCoins [x] = Some xs" "Coins_Add acc xs = Some acc'" and rest: "refund_coins f acc' cs = Some coins"
    by (auto simp: bind_Some_iff)
  have df: "d = Amount c * f" using d(1) by (simp add: Dec_Mul_NewDecFromInt go_simps)
  then have "a = Amount c * f div precisionReuse"
    using d(2) Cons.prems by (auto simp: Dec_TruncateInt_nonneg split: if_split_asm)
  then have a: "0 \<le> a" "a \<le> Amount c"
    using Cons.prems trunc_mul_le [of "Amount c" f] by (auto simp: pos_imp_zdiv_nonneg_iff)
  have "x = \<lparr>Denom = Denom c, Amount = a\<rparr>" using d(3) by (simp add: go_simps)
  then have "xs = (if a = 0 then [] else [\<lparr>Denom = Denom c, Amount = a\<rparr>])"
    using xs(1) by (auto simp: NewCoins_def removeZeroCoins_eq Let_def Coins_Sort_def split: if_split_asm)
  then have s: "denoms_sorted xs" "amount_of xs s = (if Denom c = s then a else 0)" for s by auto
  have acc': "denoms_sorted acc'" "amount_of acc' s = amount_of acc s + amount_of xs s" for s
    using safeAdd_norm [OF _ Cons.prems(5) s(1)] xs(2) by (auto simp: Coins_Add_def)
  have IH: "denoms_sorted coins \<and> (\<forall>s. amount_of acc' s \<le> amount_of coins s \<and> amount_of coins s \<le> amount_of acc' s + fee_of cs s)"
    using Cons.IH [OF rest Cons.prems(2,3) _ acc'(1)] Cons.prems(4) by simp
  have "amount_of acc s \<le> amount_of coins s \<and> amount_of coins s \<le> amount_of acc s + fee_of (c # cs) s" for s
  proof -
    have "amount_of acc' s \<le> amount_of coins s" "amount_of coins s \<le> amount_of acc' s + fee_of cs s" using IH by blast+
    moreover have "fee_of (c # cs) s = (if Denom c = s then Amount c else 0) + fee_of cs s" by (simp add: fee_of_def)
    ultimately show ?thesis using acc'(2) [of s] s(2) [of s] a by (auto split: if_split_asm)
  qed
  then show ?case using IH by blast
qed (simp add: fee_of_def)

lemma refund_amount_le:
  assumes "refund_amount fee wanted used = Some coins" and "wanted \<le> maxGasWanted" and "\<not> wanted < used + DefaultGasUsedForRefund"
    and "\<not> IsAnyNegative (fee_Amount fee)"
  shows "denoms_sorted coins" "amount_of coins s \<le> fee_of (fee_Amount fee) s"
proof -
  let ?u = "used + DefaultGasUsedForRefund"
  have le: "?u \<le> wanted" using assms(3) by simp
  obtain q f where q: "Dec_Quo (NewDec (uint ?u)) (NewDec (uint wanted)) = Some q" and f: "Dec_Sub OneDec q = Some f"
    and r: "refund_coins f [] (fee_Amount fee) = Some coins"
    using assms(1) sint_small [OF assms(2)] sint_small [of ?u] le assms(2)
    by (auto simp: refund_amount_def bind_Some_iff)
  have "0 \<le> q" "q \<le> precisionReuse" using used_fraction [OF q] le by (simp_all add: word_le_def)
  then have "0 \<le> f" "f \<le> precisionReuse" using f by (auto simp: Dec_Sub_def OneDec_def go_simps)
  then show "denoms_sorted coins" "amount_of coins s \<le> fee_of (fee_Amount fee) s"
    using refund_coins_le [OF r] assms(4) by (auto simp: IsAnyNegative_def list_ex_iff not_less)
qed

text \<open>A transfer of several coins that fails on the way has moved some of them.\<close>

lemma flows_loop_bounds:
  "flows_loop (SendCoin p q) cs fls b = Some (r, b') \<Longrightarrow> p \<noteq> q \<Longrightarrow> \<forall>c \<in> set cs. 0 \<le> Amount c \<Longrightarrow>
   GetBalance b q s \<le> GetBalance b' q s \<and> GetBalance b' q s \<le> GetBalance b q s + fee_of cs s"
proof (induction cs arbitrary: b fls)
  case (Cons c cs)
  have nn: "0 \<le> fee_of cs s" using Cons.prems(3) by (auto simp: fee_of_def intro!: sum_list_nonneg)
  have head: "fee_of (c # cs) s = (if Denom c = s then Amount c else 0) + fee_of cs s" by (simp add: fee_of_def)
  from Cons.prems(1) have "on_ok (SendCoin p q c b) (\<lambda>f. flows_loop (SendCoin p q) cs (fls @ f)) = Some (r, b')" by simp
  then show ?case
  proof (cases rule: on_ok_cases)
    case (err e)
    then show ?thesis using SendCoin_Inl [OF err(1)] nn head Cons.prems(3) by simp
  next
    case (ok f b1)
    have "GetBalance b1 q s = GetBalance b q s + (if s = Denom c then Amount c else 0)"
      using SendCoin_Inr(3) [OF ok(1), of q s] Cons.prems(2) by simp
    then show ?thesis using Cons.IH [OF ok(2) Cons.prems(2)] Cons.prems(3) head by auto
  qed
qed (simp add: fee_of_def)

lemma refund_sent:
  assumes run: "NewGasRefundHandler env ctx (Std tx) wanted used = (Inr b, c)" and signers: "GetSigners env tx = payer # others"
    and changed: "cx_ms c \<noteq> cx_ms ctx"
  obtains coins r lg where "\<not> wanted < used + DefaultGasUsedForRefund" and "refund_amount (tx_Fee tx) wanted used = Some coins"
    and "Coins_IsValid coins"
    and "SendCoinsFromModuleToAccount (ae_permAddrs env) FeeCollectorName payer coins (ae_ledger env (cx_ms ctx)) = Some (r, lg)"
    and "cx_ms c = ae_setLedger env lg (cx_ms ctx)"
proof -
  have g: "\<not> (wanted < used + DefaultGasUsedForRefund \<or> IsSettleTx env tx)"
    using run changed unfolding NewGasRefundHandler_def by (auto simp only: Tx.case if_True split: if_split_asm)
  then obtain coins where coins: "refund_amount (tx_Fee tx) wanted used = Some coins" "Coins_IsValid coins"
    using run changed unfolding NewGasRefundHandler_def
    by (cases "refund_amount (tx_Fee tx) wanted used") (auto split: if_split_asm)
  obtain q m where m: "ConsumeGas (ae_gas env (TransferCoins FeeCollectorName payer coins)) (cx_gasMeter ctx) = (q, m)" by fastforce
  obtain r lg where send: "SendCoinsFromModuleToAccount (ae_permAddrs env) FeeCollectorName payer coins (ae_ledger env (cx_ms ctx)) = Some (r, lg)"
    and c: "cx_ms c = ae_setLedger env lg (cx_ms ctx)"
    using run unfolding NewGasRefundHandler_def
    by (cases q; cases "SendCoinsFromModuleToAccount (ae_permAddrs env) FeeCollectorName payer coins (ae_ledger env (cx_ms ctx))")
      (auto simp: g coins signers m)
  show ?thesis using that g coins send c by blast
qed

text \<open>
  C15. The refund is at most the fee.  Whatever gas a delivered transaction wanted and used, and whatever the
  refund handler answers, the first signer loses nothing by the refund and gains of every token at
  most what the transaction named as its fee.
\<close>

theorem refund_at_most_fee:
  assumes "NewGasRefundHandler env ctx (Std tx) wanted used = (Inr b, c)" and "ledger_lens env" and "wanted \<le> maxGasWanted"
    and "StdTx_ValidateBasic env tx = None" and "GetModuleAddress (ae_permAddrs env) FeeCollectorName = Some coll"
    and "GetSigners env tx = payer # others" and "payer \<noteq> coll"
  shows "GetBalance (lg_bank (ae_ledger env (cx_ms ctx))) payer s \<le> GetBalance (lg_bank (ae_ledger env (cx_ms c))) payer s \<and>
    GetBalance (lg_bank (ae_ledger env (cx_ms c))) payer s
      \<le> GetBalance (lg_bank (ae_ledger env (cx_ms ctx))) payer s + fee_of (fee_Amount (tx_Fee tx)) s"
proof -
  have neg: "\<not> IsAnyNegative (fee_Amount (tx_Fee tx))" using assms(4) by (auto simp: StdTx_ValidateBasic_def split: if_split_asm)
  then have nn: "0 \<le> fee_of (fee_Amount (tx_Fee tx)) s"
    by (auto simp: fee_of_def IsAnyNegative_def list_ex_iff not_less intro!: sum_list_nonneg)
  show ?thesis
  proof (cases "cx_ms c = cx_ms ctx")
    case True
    then show ?thesis using nn by simp
  next
    case False
    obtain coins r lg where m: "\<not> wanted < used + DefaultGasUsedForRefund" "refund_amount (tx_Fee tx) wanted used = Some coins"
        "Coins_IsValid coins"
      and send: "SendCoinsFromModuleToAccount (ae_permAddrs env) FeeCollectorName payer coins (ae_ledger env (cx_ms ctx)) = Some (r, lg)"
      and c: "cx_ms c = ae_setLedger env lg (cx_ms ctx)"
      by (rule refund_sent [OF assms(1,6) False])
    note R = refund_amount_le [OF m(2) assms(3) m(1) neg]
    have pos: "\<forall>x \<in> set coins. 0 \<le> Amount x" using m(3) by (auto simp: Coins_IsValid_iff)
    obtain b' where b': "flows_loop (SendCoin coll payer) coins [] (lg_bank (ae_ledger env (cx_ms ctx))) = Some (r, b')" "lg_bank lg = b'"
      using send assms(5) by (auto simp: SendCoinsFromModuleToAccount_def on_bank_def SendCoins_def)
    show ?thesis
      using flows_loop_bounds [OF b'(1) assms(7)[symmetric] pos, of s] R(2) [of s] fee_of_amount_of [OF R(1), of s] b'(2) c assms(2)
      by (simp add: ledger_lens_def)
  qed
qed

section \<open>The quota of the settlements\<close>

text \<open>The gas a validator has settled for free after a list of requests.\<close>

fun settled :: "string \<Rightarrow> (string \<times> uint64) list \<Rightarrow> BasicSettleQuota \<Rightarrow> int" where
  "settled v [] q = 0"
| "settled v ((a, g) # rs) q =
     (case SettleQuota_Consume a g q of (ok, q') \<Rightarrow> (if ok \<and> a = v then uint g else 0) + settled v rs q')"

definition quota_used :: "BasicSettleQuota \<Rightarrow> string \<Rightarrow> int" where
  "quota_used q v = (case kv_get (sq_consumed q) v of None \<Rightarrow> 0 | Some g \<Rightarrow> uint g)"

lemma quota_step:
  assumes run: "SettleQuota_Consume a g q = (ok, q')" and used: "quota_used q a \<le> uint (sq_limit q)"
    and lim: "sq_limit q \<le> maxGasWanted" and g: "g \<le> maxGasWanted"
  shows "sq_limit q' = sq_limit q" "quota_used q' v = quota_used q v + (if ok \<and> a = v then uint g else 0)"
    "ok \<Longrightarrow> quota_used q' a \<le> uint (sq_limit q)"
proof -
  define before where "before = (case kv_get (sq_consumed q) a of None \<Rightarrow> 0 | Some x \<Rightarrow> x)"
  have b: "quota_used q a = uint before" by (simp add: quota_used_def before_def split: option.split)
  have after: "(case kv_get (sq_consumed q) a of Some x \<Rightarrow> x + g | None \<Rightarrow> g) = before + g"
    by (simp add: before_def split: option.split)
  have "uint before + uint g < 2 ^ 64" using used lim g b by (simp add: word_le_def maxGasWanted_def)
  then have sum: "uint (before + g) = uint before + uint g" by (simp add: uint_word_ariths)
  show "sq_limit q' = sq_limit q" "quota_used q' v = quota_used q v + (if ok \<and> a = v then uint g else 0)"
    "ok \<Longrightarrow> quota_used q' a \<le> uint (sq_limit q)"
    using run b sum by (auto simp: SettleQuota_Consume_def after Let_def quota_used_def word_le_def split: if_split_asm)
qed

lemma settled_bound:
  "(\<And>v. quota_used q v \<le> uint (sq_limit q)) \<Longrightarrow> sq_limit q \<le> maxGasWanted \<Longrightarrow> \<forall>(a, g) \<in> set rs. g \<le> maxGasWanted \<Longrightarrow>
   quota_used q v + settled v rs q \<le> uint (sq_limit q)"
proof (induction rs arbitrary: q)
  case (Cons r rs)
  obtain a g ok q' where r: "r = (a, g)" and c: "SettleQuota_Consume a g q = (ok, q')" by (metis surj_pair)
  note S = quota_step [OF c Cons.prems(1,2), of, simplified]
  have g: "g \<le> maxGasWanted" using Cons.prems(3) r by simp
  have "quota_used q' v \<le> uint (sq_limit q')" for v
    using S(1,2) [OF g] S(3) [OF g] Cons.prems(1) [of v] by (cases "ok \<and> a = v") auto
  then have "quota_used q' v + settled v rs q' \<le> uint (sq_limit q')"
    using Cons.IH [of q'] Cons.prems(2,3) S(1) [OF g] by simp
  then show ?case using S(1,2) [OF g] by (simp add: r c)
qed simp



section \<open>A chain with one transfer\<close>

text \<open>
  A message is the list of its signers, a signature is the signed bytes themselves, and the store is
  the ledger.  Alice pays a fee of 10 out of 100.
\<close>

definition toy_env :: "(CUAddress list, ledger) AuthEnv" where
  "toy_env =
     \<lparr>ae_GetSigners = (\<lambda>m. m), ae_IsSettleOnlyMsg = (\<lambda>_. None),
      ae_addressOf = (\<lambda>pub. case pub of PubKeySecp256k1 b \<Rightarrow> b | _ \<Rightarrow> ''''),
      ae_VerifyBytes = (\<lambda>pub b s. s = b), ae_SignBytes = (\<lambda>ch n fee msgs memo. replicate (unat n) CHR ''+''),
      ae_decodeMultisig = (\<lambda>_. None), ae_simSigSize = (\<lambda>_ _. 100), ae_simPubKey = PubKeySecp256k1 ''sim'',
      ae_gas = (\<lambda>_. 10),
      ae_permAddrs = [FeeCollectorName \<mapsto> \<lparr>pa_permissions = [], pa_address = ''collector''\<rparr>],
      ae_IsActiveKeyNode = (\<lambda>_ _. False), ae_params = (\<lambda>_. DefaultAuthParams),
      ae_ledger = (\<lambda>s. s), ae_setLedger = (\<lambda>lg s. lg)\<rparr>"

definition toy_tx :: "CUAddress list StdTx" where
  "toy_tx = \<lparr>tx_Msgs = [[''alice'']], tx_Fee = \<lparr>fee_Amount = [\<lparr>Denom = ''hbc'', Amount = 10\<rparr>], fee_Gas = 60000\<rparr>,
     tx_Signatures = [\<lparr>sig_PubKey = Some (PubKeySecp256k1 ''alice''), sig_Signature = ''''\<rparr>], tx_Memo = ''hi''\<rparr>"

definition toy_ctx :: "ledger Ctx" where
  "toy_ctx = NewContext \<lparr>lg_bank = \<lparr>balances = kv_set (''alice'', ''hbc'') 100 kv_empty, holds = kv_empty\<rparr>,
     lg_supply = None, lg_accounts = empty_cus\<rparr> \<lparr>hd_ChainID = ''hbtc'', hd_Height = 5, hd_Time = 0\<rparr> False"

lemmas auth_eval = NewAnteHandler_def NewContext_def base_gas_def NewInfiniteGasMeter_def NewGasMeter_def addUint64Overflow_def
  ante_body_def ante_then_def ante_check_def ValidateSigCount_def DefaultAuthParams_def StdTx_ValidateBasic_def maxGasWanted_def
  IsAnyNegative_def GetSigners_def SetGasMeter_def ante_gas_def ValidateMemo_def GetCU_def getCU_def empty_cus_def
  get_signer_def GetOrNewCU_def newCUWithAddress_eq NewBaseCU_def pay_fees_def should_deduct_def IsSettleTx_def IsSettleOnlyTx_def
  check_settle_only_def DeductFees_def on_store_def SendCoinsFromAccountToModule_def NewEmptyModuleAccount_def
  NewBaseCUWithAddress_def SetCU_def CUTypeUser_def CUTypeOp_def sign_one_def processSig_def ProcessPubKey_def BaseCU_SetPubKey_def
  BaseCU_SetSequence_def store_signer_def ante_ctx_def ok_Result_def MaxUint64_def FeeCollectorName_def Coins_IsZero_def

lemma toy_passes: "\<exists>nc res c. NewAnteHandler toy_env toy_ctx (Std toy_tx) False = (Inr (nc, res, False), c) \<and>
   GetBalance (lg_bank (cx_ms c)) ''alice'' ''hbc'' = 90 \<and> sequence_of (lg_accounts (cx_ms c)) ''alice'' = 1"
  by (simp add: toy_env_def toy_ctx_def toy_tx_def auth_eval sequence_of_def go_eval Let_def cong: go_congs)


lemma toy_keyed: "cus_keyed (lg_accounts (cx_ms toy_ctx))" "ledger_lens toy_env"
  by (simp_all add: toy_ctx_def toy_env_def NewContext_def cus_keyed_def GetCU_def getCU_def empty_cus_def ledger_lens_def)

theorem ante_authenticates_witness:
  "\<exists>nc res c. NewAnteHandler toy_env toy_ctx (Std toy_tx) False = (Inr (nc, res, False), c) \<and>
     has_signed toy_env ''hbtc'' toy_tx (lg_accounts (cx_ms toy_ctx)) (lg_accounts (cx_ms c)) ''alice''
       \<lparr>sig_PubKey = Some (PubKeySecp256k1 ''alice''), sig_Signature = ''''\<rparr>"
proof -
  obtain nc res c where r: "NewAnteHandler toy_env toy_ctx (Std toy_tx) False = (Inr (nc, res, False), c)" using toy_passes by blast
  have e: "ae_ledger toy_env s = s" for s by (simp add: toy_env_def)
  from ante_authenticates [OF r toy_keyed(2), unfolded e, OF toy_keyed(1)] show ?thesis
    using r by (auto simp: toy_tx_def GetSigners_def toy_env_def toy_ctx_def NewContext_def)
qed




text \<open>Of 60000 gas, 10000 were used: after the 20000 that are never given back, half of the fee remains.\<close>

theorem refund_at_most_fee_witness:
  "\<exists>b c. NewGasRefundHandler toy_env (toy_ctx\<lparr>cx_ms := (cx_ms toy_ctx)\<lparr>lg_bank :=
        \<lparr>balances = kv_set (''collector'', ''hbc'') 10 kv_empty, holds = kv_empty\<rparr>\<rparr>\<rparr>) (Std toy_tx) 60000 10000 = (Inr b, c) \<and>
     GetBalance (lg_bank (cx_ms c)) ''alice'' ''hbc'' = 5 \<and> GetBalance (lg_bank (cx_ms c)) ''alice'' ''hbc'' \<le> 10"
proof -
  let ?ctx = "toy_ctx\<lparr>cx_ms := (cx_ms toy_ctx)\<lparr>lg_bank := \<lparr>balances = kv_set (''collector'', ''hbc'') 10 kv_empty, holds = kv_empty\<rparr>\<rparr>\<rparr>"
  obtain b c where r: "NewGasRefundHandler toy_env ?ctx (Std toy_tx) 60000 10000 = (Inr b, c)"
      and x: "GetBalance (lg_bank (cx_ms c)) ''alice'' ''hbc'' = 5"
    by (simp add: NewGasRefundHandler_def toy_env_def toy_ctx_def toy_tx_def auth_eval refund_amount_def DefaultGasUsedForRefund_def NewDec_eq Dec_Sub_def OneDec_def
        go_eval Let_def cong: go_congs)
  have e: "ae_ledger toy_env s = s" for s by (simp add: toy_env_def)
  have "(60000 :: uint64) \<le> maxGasWanted" "StdTx_ValidateBasic toy_env toy_tx = None"
    "GetModuleAddress (ae_permAddrs toy_env) FeeCollectorName = Some ''collector''" "GetSigners toy_env toy_tx = ''alice'' # []"
    by (simp_all add: toy_tx_def toy_env_def GetModuleAddress_def GetSigners_def StdTx_ValidateBasic_def maxGasWanted_def IsAnyNegative_def)
  from refund_at_most_fee [OF r toy_keyed(2) this, unfolded e, of "''hbc''"] show ?thesis
    using r x by (auto simp: toy_tx_def fee_of_def GetBalance_def toy_ctx_def NewContext_def)
qed

end
