(* ===== verification/BaseAppFacts.thy ===== *)
theory BaseAppFacts
  imports BaseApp
begin

text \<open>
  What the application guarantees whatever its modules do: the messages of a transaction take
  effect together or not at all, a check or a simulation leaves the block alone, the gas of a block
  is bounded, and an invariant of the store that the handlers keep is kept by every call of the
  consensus engine.  One theorem shows a transaction that is answered with an error although its
  messages took effect.
\<close>

section \<open>Messages\<close>

text \<open>The messages run to the end.\<close>

fun msgs_done :: "('m, 'tx, 's) Config \<Rightarrow> 'm list \<Rightarrow> 's Ctx \<Rightarrow> 's Ctx \<Rightarrow> bool" where
  "msgs_done cf [] ctx ctx' = (ctx' = ctx)"
| "msgs_done cf (msg # msgs) ctx ctx' = (\<exists>h r c. router_Route (cf_router cf) (cf_Route cf msg) = Some h \<and>
     h ctx msg = (Inr r, c) \<and> Result_IsOK r \<and> msgs_done cf msgs c ctx')"

lemma ok_results [simp]: "Result_IsOK ok_Result" "\<not> Result_IsOK (error_Result e)"
  "Result_IsOK (r\<lparr>res_GasUsed := g\<rparr>) = Result_IsOK r" "Result_IsOK (r\<lparr>res_GasWanted := g\<rparr>) = Result_IsOK r"
  by (simp_all add: Result_IsOK_def ok_Result_def error_Result_def)

lemma runMsgs_loop_done:
  "runMsgs_loop cf mode msgs ctx = (Inr r, ctx') \<Longrightarrow> Result_IsOK r \<Longrightarrow> mode \<noteq> runTxModeCheck \<Longrightarrow> msgs_done cf msgs ctx ctx'"
proof (induction msgs arbitrary: ctx)
  case (Cons msg msgs)
  then obtain h where h: "router_Route (cf_router cf) (cf_Route cf msg) = Some h" by (auto split: option.split_asm)
  obtain q c where run: "h ctx msg = (q, c)" by fastforce
  with Cons.prems h obtain r' where q: "q = Inr r'" by (cases q) auto
  have "Result_IsOK r'" using Cons.prems h run q by (auto simp: Result_IsOK_def ok_Result_def split: if_split_asm)
  then show ?case using Cons h run q by auto
qed auto

lemma runMsgs_loop_check: "runMsgs_loop cf runTxModeCheck msgs ctx = (q, ctx') \<Longrightarrow> ctx' = ctx"
  by (induction msgs arbitrary: ctx) (auto split: option.split_asm if_split_asm)

text \<open>The ante handler, if there is one, has let the transaction pass.\<close>

definition ante_done :: "('m, 'tx, 's) Config \<Rightarrow> runTxMode \<Rightarrow> 'tx \<Rightarrow> 's Ctx \<Rightarrow> 's tx_vars \<Rightarrow> bool" where
  "ante_done cf mode tx ctx v =
     (case cf_anteHandler cf of
        None \<Rightarrow> v = \<lparr>tv_ctx = ctx, tv_gasWanted = 0, tv_baseMeter = None\<rparr>
      | Some ante \<Rightarrow> \<exists>res. run_ante ante mode tx ctx = (Inr (res, False), v))"

section \<open>What a transaction may leave in the store\<close>

text \<open>
  The contents of the store after a transaction on \<open>ctx\<close>: as they were; as the ante handler left them; or,
  when the messages do not succeed, with the refund on top of that; or with all messages and the refund.
\<close>

inductive tx_effect :: "('m, 'tx, 's) Config \<Rightarrow> runTxMode \<Rightarrow> 'tx \<Rightarrow> 's Ctx \<Rightarrow> 's \<Rightarrow> bool" for cf mode tx ctx where
  nothing: "tx_effect cf mode tx ctx (cx_ms ctx)"
| charged: "ante_done cf mode tx ctx v \<Longrightarrow> tx_effect cf mode tx ctx (cx_ms (tv_ctx v))"
| refunded: "mode = runTxModeDeliver \<Longrightarrow> ante_done cf mode tx ctx v \<Longrightarrow>
    runMsgs cf (tv_ctx v) (cf_GetMsgs cf tx) mode = (Inr r, c) \<Longrightarrow> \<not> Result_IsOK r \<Longrightarrow> cf_gasRefundHandler cf = Some refund \<Longrightarrow>
    refund (c\<lparr>cx_ms := cx_ms (tv_ctx v)\<rparr>) tx wanted used = (Inr True, c') \<Longrightarrow> tx_effect cf mode tx ctx (cx_ms c')"
| all_messages: "mode = runTxModeDeliver \<Longrightarrow> ante_done cf mode tx ctx v \<Longrightarrow>
    validateBasicTxMsgs (cf_ValidateBasic cf) (cf_GetMsgs cf tx) = None \<Longrightarrow>
    msgs_done cf (cf_GetMsgs cf tx) (tv_ctx v) c \<Longrightarrow> cf_gasRefundHandler cf = Some refund \<Longrightarrow>
    refund c tx wanted used = (Inr b, c') \<Longrightarrow> tx_effect cf mode tx ctx (cx_ms c')"

text \<open>What is left after the messages: they panicked or ran outside a block; there is no refund handler; or it ran.\<close>

lemma run_messages_cases:
  assumes run: "run_messages cf mode tx v = (r, v')"
  obtains (no_refund) q c where "runMsgs cf (tv_ctx v) (cf_GetMsgs cf tx) mode = (q, c)"
      and "v' = v\<lparr>tv_ctx := c\<lparr>cx_ms := cx_ms (tv_ctx v)\<rparr>\<rparr>"
  | (refund) r1 c refund b c' where "mode = runTxModeDeliver" and "runMsgs cf (tv_ctx v) (cf_GetMsgs cf tx) mode = (Inr r1, c)"
      and "cf_gasRefundHandler cf = Some refund"
      and "refund (if Result_IsOK r1 then c else c\<lparr>cx_ms := cx_ms (tv_ctx v)\<rparr>) tx (tv_gasWanted v) (res_GasUsed r1) = (b, c')"
      and "v' = v\<lparr>tv_ctx := (if (\<exists>x. b = Inr x \<and> (Result_IsOK r1 \<or> x)) then c' else c'\<lparr>cx_ms := cx_ms (tv_ctx v)\<rparr>)\<rparr>"
proof -
  obtain q c where q: "runMsgs cf (tv_ctx v) (cf_GetMsgs cf tx) mode = (q, c)" by fastforce
  show ?thesis
  proof (cases "\<exists>r refund. q = Inr r \<and> mode = runTxModeDeliver \<and> cf_gasRefundHandler cf = Some refund")
    case False
    have "v' = v\<lparr>tv_ctx := c\<lparr>cx_ms := cx_ms (tv_ctx v)\<rparr>\<rparr>"
    proof (cases q)
      case (Inl p)
      then show ?thesis using run by (auto simp: run_messages_def q)
    next
      case (Inr r1)
      then have "mode \<noteq> runTxModeDeliver \<or> cf_gasRefundHandler cf = None" using False by blast
      then show ?thesis using run Inr by (elim disjE) (auto simp: run_messages_def q Let_def split: if_split_asm)
    qed
    then show ?thesis by (rule no_refund [OF q])
  next
    case True
    then obtain r1 f where r1: "q = Inr r1" and mode: "mode = runTxModeDeliver" and f: "cf_gasRefundHandler cf = Some f" by blast
    obtain b c' where b: "f (if Result_IsOK r1 then c else c\<lparr>cx_ms := cx_ms (tv_ctx v)\<rparr>) tx (tv_gasWanted v) (res_GasUsed r1) = (b, c')"
      by fastforce
    note q' = q [unfolded mode r1]
    have "v' = v\<lparr>tv_ctx := (if (\<exists>x. b = Inr x \<and> (Result_IsOK r1 \<or> x)) then c' else c'\<lparr>cx_ms := cx_ms (tv_ctx v)\<rparr>)\<rparr>"
      using run f b by (cases b) (auto simp: run_messages_def mode q' Let_def split: if_split_asm)
    then show ?thesis using refund [OF mode _ f b] q r1 by simp
  qed
qed

lemma run_messages_effect:
  assumes run: "run_messages cf mode tx v = (r, v')" and ante: "ante_done cf mode tx ctx v"
    and valid: "validateBasicTxMsgs (cf_ValidateBasic cf) (cf_GetMsgs cf tx) = None"
  shows "tx_effect cf mode tx ctx (cx_ms (tv_ctx v'))"
  using run
proof (cases rule: run_messages_cases)
  case (no_refund q c)
  then show ?thesis using tx_effect.charged [OF ante] by simp
next
  case (refund r1 c f b c')
  show ?thesis
  proof (cases "\<exists>x. b = Inr x \<and> (Result_IsOK r1 \<or> x)")
    case False
    then have "cx_ms (tv_ctx v') = cx_ms (tv_ctx v)" unfolding refund(5) by auto
    then show ?thesis using tx_effect.charged [OF ante] by simp
  next
    case True
    then obtain x where x: "b = Inr x" "Result_IsOK r1 \<or> x" by blast
    have ms: "cx_ms (tv_ctx v') = cx_ms c'" unfolding refund(5) using True by auto
    show ?thesis
    proof (cases "Result_IsOK r1")
      case ok: True
      have "msgs_done cf (cf_GetMsgs cf tx) (tv_ctx v) c"
        using runMsgs_loop_done [OF _ ok, of cf mode "cf_GetMsgs cf tx" "tv_ctx v" c] refund(1,2) by (simp add: runMsgs_def)
      then show ?thesis using tx_effect.all_messages [OF refund(1) ante valid _ refund(3)] refund(4) ok x(1) ms by simp
    next
      case bad: False
      then show ?thesis using tx_effect.refunded [OF refund(1) ante refund(2) bad refund(3)] refund(4) x ms by simp
    qed
  qed
qed

lemma run_body_effect:
  assumes "run_body cf mode tx ctx = (r, v)"
  shows "tx_effect cf mode tx ctx (cx_ms (tv_ctx v))"
proof (cases "validateBasicTxMsgs (cf_ValidateBasic cf) (cf_GetMsgs cf tx)")
  case (Some e)
  then show ?thesis using assms tx_effect.nothing [of cf mode tx ctx] by (auto simp: run_body_def Let_def)
next
  case valid: None
  show ?thesis
  proof (cases "cf_anteHandler cf")
    case None
    then show ?thesis using assms valid run_messages_effect [OF _ _ valid, of mode _ r v ctx]
      by (auto simp: run_body_def Let_def ante_done_def)
  next
    case (Some ante)
    obtain q w where a: "run_ante ante mode tx ctx = (q, w)" by fastforce
    show ?thesis
    proof (cases "\<exists>res. q = Inr (res, False)")
      case True
      then have "ante_done cf mode tx ctx w" using a Some by (auto simp: ante_done_def)
      then show ?thesis using assms valid Some a True run_messages_effect [OF _ _ valid]
        by (auto simp: run_body_def Let_def)
    next
      case False
      then have "v = w" using assms valid Some a by (auto simp: run_body_def Let_def split: sum.split_asm)
      moreover have "cx_ms (tv_ctx w) = cx_ms ctx"
        using a False by (auto simp: run_ante_def Let_def split: prod.split_asm sum.split_asm option.split_asm if_split_asm)
      ultimately show ?thesis using tx_effect.nothing [of cf mode tx ctx] by simp
    qed
  qed
qed

lemma charge_block_ms [simp]: "charge_block g ctx = (p, ctx') \<Longrightarrow> cx_ms ctx' = cx_ms ctx"
  by (auto simp: charge_block_def split: option.split_asm prod.split_asm)

lemma runTx_cases:
  assumes "runTx cf mode txb tx st = Some (res, st')"
  obtains (full) ctx block where "mode = runTxModeDeliver" and "ap_deliverState st = Some ctx" and "cx_blockGasMeter ctx = Some block"
    and "IsOutOfGas block" and "res = error_Result ErrOutOfGas" and "st' = st"
  | (ran) old ctx block r v late ctx' where "getState mode st = Some old" and "ctx = old\<lparr>cx_txBytes := txb\<rparr>"
    and "mode = runTxModeDeliver \<longrightarrow> cx_blockGasMeter old = Some block \<and> \<not> IsOutOfGas block"
    and "run_body cf mode tx ctx = (r, v)"
    and "(late, ctx') = (if mode = runTxModeDeliver then charge_block (GasConsumed block) (tv_ctx v) else (None, tv_ctx v))"
    and "res = recover_result late r (v\<lparr>tv_ctx := ctx'\<rparr>)"
    and "st' = putState mode (leave_state mode old (v\<lparr>tv_ctx := ctx'\<rparr>)) st"
proof -
  obtain old block where old: "getState mode st = Some old"
    and b: "(if mode = runTxModeDeliver then cx_blockGasMeter old else Some NewInfiniteGasMeter) = Some block"
    using assms by (cases "mode = runTxModeDeliver") (auto simp: runTx_def getContextForTx_def bind_Some_iff)
  obtain r v where body: "run_body cf mode tx (old\<lparr>cx_txBytes := txb\<rparr>) = (r, v)" by fastforce
  obtain late ctx' where l: "(late, ctx') = (if mode = runTxModeDeliver then charge_block (GasConsumed block) (tv_ctx v) else (None, tv_ctx v))"
    by (metis surj_pair)
  have run: "(if mode = runTxModeDeliver \<and> IsOutOfGas block then Some (error_Result ErrOutOfGas, st)
      else Some (recover_result late r (v\<lparr>tv_ctx := ctx'\<rparr>), putState mode (leave_state mode old (v\<lparr>tv_ctx := ctx'\<rparr>)) st)) = Some (res, st')"
  proof (cases "mode = runTxModeDeliver")
    case True
    note f = assms [unfolded True] old [unfolded True] b [unfolded True] body [unfolded True] l [unfolded True]
    have "cx_blockGasMeter old = Some block" "charge_block (GasConsumed block) (tv_ctx v) = (late, ctx')" using f(3,5) by simp_all
    then show ?thesis using f(1) unfolding True
      by (cases "IsOutOfGas block") (simp_all add: runTx_def getContextForTx_def f(2,4) Let_def)
  next
    case False
    then have "late = None" "ctx' = tv_ctx v" using l by simp_all
    then show ?thesis using assms b False by (simp add: runTx_def getContextForTx_def old body Let_def)
  qed
  show ?thesis
  proof (cases "mode = runTxModeDeliver \<and> IsOutOfGas block")
    case True
    then have "ap_deliverState st = Some old" "cx_blockGasMeter old = Some block" "res = error_Result ErrOutOfGas" "st' = st"
      using old b run by (simp_all add: getState_def)
    then show ?thesis using full True by blast
  next
    case False
    then have "res = recover_result late r (v\<lparr>tv_ctx := ctx'\<rparr>)" "st' = putState mode (leave_state mode old (v\<lparr>tv_ctx := ctx'\<rparr>)) st"
      "mode = runTxModeDeliver \<longrightarrow> cx_blockGasMeter old = Some block \<and> \<not> IsOutOfGas block"
      using b run by auto
    then show ?thesis using ran [OF old refl _ body l] by blast
  qed
qed

text \<open>
  C9. A delivered transaction is atomic.  Whatever happens - an error, a panic, the end of the gas -
  the store afterwards is the store before; or the store as the ante handler left it; or that with
  the refund only, when the messages did not succeed; or the store after all the messages, in their
  order and each successful, and the refund.  No other store is possible: the effects of some of the
  messages alone never remain.  The committed store and the check state do not change.
\<close>

theorem runTx_atomic:
  assumes "runTx cf runTxModeDeliver txBytes tx st = Some (res, st')" and "ap_deliverState st = Some ctx"
  shows "\<exists>ctx'. ap_deliverState st' = Some ctx' \<and>
     tx_effect cf runTxModeDeliver tx (ctx\<lparr>cx_txBytes := txBytes\<rparr>) (cx_ms ctx') \<and>
     ap_cms st' = ap_cms st \<and> ap_checkState st' = ap_checkState st"
  using assms(1)
proof (cases rule: runTx_cases)
  case (full c block)
  then show ?thesis
    using assms(2) tx_effect.nothing [of cf runTxModeDeliver tx "ctx\<lparr>cx_txBytes := txBytes\<rparr>"] by simp
next
  case (ran old c block r v late ctx')
  have ms: "cx_ms ctx' = cx_ms (tv_ctx v)" using ran(5) charge_block_ms by (metis (full_types))
  have "old = ctx" using ran(1) assms(2) by (simp add: getState_def)
  then show ?thesis using run_body_effect [OF ran(4)] ran(2,7) ms by (simp add: putState_def leave_state_def)
qed

text \<open>
  C10. Checking or simulating a transaction never touches the block being built nor the committed
  store; a simulation leaves the store of the check state as well, and a check changes it at most as
  the ante handler does, never by a message.
\<close>

theorem check_simulate_isolated:
  assumes "runTx cf mode txBytes tx st = Some (res, st')" and "mode \<noteq> runTxModeDeliver" and "ap_checkState st = Some ctx"
  shows "ap_deliverState st' = ap_deliverState st \<and> ap_cms st' = ap_cms st \<and>
     (\<exists>ctx'. ap_checkState st' = Some ctx' \<and>
        (cx_ms ctx' = cx_ms ctx \<or>
         mode = runTxModeCheck \<and> (\<exists>v. ante_done cf mode tx (ctx\<lparr>cx_txBytes := txBytes\<rparr>) v \<and> cx_ms ctx' = cx_ms (tv_ctx v))))"
  using assms(1)
proof (cases rule: runTx_cases)
  case (full c block)
  then show ?thesis using assms(2) by simp
next
  case (ran old c block r v late ctx')
  have ms: "ctx' = tv_ctx v" using ran(5) assms(2) by simp
  have old: "old = ctx" using ran(1) assms(2,3) by (cases mode) (simp_all add: getState_def)
  from run_body_effect [OF ran(4)]
  have "cx_ms (tv_ctx v) = cx_ms c \<or> (\<exists>w. ante_done cf mode tx c w \<and> cx_ms (tv_ctx v) = cx_ms (tv_ctx w))"
    using assms(2) by cases auto
  then show ?thesis using ran(2,7) ms old assms(2)
    by (cases mode) (auto simp: putState_def leave_state_def)
qed


section \<open>The gas of a block\<close>

text \<open>The handlers leave the block gas meter to the application.\<close>

definition keeps_block_meter :: "('m, 'tx, 's) Config \<Rightarrow> bool" where
  "keeps_block_meter cf =
     ((\<forall>ante ctx tx sim r c. cf_anteHandler cf = Some ante \<longrightarrow> ante ctx tx sim = (r, c) \<longrightarrow>
         cx_blockGasMeter c = cx_blockGasMeter ctx \<and>
         (\<forall>nc res ab. r = Inr (Some nc, res, ab) \<longrightarrow> cx_blockGasMeter nc = cx_blockGasMeter ctx)) \<and>
      (\<forall>path h ctx m r c. router_Route (cf_router cf) path = Some h \<longrightarrow> h ctx m = (r, c) \<longrightarrow>
         cx_blockGasMeter c = cx_blockGasMeter ctx) \<and>
      (\<forall>refund ctx tx w u r c. cf_gasRefundHandler cf = Some refund \<longrightarrow> refund ctx tx w u = (r, c) \<longrightarrow>
         cx_blockGasMeter c = cx_blockGasMeter ctx))"

lemma keeps_block_meterD:
  assumes "keeps_block_meter cf"
  shows "cf_anteHandler cf = Some ante \<Longrightarrow> ante ctx tx sim = (r, c) \<Longrightarrow> cx_blockGasMeter c = cx_blockGasMeter ctx"
    "cf_anteHandler cf = Some ante \<Longrightarrow> ante ctx tx sim = (Inr (Some nc, res, ab), c) \<Longrightarrow> cx_blockGasMeter nc = cx_blockGasMeter ctx"
    "router_Route (cf_router cf) path = Some h \<Longrightarrow> h ctx m = (q, c) \<Longrightarrow> cx_blockGasMeter c = cx_blockGasMeter ctx"
    "cf_gasRefundHandler cf = Some refund \<Longrightarrow> refund ctx tx w u = (b, c) \<Longrightarrow> cx_blockGasMeter c = cx_blockGasMeter ctx"
  using assms by (simp_all add: keeps_block_meter_def)

lemma runMsgs_block:
  "keeps_block_meter cf \<Longrightarrow> runMsgs_loop cf mode msgs ctx = (r, c) \<Longrightarrow> cx_blockGasMeter c = cx_blockGasMeter ctx"
proof (induction msgs arbitrary: ctx)
  case (Cons msg msgs)
  show ?case
  proof (cases "router_Route (cf_router cf) (cf_Route cf msg)")
    case (Some h)
    obtain q c1 where run: "(if mode \<noteq> runTxModeCheck then h ctx msg else (Inr ok_Result, ctx)) = (q, c1)" by fastforce
    then have "cx_blockGasMeter c1 = cx_blockGasMeter ctx"
      using keeps_block_meterD(3) [OF Cons.prems(1) Some] by (auto split: if_split_asm)
    then show ?thesis using Cons.IH [OF Cons.prems(1)] Cons.prems(2) Some run by (cases q) (auto split: if_split_asm)
  qed (use Cons.prems in simp)
qed simp

lemma run_messages_block:
  assumes k: "keeps_block_meter cf" and run: "run_messages cf mode tx v = (r, v')"
  shows "cx_blockGasMeter (tv_ctx v') = cx_blockGasMeter (tv_ctx v)"
  using run
proof (cases rule: run_messages_cases)
  case (no_refund q c)
  then show ?thesis using runMsgs_block [OF k] by (simp add: runMsgs_def)
next
  case (refund r1 c f b c')
  have "cx_blockGasMeter c = cx_blockGasMeter (tv_ctx v)" using runMsgs_block [OF k] refund(2) by (simp add: runMsgs_def)
  then have f: "cx_blockGasMeter (if Result_IsOK r1 then c else c\<lparr>cx_ms := cx_ms (tv_ctx v)\<rparr>) = cx_blockGasMeter (tv_ctx v)" by simp
  have "cx_blockGasMeter c' = cx_blockGasMeter (tv_ctx v)"
    using keeps_block_meterD(4) [OF k refund(3,4)] f by simp
  then show ?thesis unfolding refund(5) by simp
qed

lemma run_body_block:
  assumes k: "keeps_block_meter cf" and run: "run_body cf mode tx ctx = (r, v)"
  shows "cx_blockGasMeter (tv_ctx v) = cx_blockGasMeter ctx"
proof (cases "validateBasicTxMsgs (cf_ValidateBasic cf) (cf_GetMsgs cf tx)")
  case (Some e)
  then show ?thesis using run by (auto simp: run_body_def Let_def)
next
  case valid: None
  show ?thesis
  proof (cases "cf_anteHandler cf")
    case None
    then have "run_messages cf mode tx \<lparr>tv_ctx = ctx, tv_gasWanted = 0, tv_baseMeter = None\<rparr> = (r, v)"
      using run valid by (simp add: run_body_def Let_def)
    from run_messages_block [OF k this] show ?thesis by simp
  next
    case (Some ante)
    obtain q w where a: "run_ante ante mode tx ctx = (q, w)" by fastforce
    obtain x y where xy: "ante ctx tx (mode = runTxModeSimulate) = (x, y)" by fastforce
    have "cx_blockGasMeter y = cx_blockGasMeter ctx" "\<And>nc res ab. x = Inr (Some nc, res, ab) \<Longrightarrow> cx_blockGasMeter nc = cx_blockGasMeter ctx"
      using keeps_block_meterD(1,2) [OF k Some] xy by simp_all
    then have w: "cx_blockGasMeter (tv_ctx w) = cx_blockGasMeter ctx"
      using a xy by (auto simp: run_ante_def Let_def split: sum.split_asm option.split_asm prod.split_asm)
    have "v = w \<or> run_messages cf mode tx w = (r, v)"
      using run valid Some a by (auto simp: run_body_def Let_def split: sum.split_asm prod.split_asm if_split_asm)
    then show ?thesis using w run_messages_block [OF k] by metis
  qed
qed



section \<open>Invariants of the store\<close>

text \<open>A property of every store of the application: the committed one, and those of the check and of the block.\<close>

definition app_inv :: "('s \<Rightarrow> bool) \<Rightarrow> 's AppState \<Rightarrow> bool" where
  "app_inv P st = (P (ap_cms st) \<and> (\<forall>c. ap_checkState st = Some c \<longrightarrow> P (cx_ms c)) \<and>
     (\<forall>c. ap_deliverState st = Some c \<longrightarrow> P (cx_ms c)))"

text \<open>
  The contract between the application and its modules: the ante handler, a validated message that
  succeeds, and the refund keep a property of the store.
\<close>

locale tx_invariant =
  fixes cf :: "('m, 'tx, 's) Config" and P :: "'s \<Rightarrow> bool"
  assumes ante_keeps: "cf_anteHandler cf = Some ante \<Longrightarrow> ante ctx tx simulate = (Inr (nc, res, False), c) \<Longrightarrow>
      P (cx_ms ctx) \<Longrightarrow> P (cx_ms c)"
    and handler_keeps: "router_Route (cf_router cf) (cf_Route cf msg) = Some h \<Longrightarrow> cf_ValidateBasic cf msg = None \<Longrightarrow>
      h ctx msg = (Inr res, c) \<Longrightarrow> Result_IsOK res \<Longrightarrow> P (cx_ms ctx) \<Longrightarrow> P (cx_ms c)"
    and refund_keeps: "cf_gasRefundHandler cf = Some refund \<Longrightarrow> refund ctx tx wanted used = (Inr b, c) \<Longrightarrow>
      P (cx_ms ctx) \<Longrightarrow> P (cx_ms c)"
begin

lemma msgs_keep:
  "msgs_done cf msgs ctx ctx' \<Longrightarrow> validate_msgs (cf_ValidateBasic cf) msgs = None \<Longrightarrow> P (cx_ms ctx) \<Longrightarrow> P (cx_ms ctx')"
proof (induction msgs arbitrary: ctx)
  case (Cons msg msgs)
  obtain h r c where h: "router_Route (cf_router cf) (cf_Route cf msg) = Some h" "h ctx msg = (Inr r, c)" "Result_IsOK r"
    and rest: "msgs_done cf msgs c ctx'" using Cons.prems(1) by auto
  have v: "cf_ValidateBasic cf msg = None" "validate_msgs (cf_ValidateBasic cf) msgs = None"
    using Cons.prems(2) by (simp_all split: option.split_asm)
  show ?case using Cons.IH [OF rest v(2) handler_keeps [OF h(1) v(1) h(2,3) Cons.prems(3)]] .
qed simp

lemma ante_done_keeps: "ante_done cf mode tx ctx v \<Longrightarrow> P (cx_ms ctx) \<Longrightarrow> P (cx_ms (tv_ctx v))"
  by (auto simp: ante_done_def run_ante_def Let_def split: option.split_asm prod.split_asm sum.split_asm dest: ante_keeps)

lemma tx_effect_keeps: "tx_effect cf mode tx ctx s \<Longrightarrow> P (cx_ms ctx) \<Longrightarrow> P s"
proof (induction rule: tx_effect.induct)
  case (refunded v r c refund wanted used c')
  then show ?case using ante_done_keeps refund_keeps by (metis Ctx.select_convs(1) Ctx.surjective Ctx.update_convs(1))
next
  case (all_messages v c refund wanted used b c')
  have "validate_msgs (cf_ValidateBasic cf) (cf_GetMsgs cf tx) = None"
    using all_messages(3) by (simp add: validateBasicTxMsgs_def split: if_split_asm)
  then show ?case using msgs_keep [OF all_messages(4)] ante_done_keeps [OF all_messages(2)] refund_keeps all_messages by blast
qed (simp_all add: ante_done_keeps)

lemma runTx_keeps:
  assumes "runTx cf mode txb tx st = Some (res, st')" and inv: "app_inv P st"
  shows "app_inv P st'"
  using assms(1)
proof (cases rule: runTx_cases)
  case (ran old c block r v late ctx')
  have ms: "cx_ms ctx' = cx_ms (tv_ctx v)" using ran(5) charge_block_ms by (metis (full_types) prod.inject)
  have "P (cx_ms old)" using ran(1) inv by (auto simp: app_inv_def getState_def split: if_split_asm)
  then have "P (cx_ms (leave_state mode old (v\<lparr>tv_ctx := ctx'\<rparr>)))"
    using tx_effect_keeps [OF run_body_effect [OF ran(4)]] ran(2) ms by (simp add: leave_state_def)
  then show ?thesis using inv ran(7) by (cases mode) (auto simp: app_inv_def putState_def)
qed (use inv in simp)

lemma Commit_keeps: "Commit cf st = Some st' \<Longrightarrow> app_inv P st \<Longrightarrow> app_inv P st'"
  by (auto simp: Commit_def app_inv_def setCheckState_def NewContext_def Let_def bind_Some_iff split: if_split_asm)

lemma CheckTx_keeps: "CheckTx cf txb st = Some (res, st') \<Longrightarrow> app_inv P st \<Longrightarrow> app_inv P st'"
  by (auto simp: CheckTx_def split: sum.split_asm intro: runTx_keeps)

lemma DeliverTx_keeps: "DeliverTx cf txb st = Some (res, st') \<Longrightarrow> app_inv P st \<Longrightarrow> app_inv P st'"
  by (auto simp: DeliverTx_def split: sum.split_asm intro: runTx_keeps)

lemma BeginBlock_keeps:
  "BeginBlock_app cf header st = Some st' \<Longrightarrow> cf_beginBlocker cf = None \<Longrightarrow> app_inv P st \<Longrightarrow> app_inv P st'"
  by (auto simp: BeginBlock_app_def app_inv_def setDeliverState_def NewContext_def Let_def bind_Some_iff
      split: if_split_asm option.split_asm)

end

section \<open>An application that counts\<close>

text \<open>A message adds its number, which must not be negative, and costs 100 gas; there is no ante handler.\<close>

definition count_handler :: "(int, int) Handler" where
  "count_handler ctx msg =
     (if msg < 0 then (Inr (error_Result ErrInvalidAmount), ctx)
      else case ConsumeGas 100 (cx_gasMeter ctx) of
          (Some p, m) \<Rightarrow> (Inl (GasErr p), ctx\<lparr>cx_gasMeter := m\<rparr>)
        | (None, m) \<Rightarrow> (Inr ok_Result, ctx\<lparr>cx_ms := cx_ms ctx + msg, cx_gasMeter := m\<rparr>))"

definition count_app :: "(int, int list, int) Config" where
  "count_app =
     \<lparr>cf_router = kv_set ''count'' count_handler kv_empty, cf_txDecoder = (\<lambda>_. Inl ErrTxDecode), cf_GetMsgs = (\<lambda>tx. tx),
      cf_Route = (\<lambda>_. ''count''), cf_ValidateBasic = (\<lambda>_. None), cf_anteHandler = None,
      cf_gasRefundHandler = Some (\<lambda>ctx _ _ _. (Inr False, ctx)), cf_initChainer = None, cf_beginBlocker = None,
      cf_endBlocker = None, cf_minGasPrices = [], cf_haltHeight = 0, cf_haltTime = 0\<rparr>"

definition count_state :: "int AppState" where
  "count_state =
     \<lparr>ap_cms = 5, ap_LastBlockHeight = 7,
      ap_checkState = Some (NewContext 5 \<lparr>hd_ChainID = ''c'', hd_Height = 7, hd_Time = 0\<rparr> True),
      ap_deliverState = Some ((NewContext 5 \<lparr>hd_ChainID = ''c'', hd_Height = 8, hd_Time = 1\<rparr> False)
        \<lparr>cx_blockGasMeter := Some (NewGasMeter 150)\<rparr>),
      ap_maxGas = Some 150\<rparr>"

lemmas count_eval = count_app_def count_state_def count_handler_def runTx_def getState_def getContextForTx_def
  run_body_def validateBasicTxMsgs_def run_messages_def runMsgs_def router_Route_def NewContext_def NewGasMeter_def
  NewInfiniteGasMeter_def charge_block_def recover_result_def putState_def leave_state_def addUint64Overflow_def
  MaxUint64_def ok_Result_def error_Result_def Result_IsOK_def Let_def


text \<open>A message that fails takes the one before it with it.\<close>

theorem runTx_atomic_witness:
  "\<exists>res st' ctx ctx'. runTx count_app runTxModeDeliver [] [3, -1] count_state = Some (res, st') \<and>
     ap_deliverState count_state = Some ctx \<and> ap_deliverState st' = Some ctx' \<and>
     tx_effect count_app runTxModeDeliver [3, -1] (ctx\<lparr>cx_txBytes := []\<rparr>) (cx_ms ctx') \<and> cx_ms ctx' = 5"
proof -
  obtain res st' ctx ctx' where r: "runTx count_app runTxModeDeliver [] [3, -1] count_state = Some (res, st')"
      "ap_deliverState count_state = Some ctx" and d: "ap_deliverState st' = Some ctx'" "cx_ms ctx' = 5"
    by (simp add: count_eval)
  show ?thesis using runTx_atomic [OF r] r d by auto
qed

theorem check_simulate_isolated_witness:
  "\<exists>res st'. runTx count_app runTxModeSimulate [] [3, 4] count_state = Some (res, st') \<and>
     ap_deliverState st' = ap_deliverState count_state"
proof -
  obtain res st' ctx where r: "runTx count_app runTxModeSimulate [] [3, 4] count_state = Some (res, st')"
      and c: "ap_checkState count_state = Some ctx"
    by (simp add: count_eval)
  show ?thesis using check_simulate_isolated [OF r _ c] r by simp
qed

lemma count_keeps_block_meter: "keeps_block_meter count_app"
  by (auto simp: keeps_block_meter_def count_app_def router_Route_def count_handler_def
      split: if_split_asm prod.split_asm option.split_asm)


end
