(* ===== verification/BankHandler.thy ===== *)
theory BankHandler
  imports SwapTypes
begin

text \<open>
  \<open>x/transfer/handler.go\<close> and \<open>x/transfer/types/msgs.go\<close>: the two messages that move coins between
  addresses of the chain.  The switch that enables transfers is a parameter of the module's store;
  the messages of the cross-chain protocols are not modelled.
\<close>

section \<open>Messages\<close>

record MsgSend =
  ms_FromAddress :: CUAddress
  ms_ToAddress :: CUAddress
  ms_Amount :: Coins

definition MsgSend_ValidateBasic :: "(CUAddress \<Rightarrow> bool) \<Rightarrow> MsgSend \<Rightarrow> sdk_error option" where
  "MsgSend_ValidateBasic decodes msg =
     (if \<not> IsValidAddr decodes (ms_FromAddress msg) then Some ErrInvalidAddress
      else if \<not> IsValidAddr decodes (ms_ToAddress msg) then Some ErrInvalidAddress
      else if \<not> Coins_IsValid (ms_Amount msg) then Some ErrInvalidCoins
      else if \<not> IsAllPositive (ms_Amount msg) then Some ErrInsufficientCoins
      else None)"

record MsgMultiSend =
  mm_Inputs :: "Input list"
  mm_Outputs :: "Output list"
  mm_MaxHeight :: uint64

text \<open>The outer option is the panic of the coin arithmetic.\<close>

definition MsgMultiSend_ValidateBasic :: "MsgMultiSend \<Rightarrow> sdk_error option option" where
  "MsgMultiSend_ValidateBasic msg =
     (if length (mm_Inputs msg) = 0 then Some (Some ErrNoInputs)
      else if length (mm_Outputs msg) = 0 then Some (Some ErrNoOutputs)
      else ValidateInputsOutputs (mm_Inputs msg) (mm_Outputs msg))"

definition MsgMultiSend_GetSigners :: "MsgMultiSend \<Rightarrow> CUAddress list" where
  "MsgMultiSend_GetSigners msg = map in_Address (mm_Inputs msg)"

datatype transfer_msg = Send MsgSend | MultiSend MsgMultiSend

section \<open>Handlers\<close>

definition handleMsgSend :: "bool \<Rightarrow> MsgSend \<Rightarrow> bank \<Rightarrow> (BalanceFlow list, bank) outcome" where
  "handleMsgSend enabled msg st =
     (if \<not> enabled then Some (Inl ErrSendDisabled, st)
      else SendCoins (ms_FromAddress msg) (ms_ToAddress msg) (ms_Amount msg) st)"

text \<open>\<open>uint64(ctx.BlockHeight())\<close> wraps.\<close>

definition handleMsgMultiSend :: "bool \<Rightarrow> int \<Rightarrow> MsgMultiSend \<Rightarrow> bank \<Rightarrow> (BalanceFlow list, bank) outcome" where
  "handleMsgMultiSend enabled height msg st =
     (if \<not> enabled then Some (Inl ErrSendDisabled, st)
      else if mm_MaxHeight msg \<noteq> 0 \<and> (of_int height :: uint64) > mm_MaxHeight msg then Some (Inl ErrInvalidTx, st)
      else InputOutputCoins (mm_Inputs msg) (mm_Outputs msg) st)"

fun transfer_NewHandler :: "bool \<Rightarrow> int \<Rightarrow> transfer_msg \<Rightarrow> bank \<Rightarrow> (BalanceFlow list, bank) outcome" where
  "transfer_NewHandler enabled height (Send msg) st = handleMsgSend enabled msg st"
| "transfer_NewHandler enabled height (MultiSend msg) st = handleMsgMultiSend enabled height msg st"

lemma transfer_NewHandler_keeps:
  assumes "transfer_NewHandler enabled height msg st = Some (Inr flows, st')"
  shows "bank_wf st \<Longrightarrow> bank_wf st'" "free_total st' s = free_total st s" "holds st' = holds st"
proof -
  have "(\<exists>a b cs. SendCoins a b cs st = Some (Inr flows, st')) \<or> (\<exists>is os. InputOutputCoins is os st = Some (Inr flows, st'))"
    using assms by (cases msg) (auto simp: handleMsgSend_def handleMsgMultiSend_def split: if_split_asm)
  then show "bank_wf st \<Longrightarrow> bank_wf st'" "free_total st' s = free_total st s" "holds st' = holds st"
    using SendCoins_keeps InputOutputCoins_keeps by metis+
qed

end
