(* ===== verification/Chain.thy ===== *)
theory Chain
  imports AuthFacts BaseAppFacts BankHandler SwapInvariant
begin

text \<open>
  The application of \<open>bhexapp/app.go\<close> as far as its parts are modelled: the application runner with the
  ante handler and the refund of \<open>x/custodianunit\<close> and the routes of \<open>x/transfer\<close> and \<open>x/openswap\<close>, all
  over one store that contains the exchange and the ledger.  The invariant of the exchange survives
  every transaction, whatever it contains and however it ends.
\<close>

section \<open>The parts\<close>

datatype chain_msg = TransferMsg transfer_msg | SwapMsg swap_msg

record chain_store =
  cs_swap :: swap_state
  cs_auth :: AuthParams
  cs_sendEnabled :: bool

text \<open>
  What lies outside the model: address decoding, hashes, signatures and encodings; the table of tokens
  and the set of key nodes, which these messages do not change; the gas the stores charge for the
  accesses of a message, and the panic when it runs out or when a handler fails.
\<close>

record ChainEnv =
  ch_decodes :: "CUAddress \<Rightarrow> bool"
  ch_uuid_ok :: "string \<Rightarrow> bool"
  ch_tokens :: "Symbol \<Rightarrow> Token option"
  ch_hash :: "bytes \<Rightarrow> CUAddress"
  ch_permAddrs :: permAddrs
  ch_isKeyNode :: "CUAddress \<Rightarrow> bool"
  ch_addressOf :: "PubKey \<Rightarrow> CUAddress"
  ch_VerifyBytes :: "PubKey \<Rightarrow> bytes \<Rightarrow> bytes \<Rightarrow> bool"
  ch_SignBytes :: "string \<Rightarrow> uint64 \<Rightarrow> StdFee \<Rightarrow> chain_msg list \<Rightarrow> string \<Rightarrow> bytes"
  ch_decodeMultisig :: "bytes \<Rightarrow> (bool list \<times> bytes list) option"
  ch_simSigSize :: "PubKey \<Rightarrow> StdSignature \<Rightarrow> uint64"
  ch_simPubKey :: PubKey
  ch_accessGas :: "access \<Rightarrow> uint64"
  ch_msgGas :: "chain_store Ctx \<Rightarrow> chain_msg \<Rightarrow> panic option \<times> GasMeter"
  ch_panic :: "chain_store Ctx \<Rightarrow> chain_msg \<Rightarrow> panic"
  ch_txDecoder :: "bytes \<Rightarrow> sdk_error + chain_msg Tx"
  ch_initChainer :: "(chain_store Ctx \<Rightarrow> chain_store Ctx option) option"
  ch_beginBlocker :: "(chain_store Ctx \<Rightarrow> chain_store Ctx option) option"
  ch_endBlocker :: "(chain_store Ctx \<Rightarrow> chain_store Ctx option) option"
  ch_minGasPrices :: "(string \<times> Dec) list"
  ch_haltHeight :: uint64
  ch_haltTime :: uint64

section \<open>Messages\<close>

fun swap_signers :: "swap_msg \<Rightarrow> CUAddress list" where
  "swap_signers (CreateDex msg) = [cd_From msg]"
| "swap_signers (EditDex msg) = [ed_From msg]"
| "swap_signers (CreateTradingPair msg) = [ct_From msg]"
| "swap_signers (EditTradingPair msg) = [et_From msg]"
| "swap_signers (MAddLiquidity msg) = [al_From msg]"
| "swap_signers (MRemoveLiquidity msg) = [rl_From msg]"
| "swap_signers (MSwapExactIn msg) = [si_From msg]"
| "swap_signers (MSwapExactOut msg) = [so_From msg]"
| "swap_signers (MLimitSwap msg) = [ls_From msg]"
| "swap_signers (MCancelLimitSwap msg) = [cl_From msg]"
| "swap_signers (MClaimEarning msg) = [ce_From msg]"

fun chain_signers :: "chain_msg \<Rightarrow> CUAddress list" where
  "chain_signers (TransferMsg (Send msg)) = [ms_FromAddress msg]"
| "chain_signers (TransferMsg (MultiSend msg)) = MsgMultiSend_GetSigners msg"
| "chain_signers (SwapMsg msg) = swap_signers msg"

fun chain_route :: "chain_msg \<Rightarrow> string" where
  "chain_route (TransferMsg msg) = ''transfer''"
| "chain_route (SwapMsg msg) = ''openswap''"

text \<open>
  A check that panics ends the transaction like one that fails with an internal error: \<open>runTx\<close> recovers
  and nothing has been written.
\<close>

fun chain_ValidateBasic :: "ChainEnv \<Rightarrow> chain_msg \<Rightarrow> sdk_error option" where
  "chain_ValidateBasic e (TransferMsg (Send msg)) = MsgSend_ValidateBasic (ch_decodes e) msg"
| "chain_ValidateBasic e (TransferMsg (MultiSend msg)) =
     (case MsgMultiSend_ValidateBasic msg of None \<Rightarrow> Some ErrInternal | Some r \<Rightarrow> r)"
| "chain_ValidateBasic e (SwapMsg msg) = ValidateBasic (ch_decodes e) (ch_uuid_ok e) msg"

section \<open>Handlers\<close>

text \<open>The outcome of a module's handler as a result, with the gas of the message charged.\<close>

definition metered ::
  "ChainEnv \<Rightarrow> chain_store Ctx \<Rightarrow> chain_msg \<Rightarrow> (BalanceFlow list, chain_store) outcome \<Rightarrow>
   (panic + Result) \<times> chain_store Ctx" where
  "metered e ctx msg r =
     (case (r, ch_msgGas e ctx msg) of
        (None, _, m) \<Rightarrow> (Inl (ch_panic e ctx msg), ctx\<lparr>cx_gasMeter := m\<rparr>)
      | (Some _, Some p, m) \<Rightarrow> (Inl p, ctx\<lparr>cx_gasMeter := m\<rparr>)
      | (Some (Inl er, ms), None, m) \<Rightarrow> (Inr (error_Result er), ctx\<lparr>cx_ms := ms, cx_gasMeter := m\<rparr>)
      | (Some (Inr _, ms), None, m) \<Rightarrow> (Inr ok_Result, ctx\<lparr>cx_ms := ms, cx_gasMeter := m\<rparr>))"

definition on_ledger :: "(bank \<Rightarrow> ('a, bank) outcome) \<Rightarrow> chain_store \<Rightarrow> ('a, chain_store) outcome" where
  "on_ledger f s = map_option (\<lambda>(r, b). (r, s\<lparr>cs_swap := with_bank b (cs_swap s)\<rparr>)) (f (swap_bank (cs_swap s)))"

fun transfer_Handler :: "ChainEnv \<Rightarrow> (chain_msg, chain_store) Handler" where
  "transfer_Handler e ctx (TransferMsg msg) =
     metered e ctx (TransferMsg msg)
       (on_ledger (transfer_NewHandler (cs_sendEnabled (cx_ms ctx)) (hd_Height (cx_header ctx)) msg) (cx_ms ctx))"
| "transfer_Handler e ctx (SwapMsg msg) = (Inr (error_Result ErrUnknownRequest), ctx)"

definition swap_ctx :: "ChainEnv \<Rightarrow> Header \<Rightarrow> Context" where
  "swap_ctx e header =
     \<lparr>BlockHeight = hd_Height header, BlockTime = hd_Time header, GetToken = ch_tokens e,
      ctx_permAddrs = ch_permAddrs e, ctx_hash = ch_hash e\<rparr>"

definition on_swap :: "(swap_state \<Rightarrow> ('a, swap_state) outcome) \<Rightarrow> GasMeter \<Rightarrow> chain_store \<Rightarrow> ('a, chain_store) outcome" where
  "on_swap f m s = map_option (\<lambda>(r, st). (r, s\<lparr>cs_swap := st\<rparr>)) (f ((cs_swap s)\<lparr>sw_gas := m\<rparr>))"

fun openswap_Handler :: "ChainEnv \<Rightarrow> (chain_msg, chain_store) Handler" where
  "openswap_Handler e ctx (SwapMsg msg) =
     metered e ctx (SwapMsg msg) (on_swap (NewHandler (swap_ctx e (cx_header ctx)) msg) (cx_gasMeter ctx) (cx_ms ctx))"
| "openswap_Handler e ctx (TransferMsg msg) = (Inr (error_Result ErrUnknownRequest), ctx)"

section \<open>The application\<close>

definition chain_auth :: "ChainEnv \<Rightarrow> (chain_msg, chain_store) AuthEnv" where
  "chain_auth e =
     \<lparr>ae_GetSigners = chain_signers, ae_IsSettleOnlyMsg = (\<lambda>_. None), ae_addressOf = ch_addressOf e,
      ae_VerifyBytes = ch_VerifyBytes e, ae_SignBytes = ch_SignBytes e, ae_decodeMultisig = ch_decodeMultisig e,
      ae_simSigSize = ch_simSigSize e, ae_simPubKey = ch_simPubKey e, ae_gas = ch_accessGas e,
      ae_permAddrs = ch_permAddrs e, ae_IsActiveKeyNode = (\<lambda>_. ch_isKeyNode e), ae_params = cs_auth,
      ae_ledger = (\<lambda>s. sw_ledger (cs_swap s)),
      ae_setLedger = (\<lambda>lg s. s\<lparr>cs_swap := (cs_swap s)\<lparr>sw_ledger := lg\<rparr>\<rparr>)\<rparr>"

definition chain_app :: "ChainEnv \<Rightarrow> (chain_msg, chain_msg Tx, chain_store) Config" where
  "chain_app e =
     \<lparr>cf_router = kv_set ''transfer'' (transfer_Handler e) (kv_set ''openswap'' (openswap_Handler e) kv_empty),
      cf_txDecoder = ch_txDecoder e, cf_GetMsgs = GetMsgs, cf_Route = chain_route,
      cf_ValidateBasic = chain_ValidateBasic e, cf_anteHandler = Some (NewAnteHandler (chain_auth e)),
      cf_gasRefundHandler = Some (NewGasRefundHandler (chain_auth e)), cf_initChainer = ch_initChainer e,
      cf_beginBlocker = ch_beginBlocker e, cf_endBlocker = ch_endBlocker e, cf_minGasPrices = ch_minGasPrices e,
      cf_haltHeight = ch_haltHeight e, cf_haltTime = ch_haltTime e\<rparr>"

section \<open>The invariant\<close>

text \<open>The exchange keeps its invariant, and every token its total.\<close>

definition chain_inv :: "ChainEnv \<Rightarrow> (Symbol \<Rightarrow> int) \<Rightarrow> chain_store \<Rightarrow> bool" where
  "chain_inv e t s = (swap_inv (ch_tokens e) (cs_swap s) \<and> (\<forall>x. swap_total (cs_swap s) x = t x))"

lemma chain_inv_kept: "chain_inv e t s \<Longrightarrow> kept (ch_tokens e) (cs_swap s) (cs_swap s') \<Longrightarrow> chain_inv e t s'"
  by (simp add: chain_inv_def kept_def)

text \<open>A change of the ledger that keeps holds and totals keeps the invariant of the exchange.\<close>

lemma kept_ledger:
  assumes "swap_inv tk st" and "st' = st\<lparr>sw_ledger := lg\<rparr>" and "bank_wf (swap_bank st) \<Longrightarrow> bank_wf (lg_bank lg)"
    and "holds (lg_bank lg) = holds (swap_bank st)" and "\<And>s. free_total (lg_bank lg) s = free_total (swap_bank st) s"
  shows "kept tk st st'"
proof -
  have "bank_total (lg_bank lg) s = bank_total (swap_bank st) s" for s using assms(4,5) by (simp add: bank_total_def hold_total_def)
  then have "swap_total st' s = swap_total st s" for s by (simp add: assms(2) swap_total_parts)
  moreover have "swap_inv tk st'"
    using assms(1,3) pairs_cong(1) [of st' st] rates_cong [of st' st] GetHoldBalance_holds [OF assms(4)]
    by (simp add: assms(2) swap_inv_def pairs_inv_def orders_inv_def holds_cover_def locked_def)
  ultimately show ?thesis by (simp add: kept_def)
qed

lemma chain_inv_ledger:
  assumes inv: "chain_inv e t s" and "bank_wf (swap_bank (cs_swap s)) \<Longrightarrow> bank_wf (lg_bank lg)"
    and "holds (lg_bank lg) = holds (swap_bank (cs_swap s))" and "\<And>x. free_total (lg_bank lg) x = free_total (swap_bank (cs_swap s)) x"
  shows "chain_inv e t (s\<lparr>cs_swap := (cs_swap s)\<lparr>sw_ledger := lg\<rparr>\<rparr>)"
proof -
  have "swap_inv (ch_tokens e) (cs_swap s)" using inv by (simp add: chain_inv_def)
  from kept_ledger [OF this refl assms(2-4)] show ?thesis using chain_inv_kept [OF inv] by simp
qed

lemma chain_auth_ledger [simp]: "ae_ledger (chain_auth e) s = sw_ledger (cs_swap s)"
  "ae_setLedger (chain_auth e) lg s = s\<lparr>cs_swap := (cs_swap s)\<lparr>sw_ledger := lg\<rparr>\<rparr>" "ae_permAddrs (chain_auth e) = ch_permAddrs e"
  by (simp_all add: chain_auth_def)

interpretation chain_units: ledger_client "chain_auth e" "chain_inv e t" for e t
proof
  fix s cu cus
  assume inv: "chain_inv e t s"
  show "chain_inv e t (ae_setLedger (chain_auth e) ((ae_ledger (chain_auth e) s)\<lparr>lg_accounts := cus\<rparr>) s)"
    unfolding chain_auth_ledger by (rule chain_inv_ledger [OF inv]) simp_all
next
  fix s a cs fl lg
  assume inv: "chain_inv e t s"
    and run: "SendCoinsFromAccountToModule (ae_permAddrs (chain_auth e)) a FeeCollectorName cs (ae_ledger (chain_auth e) s) = Some (Inr fl, lg)"
  obtain acc lg1 p b where m: "GetModuleAccount (ch_permAddrs e) FeeCollectorName (sw_ledger (cs_swap s)) = Some (acc, lg1)"
    and b: "SendCoins a p cs (lg_bank lg1) = Some (Inr fl, b)" and lg: "lg = lg1\<lparr>lg_bank := b\<rparr>"
    using run by (auto simp: SendCoinsFromAccountToModule_def on_bank_def bind_Some_iff)
  note S = SendCoins_keeps [OF b] GetModuleAccount_keeps [OF m]
  show "chain_inv e t (ae_setLedger (chain_auth e) lg s)"
    unfolding chain_auth_ledger by (rule chain_inv_ledger [OF inv]) (use S lg in simp_all)
next
  fix s a cs r lg
  assume inv: "chain_inv e t s"
    and run: "SendCoinsFromModuleToAccount (ae_permAddrs (chain_auth e)) FeeCollectorName a cs (ae_ledger (chain_auth e) s) = Some (r, lg)"
  have lg: "lg = sw_ledger (cs_swap s) \<or> (\<exists>p b. SendCoins p a cs (swap_bank (cs_swap s)) = Some (r, b) \<and> lg = (sw_ledger (cs_swap s))\<lparr>lg_bank := b\<rparr>)"
    using run by (auto simp: SendCoinsFromModuleToAccount_def on_bank_def split: option.split_asm)
  show "chain_inv e t (ae_setLedger (chain_auth e) lg s)"
    unfolding chain_auth_ledger by (rule chain_inv_ledger [OF inv]) (use lg SendCoins_keeps in auto)
qed


lemma transfer_Handler_keeps:
  assumes run: "transfer_Handler e ctx msg = (Inr res, c)" and ok: "Result_IsOK res" and inv: "chain_inv e t (cx_ms ctx)"
  shows "chain_inv e t (cx_ms c)"
proof (cases msg)
  case (TransferMsg m)
  let ?h = "transfer_NewHandler (cs_sendEnabled (cx_ms ctx)) (hd_Height (cx_header ctx)) m"
  obtain fl b where b: "?h (swap_bank (cs_swap (cx_ms ctx))) = Some (Inr fl, b)"
    and c: "cx_ms c = (cx_ms ctx)\<lparr>cs_swap := with_bank b (cs_swap (cx_ms ctx))\<rparr>"
    using run ok TransferMsg by (auto simp: metered_def on_ledger_def split: option.split_asm prod.split_asm sum.split_asm)
  note K = transfer_NewHandler_keeps [OF b]
  show ?thesis unfolding c with_bank_def by (rule chain_inv_ledger [OF inv]) (use K in simp_all)
qed (use run inv in auto)

lemma openswap_Handler_keeps:
  assumes run: "openswap_Handler e ctx msg = (Inr res, c)" and valid: "chain_ValidateBasic e msg = None"
    and ok: "Result_IsOK res" and inv: "chain_inv e t (cx_ms ctx)"
  shows "chain_inv e t (cx_ms c)"
proof (cases msg)
  case (SwapMsg m)
  let ?st = "(cs_swap (cx_ms ctx))\<lparr>sw_gas := cx_gasMeter ctx\<rparr>"
  obtain fl st where st: "NewHandler (swap_ctx e (cx_header ctx)) m ?st = Some (Inr fl, st)"
    and c: "cx_ms c = (cx_ms ctx)\<lparr>cs_swap := st\<rparr>"
    using run ok SwapMsg by (auto simp: metered_def on_swap_def split: option.split_asm prod.split_asm sum.split_asm)
  have i: "swap_inv (ch_tokens e) (cs_swap (cx_ms ctx))" using inv by (simp add: chain_inv_def)
  have k1: "kept (ch_tokens e) (cs_swap (cx_ms ctx)) ?st" by (rule kept_core [OF i]) (simp add: core_def)
  have "kept (GetToken (swap_ctx e (cx_header ctx))) ?st st"
    by (rule NewHandler_kept [OF _ _ st]) (use k1 valid SwapMsg in \<open>simp_all add: kept_def swap_ctx_def\<close>)
  then have "kept (ch_tokens e) (cs_swap (cx_ms ctx)) st" using kept_trans [OF k1] by (simp add: swap_ctx_def)
  then show ?thesis using chain_inv_kept [OF inv] c by simp
qed (use run inv in auto)

interpretation chain: tx_invariant "chain_app e" "chain_inv e t" for e t
proof
  fix ante :: "(chain_msg Tx, chain_store) AnteHandler" and ctx tx simulate nc res c
  assume "cf_anteHandler (chain_app e) = Some ante" "ante ctx tx simulate = (Inr (nc, res, False), c)" "chain_inv e t (cx_ms ctx)"
  then show "chain_inv e t (cx_ms c)" using chain_units.NewAnteHandler_keeps by (auto simp: chain_app_def)
next
  fix msg h ctx res c
  assume a: "router_Route (cf_router (chain_app e)) (cf_Route (chain_app e) msg) = Some h" "cf_ValidateBasic (chain_app e) msg = None"
    "h ctx msg = (Inr res, c)" "Result_IsOK res" "chain_inv e t (cx_ms ctx)"
  then have "h = transfer_Handler e \<or> h = openswap_Handler e"
    by (auto simp: chain_app_def router_Route_def kv_get_set split: if_split_asm)
  then show "chain_inv e t (cx_ms c)"
    using a transfer_Handler_keeps openswap_Handler_keeps by (auto simp: chain_app_def)
next
  fix refund :: "(chain_msg Tx, chain_store) GasRefundHandler" and ctx tx wanted used b c
  assume "cf_gasRefundHandler (chain_app e) = Some refund" "refund ctx tx wanted used = (Inr b, c)" "chain_inv e t (cx_ms ctx)"
  then show "chain_inv e t (cx_ms c)" using chain_units.NewGasRefundHandler_keeps by (auto simp: chain_app_def)
qed

section \<open>Blocks of transactions\<close>

text \<open>What the consensus engine calls between the begin and the end of a block, and the commit.\<close>

inductive chain_step :: "ChainEnv \<Rightarrow> chain_store AppState \<Rightarrow> chain_store AppState \<Rightarrow> bool" for e where
  check: "CheckTx (chain_app e) txBytes st = Some (res, st') \<Longrightarrow> chain_step e st st'"
| simulate: "runTx (chain_app e) runTxModeSimulate txBytes tx st = Some (res, st') \<Longrightarrow> chain_step e st st'"
| deliver: "DeliverTx (chain_app e) txBytes st = Some (res, st') \<Longrightarrow> chain_step e st st'"
| commit: "Commit (chain_app e) st = Some st' \<Longrightarrow> chain_step e st st'"

lemma chain_step_keeps: "chain_step e st st' \<Longrightarrow> app_inv (chain_inv e t) st \<Longrightarrow> app_inv (chain_inv e t) st'"
  by (induction rule: chain_step.induct)
    (auto intro: chain.CheckTx_keeps chain.DeliverTx_keeps chain.Commit_keeps chain.runTx_keeps)

lemma chain_steps_keep: "(chain_step e)\<^sup>*\<^sup>* st st' \<Longrightarrow> app_inv (chain_inv e t) st \<Longrightarrow> app_inv (chain_inv e t) st'"
  by (induction rule: rtranclp_induct) (auto intro: chain_step_keeps)



section \<open>A transfer on the chain\<close>

text \<open>Alice sends 5 of her 100 \<open>hbc\<close> to Bob and pays a fee of 10, half of which is given back.\<close>

definition send_tx :: "chain_msg StdTx" where
  "send_tx =
     \<lparr>tx_Msgs = [TransferMsg (Send \<lparr>ms_FromAddress = ''alice000000000000000'', ms_ToAddress = ''bob00000000000000000'',
        ms_Amount = [\<lparr>Denom = ''hbc'', Amount = 5\<rparr>]\<rparr>)],
      tx_Fee = \<lparr>fee_Amount = [\<lparr>Denom = ''hbc'', Amount = 10\<rparr>], fee_Gas = 60000\<rparr>,
      tx_Signatures = [\<lparr>sig_PubKey = Some (PubKeySecp256k1 ''alice000000000000000''), sig_Signature = ''''\<rparr>], tx_Memo = ''hi''\<rparr>"

definition send_env :: ChainEnv where
  "send_env =
     \<lparr>ch_decodes = (\<lambda>_. True), ch_uuid_ok = (\<lambda>_. True), ch_tokens = GetToken (block_ctx 5), ch_hash = (\<lambda>_. ''openswap''),
      ch_permAddrs = [FeeCollectorName \<mapsto> \<lparr>pa_permissions = [], pa_address = ''collector''\<rparr>], ch_isKeyNode = (\<lambda>_. False),
      ch_addressOf = (\<lambda>pub. case pub of PubKeySecp256k1 b \<Rightarrow> b | _ \<Rightarrow> ''''),
      ch_VerifyBytes = (\<lambda>pub b s. s = b), ch_SignBytes = (\<lambda>ch n fee msgs memo. replicate (unat n) CHR ''+''),
      ch_decodeMultisig = (\<lambda>_. None), ch_simSigSize = (\<lambda>_ _. 100), ch_simPubKey = PubKeySecp256k1 ''sim'',
      ch_accessGas = (\<lambda>_. 10), ch_msgGas = (\<lambda>_ _. (None, basicGasMeter 60000 10000)), ch_panic = (\<lambda>_ _. OtherPanic),
      ch_txDecoder = (\<lambda>_. Inr (Std send_tx)), ch_initChainer = None, ch_beginBlocker = None, ch_endBlocker = None,
      ch_minGasPrices = [], ch_haltHeight = 0, ch_haltTime = 0\<rparr>"

definition send_store :: chain_store where
  "send_store =
     \<lparr>cs_swap = empty_state \<lparr>lg_bank = \<lparr>balances = kv_set (''alice000000000000000'', ''hbc'') 100 kv_empty, holds = kv_empty\<rparr>,
        lg_supply = None, lg_accounts = empty_cus\<rparr>,
      cs_auth = DefaultAuthParams, cs_sendEnabled = True\<rparr>"

definition send_state :: "chain_store AppState" where
  "send_state =
     \<lparr>ap_cms = send_store, ap_LastBlockHeight = 7, ap_checkState = None,
      ap_deliverState = Some ((NewContext send_store \<lparr>hd_ChainID = ''hbtc'', hd_Height = 8, hd_Time = 1\<rparr> False)
        \<lparr>cx_blockGasMeter := Some NewInfiniteGasMeter\<rparr>),
      ap_maxGas = None\<rparr>"

lemma send_inv: "app_inv (chain_inv send_env (\<lambda>x. if x = ''hbc'' then 100 else 0)) send_state"
proof -
  let ?lg = "sw_ledger (cs_swap send_store)"
  have "bank_wf (lg_bank ?lg)" by (simp add: send_store_def empty_state_def bank_wf_def entries_ok_iff int_ok_def)
  from genesis_inv [OF launch_ok(2) this] have "swap_inv (ch_tokens send_env) (InitGenesis DefaultGenesisState (empty_state ?lg))" .
  moreover have "core (InitGenesis DefaultGenesisState (empty_state ?lg)) = core (cs_swap send_store)"
    by (simp add: core_def InitGenesis_def DefaultGenesisState_def send_store_def empty_state_def)
  ultimately have "swap_inv (ch_tokens send_env) (cs_swap send_store)" using core_same(1) by metis
  moreover have "swap_total (cs_swap send_store) x = (if x = ''hbc'' then 100 else 0)" for x
    by (simp add: swap_total_def send_store_def empty_state_def bank_total_def free_total_def hold_total_def symbol_sum_def
        weight_def pool_total_def getRepurchaseFund_def)
  ultimately have "chain_inv send_env (\<lambda>x. if x = ''hbc'' then 100 else 0) send_store" by (simp add: chain_inv_def)
  then show ?thesis by (simp add: app_inv_def send_state_def NewContext_def)
qed

lemma send_delivers:
  "\<exists>res st' c. DeliverTx (chain_app send_env) [] send_state = Some (res, st') \<and> ap_deliverState st' = Some c \<and> Result_IsOK res \<and>
     GetBalance (swap_bank (cs_swap (cx_ms c))) ''bob00000000000000000'' ''hbc'' = 5 \<and>
     GetBalance (swap_bank (cs_swap (cx_ms c))) ''collector'' ''hbc'' = 5"
  by (simp add: DeliverTx_def chain_app_def send_env_def send_state_def send_store_def send_tx_def empty_state_def
      count_eval auth_eval run_ante_def MsgSend_ValidateBasic_def IsValidAddr_def AddrLen_def IsAllPositive_def
      chain_auth_def metered_def on_ledger_def handleMsgSend_def with_bank_def
      NewGasRefundHandler_def refund_amount_def DefaultGasUsedForRefund_def NewDec_eq Dec_Sub_def OneDec_def
      go_eval Let_def cong: go_congs)



end
