(* ===== verification/Evidence.thy ===== *)
theory Evidence
  imports SdkDec KVStore
begin

text \<open>
  \<open>x/evidence\<close>: the boxes in which the key nodes of an epoch vote on an external fact, and the
  counters of their misbehaviour (\<open>types/vote.go\<close>, \<open>keeper/keeper.go\<close>, \<open>keeper/behaviour.go\<close>).  A vote
  is of any type \<open>'v\<close>; the code compares votes by their JSON text, the argument \<open>marshal\<close>.  The
  answers of the staking module (the key nodes of an epoch) are part of the context, and the calls that
  slash and jail a validator are recorded in the list \<open>ev_slashed\<close>.  The offsets and counters, which the code
  keeps in 64 bits and which grow by one per confirmed vote, are unbounded integers.
\<close>

section \<open>Vote boxes\<close>

record 'v VoteItem =
  vi_Vote :: 'v
  vi_Voter :: CUAddress

record 'v VoteBox =
  ConfirmThreshold :: int
  VoteItems :: "'v VoteItem list"
  vb_Confirmed :: bool
  vb_Result :: "'v option"

definition NewVoteBox :: "int \<Rightarrow> 'v VoteBox" where
  "NewVoteBox confirmThreshold =
     \<lparr>ConfirmThreshold = confirmThreshold, VoteItems = [], vb_Confirmed = False, vb_Result = None\<rparr>"

text \<open>The search for the voter, which changes the vote unless the box is confirmed, and the append.\<close>

fun cast_vote :: "bool \<Rightarrow> CUAddress \<Rightarrow> 'v \<Rightarrow> 'v VoteItem list \<Rightarrow> 'v VoteItem list" where
  "cast_vote confirmed voter vote [] = [\<lparr>vi_Vote = vote, vi_Voter = voter\<rparr>]"
| "cast_vote confirmed voter vote (item # items) =
     (if vi_Voter item = voter then (if confirmed then item else item\<lparr>vi_Vote := vote\<rparr>) # items
      else item # cast_vote confirmed voter vote items)"

text \<open>The loop over the votes with its map of counters; the first text that reaches the threshold wins.\<close>

fun count_votes :: "('v \<Rightarrow> string) \<Rightarrow> int \<Rightarrow> (string, int) kv \<Rightarrow> 'v VoteItem list \<Rightarrow> 'v option" where
  "count_votes marshal threshold counter [] = None"
| "count_votes marshal threshold counter (item # items) =
     (let str = marshal (vi_Vote item);
          n = (case kv_get counter str of None \<Rightarrow> 0 | Some n \<Rightarrow> n) + 1;
          counter = kv_set str n counter
      in if threshold \<le> n then Some (vi_Vote item) else count_votes marshal threshold counter items)"

definition AddVote :: "('v \<Rightarrow> string) \<Rightarrow> CUAddress \<Rightarrow> 'v \<Rightarrow> 'v VoteBox \<Rightarrow> bool \<times> 'v VoteBox" where
  "AddVote marshal voter vote v =
     (let v = v\<lparr>VoteItems := cast_vote (vb_Confirmed v) voter vote (VoteItems v)\<rparr>
      in if vb_Confirmed v \<or> int (length (VoteItems v)) < ConfirmThreshold v then (False, v)
         else case count_votes marshal (ConfirmThreshold v) kv_empty (VoteItems v) of
           Some result \<Rightarrow> (True, v\<lparr>vb_Confirmed := True, vb_Result := Some result\<rparr>)
         | None \<Rightarrow> (False, v))"

definition ValidVotes :: "('v \<Rightarrow> string) \<Rightarrow> 'v VoteBox \<Rightarrow> 'v VoteItem list" where
  "ValidVotes marshal v =
     (if \<not> vb_Confirmed v then []
      else filter (\<lambda>item. Some (marshal (vi_Vote item)) = map_option marshal (vb_Result v)) (VoteItems v))"

definition Majority23 :: "int \<Rightarrow> int" where
  "Majority23 num = 2 * num div 3 + 1"

section \<open>The state of the module\<close>

record BehaviourParams =
  bp_BehaviourWindow :: int
  bp_MaxMisbehaviourCount :: int
  bp_BehaviourSlashFraction :: Dec

definition DefaultBehaviourParams :: BehaviourParams where
  "DefaultBehaviourParams =
     \<lparr>bp_BehaviourWindow = 30000, bp_MaxMisbehaviourCount = 20000,
      bp_BehaviourSlashFraction = 10000000000000000\<rparr>"

record ValidatorBehaviour =
  IndexOffset :: int
  MisbehaviourCounter :: int

definition VoteBehaviourKey :: string where "VoteBehaviourKey = ''Vote''"
definition DsignBehaviourKey :: string where "DsignBehaviourKey = ''dsign''"
definition BehaviourCountDelayBlock :: uint64 where "BehaviourCountDelayBlock = 10"

text \<open>
  The block height, the key nodes of the current epoch and of the epoch of a height, and the parameters
  of a behaviour; a parameter that was never set makes the code panic.
\<close>

record EvContext =
  ec_BlockHeight :: uint64
  ec_KeyNodeSet :: "CUAddress list"
  ec_EpochByHeight :: "uint64 \<Rightarrow> CUAddress list"
  ec_Params :: "string \<Rightarrow> BehaviourParams option"

record 'v ev_state =
  ev_boxes :: "(string, 'v VoteBox) kv"
  ev_confirmed :: "(uint64 \<times> string, unit) kv"
  ev_behaviours :: "(string \<times> CUAddress, ValidatorBehaviour) kv"
  ev_bits :: "(string \<times> CUAddress \<times> int, bool) kv"
  ev_slashed :: "(CUAddress \<times> uint64 \<times> Dec) list"

definition empty_evidence :: "'v ev_state" where
  "empty_evidence = \<lparr>ev_boxes = kv_empty, ev_confirmed = kv_empty, ev_behaviours = kv_empty,
     ev_bits = kv_empty, ev_slashed = []\<rparr>"

section \<open>Votes\<close>

definition VoteWithCustomBox ::
  "('v \<Rightarrow> string) \<Rightarrow> EvContext \<Rightarrow> string \<Rightarrow> CUAddress \<Rightarrow> 'v \<Rightarrow> uint64 \<Rightarrow> (int \<Rightarrow> 'v VoteBox) \<Rightarrow> 'v ev_state \<Rightarrow>
   (bool \<times> bool \<times> 'v VoteItem list) \<times> 'v ev_state" where
  "VoteWithCustomBox marshal ctx voteID voter vote height newVoteBox st =
     (let voteBox = (case kv_get (ev_boxes st) voteID of
            None \<Rightarrow> newVoteBox (Majority23 (int (length (ec_KeyNodeSet ctx))))
          | Some voteBox \<Rightarrow> voteBox);
          (firstConfirmed, voteBox) = AddVote marshal voter vote voteBox;
          st = (if firstConfirmed then st\<lparr>ev_confirmed := kv_set (height, voteID) () (ev_confirmed st)\<rparr> else st);
          st = st\<lparr>ev_boxes := kv_set voteID voteBox (ev_boxes st)\<rparr>
      in ((firstConfirmed, vb_Confirmed voteBox, ValidVotes marshal voteBox), st))"

definition ev_Vote ::
  "('v \<Rightarrow> string) \<Rightarrow> EvContext \<Rightarrow> string \<Rightarrow> CUAddress \<Rightarrow> 'v \<Rightarrow> uint64 \<Rightarrow> 'v ev_state \<Rightarrow>
   (bool \<times> bool \<times> 'v VoteItem list) \<times> 'v ev_state" where
  "ev_Vote marshal ctx voteID voter vote height st =
     VoteWithCustomBox marshal ctx voteID voter vote height NewVoteBox st"

section \<open>Misbehaviour\<close>

definition GetValidatorBehaviour :: "'v ev_state \<Rightarrow> string \<Rightarrow> CUAddress \<Rightarrow> ValidatorBehaviour" where
  "GetValidatorBehaviour st behaviourName address =
     (case kv_get (ev_behaviours st) (behaviourName, address) of
        None \<Rightarrow> \<lparr>IndexOffset = 0, MisbehaviourCounter = 0\<rparr>
      | Some b \<Rightarrow> b)"

definition SetValidatorBehaviour ::
  "string \<Rightarrow> CUAddress \<Rightarrow> ValidatorBehaviour \<Rightarrow> 'v ev_state \<Rightarrow> 'v ev_state" where
  "SetValidatorBehaviour behaviourName address behaviour st =
     st\<lparr>ev_behaviours := kv_set (behaviourName, address) behaviour (ev_behaviours st)\<rparr>"

definition GetValidatorBehaviourBitArray :: "'v ev_state \<Rightarrow> string \<Rightarrow> CUAddress \<Rightarrow> int \<Rightarrow> bool" where
  "GetValidatorBehaviourBitArray st behaviourName address index =
     (case kv_get (ev_bits st) (behaviourName, address, index) of None \<Rightarrow> False | Some mis \<Rightarrow> mis)"

definition SetValidatorBehaviourBitArray ::
  "string \<Rightarrow> CUAddress \<Rightarrow> int \<Rightarrow> bool \<Rightarrow> 'v ev_state \<Rightarrow> 'v ev_state" where
  "SetValidatorBehaviourBitArray behaviourName address index mis st =
     st\<lparr>ev_bits := kv_set (behaviourName, address, index) mis (ev_bits st)\<rparr>"

definition clearValidatorBehaviourBitArray :: "string \<Rightarrow> CUAddress \<Rightarrow> 'v ev_state \<Rightarrow> 'v ev_state" where
  "clearValidatorBehaviourBitArray behaviourName address st =
     st\<lparr>ev_bits := fold kv_delete
       (filter (\<lambda>(n, a, _). n = behaviourName \<and> a = address) (map fst (kv_entries (ev_bits st)))) (ev_bits st)\<rparr>"

definition HandleBehaviour ::
  "EvContext \<Rightarrow> string \<Rightarrow> CUAddress \<Rightarrow> uint64 \<Rightarrow> bool \<Rightarrow> 'v ev_state \<Rightarrow> 'v ev_state option" where
  "HandleBehaviour ctx behaviourKey validator height normal st = do {
     let vb = GetValidatorBehaviour st behaviourKey validator;
     params \<leftarrow> ec_Params ctx behaviourKey;
     index \<leftarrow> (if bp_BehaviourWindow params = 0 then None
               else Some (big_Rem (IndexOffset vb) (bp_BehaviourWindow params)));
     let vb = vb\<lparr>IndexOffset := IndexOffset vb + 1\<rparr>;
     let previous = GetValidatorBehaviourBitArray st behaviourKey validator index;
     let misbehaved = (\<not> normal);
     let (vb, st) =
       (if \<not> previous \<and> misbehaved then
          (vb\<lparr>MisbehaviourCounter := MisbehaviourCounter vb + 1\<rparr>,
           SetValidatorBehaviourBitArray behaviourKey validator index True st)
        else if previous \<and> \<not> misbehaved then
          (vb\<lparr>MisbehaviourCounter := MisbehaviourCounter vb - 1\<rparr>,
           SetValidatorBehaviourBitArray behaviourKey validator index False st)
        else (vb, st));
     let (vb, st) =
       (if MisbehaviourCounter vb > bp_MaxMisbehaviourCount params then
          (vb\<lparr>MisbehaviourCounter := 0, IndexOffset := 0\<rparr>,
           clearValidatorBehaviourBitArray behaviourKey validator
             (st\<lparr>ev_slashed := ev_slashed st @ [(validator, height, bp_BehaviourSlashFraction params)]\<rparr>))
        else (vb, st));
     Some (SetValidatorBehaviour behaviourKey validator vb st) }"

fun handle_nodes ::
  "EvContext \<Rightarrow> uint64 \<Rightarrow> 'v VoteItem list \<Rightarrow> CUAddress list \<Rightarrow> 'v ev_state \<Rightarrow> 'v ev_state option" where
  "handle_nodes ctx height validVotes [] st = Some st"
| "handle_nodes ctx height validVotes (validator # nodes) st = do {
     let found = (\<exists>item \<in> set validVotes. vi_Voter item = validator);
     st \<leftarrow> HandleBehaviour ctx VoteBehaviourKey validator height found st;
     handle_nodes ctx height validVotes nodes st }"

text \<open>A confirmed vote without a box makes the call on the nil box panic.\<close>

fun record_votes ::
  "('v \<Rightarrow> string) \<Rightarrow> EvContext \<Rightarrow> (uint64 \<times> string) list \<Rightarrow> 'v ev_state \<Rightarrow> 'v ev_state option" where
  "record_votes marshal ctx [] st = Some st"
| "record_votes marshal ctx ((height, voteID) # keys) st = do {
     voteBox \<leftarrow> kv_get (ev_boxes st) voteID;
     st \<leftarrow> handle_nodes ctx height (ValidVotes marshal voteBox) (ec_EpochByHeight ctx height) st;
     record_votes marshal ctx keys st }"

definition RecordMisbehaviourVoter :: "('v \<Rightarrow> string) \<Rightarrow> EvContext \<Rightarrow> 'v ev_state \<Rightarrow> 'v ev_state option" where
  "RecordMisbehaviourVoter marshal ctx st =
     (if ec_BlockHeight ctx \<le> BehaviourCountDelayBlock then Some st
      else do {
        let keys = rev (filter (\<lambda>(height, _). height < ec_BlockHeight ctx - BehaviourCountDelayBlock + 1)
                     (map fst (kv_entries (ev_confirmed st))));
        st \<leftarrow> record_votes marshal ctx keys st;
        Some (st\<lparr>ev_confirmed := fold kv_delete keys (ev_confirmed st)\<rparr>) })"

end
