(* ===== verification/Deposit.thy ===== *)
theory Deposit
  imports SwapTypes Evidence DecStr
begin

text \<open>
  Cross-chain deposits: a user reports a transaction on an external chain (\<open>Deposit\<close>), the key nodes of
  the epoch vote on it (\<open>ConfirmedDeposit\<close>), and the ledger is credited when a majority calls it valid
  (\<open>x/transfer/keeper/deposit.go\<close>, with \<open>x/order\<close>, \<open>x/ibcasset\<close>, \<open>types/order.go\<close>, \<open>types/depositlist.go\<close> and
  \<open>types/token.go\<close>).  The remote node that knows the addresses of a chain and the parser of UUIDs are
  parts of the context.
\<close>

section \<open>Tokens of other chains\<close>

text \<open>The fields of a token that deposits read.\<close>

record IBCToken =
  it_Symbol :: Symbol
  it_Chain :: Symbol
  it_SendEnabled :: bool
  it_TokenType :: uint64
  it_DepositEnabled :: bool
  it_DepositThreshold :: int
  it_SysTransferNum :: int
  it_GasLimit :: int
  it_GasPrice :: int
  it_NeedCollectFee :: bool

definition UtxoBased :: uint64 where "UtxoBased = 1"
definition AccountBased :: uint64 where "AccountBased = 2"

definition DefaultUtxoCollectTxSize :: int where
  "DefaultUtxoCollectTxSize = 150 + 40"

definition SysTransferAmount :: "IBCToken \<Rightarrow> int option" where
  "SysTransferAmount t = do { g \<leftarrow> Int_Mul (it_GasPrice t) (it_GasLimit t); Int_Mul g (it_SysTransferNum t) }"

definition CollectFee :: "IBCToken \<Rightarrow> Coin option" where
  "CollectFee t =
     (if \<not> it_NeedCollectFee t then NewCoin (it_Chain t) 0
      else do {
        baseGasFee \<leftarrow> (if it_TokenType t = UtxoBased
          then do { m \<leftarrow> Int_Mul DefaultUtxoCollectTxSize (it_GasPrice t); Int_Quo m 1024 }
          else Int_Mul (it_GasPrice t) (it_GasLimit t));
        if it_Chain t \<noteq> it_Symbol t then do {
          sysTransfer \<leftarrow> SysTransferAmount t;
          collectFeeAmount \<leftarrow> Int_Add sysTransfer baseGasFee;
          NewCoin (it_Chain t) collectFeeAmount }
        else NewCoin (it_Chain t) baseGasFee })"

section \<open>Assets of a unit\<close>

record Asset =
  as_Denom :: string
  as_Address :: string
  as_Nonce :: uint64
  as_Epoch :: uint64
  as_EnableSendTx :: bool
  as_GasRemained :: int

definition NewAsset :: "string \<Rightarrow> string \<Rightarrow> uint64 \<Rightarrow> bool \<Rightarrow> Asset" where
  "NewAsset denom address epoch enablesendtx =
     \<lparr>as_Denom = denom, as_Address = address, as_Nonce = 0, as_Epoch = epoch,
      as_EnableSendTx = enablesendtx, as_GasRemained = 0\<rparr>"

record CUIBCAsset =
  ia_Address :: CUAddress
  ia_Type :: CUType
  ia_Assets :: "Asset list"
  ia_AssetCoins :: Coins
  ia_AssetCoinsHold :: Coins
  ia_AssetPubkey :: bytes
  ia_AssetPubkeyEpoch :: uint64
  ia_GasUsed :: Coins
  ia_GasReceived :: Coins
  ia_MigrationStatus :: int

definition MigrationFinish :: int where "MigrationFinish = 5"

text \<open>
  The code compares an asset with the zero value, whose amount is a nil pointer; an asset of a unit
  never is, so the search answers with an option.
\<close>

definition GetAssetByAddr :: "CUIBCAsset \<Rightarrow> string \<Rightarrow> string \<Rightarrow> Asset option" where
  "GetAssetByAddr cuAst denom addr =
     List.find (\<lambda>asset. as_Denom asset = denom \<and> as_Address asset = addr) (ia_Assets cuAst)"

definition GetGasRemained :: "CUIBCAsset \<Rightarrow> string \<Rightarrow> string \<Rightarrow> int" where
  "GetGasRemained cuAst chain addr =
     (case GetAssetByAddr cuAst chain addr of None \<Rightarrow> 0 | Some asset \<Rightarrow> as_GasRemained asset)"

definition AddAssetCoins :: "Coins \<Rightarrow> CUIBCAsset \<Rightarrow> CUIBCAsset option" where
  "AddAssetCoins coins cuAst = do {
     c \<leftarrow> Coins_Add (ia_AssetCoins cuAst) coins;
     Some (cuAst\<lparr>ia_AssetCoins := c\<rparr>) }"

definition AddGasUsed :: "Coins \<Rightarrow> Coins \<Rightarrow> Coins option" where
  "AddGasUsed coins gasUsed = Coins_Add gasUsed coins"

text \<open>The first loop of \<open>AddAsset\<close>: true when the asset exists, with the assets changed on the way.\<close>

fun fill_asset :: "string \<Rightarrow> string \<Rightarrow> uint64 \<Rightarrow> Asset list \<Rightarrow> bool \<times> Asset list" where
  "fill_asset denom address epoch [] = (False, [])"
| "fill_asset denom address epoch (asset # assets) =
     (if as_Denom asset = denom \<and> as_Epoch asset = epoch then (True, asset # assets)
      else
        let asset = (if as_Denom asset = denom \<and> as_Epoch asset = 0
                     then asset\<lparr>as_Address := address, as_Epoch := epoch\<rparr> else asset);
            (found, assets) = fill_asset denom address epoch assets
        in (found, asset # assets))"

text \<open>The second loop drops assets whose epoch is two or more before the new one, on 64-bit words.\<close>

fun drop_old_assets :: "uint64 \<Rightarrow> Asset list \<Rightarrow> Coins \<Rightarrow> (Asset list \<times> Coins) option" where
  "drop_old_assets epoch [] gasUsed = Some ([], gasUsed)"
| "drop_old_assets epoch (asset # assets) gasUsed =
     (if epoch \<ge> 3 \<and> epoch - as_Epoch asset \<ge> 2 then do {
        gasUsed \<leftarrow> (if as_GasRemained asset \<noteq> 0 then do {
            coin \<leftarrow> NewCoin (as_Denom asset) (as_GasRemained asset);
            coins \<leftarrow> NewCoins [coin];
            AddGasUsed coins gasUsed }
          else Some gasUsed);
        drop_old_assets epoch assets gasUsed }
      else do {
        (assets, gasUsed) \<leftarrow> drop_old_assets epoch assets gasUsed;
        Some (asset # assets, gasUsed) })"

text \<open>The boolean is false where the code returns an error.\<close>

definition AddAsset :: "string \<Rightarrow> string \<Rightarrow> uint64 \<Rightarrow> CUIBCAsset \<Rightarrow> (bool \<times> CUIBCAsset) option" where
  "AddAsset denom address epoch cuAst =
     (let (found, assets) = fill_asset denom address epoch (ia_Assets cuAst)
      in if found then Some (False, cuAst\<lparr>ia_Assets := assets\<rparr>)
         else do {
           (assets, gasUsed) \<leftarrow> drop_old_assets epoch assets (ia_GasUsed cuAst);
           Some (True, cuAst\<lparr>ia_Assets := assets @ [NewAsset denom address epoch True], ia_GasUsed := gasUsed\<rparr>) })"

fun fill_first :: "string \<Rightarrow> string \<Rightarrow> uint64 \<Rightarrow> Asset list \<Rightarrow> Asset list option" where
  "fill_first denom address epoch [] = None"
| "fill_first denom address epoch (asset # assets) =
     (if as_Denom asset = denom \<and> as_Epoch asset = 0
      then Some (asset\<lparr>as_Address := address, as_Epoch := epoch\<rparr> # assets)
      else map_option ((#) asset) (fill_first denom address epoch assets))"

definition SetAssetAddress :: "string \<Rightarrow> string \<Rightarrow> uint64 \<Rightarrow> CUIBCAsset \<Rightarrow> (bool \<times> CUIBCAsset) option" where
  "SetAssetAddress denom address epoch cuAst =
     (case fill_first denom address epoch (ia_Assets cuAst) of
        Some assets \<Rightarrow> Some (True, cuAst\<lparr>ia_Assets := assets\<rparr>)
      | None \<Rightarrow> AddAsset denom address epoch cuAst)"

section \<open>Deposit items\<close>

type_synonym DepositItemStatus = int

definition DepositItemStatusUnCollected :: DepositItemStatus where "DepositItemStatusUnCollected = 0"
definition DepositItemStatusWaitCollect :: DepositItemStatus where "DepositItemStatusWaitCollect = 1"
definition DepositItemStatusConfirmed :: DepositItemStatus where "DepositItemStatusConfirmed = 2"

record DepositItem =
  di_Hash :: string
  di_Index :: uint64
  di_Amount :: int
  di_ExtAddress :: string
  di_Memo :: string
  di_Status :: DepositItemStatus

text \<open>The zero value, stored when the error is dropped; its nil amount is encoded as 0.\<close>

definition DepositNil :: DepositItem where
  "DepositNil = \<lparr>di_Hash = '''', di_Index = 0, di_Amount = 0, di_ExtAddress = '''', di_Memo = '''', di_Status = 0\<rparr>"

definition NewDepositItem ::
  "string \<Rightarrow> uint64 \<Rightarrow> int \<Rightarrow> string \<Rightarrow> string \<Rightarrow> DepositItemStatus \<Rightarrow> bool \<times> DepositItem" where
  "NewDepositItem hash index amount extAddress memo status =
     (if hash = '''' then (False, DepositNil)
      else (True, \<lparr>di_Hash = hash, di_Index = index, di_Amount = amount, di_ExtAddress = extAddress,
                   di_Memo = memo, di_Status = status\<rparr>))"

definition AddDepositItem :: "DepositItem \<Rightarrow> DepositItem list \<Rightarrow> DepositItem list" where
  "AddDepositItem d dts =
     (if di_Hash d = '''' then dts
      else if \<exists>dt \<in> set dts. di_Hash dt = di_Hash d \<and> di_Index dt = di_Index d then dts
      else dts @ [d])"

section \<open>Orders\<close>

definition OrderTypeCollect :: int where "OrderTypeCollect = 3"
definition OrderTypeDeposit :: int where "OrderTypeDeposit = 4"

definition CrossStatusBegin :: int where "CrossStatusBegin = 1"
definition CrossStatusFinish :: int where "CrossStatusFinish = 4"

definition Terminated :: "int \<Rightarrow> bool" where
  "Terminated s = (s \<ge> CrossStatusFinish)"

definition DepositUnconfirm :: int where "DepositUnconfirm = 0"
definition DepositConfirmed :: int where "DepositConfirmed = 2"

record OrderBase =
  ob_CUAddress :: CUAddress
  ob_ID :: string
  ob_OrderType :: int
  ob_Symbol :: Symbol
  ob_Status :: int
  ob_Height :: uint64

record OrderCollect = OrderBase +
  oc_CollectFromCU :: CUAddress
  oc_CollectFromAddress :: string
  oc_CollectToCU :: CUAddress
  oc_Amount :: int
  oc_GasPrice :: int
  oc_GasLimit :: int
  oc_CostFee :: int
  oc_Txhash :: string
  oc_Index :: uint64
  oc_Memo :: string
  oc_RawData :: bytes
  oc_SignedTx :: bytes
  oc_ExtTxHash :: string
  oc_DepositStatus :: int

text \<open>An order in the store; of the kinds other than collect orders deposits read the base only.\<close>

datatype CrossOrder = CollectOrder OrderCollect | OtherOrder OrderBase

section \<open>State and context\<close>

record TxVote =
  tv_CostFee :: int
  tv_Valid :: bool

definition NewTxVote :: "int \<Rightarrow> bool \<Rightarrow> TxVote" where
  "NewTxVote costFee valid = \<lparr>tv_CostFee = costFee, tv_Valid = valid\<rparr>"

text \<open>\<open>json.Marshal\<close> of a vote.\<close>

definition TxVote_JSON :: "TxVote \<Rightarrow> string" where
  "TxVote_JSON v = ''{\"cost_fee\":'' @ MarshalText (tv_CostFee v) @ '',\"valid\":'' @
     (if tv_Valid v then ''true'' else ''false'') @ ''}''"

text \<open>
  The stores of the modules, under the parts of their keys: an entry of the list of open orders has the
  type and the identifier of the order, a deposit item its unit, token, transaction hash and index.
\<close>

type_synonym deposit_key = "CUAddress \<times> Symbol \<times> string \<times> uint64"

record dep_state =
  dp_bank :: bank
  dp_cus :: CUStore
  dp_orders :: "(string, CrossOrder) kv"
  dp_process :: "(int \<times> string, unit) kv"
  dp_assets :: "(CUAddress, CUIBCAsset) kv"
  dp_deposits :: "(deposit_key, DepositItem) kv"
  dp_evidence :: "TxVote ev_state"

text \<open>
  The context: the block and the key nodes, the table of tokens, the switch of the module, the answer of
  the remote node about an address (its validity and canonical form), the parser of order identifiers,
  and the base-58 test of an address.
\<close>

record DepContext =
  dc_ev :: EvContext
  dc_GetIBCToken :: "Symbol \<Rightarrow> IBCToken option"
  dc_SendEnabled :: bool
  dc_ValidAddress :: "string \<Rightarrow> string \<Rightarrow> string \<Rightarrow> bool \<times> string"
  dc_uuid :: "string \<Rightarrow> bool"
  dc_decodes :: "CUAddress \<Rightarrow> bool"

datatype DepFlow =
    OrderFlow Symbol CUAddress string int int
  | DepositFlow CUAddress string Symbol string string string uint64 int bool uint64
  | DepositConfirmedFlow "string list" "string list"
  | DepBalanceFlow BalanceFlow

section \<open>The keeper of the assets\<close>

definition GetCUIBCAsset :: "dep_state \<Rightarrow> CUAddress \<Rightarrow> CUIBCAsset option" where
  "GetCUIBCAsset st addr = (if addr = '''' then None else kv_get (dp_assets st) addr)"

definition SetCUIBCAsset :: "CUIBCAsset \<Rightarrow> dep_state \<Rightarrow> dep_state" where
  "SetCUIBCAsset cuAst st = st\<lparr>dp_assets := kv_set (ia_Address cuAst) cuAst (dp_assets st)\<rparr>"

definition NewCUIBCAssetWithAddress :: "CUType \<Rightarrow> CUAddress \<Rightarrow> CUIBCAsset" where
  "NewCUIBCAssetWithAddress cuType address =
     \<lparr>ia_Address = address, ia_Type = cuType, ia_Assets = [], ia_AssetCoins = [], ia_AssetCoinsHold = [],
      ia_AssetPubkey = '''', ia_AssetPubkeyEpoch = 0, ia_GasUsed = [], ia_GasReceived = [],
      ia_MigrationStatus = MigrationFinish\<rparr>"

definition GetDepositList :: "dep_state \<Rightarrow> Symbol \<Rightarrow> CUAddress \<Rightarrow> DepositItem list" where
  "GetDepositList st symbol address =
     fold AddDepositItem
       (map snd (filter (\<lambda>((a, s, _), _). a = address \<and> s = symbol) (kv_entries (dp_deposits st)))) []"

definition IsDepositExist :: "dep_state \<Rightarrow> Symbol \<Rightarrow> CUAddress \<Rightarrow> string \<Rightarrow> uint64 \<Rightarrow> bool" where
  "IsDepositExist st symbol address hash index = (kv_get (dp_deposits st) (address, symbol, hash, index) \<noteq> None)"

definition SaveDeposit :: "Symbol \<Rightarrow> CUAddress \<Rightarrow> DepositItem \<Rightarrow> dep_state \<Rightarrow> dep_state" where
  "SaveDeposit symbol address item st =
     st\<lparr>dp_deposits := kv_set (address, symbol, di_Hash item, di_Index item) item (dp_deposits st)\<rparr>"

section \<open>The keeper of the orders\<close>

definition order_IsExist :: "dep_state \<Rightarrow> string \<Rightarrow> bool" where
  "order_IsExist st uuid = (kv_get (dp_orders st) uuid \<noteq> None)"

definition cross_NewOrder :: "OrderCollect \<Rightarrow> dep_state \<Rightarrow> OrderCollect option \<times> dep_state" where
  "cross_NewOrder ord st =
     (if ob_CUAddress ord = '''' then (None, st)
      else if order_IsExist st (ob_ID ord) then (None, st)
      else
        (Some (ord\<lparr>ob_Status := CrossStatusBegin\<rparr>),
         st\<lparr>dp_process := kv_set (ob_OrderType ord, ob_ID ord) () (dp_process st)\<rparr>))"

definition empty_OrderCollect :: OrderCollect where
  "empty_OrderCollect =
     \<lparr>ob_CUAddress = '''', ob_ID = '''', ob_OrderType = 0, ob_Symbol = '''', ob_Status = 0, ob_Height = 0,
      oc_CollectFromCU = '''', oc_CollectFromAddress = '''', oc_CollectToCU = '''', oc_Amount = 0,
      oc_GasPrice = 0, oc_GasLimit = 0, oc_CostFee = 0, oc_Txhash = '''', oc_Index = 0, oc_Memo = '''',
      oc_RawData = '''', oc_SignedTx = '''', oc_ExtTxHash = '''', oc_DepositStatus = 0\<rparr>"

definition NewOrderCollect ::
  "DepContext \<Rightarrow> CUAddress \<Rightarrow> string \<Rightarrow> Symbol \<Rightarrow> CUAddress \<Rightarrow> string \<Rightarrow> int \<Rightarrow> int \<Rightarrow> int \<Rightarrow> string \<Rightarrow> uint64 \<Rightarrow>
   string \<Rightarrow> dep_state \<Rightarrow> OrderCollect \<times> dep_state" where
  "NewOrderCollect ctx from orderID symbol collectFromCU collectFromAddress amount gasPrice gasLimit txHash
     index memo st =
     (let neworder = \<lparr>ob_CUAddress = from, ob_ID = orderID, ob_OrderType = OrderTypeCollect, ob_Symbol = symbol,
            ob_Status = 0, ob_Height = ec_BlockHeight (dc_ev ctx), oc_CollectFromCU = collectFromCU,
            oc_CollectFromAddress = collectFromAddress, oc_CollectToCU = '''', oc_Amount = amount,
            oc_GasPrice = gasPrice, oc_GasLimit = gasLimit, oc_CostFee = 0, oc_Txhash = txHash,
            oc_Index = index, oc_Memo = memo, oc_RawData = '''', oc_SignedTx = '''', oc_ExtTxHash = '''',
            oc_DepositStatus = DepositUnconfirm\<rparr>;
          (ord, st) = cross_NewOrder neworder st
      in (case ord of None \<Rightarrow> empty_OrderCollect | Some ord \<Rightarrow> ord, st))"

definition cross_SetOrder :: "DepContext \<Rightarrow> OrderCollect \<Rightarrow> dep_state \<Rightarrow> dep_state" where
  "cross_SetOrder ctx ord st =
     (if \<not> IsValidAddr (dc_decodes ctx) (ob_CUAddress ord) then st
      else
        let st = st\<lparr>dp_orders := kv_set (ob_ID ord) (CollectOrder ord) (dp_orders st)\<rparr>
        in if Terminated (ob_Status ord)
           then st\<lparr>dp_process := kv_delete (ob_OrderType ord, ob_ID ord) (dp_process st)\<rparr> else st)"

definition GetProcessOrderListByType :: "dep_state \<Rightarrow> int \<Rightarrow> string list" where
  "GetProcessOrderListByType st orderType =
     map snd (filter (\<lambda>(t, _). t = orderType) (map fst (kv_entries (dp_process st))))"

section \<open>Deposits\<close>

text \<open>
  The asset of the unit that a deposit address belongs to.  For a token of a chain whose address is known,
  the address is entered for the token too; the error of that call is dropped.
\<close>

definition deposit_asset ::
  "Symbol \<Rightarrow> Symbol \<Rightarrow> string \<Rightarrow> CUIBCAsset \<Rightarrow> dep_state \<Rightarrow> (Asset option \<times> CUIBCAsset \<times> dep_state) option" where
  "deposit_asset symbol chain addr toCUAst st =
     (case GetAssetByAddr toCUAst symbol addr of
        Some asset \<Rightarrow> Some (Some asset, toCUAst, st)
      | None \<Rightarrow>
          (case GetAssetByAddr toCUAst chain addr of
             Some asset \<Rightarrow>
               if symbol \<noteq> chain then do {
                 (_, toCUAst) \<leftarrow> SetAssetAddress symbol addr (as_Epoch asset) toCUAst;
                 Some (Some asset, toCUAst, SetCUIBCAsset toCUAst st) }
               else Some (None, toCUAst, st)
           | None \<Rightarrow> Some (None, toCUAst, st)))"

text \<open>The test of one open order; an order of another kind fails the type assertion.\<close>

definition same_tx :: "dep_state \<Rightarrow> string \<Rightarrow> uint64 \<Rightarrow> string \<Rightarrow> bool option" where
  "same_tx st hash index orderID =
     (case kv_get (dp_orders st) orderID of
        None \<Rightarrow> Some False
      | Some (CollectOrder ord) \<Rightarrow> Some (oc_Txhash ord = hash \<and> oc_Index ord = index)
      | Some (OtherOrder _) \<Rightarrow> None)"

definition open_deposit ::
  "DepContext \<Rightarrow> CUAddress \<Rightarrow> Symbol \<Rightarrow> string \<Rightarrow> string \<Rightarrow> uint64 \<Rightarrow> int \<Rightarrow> string \<Rightarrow> string \<Rightarrow> Asset \<Rightarrow> CUIBCAsset \<Rightarrow>
   dep_state \<Rightarrow> (DepFlow list, dep_state) outcome" where
  "open_deposit ctx toCUAddr symbol canonicalToAddr hash index amt orderID memo asset toCUAst st =
     (if order_IsExist st orderID then Some (Inl ErrInvalidOrder, st)
      else if IsDepositExist st symbol toCUAddr hash index then Some (Inl ErrInvalidTx, st)
      else do {
        pending \<leftarrow> go_any (same_tx st hash index) (GetProcessOrderListByType st OrderTypeCollect);
        if pending then Some (Inl ErrInvalidTx, st)
        else
          let (collectOrder, st) = NewOrderCollect ctx toCUAddr orderID symbol toCUAddr canonicalToAddr amt 0 0
                hash index memo st;
              st = cross_SetOrder ctx collectOrder st
          in Some (Inr [OrderFlow symbol toCUAddr orderID OrderTypeDeposit CrossStatusBegin,
               DepositFlow toCUAddr canonicalToAddr symbol hash orderID memo index amt
                 (ia_Type toCUAst = CUTypeOp) (as_Epoch asset)], st) })"

text \<open>The part after the checks of the message: the unit and its asset.\<close>

definition accept_deposit ::
  "DepContext \<Rightarrow> CUAddress \<Rightarrow> Symbol \<Rightarrow> Symbol \<Rightarrow> string \<Rightarrow> string \<Rightarrow> uint64 \<Rightarrow> int \<Rightarrow> string \<Rightarrow> string \<Rightarrow>
   dep_state \<Rightarrow> (DepFlow list, dep_state) outcome" where
  "accept_deposit ctx toCUAddr symbol chain canonicalToAddr hash index amt orderID memo st =
     (let (toCUAst, st) =
        (case GetCUIBCAsset st toCUAddr of
           None \<Rightarrow> (let a = NewCUIBCAssetWithAddress CUTypeUser toCUAddr in (a, SetCUIBCAsset a st))
         | Some a \<Rightarrow> (a, st))
      in do {
        (asset, toCUAst, st) \<leftarrow> deposit_asset symbol chain canonicalToAddr toCUAst st;
        case asset of
          None \<Rightarrow> Some (Inl ErrInvalidTx, st)
        | Some asset \<Rightarrow>
            open_deposit ctx toCUAddr symbol canonicalToAddr hash index amt orderID memo asset toCUAst st })"

definition Deposit ::
  "DepContext \<Rightarrow> CUAddress \<Rightarrow> CUAddress \<Rightarrow> Symbol \<Rightarrow> string \<Rightarrow> string \<Rightarrow> uint64 \<Rightarrow> int \<Rightarrow> string \<Rightarrow> string \<Rightarrow>
   dep_state \<Rightarrow> (DepFlow list, dep_state) outcome" where
  "Deposit ctx fromCUAddr toCUAddr symbol toAddr hash index amt orderID memo st =
     (if IsIllegalOrderID (dc_uuid ctx) orderID then Some (Inl ErrInvalidTx, st)
      else case GetCU (dp_cus st) fromCUAddr of None \<Rightarrow> Some (Inl ErrInvalidAccount, st)
      | Some fromCU \<Rightarrow>
        if cu_Type (CU_base fromCU) = CUTypeOp then Some (Inl ErrInvalidTx, st)
        else case dc_GetIBCToken ctx symbol of None \<Rightarrow> Some (Inl ErrUnSupportToken, st)
        | Some tokenInfo \<Rightarrow>
          if \<not> it_DepositEnabled tokenInfo \<or> \<not> it_SendEnabled tokenInfo \<or> \<not> dc_SendEnabled ctx
          then Some (Inl ErrTransactionIsNotEnabled, st)
          else if it_TokenType tokenInfo = AccountBased \<and> index \<noteq> 0 then Some (Inl ErrInvalidTx, st)
          else if amt < it_DepositThreshold tokenInfo then Some (Inl ErrInsufficientCoins, st)
          else
            let (valid, canonicalToAddr) = dc_ValidAddress ctx (it_Chain tokenInfo) symbol toAddr
            in if \<not> valid then Some (Inl ErrInvalidAddress, st)
            else accept_deposit ctx toCUAddr symbol (it_Chain tokenInfo) canonicalToAddr hash index amt orderID memo st)"

section \<open>Confirmation\<close>

definition dep_bank :: "(bank \<Rightarrow> ('a, bank) outcome) \<Rightarrow> dep_state \<Rightarrow> ('a, dep_state) outcome" where
  "dep_bank f st = map_option (\<lambda>(r, b). (r, st\<lparr>dp_bank := b\<rparr>)) (f (dp_bank st))"

text \<open>
  What a confirmed deposit is worth: the order with its fee, the amount to credit, the status of the item
  and the flow of a fee that was taken from the account.
\<close>

definition deposit_terms ::
  "DepContext \<Rightarrow> OrderCollect \<Rightarrow> CUIBCAsset \<Rightarrow> bool \<Rightarrow> dep_state \<Rightarrow>
   (OrderCollect \<times> int \<times> DepositItemStatus \<times> BalanceFlow list, dep_state) outcome" where
  "deposit_terms ctx ord toCUAst haveWaitCollectItem st =
     (if ia_Type toCUAst = CUTypeOp then
        Some (Inr (ord\<lparr>ob_Status := CrossStatusFinish\<rparr>, oc_Amount ord, DepositItemStatusConfirmed, []), st)
      else do {
        tokenInfo \<leftarrow> dc_GetIBCToken ctx (ob_Symbol ord);
        gasFee \<leftarrow> Int_Mul (it_GasPrice tokenInfo) (it_GasLimit tokenInfo);
        if GetGasRemained toCUAst (it_Chain tokenInfo) (oc_CollectFromAddress ord) \<ge> gasFee
        then Some (Inr (ord, oc_Amount ord, DepositItemStatusWaitCollect, []), st)
        else if it_Symbol tokenInfo = it_Chain tokenInfo then
          if \<not> haveWaitCollectItem then do {
            fee \<leftarrow> CollectFee tokenInfo;
            collectAmt \<leftarrow> Int_Sub (oc_Amount ord) (Amount fee);
            Some (Inr (ord\<lparr>oc_CostFee := Amount fee\<rparr>, collectAmt, DepositItemStatusWaitCollect, []), st) }
          else Some (Inr (ord, oc_Amount ord, DepositItemStatusWaitCollect, []), st)
        else if haveWaitCollectItem then Some (Inr (ord, oc_Amount ord, DepositItemStatusWaitCollect, []), st)
        else do {
          collectFee \<leftarrow> CollectFee tokenInfo;
          if GetBalance (dp_bank st) (ia_Address toCUAst) (it_Chain tokenInfo) \<ge> Amount collectFee
          then on_ok (dep_bank (SubCoin (ia_Address toCUAst) collectFee) st) (\<lambda>(_, flow) st.
            Some (Inr (ord\<lparr>oc_CostFee := Amount collectFee\<rparr>, oc_Amount ord, DepositItemStatusWaitCollect, [flow]), st))
          else Some (Inr (ord, oc_Amount ord, DepositItemStatusUnCollected, []), st) } })"

text \<open>The order and the item are stored, the account is credited, and the asset coins of the unit grow.\<close>

definition record_deposit ::
  "DepContext \<Rightarrow> CUIBCAsset \<Rightarrow> OrderCollect \<Rightarrow> int \<Rightarrow> DepositItemStatus \<Rightarrow> BalanceFlow list \<Rightarrow> dep_state \<Rightarrow>
   (BalanceFlow list, dep_state) outcome" where
  "record_deposit ctx toCUAst ord collectAmt depositItemStatus flows st =
     (let st = cross_SetOrder ctx ord st;
          (_, depositItem) = NewDepositItem (oc_Txhash ord) (oc_Index ord) (oc_Amount ord)
            (oc_CollectFromAddress ord) (oc_Memo ord) depositItemStatus;
          st = SaveDeposit (ob_Symbol ord) (oc_CollectFromCU ord) depositItem st
      in on_ok
        (if depositItemStatus = DepositItemStatusWaitCollect then do {
           coin \<leftarrow> NewCoin (ob_Symbol ord) collectAmt;
           on_ok (dep_bank (AddCoin (ia_Address toCUAst) coin) st)
             (\<lambda>(_, flow) st. Some (Inr (flows @ [flow]), st)) }
         else Some (Inr flows, st))
        (\<lambda>flows st. do {
           coin \<leftarrow> NewCoin (ob_Symbol ord) (oc_Amount ord);
           coins \<leftarrow> NewCoins [coin];
           toCUAst \<leftarrow> AddAssetCoins coins toCUAst;
           Some (Inr flows, SetCUIBCAsset toCUAst st) }))"

definition confirmDepositOrder ::
  "DepContext \<Rightarrow> OrderCollect \<Rightarrow> bool \<Rightarrow> dep_state \<Rightarrow> (BalanceFlow list, dep_state) outcome" where
  "confirmDepositOrder ctx ord valid st =
     (let ord = ord\<lparr>oc_DepositStatus := DepositConfirmed\<rparr>
      in if \<not> valid then Some (Inr [], cross_SetOrder ctx (ord\<lparr>ob_Status := CrossStatusFinish\<rparr>) st)
      else do {
        toCUAst \<leftarrow> GetCUIBCAsset st (oc_CollectFromCU ord);
        let haveWaitCollectItem = (\<exists>item \<in> set (GetDepositList st (ob_Symbol ord) (oc_CollectFromCU ord)).
              di_Status item = DepositItemStatusWaitCollect);
        on_ok (deposit_terms ctx ord toCUAst haveWaitCollectItem st)
          (\<lambda>(ord, collectAmt, depositItemStatus, flows).
             record_deposit ctx toCUAst ord collectAmt depositItemStatus flows) })"

fun processDepositOrderIDs ::
  "DepContext \<Rightarrow> CUAddress \<Rightarrow> bool \<Rightarrow> string list \<Rightarrow> dep_state \<Rightarrow> ((BalanceFlow list \<times> string list) \<times> dep_state) option" where
  "processDepositOrderIDs ctx fromCUAddr valid [] st = Some (([], []), st)"
| "processDepositOrderIDs ctx fromCUAddr valid (orderID # orderIDs) st =
     (case kv_get (dp_orders st) orderID of
        Some (CollectOrder collectOrder) \<Rightarrow>
          if ob_OrderType collectOrder \<noteq> OrderTypeCollect
          then processDepositOrderIDs ctx fromCUAddr valid orderIDs st
          else
            let ((confirmedFirstTime, _, _), ev) = ev_Vote TxVote_JSON (dc_ev ctx) orderID fromCUAddr
                  (NewTxVote 0 valid) (ec_BlockHeight (dc_ev ctx)) (dp_evidence st);
                st = st\<lparr>dp_evidence := ev\<rparr>
            in if confirmedFirstTime then do {
                 (r, st) \<leftarrow> confirmDepositOrder ctx collectOrder valid st;
                 ((flows, ids), st) \<leftarrow> processDepositOrderIDs ctx fromCUAddr valid orderIDs st;
                 Some (case r of Inl _ \<Rightarrow> (flows, ids) | Inr balanceFlows \<Rightarrow> (balanceFlows @ flows, orderID # ids), st) }
               else processDepositOrderIDs ctx fromCUAddr valid orderIDs st
      | _ \<Rightarrow> processDepositOrderIDs ctx fromCUAddr valid orderIDs st)"

definition IsActiveKeyNode :: "EvContext \<Rightarrow> CUAddress \<Rightarrow> bool" where
  "IsActiveKeyNode ctx addr = (addr \<in> set (ec_KeyNodeSet ctx))"

definition ConfirmedDeposit ::
  "DepContext \<Rightarrow> CUAddress \<Rightarrow> string list \<Rightarrow> string list \<Rightarrow> dep_state \<Rightarrow> (DepFlow list, dep_state) outcome" where
  "ConfirmedDeposit ctx fromCUAddr validOrderIDs invalidOrderIDs st =
     (if \<not> IsActiveKeyNode (dc_ev ctx) fromCUAddr then Some (Inl ErrInvalidTx, st)
      else do {
        ((validFlows, confirmedValid), st) \<leftarrow> processDepositOrderIDs ctx fromCUAddr True validOrderIDs st;
        ((invalidFlows, confirmedInvalid), st) \<leftarrow> processDepositOrderIDs ctx fromCUAddr False invalidOrderIDs st;
        Some (Inr (if confirmedValid \<noteq> [] \<or> confirmedInvalid \<noteq> []
          then [OrderFlow '''' '''' '''' OrderTypeDeposit CrossStatusFinish,
                DepositConfirmedFlow confirmedValid confirmedInvalid] @
               map DepBalanceFlow validFlows @ map DepBalanceFlow invalidFlows
          else []), st) })"

section \<open>Messages and handlers\<close>

record MsgDeposit =
  md_FromCU :: CUAddress
  md_ToCU :: CUAddress
  md_ToAddress :: string
  md_Symbol :: Symbol
  md_Amount :: int
  md_Index :: "16 word"
  md_Txhash :: string
  md_OrderID :: string
  md_Memo :: string

definition MsgDeposit_ValidateBasic :: "DepContext \<Rightarrow> MsgDeposit \<Rightarrow> sdk_error option" where
  "MsgDeposit_ValidateBasic ctx msg =
     (if IsIllegalOrderID (dc_uuid ctx) (md_OrderID msg) then Some ErrInvalidTx
      else if \<not> IsValidAddr (dc_decodes ctx) (md_FromCU msg) then Some ErrInvalidAddr
      else if \<not> IsValidAddr (dc_decodes ctx) (md_ToCU msg) then Some ErrInvalidAddr
      else if \<not> validateDenom (md_Symbol msg) then Some ErrInvalidSymbol
      else if md_Txhash msg = '''' then Some ErrInvalidTx
      else if md_ToAddress msg = '''' then Some ErrBadAddress
      else if md_Amount msg \<le> 0 then Some ErrInvalidAmount
      else None)"

record MsgConfirmedDeposit =
  mc_From :: CUAddress
  mc_ValidOrderIDs :: "string list"
  mc_InvalidOrderIDs :: "string list"

definition MsgConfirmedDeposit_ValidateBasic :: "DepContext \<Rightarrow> MsgConfirmedDeposit \<Rightarrow> sdk_error option" where
  "MsgConfirmedDeposit_ValidateBasic ctx msg =
     (if IsIllegalOrderIDList (dc_uuid ctx) (mc_ValidOrderIDs msg) then Some ErrInvalidTx
      else if IsIllegalOrderIDList (dc_uuid ctx) (mc_InvalidOrderIDs msg) then Some ErrInvalidTx
      else if \<not> IsValidAddr (dc_decodes ctx) (mc_From msg) then Some ErrInvalidAddr
      else None)"

definition handleMsgDeposit :: "DepContext \<Rightarrow> MsgDeposit \<Rightarrow> dep_state \<Rightarrow> (DepFlow list, dep_state) outcome" where
  "handleMsgDeposit ctx msg st =
     (if \<not> dc_SendEnabled ctx then Some (Inl ErrSendDisabled, st)
      else Deposit ctx (md_FromCU msg) (md_ToCU msg) (md_Symbol msg) (md_ToAddress msg) (md_Txhash msg)
        (ucast (md_Index msg)) (md_Amount msg) (md_OrderID msg) (md_Memo msg) st)"

definition handleMsgConfirmedDeposit ::
  "DepContext \<Rightarrow> MsgConfirmedDeposit \<Rightarrow> dep_state \<Rightarrow> (DepFlow list, dep_state) outcome" where
  "handleMsgConfirmedDeposit ctx msg st =
     (if \<not> dc_SendEnabled ctx then Some (Inl ErrSendDisabled, st)
      else ConfirmedDeposit ctx (mc_From msg) (mc_ValidOrderIDs msg) (mc_InvalidOrderIDs msg) st)"

end
