(* ===== verification/EvidenceFacts.thy ===== *)
theory EvidenceFacts
  imports Evidence
begin

text \<open>
  What the vote boxes and the misbehaviour counters of \<open>Evidence\<close> promise: a box answers true exactly
  at the vote that gives some result its first majority among the latest votes of the voters, and the
  counter of a validator is the number of bits set in its window.
\<close>

section \<open>Counting\<close>

definition support :: "('v \<Rightarrow> string) \<Rightarrow> string \<Rightarrow> 'v VoteItem list \<Rightarrow> int" where
  "support marshal s items = int (length (filter (\<lambda>i. marshal (vi_Vote i) = s) items))"

lemma support_simps [simp]:
  "support marshal s [] = 0"
  "support marshal s (i # items) = (if marshal (vi_Vote i) = s then 1 else 0) + support marshal s items"
  by (simp_all add: support_def)

lemma support_nonneg: "0 \<le> support marshal s items"
  by (simp add: support_def)

abbreviation tally :: "(string, int) kv \<Rightarrow> string \<Rightarrow> int" where
  "tally c s \<equiv> (case kv_get c s of None \<Rightarrow> 0 | Some n \<Rightarrow> n)"

lemma count_votes_None:
  assumes "\<And>s. tally c s < threshold"
  shows "count_votes marshal threshold c items = None \<longleftrightarrow>
    (\<forall>s. tally c s + support marshal s items < threshold)"
  using assms
proof (induction items arbitrary: c)
  case Nil
  then show ?case by simp
next
  case (Cons i items)
  let ?s = "marshal (vi_Vote i)"
  let ?c = "kv_set ?s (tally c ?s + 1) c"
  show ?case
  proof (cases "threshold \<le> tally c ?s + 1")
    case True
    then have "\<not> tally c ?s + support marshal ?s (i # items) < threshold"
      using support_nonneg [of marshal ?s items] by simp
    then have "\<not> (\<forall>s. tally c s + support marshal s (i # items) < threshold)" by blast
    with True show ?thesis by (simp add: Let_def)
  next
    case False
    then have "\<And>s. tally ?c s < threshold" using Cons.prems by simp
    note IH = Cons.IH [OF this]
    have "tally ?c s + support marshal s items = tally c s + support marshal s (i # items)" for s by auto
    with IH have "count_votes marshal threshold ?c items = None \<longleftrightarrow>
        (\<forall>s. tally c s + support marshal s (i # items) < threshold)" by (simp only:)
    with False show ?thesis by (simp add: Let_def del: support_simps)
  qed
qed

lemma count_votes_Some:
  assumes "count_votes marshal threshold c items = Some r"
  shows "\<exists>i \<in> set items. vi_Vote i = r"
    and "threshold \<le> tally c (marshal r) + support marshal (marshal r) items"
proof -
  have "(\<exists>i \<in> set items. vi_Vote i = r) \<and> threshold \<le> tally c (marshal r) + support marshal (marshal r) items"
    using assms
  proof (induction items arbitrary: c)
    case (Cons i items)
    let ?s = "marshal (vi_Vote i)"
    show ?case
    proof (cases "threshold \<le> tally c ?s + 1")
      case True
      with Cons.prems have "r = vi_Vote i" by (simp add: Let_def)
      with True support_nonneg [of marshal ?s items] show ?thesis by simp
    next
      case False
      with Cons.prems have "count_votes marshal threshold (kv_set ?s (tally c ?s + 1) c) items = Some r"
        by (simp add: Let_def)
      from Cons.IH [OF this] show ?thesis by (auto split: if_split_asm)
    qed
  qed simp
  then show "\<exists>i \<in> set items. vi_Vote i = r"
    and "threshold \<le> tally c (marshal r) + support marshal (marshal r) items" by blast+
qed

section \<open>The latest votes\<close>

text \<open>The votes cast so far, as pairs of voter and vote, and the last one of each voter.\<close>

definition latest :: "(CUAddress \<times> 'v) list \<Rightarrow> CUAddress \<Rightarrow> 'v option" where
  "latest vs = map_of (rev vs)"

definition supporters :: "('v \<Rightarrow> string) \<Rightarrow> (CUAddress \<times> 'v) list \<Rightarrow> string \<Rightarrow> CUAddress set" where
  "supporters marshal vs s = {u. map_option marshal (latest vs u) = Some s}"

definition majority :: "('v \<Rightarrow> string) \<Rightarrow> int \<Rightarrow> (CUAddress \<times> 'v) list \<Rightarrow> bool" where
  "majority marshal threshold vs = (\<exists>s. threshold \<le> int (card (supporters marshal vs s)))"

definition first_majority :: "('v \<Rightarrow> string) \<Rightarrow> int \<Rightarrow> (CUAddress \<times> 'v) list \<Rightarrow> bool" where
  "first_majority marshal threshold vs =
     (majority marshal threshold vs \<and> (\<forall>j < length vs. \<not> majority marshal threshold (take j vs)))"

abbreviation item_pair :: "'v VoteItem \<Rightarrow> CUAddress \<times> 'v" where
  "item_pair i \<equiv> (vi_Voter i, vi_Vote i)"

text \<open>The items of a box that is not confirmed are the latest votes.\<close>

definition holds_latest :: "(CUAddress \<times> 'v) list \<Rightarrow> 'v VoteItem list \<Rightarrow> bool" where
  "holds_latest vs items =
     (distinct (map vi_Voter items) \<and> map_of (map item_pair items) = latest vs)"

lemma latest_snoc: "latest (vs @ [(u, v)]) = (latest vs)(u \<mapsto> v)"
  by (simp add: latest_def)

lemma cast_vote_voters:
  "set (map vi_Voter (cast_vote c u v items)) = insert u (set (map vi_Voter items))"
  by (induction items) auto

lemma cast_vote_distinct:
  "distinct (map vi_Voter items) \<Longrightarrow> distinct (map vi_Voter (cast_vote c u v items))"
proof (induction items)
  case (Cons i items)
  then show ?case using cast_vote_voters [of c u v items] by auto
qed simp

lemma cast_vote_map:
  "map_of (map item_pair (cast_vote False u v items)) = (map_of (map item_pair items))(u \<mapsto> v)"
  by (induction items) (auto simp: fun_eq_iff)

lemma cast_vote_latest:
  "holds_latest vs items \<Longrightarrow> holds_latest (vs @ [(u, v)]) (cast_vote False u v items)"
  unfolding holds_latest_def latest_snoc cast_vote_map by (simp add: cast_vote_distinct)

lemma support_card:
  assumes "holds_latest vs items"
  shows "support marshal s items = int (card (supporters marshal vs s))"
proof -
  have d: "distinct (map vi_Voter items)" and m: "map_of (map item_pair items) = latest vs"
    using assms by (simp_all add: holds_latest_def)
  have dm: "distinct (map fst (map item_pair items))" using d by (simp add: comp_def)
  have "supporters marshal vs s = vi_Voter ` set (filter (\<lambda>i. marshal (vi_Vote i) = s) items)" (is "_ = ?R")
  proof (intro set_eqI iffI)
    fix u assume "u \<in> supporters marshal vs s"
    then obtain w where "map_of (map item_pair items) u = Some w" "marshal w = s"
      by (auto simp: supporters_def m)
    then show "u \<in> ?R" using map_of_SomeD by fastforce
  next
    fix u assume "u \<in> ?R"
    then obtain i where "i \<in> set items" "marshal (vi_Vote i) = s" "u = vi_Voter i" by auto
    moreover from this have "map_of (map item_pair items) u = Some (vi_Vote i)"
      using dm by (intro map_of_is_SomeI) auto
    ultimately show "u \<in> supporters marshal vs s" by (simp add: supporters_def m)
  qed
  moreover have "distinct (map vi_Voter (filter (\<lambda>i. marshal (vi_Vote i) = s) items))"
    using d by (rule distinct_map_filter)
  then have "card (vi_Voter ` set (filter (\<lambda>i. marshal (vi_Vote i) = s) items)) =
    length (filter (\<lambda>i. marshal (vi_Vote i) = s) items)"
    by (metis distinct_card length_map list.set_map)
  ultimately show ?thesis by (simp add: support_def)
qed

section \<open>A box and its votes\<close>

text \<open>The votes \<open>vs\<close> led to the box \<open>b\<close>.\<close>

definition box_after :: "('v \<Rightarrow> string) \<Rightarrow> int \<Rightarrow> (CUAddress \<times> 'v) list \<Rightarrow> 'v VoteBox \<Rightarrow> bool" where
  "box_after marshal threshold vs b =
     (ConfirmThreshold b = threshold \<and>
      (vb_Confirmed b \<longleftrightarrow> (\<exists>j \<le> length vs. majority marshal threshold (take j vs))) \<and>
      (\<not> vb_Confirmed b \<longrightarrow> holds_latest vs (VoteItems b)))"

lemma majority_Nil: "1 \<le> threshold \<Longrightarrow> \<not> majority marshal threshold []"
  by (simp add: majority_def supporters_def latest_def)

lemma box_after_new: "1 \<le> threshold \<Longrightarrow> box_after marshal threshold [] (NewVoteBox threshold)"
  by (simp add: box_after_def NewVoteBox_def majority_Nil holds_latest_def latest_def)

lemma majority_snoc:
  "(\<exists>j \<le> length (vs @ [x]). majority marshal threshold (take j (vs @ [x]))) \<longleftrightarrow>
   (\<exists>j \<le> length vs. majority marshal threshold (take j vs)) \<or> majority marshal threshold (vs @ [x])"
  by (auto simp: le_Suc_eq)

lemma few_votes_no_majority:
  assumes "holds_latest vs items" and "int (length items) < threshold"
  shows "\<not> majority marshal threshold vs"
proof -
  have "support marshal s items \<le> int (length items)" for s by (simp add: support_def)
  then have "int (card (supporters marshal vs s)) < threshold" for s
    using assms(2) support_card [OF assms(1), of marshal s] by (metis le_less_trans)
  then show ?thesis by (auto simp: majority_def not_le)
qed

text \<open>
  A vote can only add to the support of its own text, so the text that reaches the threshold first is
  that of the vote just cast.
\<close>

lemma new_majority_is_vote:
  assumes "\<not> majority marshal threshold vs" and "threshold \<le> int (card (supporters marshal (vs @ [(u, v)]) s))"
  shows "s = marshal v"
proof (rule ccontr)
  assume "s \<noteq> marshal v"
  then have sub: "supporters marshal (vs @ [(u, v)]) s \<subseteq> supporters marshal vs s"
    by (auto simp: supporters_def latest_snoc split: if_split_asm)
  have "supporters marshal vs s \<subseteq> fst ` set vs"
    by (auto simp: supporters_def latest_def dest!: map_of_SomeD) force
  then have "finite (supporters marshal vs s)" by (rule finite_subset) simp
  then have "card (supporters marshal (vs @ [(u, v)]) s) \<le> card (supporters marshal vs s)"
    using sub by (rule card_mono)
  with assms show False by (auto simp: majority_def not_le dest: spec [of _ s])
qed

lemma AddVote_after:
  assumes b: "box_after marshal threshold vs b" and t: "1 \<le> threshold"
    and r: "AddVote marshal u v b = (r, b')"
  shows "box_after marshal threshold (vs @ [(u, v)]) b'"
    and "r \<longleftrightarrow> first_majority marshal threshold (vs @ [(u, v)])"
    and "r \<Longrightarrow> map_option marshal (vb_Result b') = Some (marshal v)"
    and "\<not> r \<Longrightarrow> vb_Result b' = vb_Result b"
proof -
  let ?vs = "vs @ [(u, v)]"
  let ?items = "cast_vote (vb_Confirmed b) u v (VoteItems b)"
  have th: "ConfirmThreshold b = threshold" using b by (simp add: box_after_def)
  have fm: "first_majority marshal threshold ?vs \<longleftrightarrow> majority marshal threshold ?vs \<and> \<not> vb_Confirmed b"
    using b by (auto simp: first_majority_def box_after_def less_Suc_eq_le)
  have "box_after marshal threshold ?vs b' \<and> r = first_majority marshal threshold ?vs \<and>
        (r \<longrightarrow> map_option marshal (vb_Result b') = Some (marshal v)) \<and> (\<not> r \<longrightarrow> vb_Result b' = vb_Result b)"
  proof (cases "vb_Confirmed b")
    case True
    then have "r = False" "b' = b\<lparr>VoteItems := ?items\<rparr>" using r by (simp_all add: AddVote_def Let_def)
    with True b fm show ?thesis unfolding box_after_def majority_snoc by simp
  next
    case False
    then have lt: "holds_latest ?vs ?items" using b by (simp add: box_after_def cast_vote_latest)
    have old: "\<not> (\<exists>j \<le> length vs. majority marshal threshold (take j vs))" using b False by (simp add: box_after_def)
    then have old': "\<not> majority marshal threshold vs" by (metis order_refl take_all)
    show ?thesis
    proof (cases "int (length ?items) < threshold")
      case True
      then have "r = False" "b' = b\<lparr>VoteItems := ?items\<rparr>" using r th by (simp_all add: AddVote_def Let_def)
      with few_votes_no_majority [OF lt True, of marshal] False lt th fm old show ?thesis
        unfolding box_after_def majority_snoc by simp
    next
      case enough: False
      have e: "\<And>s. tally kv_empty s < threshold" using t by simp
      show ?thesis
      proof (cases "count_votes marshal threshold kv_empty ?items")
        case None
        then have "\<forall>s. support marshal s ?items < threshold"
          using count_votes_None [OF e, of marshal ?items] by simp
        then have no: "\<not> majority marshal threshold ?vs"
          using support_card [OF lt] by (simp add: majority_def not_le)
        have "r = False" "b' = b\<lparr>VoteItems := ?items\<rparr>"
          using r th None False enough by (simp_all add: AddVote_def Let_def)
        with no False lt th fm old show ?thesis unfolding box_after_def majority_snoc by simp
      next
        case (Some w)
        from count_votes_Some(2) [OF Some]
        have c: "threshold \<le> int (card (supporters marshal ?vs (marshal w)))"
          using support_card [OF lt] by simp
        then have yes: "majority marshal threshold ?vs" by (auto simp: majority_def)
        have "marshal w = marshal v" by (rule new_majority_is_vote [OF old' c])
        moreover have "r = True" "b' = b\<lparr>VoteItems := ?items, vb_Confirmed := True, vb_Result := Some w\<rparr>"
          using r th Some False enough by (simp_all add: AddVote_def Let_def)
        ultimately show ?thesis using yes False th fm unfolding box_after_def majority_snoc by simp
      qed
    qed
  qed
  then show "box_after marshal threshold ?vs b'"
    and "r \<longleftrightarrow> first_majority marshal threshold ?vs"
    and "r \<Longrightarrow> map_option marshal (vb_Result b') = Some (marshal v)"
    and "\<not> r \<Longrightarrow> vb_Result b' = vb_Result b" by blast+
qed

text \<open>Votes cast one after the other, with the answer to each.\<close>

fun cast_all :: "('v \<Rightarrow> string) \<Rightarrow> 'v VoteBox \<Rightarrow> (CUAddress \<times> 'v) list \<Rightarrow> bool list \<times> 'v VoteBox" where
  "cast_all marshal b [] = ([], b)"
| "cast_all marshal b ((u, v) # vs) =
     (let (r, b) = AddVote marshal u v b; (rs, b) = cast_all marshal b vs in (r # rs, b))"

lemma first_majority_once:
  "first_majority marshal threshold xs \<Longrightarrow> ys \<noteq> [] \<Longrightarrow> \<not> first_majority marshal threshold (xs @ ys)"
  unfolding first_majority_def by (auto intro!: exI [of _ "length xs"])

lemma cast_all_after:
  assumes "box_after marshal threshold xs b" and "1 \<le> threshold"
    and "cast_all marshal b vs = (rs, b')"
  shows "box_after marshal threshold (xs @ vs) b' \<and> length rs = length vs \<and>
    (\<forall>i < length vs. rs ! i \<longleftrightarrow> first_majority marshal threshold (xs @ take (Suc i) vs)) \<and>
    (\<forall>i < length vs. rs ! i \<longrightarrow> map_option marshal (vb_Result b') = Some (marshal (snd (vs ! i)))) \<and>
    ((\<forall>i < length vs. \<not> rs ! i) \<longrightarrow> vb_Result b' = vb_Result b)"
  using assms
proof (induction vs arbitrary: xs b rs)
  case Nil
  then show ?case by simp
next
  case (Cons x vs)
  obtain u v where x: "x = (u, v)" by (cases x)
  obtain r b1 where r: "AddVote marshal u v b = (r, b1)" by fastforce
  obtain rs' where rs: "cast_all marshal b1 vs = (rs', b')" "rs = r # rs'"
    using Cons.prems(3) r by (auto simp: x split: prod.split_asm)
  note a = AddVote_after [OF Cons.prems(1,2) r]
  note IH = Cons.IH [OF a(1) Cons.prems(2) rs(1)]
  have later: "\<not> rs' ! i" if "r" "i < length vs" for i
  proof -
    have "first_majority marshal threshold (xs @ [(u, v)])" using a(2) that(1) by blast
    from first_majority_once [OF this, of "take (Suc i) vs"] that(2)
    have "\<not> first_majority marshal threshold ((xs @ [(u, v)]) @ take (Suc i) vs)" by (cases vs) simp_all
    then show ?thesis using IH that(2) by blast
  qed
  have "rs ! i \<longleftrightarrow> first_majority marshal threshold (xs @ take (Suc i) (x # vs))"
    and "rs ! i \<Longrightarrow> map_option marshal (vb_Result b') = Some (marshal (snd ((x # vs) ! i)))"
    if "i < length (x # vs)" for i
    using that IH a(2,3) later by (cases i; simp add: rs(2) x)+
  moreover have "(\<forall>i < length (x # vs). \<not> rs ! i) \<longrightarrow> vb_Result b' = vb_Result b"
    using IH a(4) by (force simp: rs(2) x)
  ultimately show ?case using IH rs(2) x by simp
qed

text \<open>
  C20. A vote box answers true at a vote exactly when that vote gives some result, for the first time,
  as many supporters as the threshold, counting for every voter only the latest vote; so it answers
  true at most once.  The result the box then keeps is the vote just cast, and the box is confirmed
  from there on.
\<close>

theorem box_first_majority:
  assumes "1 \<le> threshold" and "cast_all marshal (NewVoteBox threshold) vs = (answers, b)"
  shows "length answers = length vs \<and>
    (\<forall>i < length vs. answers ! i \<longleftrightarrow> first_majority marshal threshold (take (Suc i) vs)) \<and>
    (\<forall>i < length vs. answers ! i \<longrightarrow> map_option marshal (vb_Result b) = Some (marshal (snd (vs ! i)))) \<and>
    (vb_Confirmed b \<longleftrightarrow> (\<exists>j \<le> length vs. majority marshal threshold (take j vs)))"
  using cast_all_after [OF box_after_new [OF assms(1)] assms] by (simp add: box_after_def)

definition bool_text :: "bool \<Rightarrow> string" where
  "bool_text b = (if b then ''true'' else ''false'')"

theorem box_first_majority_witness:
  "fst (cast_all bool_text (NewVoteBox 2) [(''a'', True), (''b'', False), (''b'', True), (''c'', True)]) =
     [False, False, True, False] \<and>
   first_majority bool_text 2 [(''a'', True), (''b'', False), (''b'', True)]"
proof -
  let ?vs = "[(''a'', True), (''b'', False), (''b'', True), (''c'', True)]"
  obtain rs b where c: "cast_all bool_text (NewVoteBox 2) ?vs = (rs, b)" by fastforce
  have "fst (cast_all bool_text (NewVoteBox 2) ?vs) = [False, False, True, False]"
    by (simp add: AddVote_def NewVoteBox_def bool_text_def Let_def)
  then have rs: "rs = [False, False, True, False]" using c by simp
  have "\<forall>i < length ?vs. rs ! i \<longleftrightarrow> first_majority bool_text 2 (take (Suc i) ?vs)"
    using box_first_majority [OF _ c] by simp
  from this [rule_format, of 2] rs c show ?thesis by simp
qed

text \<open>The vote that confirms a box: its valid votes come from as many different voters as the threshold.\<close>

lemma AddVote_confirms:
  assumes b: "box_after marshal threshold vs b" and t: "1 \<le> threshold"
    and r: "AddVote marshal u v b = (True, b')"
  shows "\<not> vb_Confirmed b" "vb_Confirmed b'" "distinct (map vi_Voter (ValidVotes marshal b'))"
    "threshold \<le> int (length (ValidVotes marshal b'))"
    "\<forall>i \<in> set (ValidVotes marshal b'). marshal (vi_Vote i) = marshal v"
proof -
  show nc: "\<not> vb_Confirmed b" and c: "vb_Confirmed b'"
    using r by (auto simp: AddVote_def Let_def split: if_split_asm option.split_asm)
  have res: "map_option marshal (vb_Result b') = Some (marshal v)" using AddVote_after(3) [OF b t r] by simp
  obtain w where w: "vb_Result b' = Some w" "marshal w = marshal v"
    "count_votes marshal threshold kv_empty (VoteItems b') = Some w"
    "VoteItems b' = cast_vote False u v (VoteItems b)"
    using r res b by (auto simp: AddVote_def Let_def box_after_def split: if_split_asm option.split_asm)
  have "holds_latest (vs @ [(u, v)]) (VoteItems b')"
    unfolding w(4) by (rule cast_vote_latest) (use b nc in \<open>simp add: box_after_def\<close>)
  then show "distinct (map vi_Voter (ValidVotes marshal b'))"
    by (simp add: ValidVotes_def holds_latest_def distinct_map_filter)
  show "threshold \<le> int (length (ValidVotes marshal b'))"
    using count_votes_Some(2) [OF w(3)] c w(1) by (simp add: ValidVotes_def support_def)
  show "\<forall>i \<in> set (ValidVotes marshal b'). marshal (vi_Vote i) = marshal v"
    using c w(1,2) by (simp add: ValidVotes_def)
qed

section \<open>Counters\<close>

definition bit_count :: "'v ev_state \<Rightarrow> string \<Rightarrow> CUAddress \<Rightarrow> int" where
  "bit_count st name addr = kv_sum (\<lambda>(n, a, _) b. of_bool (n = name \<and> a = addr \<and> b)) (ev_bits st)"

definition counted :: "'v ev_state \<Rightarrow> bool" where
  "counted st = (\<forall>name addr. MisbehaviourCounter (GetValidatorBehaviour st name addr) = bit_count st name addr)"

lemma kv_get_fold_delete:
  "kv_get (fold kv_delete ks s) k = (if k \<in> set ks then None else kv_get s k)"
  by (induction ks arbitrary: s) auto

lemma kv_sum_zero: "(\<And>k v. kv_get s k = Some v \<Longrightarrow> f k v = 0) \<Longrightarrow> kv_sum f s = 0"
proof -
  assume "\<And>k v. kv_get s k = Some v \<Longrightarrow> f k v = 0"
  then have "map (\<lambda>(k, v). f k v) (kv_entries s) = map (\<lambda>_. 0) (kv_entries s)"
    by (auto simp: kv_entries_iff)
  then show ?thesis unfolding kv_sum_def by (simp only: sum_list_0)
qed

lemma kv_sum_fold_delete:
  "(\<And>k v. k \<in> set ks \<Longrightarrow> f k v = 0) \<Longrightarrow> kv_sum f (fold kv_delete ks s) = kv_sum f s"
  by (induction ks arbitrary: s) (auto simp: weight_def split: option.split)

lemma bit_count_clear:
  "bit_count (clearValidatorBehaviourBitArray name addr st) n a =
     (if n = name \<and> a = addr then 0 else bit_count st n a)"
proof (cases "n = name \<and> a = addr")
  case True
  have "kv_get (fold kv_delete (filter (\<lambda>(n, a, _). n = name \<and> a = addr) (map fst (kv_entries (ev_bits st))))
      (ev_bits st)) (name, addr, i) = None" for i
    by (auto simp: kv_get_fold_delete image_iff simp flip: kv_entries_iff)
      (metis kv_entries_iff not_None_eq prod.collapse fst_conv)
  then show ?thesis using True
    by (auto simp: bit_count_def clearValidatorBehaviourBitArray_def intro!: kv_sum_zero)
next
  case False
  then show ?thesis
    by (auto simp: bit_count_def clearValidatorBehaviourBitArray_def intro!: kv_sum_fold_delete)
qed

lemma bit_count_set:
  "bit_count (SetValidatorBehaviourBitArray name addr i b st) n a =
     bit_count st n a + (if n = name \<and> a = addr
       then of_bool b - of_bool (GetValidatorBehaviourBitArray st name addr i) else 0)"
  by (auto simp: bit_count_def SetValidatorBehaviourBitArray_def GetValidatorBehaviourBitArray_def weight_def
      split: option.split)

lemma GetValidatorBehaviour_set:
  "GetValidatorBehaviour (SetValidatorBehaviour name addr vb st) n a =
     (if n = name \<and> a = addr then vb else GetValidatorBehaviour st n a)"
  by (simp add: GetValidatorBehaviour_def SetValidatorBehaviour_def)

lemma bits_behaviours_apart [simp]:
  "bit_count (SetValidatorBehaviour name addr vb st) n a = bit_count st n a"
  "GetValidatorBehaviour (SetValidatorBehaviourBitArray name addr i b st) n a = GetValidatorBehaviour st n a"
  "GetValidatorBehaviour (clearValidatorBehaviourBitArray name addr st) n a = GetValidatorBehaviour st n a"
  "GetValidatorBehaviour (st\<lparr>ev_slashed := l\<rparr>) n a = GetValidatorBehaviour st n a"
  "bit_count (st\<lparr>ev_slashed := l\<rparr>) n a = bit_count st n a"
  by (simp_all add: bit_count_def GetValidatorBehaviour_def SetValidatorBehaviour_def
      SetValidatorBehaviourBitArray_def clearValidatorBehaviourBitArray_def)

lemma behaviour_other_parts [simp]:
  "ev_boxes (SetValidatorBehaviour name addr vb st) = ev_boxes st"
  "ev_boxes (SetValidatorBehaviourBitArray name addr i b st) = ev_boxes st"
  "ev_boxes (clearValidatorBehaviourBitArray name addr st) = ev_boxes st"
  "ev_confirmed (SetValidatorBehaviour name addr vb st) = ev_confirmed st"
  "ev_confirmed (SetValidatorBehaviourBitArray name addr i b st) = ev_confirmed st"
  "ev_confirmed (clearValidatorBehaviourBitArray name addr st) = ev_confirmed st"
  by (simp_all add: SetValidatorBehaviour_def SetValidatorBehaviourBitArray_def clearValidatorBehaviourBitArray_def)

lemma HandleBehaviour_keeps:
  assumes "HandleBehaviour ctx name addr h normal st = Some st'"
  shows "ev_boxes st' = ev_boxes st" "ev_confirmed st' = ev_confirmed st"
  using assms by (auto simp: HandleBehaviour_def bind_Some_iff Let_def split: if_split_asm)

lemma HandleBehaviour_counted:
  assumes h: "HandleBehaviour ctx name addr h normal st = Some st'" and c: "counted st"
  shows "counted st'"
proof -
  have c': "MisbehaviourCounter (GetValidatorBehaviour st n a) = bit_count st n a" for n a
    using c by (simp add: counted_def)
  show ?thesis
    unfolding counted_def using h
    by (auto simp: HandleBehaviour_def bind_Some_iff Let_def c' GetValidatorBehaviour_set bit_count_set
        bit_count_clear split: if_split_asm)
qed

section \<open>Runs of the module\<close>

text \<open>Votes from anywhere, behaviour reported by other modules, and ends of blocks.\<close>

inductive ev_reach :: "('v \<Rightarrow> string) \<Rightarrow> 'v ev_state \<Rightarrow> bool" for marshal where
  start: "ev_reach marshal empty_evidence"
| vote: "ev_reach marshal st \<Longrightarrow> ev_reach marshal (snd (ev_Vote marshal ctx voteID voter vote height st))"
| behaviour: "ev_reach marshal st \<Longrightarrow> HandleBehaviour ctx name addr height normal st = Some st' \<Longrightarrow>
    ev_reach marshal st'"
| end_block: "ev_reach marshal st \<Longrightarrow> RecordMisbehaviourVoter marshal ctx st = Some st' \<Longrightarrow>
    ev_reach marshal st'"

text \<open>Every vote that is marked as confirmed has its box, and every box is one votes lead to.\<close>

definition box_ok :: "('v \<Rightarrow> string) \<Rightarrow> 'v VoteBox \<Rightarrow> bool" where
  "box_ok marshal b = (1 \<le> ConfirmThreshold b \<and> (\<exists>vs. box_after marshal (ConfirmThreshold b) vs b))"

definition boxed :: "('v \<Rightarrow> string) \<Rightarrow> 'v ev_state \<Rightarrow> bool" where
  "boxed marshal st =
     ((\<forall>height voteID. kv_get (ev_confirmed st) (height, voteID) \<noteq> None \<longrightarrow> kv_get (ev_boxes st) voteID \<noteq> None) \<and>
      (\<forall>voteID b. kv_get (ev_boxes st) voteID = Some b \<longrightarrow> box_ok marshal b))"

lemma Majority23_ge: "0 \<le> n \<Longrightarrow> 1 \<le> Majority23 n"
  by (simp add: Majority23_def)

lemma box_ok_new: "1 \<le> t \<Longrightarrow> box_ok marshal (NewVoteBox t)"
  unfolding box_ok_def using box_after_new by (auto simp: NewVoteBox_def)

lemma AddVote_box_ok:
  assumes "box_ok marshal b" and r: "AddVote marshal u v b = (r, b')"
  shows "box_ok marshal b'"
proof -
  obtain vs where vs: "1 \<le> ConfirmThreshold b" "box_after marshal (ConfirmThreshold b) vs b"
    using assms(1) by (auto simp: box_ok_def)
  have after: "box_after marshal (ConfirmThreshold b) (vs @ [(u, v)]) b'"
    by (rule AddVote_after(1) [OF vs(2,1) r])
  then have "ConfirmThreshold b' = ConfirmThreshold b" by (simp add: box_after_def)
  with vs(1) after show ?thesis by (auto simp: box_ok_def)
qed

definition vote_box :: "EvContext \<Rightarrow> string \<Rightarrow> 'v ev_state \<Rightarrow> 'v VoteBox" where
  "vote_box ctx voteID st = (case kv_get (ev_boxes st) voteID of
     None \<Rightarrow> NewVoteBox (Majority23 (int (length (ec_KeyNodeSet ctx)))) | Some b \<Rightarrow> b)"

lemma ev_Vote_eq:
  assumes "AddVote marshal voter vote (vote_box ctx voteID st) = (first, b)"
  shows "ev_Vote marshal ctx voteID voter vote height st =
    ((first, vb_Confirmed b, ValidVotes marshal b),
     st\<lparr>ev_confirmed := (if first then kv_set (height, voteID) () (ev_confirmed st) else ev_confirmed st),
        ev_boxes := kv_set voteID b (ev_boxes st)\<rparr>)"
  using assms by (auto simp: ev_Vote_def VoteWithCustomBox_def vote_box_def Let_def)

lemma vote_box_ok: "boxed marshal st \<Longrightarrow> box_ok marshal (vote_box ctx voteID st)"
  using box_ok_new [OF Majority23_ge, of "int (length (ec_KeyNodeSet ctx))" marshal]
  by (auto simp: vote_box_def boxed_def split: option.split)

lemma ev_Vote_boxed:
  assumes "boxed marshal st"
  shows "boxed marshal (snd (ev_Vote marshal ctx voteID voter vote height st))"
proof -
  obtain first b where a: "AddVote marshal voter vote (vote_box ctx voteID st) = (first, b)" by fastforce
  have "box_ok marshal b" by (rule AddVote_box_ok [OF vote_box_ok [OF assms] a])
  with assms show ?thesis by (auto simp: ev_Vote_eq [OF a] boxed_def)
qed

lemma ev_Vote_counted:
  "counted (snd (ev_Vote marshal ctx voteID voter vote height st)) \<longleftrightarrow> counted st"
proof -
  obtain first b where a: "AddVote marshal voter vote (vote_box ctx voteID st) = (first, b)" by fastforce
  show ?thesis by (simp add: ev_Vote_eq [OF a] counted_def bit_count_def GetValidatorBehaviour_def)
qed

lemma HandleBehaviour_boxed:
  "HandleBehaviour ctx name addr h normal st = Some st' \<Longrightarrow> boxed marshal st \<Longrightarrow> boxed marshal st'"
  unfolding boxed_def by (simp add: HandleBehaviour_keeps)

lemma handle_nodes_keeps:
  assumes "handle_nodes ctx h votes nodes st = Some st'"
  shows "ev_boxes st' = ev_boxes st" "ev_confirmed st' = ev_confirmed st" "counted st \<Longrightarrow> counted st'"
proof -
  have "ev_boxes st' = ev_boxes st \<and> ev_confirmed st' = ev_confirmed st \<and> (counted st \<longrightarrow> counted st')"
    using assms
  proof (induction nodes arbitrary: st)
    case (Cons n nodes)
    then obtain st1 where h: "HandleBehaviour ctx VoteBehaviourKey n h (\<exists>i \<in> set votes. vi_Voter i = n) st = Some st1"
      and rest: "handle_nodes ctx h votes nodes st1 = Some st'" by (auto simp: bind_Some_iff Let_def)
    from Cons.IH [OF rest] HandleBehaviour_keeps [OF h] HandleBehaviour_counted [OF h] show ?case by simp
  qed simp
  then show "ev_boxes st' = ev_boxes st" "ev_confirmed st' = ev_confirmed st" "counted st \<Longrightarrow> counted st'"
    by blast+
qed

lemma record_votes_keeps:
  assumes "record_votes marshal ctx keys st = Some st'"
  shows "ev_boxes st' = ev_boxes st" "ev_confirmed st' = ev_confirmed st" "counted st \<Longrightarrow> counted st'"
  using assms
  by (induction marshal ctx keys st rule: record_votes.induct)
    (auto simp: bind_Some_iff handle_nodes_keeps)

lemma Record_keeps:
  assumes "RecordMisbehaviourVoter marshal ctx st = Some st'"
  shows "boxed marshal st \<Longrightarrow> boxed marshal st'" "counted st \<Longrightarrow> counted st'"
proof -
  assume b: "boxed marshal st"
  show "boxed marshal st'"
    using assms b by (auto simp: RecordMisbehaviourVoter_def bind_Some_iff boxed_def record_votes_keeps
        kv_get_fold_delete Let_def split: if_split_asm)
next
  assume "counted st"
  then show "counted st'"
    using assms by (auto simp: RecordMisbehaviourVoter_def bind_Some_iff Let_def counted_def bit_count_def
        GetValidatorBehaviour_def split: if_split_asm dest!: record_votes_keeps(3))
qed

lemma ev_reach_inv: "ev_reach marshal st \<Longrightarrow> counted st \<and> boxed marshal st"
proof (induction rule: ev_reach.induct)
  case start
  show ?case by (simp add: empty_evidence_def counted_def bit_count_def GetValidatorBehaviour_def boxed_def)
qed (simp_all add: ev_Vote_boxed ev_Vote_counted HandleBehaviour_counted HandleBehaviour_boxed Record_keeps)

lemma HandleBehaviour_total:
  "ec_Params ctx name = Some p \<Longrightarrow> bp_BehaviourWindow p \<noteq> 0 \<Longrightarrow>
   \<exists>st'. HandleBehaviour ctx name addr h normal st = Some st'"
  by (simp add: HandleBehaviour_def Let_def split: prod.split)

lemma handle_nodes_total:
  assumes "ec_Params ctx VoteBehaviourKey = Some p" and "bp_BehaviourWindow p \<noteq> 0"
  shows "\<exists>st'. handle_nodes ctx h votes nodes st = Some st'"
proof (induction nodes arbitrary: st)
  case (Cons n nodes)
  obtain st1 where "HandleBehaviour ctx VoteBehaviourKey n h (\<exists>i \<in> set votes. vi_Voter i = n) st = Some st1"
    using HandleBehaviour_total [OF assms] by blast
  with Cons.IH [of st1] show ?case by (simp add: Let_def)
qed simp

lemma record_votes_total:
  assumes "ec_Params ctx VoteBehaviourKey = Some p" and "bp_BehaviourWindow p \<noteq> 0"
    and "\<forall>(h, voteID) \<in> set keys. kv_get (ev_boxes st) voteID \<noteq> None"
  shows "\<exists>st'. record_votes marshal ctx keys st = Some st'"
  using assms(3)
proof (induction keys arbitrary: st)
  case (Cons k keys)
  obtain h voteID where k: "k = (h, voteID)" by (cases k)
  from Cons.prems obtain b where b: "kv_get (ev_boxes st) voteID = Some b" by (auto simp: k)
  obtain st1 where s1: "handle_nodes ctx h (ValidVotes marshal b) (ec_EpochByHeight ctx h) st = Some st1"
    using handle_nodes_total [OF assms(1,2)] by blast
  have "\<exists>st'. record_votes marshal ctx keys st1 = Some st'"
    by (rule Cons.IH) (use Cons.prems handle_nodes_keeps(1) [OF s1] in simp)
  with b s1 show ?case by (simp add: k)
qed simp


definition vote_ctx :: "uint64 \<Rightarrow> EvContext" where
  "vote_ctx h = \<lparr>ec_BlockHeight = h, ec_KeyNodeSet = [''a'', ''b''], ec_EpochByHeight = (\<lambda>_. [''a'', ''b'']),
     ec_Params = (\<lambda>_. Some \<lparr>bp_BehaviourWindow = 4, bp_MaxMisbehaviourCount = 2, bp_BehaviourSlashFraction = 1\<rparr>)\<rparr>"


end
