(* ===== verification/DepositFacts.thy ===== *)
theory DepositFacts
  imports Deposit EvidenceFacts
begin

text \<open>
  What deposits promise over any run: an item is recorded once, for one order, with a majority of votes
  behind it, and the ledger follows the items and the fees.  Two runs show where the code goes wrong: a
  deposit to an address of the previous epoch makes a unit forget its current addresses, and a deposit
  below the fee of its collection can never be confirmed.
\<close>

section \<open>Votes\<close>

text \<open>The boxes of the state, each with the votes of a majority once it is confirmed.\<close>

definition box_fine :: "TxVote VoteBox \<Rightarrow> bool" where
  "box_fine b = (box_ok TxVote_JSON b \<and> distinct (map vi_Voter (VoteItems b)) \<and>
     (vb_Confirmed b \<longrightarrow> vb_Result b \<noteq> None \<and> ConfirmThreshold b \<le> int (length (ValidVotes TxVote_JSON b))))"

definition votes_ok :: "TxVote ev_state \<Rightarrow> bool" where
  "votes_ok ev = (\<forall>voteID b. kv_get (ev_boxes ev) voteID = Some b \<longrightarrow> box_fine b)"

text \<open>The decision of a vote: none, valid or invalid.\<close>

definition verdict :: "TxVote ev_state \<Rightarrow> string \<Rightarrow> bool option" where
  "verdict ev voteID = (case kv_get (ev_boxes ev) voteID of
     None \<Rightarrow> None
   | Some b \<Rightarrow> if vb_Confirmed b then map_option tv_Valid (vb_Result b) else None)"

lemma cast_vote_confirmed:
  "\<exists>new. cast_vote True u v items = items @ new \<and> (\<forall>i \<in> set new. vi_Voter i = u \<and> u \<notin> vi_Voter ` set items)"
proof (induction items)
  case (Cons i items)
  then obtain new where n: "cast_vote True u v items = items @ new"
    "\<forall>i \<in> set new. vi_Voter i = u \<and> u \<notin> vi_Voter ` set items" by blast
  show ?case
  proof (cases "vi_Voter i = u")
    case True
    then show ?thesis by (intro exI [of _ "[]"]) simp
  next
    case False
    with n show ?thesis by (intro exI [of _ new]) auto
  qed
qed simp

lemma AddVote_parts:
  assumes "AddVote marshal u v b = (r, b')"
  shows "ConfirmThreshold b' = ConfirmThreshold b"
    and "VoteItems b' = cast_vote (vb_Confirmed b) u v (VoteItems b)"
    and "vb_Confirmed b' \<longleftrightarrow> vb_Confirmed b \<or> r"
    and "\<not> r \<Longrightarrow> vb_Result b' = vb_Result b"
  using assms by (auto simp: AddVote_def Let_def split: if_split_asm option.split_asm)

text \<open>The text of a vote tells whether it says valid: it ends in one of two words.\<close>

lemma TxVote_JSON_valid: "TxVote_JSON w = TxVote_JSON (NewTxVote 0 valid) \<Longrightarrow> tv_Valid w = valid"
proof -
  have last: "hd (tl (tl (rev (TxVote_JSON x)))) = (if tv_Valid x then CHR ''u'' else CHR ''s'')" for x
    by (simp add: TxVote_JSON_def)
  assume "TxVote_JSON w = TxVote_JSON (NewTxVote 0 valid)"
  with last [of w] last [of "NewTxVote 0 valid"] show "tv_Valid w = valid"
    by (simp add: NewTxVote_def split: if_split_asm)
qed

lemma AddVote_fine:
  assumes f: "box_fine b" and r: "AddVote TxVote_JSON u v b = (r, b')"
  shows "box_fine b'"
proof -
  have ok: "box_ok TxVote_JSON b" using f by (simp add: box_fine_def)
  obtain vs where t: "1 \<le> ConfirmThreshold b" and vs: "box_after TxVote_JSON (ConfirmThreshold b) vs b"
    using ok by (auto simp: box_ok_def)
  note p = AddVote_parts [OF r]
  have "box_ok TxVote_JSON b'" by (rule AddVote_box_ok [OF ok r])
  moreover have "distinct (map vi_Voter (VoteItems b'))"
    unfolding p(2) by (rule cast_vote_distinct) (use f in \<open>simp add: box_fine_def\<close>)
  moreover have "vb_Result b' \<noteq> None \<and> ConfirmThreshold b' \<le> int (length (ValidVotes TxVote_JSON b'))"
    if "vb_Confirmed b'"
  proof (cases r)
    case True
    then have "AddVote TxVote_JSON u v b = (True, b')" using r by simp
    from AddVote_confirms(4) [OF vs t this] AddVote_after(3) [OF vs t r True] p(1) show ?thesis by auto
  next
    case False
    then have c: "vb_Confirmed b" using that p(3) by simp
    then obtain new where "VoteItems b' = VoteItems b @ new"
      using cast_vote_confirmed [of u v "VoteItems b"] p(2) by auto
    then have "length (ValidVotes TxVote_JSON b) \<le> length (ValidVotes TxVote_JSON b')"
      using p(3,4) False c by (simp add: ValidVotes_def)
    with f c False p(1,4) show ?thesis by (auto simp: box_fine_def)
  qed
  ultimately show ?thesis by (simp add: box_fine_def)
qed

lemma box_fine_new: "1 \<le> t \<Longrightarrow> box_fine (NewVoteBox t)"
  by (simp add: box_fine_def box_ok_new) (simp add: NewVoteBox_def)

lemma vote_box_fine: "votes_ok ev \<Longrightarrow> box_fine (vote_box ctx voteID ev)"
  using box_fine_new [OF Majority23_ge, of "int (length (ec_KeyNodeSet ctx))"]
  by (auto simp: vote_box_def votes_ok_def split: option.split)

text \<open>A vote changes the decision of its own box only, from none to what was voted, and says so.\<close>

lemma ev_Vote_verdict:
  assumes ok: "votes_ok ev"
    and v: "ev_Vote TxVote_JSON ctx voteID voter (NewTxVote 0 valid) height ev = ((first, rest), ev')"
  shows "votes_ok ev'"
    and "kv_get (ev_boxes ev') i \<noteq> None \<longleftrightarrow> i = voteID \<or> kv_get (ev_boxes ev) i \<noteq> None"
    and "\<not> first \<Longrightarrow> verdict ev' i = verdict ev i"
    and "first \<Longrightarrow> verdict ev voteID = None"
    and "first \<Longrightarrow> verdict ev' i = (if i = voteID then Some valid else verdict ev i)"
proof -
  let ?b = "vote_box ctx voteID ev"
  obtain r b where a: "AddVote TxVote_JSON voter (NewTxVote 0 valid) ?b = (r, b)" by fastforce
  have e: "r = first" "ev_boxes ev' = kv_set voteID b (ev_boxes ev)"
    using v by (auto simp: ev_Vote_eq [OF a])
  have fine: "box_fine ?b" using ok by (rule vote_box_fine)
  have fine': "box_fine b" by (rule AddVote_fine [OF fine a])
  show "votes_ok ev'" using ok fine' by (auto simp: votes_ok_def e(2))
  show "kv_get (ev_boxes ev') i \<noteq> None \<longleftrightarrow> i = voteID \<or> kv_get (ev_boxes ev) i \<noteq> None" by (simp add: e(2))
  have old: "verdict ev voteID = (if vb_Confirmed ?b then map_option tv_Valid (vb_Result ?b) else None)"
    by (simp add: verdict_def vote_box_def NewVoteBox_def split: option.split)
  have new: "verdict ev' i = (if i = voteID then if vb_Confirmed b then map_option tv_Valid (vb_Result b) else None
      else verdict ev i)" for i
    by (simp add: verdict_def e(2))
  note p = AddVote_parts [OF a]
  show "\<not> first \<Longrightarrow> verdict ev' i = verdict ev i" using p(3,4) old new e(1) by auto
  obtain vs where t: "1 \<le> ConfirmThreshold ?b" and vs: "box_after TxVote_JSON (ConfirmThreshold ?b) vs ?b"
    using fine by (auto simp: box_fine_def box_ok_def)
  { assume first
    then have a': "AddVote TxVote_JSON voter (NewTxVote 0 valid) ?b = (True, b)" using a e(1) by simp
    show "verdict ev voteID = None" using AddVote_confirms(1) [OF vs t a'] old by simp }
  { assume first
    then have a': "AddVote TxVote_JSON voter (NewTxVote 0 valid) ?b = (True, b)" using a e(1) by simp
    obtain w where w: "vb_Result b = Some w" "TxVote_JSON w = TxVote_JSON (NewTxVote 0 valid)"
      using AddVote_after(3) [OF vs t a'] by auto
    have "tv_Valid w = valid" using w(2) by (rule TxVote_JSON_valid)
    then show "verdict ev' i = (if i = voteID then Some valid else verdict ev i)"
      using AddVote_confirms(2) [OF vs t a'] w(1) new by simp }
qed

section \<open>The invariant\<close>

abbreviation order_key :: "OrderCollect \<Rightarrow> deposit_key" where
  "order_key ord \<equiv> (oc_CollectFromCU ord, ob_Symbol ord, oc_Txhash ord, oc_Index ord)"

definition order_ok :: "(CUAddress \<Rightarrow> bool) \<Rightarrow> string \<Rightarrow> OrderCollect \<Rightarrow> bool" where
  "order_ok decodes i ord =
     (ob_ID ord = i \<and> ob_OrderType ord = OrderTypeCollect \<and> IsValidAddr decodes (ob_CUAddress ord) \<and>
      oc_CollectFromCU ord = ob_CUAddress ord \<and> oc_Txhash ord \<noteq> '''')"

text \<open>The sums: items of a unit, items waiting for collection, and fees by the chain they are paid on.\<close>

definition held :: "dep_state \<Rightarrow> CUAddress \<Rightarrow> Symbol \<Rightarrow> int" where
  "held st a s = kv_sum (\<lambda>(a', s', _) it. if a' = a \<and> s' = s then di_Amount it else 0) (dp_deposits st)"

definition waiting :: "dep_state \<Rightarrow> Symbol \<Rightarrow> int" where
  "waiting st s = kv_sum (\<lambda>(_, s', _) it.
     if s' = s \<and> di_Status it = DepositItemStatusWaitCollect then di_Amount it else 0) (dp_deposits st)"

fun order_fee :: "(Symbol \<Rightarrow> Symbol) \<Rightarrow> Symbol \<Rightarrow> string \<Rightarrow> CrossOrder \<Rightarrow> int" where
  "order_fee chain_of s i (CollectOrder ord) = (if chain_of (ob_Symbol ord) = s then oc_CostFee ord else 0)"
| "order_fee chain_of s i (OtherOrder ord) = 0"

definition fees :: "(Symbol \<Rightarrow> Symbol) \<Rightarrow> dep_state \<Rightarrow> Symbol \<Rightarrow> int" where
  "fees chain_of st s = kv_sum (order_fee chain_of s) (dp_orders st)"

text \<open>What the table of tokens and the test of an address never change.\<close>

definition ctx_agrees :: "(Symbol \<Rightarrow> Symbol) \<Rightarrow> (CUAddress \<Rightarrow> bool) \<Rightarrow> DepContext \<Rightarrow> bool" where
  "ctx_agrees chain_of decodes ctx = (dc_decodes ctx = decodes \<and>
     (\<forall>s t. dc_GetIBCToken ctx s = Some t \<longrightarrow> it_Symbol t = s \<and> it_Chain t = chain_of s))"

definition collect_at :: "dep_state \<Rightarrow> string \<Rightarrow> OrderCollect \<Rightarrow> bool" where
  "collect_at st i ord = (kv_get (dp_orders st) i = Some (CollectOrder ord))"

abbreviation decision :: "dep_state \<Rightarrow> string \<Rightarrow> bool option" where
  "decision st \<equiv> verdict (dp_evidence st)"

text \<open>An order without a decision is open and has no item; one that was called valid has its item.\<close>

definition dep_orders_inv :: "(CUAddress \<Rightarrow> bool) \<Rightarrow> dep_state \<Rightarrow> bool" where
  "dep_orders_inv decodes st =
     ((\<forall>i. kv_get (dp_orders st) i = None \<longrightarrow> kv_get (ev_boxes (dp_evidence st)) i = None) \<and>
      (\<forall>i ord. collect_at st i ord \<longrightarrow> order_ok decodes i ord \<and>
         (decision st i = None \<longrightarrow> kv_get (dp_process st) (OrderTypeCollect, i) = Some () \<and>
            oc_CostFee ord = 0 \<and> kv_get (dp_deposits st) (order_key ord) = None) \<and>
         (decision st i = Some True \<longrightarrow> (\<exists>it. kv_get (dp_deposits st) (order_key ord) = Some it))) \<and>
      (\<forall>i j ord ord'. collect_at st i ord \<longrightarrow> collect_at st j ord' \<longrightarrow> decision st i = None \<longrightarrow>
         decision st j = None \<longrightarrow> oc_Txhash ord = oc_Txhash ord' \<longrightarrow> oc_Index ord = oc_Index ord' \<longrightarrow> i = j))"

definition items_inv :: "dep_state \<Rightarrow> bool" where
  "items_inv st =
     ((\<forall>k it. kv_get (dp_deposits st) k = Some it \<longrightarrow>
         (\<exists>i ord. collect_at st i ord \<and> order_key ord = k \<and> decision st i = Some True \<and> oc_Amount ord = di_Amount it)) \<and>
      (\<forall>i j ord ord'. collect_at st i ord \<longrightarrow> collect_at st j ord' \<longrightarrow> decision st i = Some True \<longrightarrow>
         decision st j = Some True \<longrightarrow> order_key ord = order_key ord' \<longrightarrow> i = j))"

definition assets_inv :: "dep_state \<Rightarrow> bool" where
  "assets_inv st =
     ((\<forall>a. kv_get (dp_assets st) a = None \<longrightarrow> (\<forall>s. held st a s = 0)) \<and>
      (\<forall>a ast. kv_get (dp_assets st) a = Some ast \<longrightarrow> ia_Address ast = a \<and> denoms_sorted (ia_AssetCoins ast) \<and>
         (\<forall>s. amount_of (ia_AssetCoins ast) s = held st a s)))"

definition ledger_inv :: "(Symbol \<Rightarrow> Symbol) \<Rightarrow> (Symbol \<Rightarrow> int) \<Rightarrow> dep_state \<Rightarrow> bool" where
  "ledger_inv chain_of base st =
     (\<forall>s. free_total (dp_bank st) s + fees chain_of st s = base s + waiting st s)"

definition dep_inv :: "(Symbol \<Rightarrow> Symbol) \<Rightarrow> (CUAddress \<Rightarrow> bool) \<Rightarrow> (Symbol \<Rightarrow> int) \<Rightarrow> dep_state \<Rightarrow> bool" where
  "dep_inv chain_of decodes base st =
     (votes_ok (dp_evidence st) \<and> dep_orders_inv decodes st \<and> items_inv st \<and> assets_inv st \<and>
      ledger_inv chain_of base st)"

section \<open>The effect of a confirmation\<close>

lemma dep_bank_Some:
  "dep_bank f st = Some (r, st') \<longleftrightarrow> (\<exists>b. f (dp_bank st) = Some (r, b) \<and> st' = st\<lparr>dp_bank := b\<rparr>)"
  by (auto simp: dep_bank_def)

lemma CollectFee_coin:
  "CollectFee t = Some fee \<Longrightarrow> Denom fee = it_Chain t \<and> Coin_IsValid fee"
  by (auto simp: CollectFee_def go_simps Coin_IsValid_iff split: if_split_asm)

text \<open>
  The terms never come with an error.  They leave everything but the status and the fee of the order, and
  the ledger: what is taken now and what will be credited add up to the amount of the deposit.
\<close>

definition terms_effect ::
  "(Symbol \<Rightarrow> Symbol) \<Rightarrow> OrderCollect \<Rightarrow> bank \<Rightarrow> OrderCollect \<Rightarrow> int \<Rightarrow> DepositItemStatus \<Rightarrow> bank \<Rightarrow> bool" where
  "terms_effect chain_of ord b0 ord' amt status b =
     (\<exists>ns cf. ord' = ord\<lparr>ob_Status := ns, oc_CostFee := cf\<rparr> \<and>
       (\<forall>s. free_total b s + (if s = chain_of (ob_Symbol ord) then cf else 0) +
         (if s = ob_Symbol ord \<and> status = DepositItemStatusWaitCollect then amt - oc_Amount ord else 0) =
         free_total b0 s))"

lemma terms_effect_free:
  assumes "oc_CostFee ord = 0"
  shows "terms_effect chain_of ord b ord (oc_Amount ord) status b"
proof -
  have "ord = ord\<lparr>ob_Status := ob_Status ord, oc_CostFee := 0\<rparr>" using assms by simp
  then show ?thesis unfolding terms_effect_def by (intro exI [of _ "ob_Status ord"] exI [of _ 0] conjI) simp_all
qed

lemma terms_effect_finish:
  assumes "oc_CostFee ord = 0"
  shows "terms_effect chain_of ord b (ord\<lparr>ob_Status := n\<rparr>) (oc_Amount ord) status b"
proof -
  have "ord\<lparr>ob_Status := n\<rparr> = ord\<lparr>ob_Status := n, oc_CostFee := 0\<rparr>" using assms by simp
  then show ?thesis unfolding terms_effect_def by (intro exI [of _ n] exI [of _ 0] conjI) simp_all
qed

lemma terms_effect_main:
  assumes "chain_of (ob_Symbol ord) = ob_Symbol ord"
  shows "terms_effect chain_of ord b (ord\<lparr>oc_CostFee := fee\<rparr>) (oc_Amount ord - fee) DepositItemStatusWaitCollect b"
  unfolding terms_effect_def
  by (intro exI [of _ "ob_Status ord"] exI [of _ fee] conjI) (simp_all add: assms)

lemma terms_effect_sub:
  assumes "SubCoin a fee b0 = Some (Inr x, b)" and "Denom fee = chain_of (ob_Symbol ord)"
  shows "terms_effect chain_of ord b0 (ord\<lparr>oc_CostFee := Amount fee\<rparr>) (oc_Amount ord) status b"
proof -
  have "free_total b s = free_total b0 s + (if s = Denom fee then - Amount fee else 0)" for s
    by (rule sub_coin.op_part [of a fee b0 "fst x" "snd x"]) (simp add: assms(1))
  then show ?thesis unfolding terms_effect_def
    by (intro exI [of _ "ob_Status ord"] exI [of _ "Amount fee"] conjI) (simp_all add: assms(2))
qed

lemma deposit_terms_cases:
  assumes d: "deposit_terms ctx ord ast wait st = Some (r, st')" and t: "dc_GetIBCToken ctx (ob_Symbol ord) = Some t"
  obtains (op) "r = Inr (ord\<lparr>ob_Status := CrossStatusFinish\<rparr>, oc_Amount ord, DepositItemStatusConfirmed, [])" "st' = st"
  | (plain) status where "r = Inr (ord, oc_Amount ord, status, [])" "st' = st"
  | (main) fee where "it_Symbol t = it_Chain t" "CollectFee t = Some fee" "st' = st"
      "r = Inr (ord\<lparr>oc_CostFee := Amount fee\<rparr>, oc_Amount ord - Amount fee, DepositItemStatusWaitCollect, [])"
  | (sub) fee where "CollectFee t = Some fee"
      "Amount fee \<le> GetBalance (dp_bank st) (ia_Address ast) (it_Chain t)"
      "on_ok (dep_bank (SubCoin (ia_Address ast) fee) st) (\<lambda>(_, flow) st.
          Some (Inr (ord\<lparr>oc_CostFee := Amount fee\<rparr>, oc_Amount ord, DepositItemStatusWaitCollect, [flow]), st)) = Some (r, st')"
  using d unfolding deposit_terms_def
  by (simp only: t bind.bind_lunit Let_def split: if_split_asm)
    (auto simp: bind_Some_iff Int_Sub_eq simp del: on_ok_simps split: if_split_asm)

lemma deposit_terms_effect:
  assumes d: "deposit_terms ctx ord ast wait st = Some (r, st')"
    and agree: "ctx_agrees chain_of decodes ctx" and free: "oc_CostFee ord = 0"
  obtains ord' amt status fls b where "r = Inr (ord', amt, status, fls)" "st' = st\<lparr>dp_bank := b\<rparr>"
    "terms_effect chain_of ord (dp_bank st) ord' amt status b"
proof (cases "ia_Type ast = CUTypeOp")
  case True
  show thesis
    by (rule that [OF _ _ terms_effect_finish [OF free]]) (use d True in \<open>auto simp: deposit_terms_def\<close>)
next
  case False
  then obtain t where t: "dc_GetIBCToken ctx (ob_Symbol ord) = Some t"
    using d by (auto simp: deposit_terms_def bind_Some_iff)
  have ch: "it_Symbol t = ob_Symbol ord" "it_Chain t = chain_of (ob_Symbol ord)"
    using agree t by (auto simp: ctx_agrees_def)
  from d t show thesis
  proof (cases rule: deposit_terms_cases)
    case op
    show thesis by (rule that [OF op(1) _ terms_effect_finish [OF free]]) (simp add: op(2))
  next
    case plain
    show thesis by (rule that [OF plain(1) _ terms_effect_free [OF free]]) (simp add: plain(2))
  next
    case (main fee)
    show thesis by (rule that [OF main(4) _ terms_effect_main]) (use main ch in simp_all)
  next
    case (sub fee)
    note fee = CollectFee_coin [OF sub(1)]
    from sub(3) show thesis
    proof (cases rule: on_ok_cases)
      case (err e)
      then obtain b where "SubCoin (ia_Address ast) fee (dp_bank st) = Some (Inl e, b)" by (auto simp: dep_bank_Some)
      from coin_op_Inl(3) [OF this] fee sub(2) show thesis by simp
    next
      case (ok x st1)
      then obtain b where b: "SubCoin (ia_Address ast) fee (dp_bank st) = Some (Inr x, b)" "st1 = st\<lparr>dp_bank := b\<rparr>"
        by (auto simp: dep_bank_Some)
      have r: "r = Inr (ord\<lparr>oc_CostFee := Amount fee\<rparr>, oc_Amount ord, DepositItemStatusWaitCollect, [snd x])" "st' = st1"
        using ok(2) by (simp_all add: split_def)
      show thesis by (rule that [OF r(1) _ terms_effect_sub [OF b(1)]]) (use r(2) b(2) fee ch(2) in simp_all)
    qed
  qed
qed

lemma AddAssetCoins_effect:
  assumes "do { coin \<leftarrow> NewCoin d amt; coins \<leftarrow> NewCoins [coin]; AddAssetCoins coins ast } = Some ast'"
    and "denoms_sorted (ia_AssetCoins ast)"
  obtains cs where "ast' = ast\<lparr>ia_AssetCoins := cs\<rparr>" "denoms_sorted cs"
    "\<And>s. amount_of cs s = amount_of (ia_AssetCoins ast) s + (if s = d then amt else 0)"
proof -
  obtain coins cs where c: "NewCoins [\<lparr>Denom = d, Amount = amt\<rparr>] = Some coins"
    and a: "safeAdd (ia_AssetCoins ast) coins = Some cs" and e: "ast' = ast\<lparr>ia_AssetCoins := cs\<rparr>"
    using assms(1) by (auto simp: go_simps AddAssetCoins_def Coins_Add_def)
  have n: "denoms_sorted coins" "\<And>s. amount_of coins s = (if s = d then amt else 0)"
    using c by (auto simp: NewCoins_single split: if_split_asm)
  from safeAdd_norm [OF a assms(2) n(1)] n(2) show thesis by (intro that [OF e]) simp_all
qed

lemma cross_SetOrder_valid:
  "dc_decodes ctx = decodes \<Longrightarrow> IsValidAddr decodes (ob_CUAddress ord) \<Longrightarrow>
   cross_SetOrder ctx ord st = st\<lparr>dp_orders := kv_set (ob_ID ord) (CollectOrder ord) (dp_orders st),
     dp_process := (if Terminated (ob_Status ord) then kv_delete (ob_OrderType ord, ob_ID ord) (dp_process st)
       else dp_process st)\<rparr>"
  by (simp add: cross_SetOrder_def Let_def)

definition new_item :: "OrderCollect \<Rightarrow> DepositItemStatus \<Rightarrow> DepositItem" where
  "new_item ord status = \<lparr>di_Hash = oc_Txhash ord, di_Index = oc_Index ord, di_Amount = oc_Amount ord,
     di_ExtAddress = oc_CollectFromAddress ord, di_Memo = oc_Memo ord, di_Status = status\<rparr>"

text \<open>The state after an order was recorded with a status of its item, a ledger and asset coins.\<close>

definition recorded ::
  "string \<Rightarrow> OrderCollect \<Rightarrow> DepositItemStatus \<Rightarrow> bank \<Rightarrow> CUIBCAsset \<Rightarrow> dep_state \<Rightarrow> dep_state" where
  "recorded i ord status b ast st = st\<lparr>dp_bank := b, dp_orders := kv_set i (CollectOrder ord) (dp_orders st),
     dp_process := (if Terminated (ob_Status ord) then kv_delete (OrderTypeCollect, i) (dp_process st) else dp_process st),
     dp_deposits := kv_set (order_key ord) (new_item ord status) (dp_deposits st),
     dp_assets := kv_set (ia_Address ast) ast (dp_assets st)\<rparr>"

lemma record_deposit_effect:
  assumes c: "record_deposit ctx ast ord amt status fls st = Some (r, st')"
    and dec: "dc_decodes ctx = decodes" and ok: "order_ok decodes i ord"
    and srt: "denoms_sorted (ia_AssetCoins ast)"
  obtains fls' cs b where "r = Inr fls'"
    "\<And>s. amount_of cs s = amount_of (ia_AssetCoins ast) s + (if s = ob_Symbol ord then oc_Amount ord else 0)"
    "denoms_sorted cs"
    "\<And>s. free_total b s = free_total (dp_bank st) s +
       (if s = ob_Symbol ord \<and> status = DepositItemStatusWaitCollect then amt else 0)"
    "st' = recorded i ord status b (ast\<lparr>ia_AssetCoins := cs\<rparr>) st"
proof -
  note out = that
  let ?st1 = "st\<lparr>dp_orders := kv_set i (CollectOrder ord) (dp_orders st),
       dp_process := (if Terminated (ob_Status ord) then kv_delete (OrderTypeCollect, i) (dp_process st) else dp_process st),
       dp_deposits := kv_set (order_key ord) (new_item ord status) (dp_deposits st)\<rparr>"
  let ?last = "\<lambda>flows st. do { coin \<leftarrow> NewCoin (ob_Symbol ord) (oc_Amount ord); coins \<leftarrow> NewCoins [coin];
      toCUAst \<leftarrow> AddAssetCoins coins ast; Some (Inr flows, SetCUIBCAsset toCUAst st) }"
  have o: "ob_ID ord = i" "ob_OrderType ord = OrderTypeCollect" "IsValidAddr decodes (ob_CUAddress ord)"
    "oc_Txhash ord \<noteq> ''''" using ok by (simp_all add: order_ok_def)
  have c': "on_ok (if status = DepositItemStatusWaitCollect then do {
           coin \<leftarrow> NewCoin (ob_Symbol ord) amt;
           on_ok (dep_bank (AddCoin (ia_Address ast) coin) ?st1) (\<lambda>(_, flow) st. Some (Inr (fls @ [flow]), st)) }
         else Some (Inr fls, ?st1)) ?last = Some (r, st')"
    using c unfolding record_deposit_def cross_SetOrder_valid [OF dec o(3)]
    by (simp add: o NewDepositItem_def SaveDeposit_def Let_def new_item_def cong: if_cong)
  have fin: thesis if l: "?last f (?st1\<lparr>dp_bank := b\<rparr>) = Some (r, st')"
    and b: "\<And>s. free_total b s = free_total (dp_bank st) s +
       (if s = ob_Symbol ord \<and> status = DepositItemStatusWaitCollect then amt else 0)" for f b
  proof -
    obtain ast' where a: "do { coin \<leftarrow> NewCoin (ob_Symbol ord) (oc_Amount ord); coins \<leftarrow> NewCoins [coin];
        AddAssetCoins coins ast } = Some ast'" and r: "r = Inr f" "st' = SetCUIBCAsset ast' (?st1\<lparr>dp_bank := b\<rparr>)"
      using l by (auto simp: bind_Some_iff)
    obtain cs where cs: "ast' = ast\<lparr>ia_AssetCoins := cs\<rparr>" "denoms_sorted cs"
      "\<And>s. amount_of cs s = amount_of (ia_AssetCoins ast) s + (if s = ob_Symbol ord then oc_Amount ord else 0)"
      by (rule AddAssetCoins_effect [OF a srt]) blast
    show thesis by (rule out [OF r(1) cs(3,2) b]) (simp add: r(2) cs(1) SetCUIBCAsset_def recorded_def)
  qed
  show thesis
  proof (cases "status = DepositItemStatusWaitCollect")
    case False
    have "?last fls (?st1\<lparr>dp_bank := dp_bank st\<rparr>) = Some (r, st')" using c' False by simp
    then show thesis by (rule fin) (simp add: False)
  next
    case True
    obtain coin where coin: "coin = \<lparr>Denom = ob_Symbol ord, Amount = amt\<rparr>" "Coin_IsValid coin"
      and k: "on_ok (on_ok (dep_bank (AddCoin (ia_Address ast) coin) ?st1)
        (\<lambda>(_, flow) st. Some (Inr (fls @ [flow]), st))) ?last = Some (r, st')"
      using c' True by (cases "NewCoin (ob_Symbol ord) amt") (auto simp: NewCoin_Some Coin_IsValid_iff)
    from k show thesis
    proof (cases rule: on_ok_cases)
      case (err e)
      then obtain b where "AddCoin (ia_Address ast) coin (dp_bank st) = Some (Inl e, b)"
        by (auto simp: on_ok_def dep_bank_Some split: option.split_asm sum.split_asm prod.split_asm)
      then show thesis using coin_op_Inl(1) coin(2) by blast
    next
      case (ok f st2)
      then obtain x b where b: "AddCoin (ia_Address ast) coin (dp_bank st) = Some (Inr x, b)"
        "st2 = ?st1\<lparr>dp_bank := b\<rparr>" by (auto simp: on_ok_Inr_iff dep_bank_Some)
      have "free_total b s = free_total (dp_bank st) s + (if s = Denom coin then Amount coin else 0)" for s
        by (rule add_coin.op_part [of "ia_Address ast" coin _ "fst x" "snd x"]) (simp add: b(1))
      then show thesis by (intro fin [OF ok(2) [unfolded b(2)]]) (simp add: True coin(1))
    qed
  qed
qed

text \<open>A confirmation as valid: everything it writes.\<close>

definition confirmed_order :: "OrderCollect \<Rightarrow> int \<Rightarrow> int \<Rightarrow> OrderCollect" where
  "confirmed_order ord ns cf = ord\<lparr>oc_DepositStatus := DepositConfirmed, ob_Status := ns, oc_CostFee := cf\<rparr>"

lemma confirmed_order_simps [simp]:
  "order_key (confirmed_order ord ns cf) = order_key ord" "oc_CostFee (confirmed_order ord ns cf) = cf"
  "ob_Symbol (confirmed_order ord ns cf) = ob_Symbol ord" "oc_Amount (confirmed_order ord ns cf) = oc_Amount ord"
  "oc_CollectFromCU (confirmed_order ord ns cf) = oc_CollectFromCU ord" "oc_Txhash (confirmed_order ord ns cf) = oc_Txhash ord"
  "oc_Index (confirmed_order ord ns cf) = oc_Index ord" "ob_Status (confirmed_order ord ns cf) = ns"
  "order_ok decodes i (confirmed_order ord ns cf) = order_ok decodes i ord"
  by (simp_all add: confirmed_order_def order_ok_def)

lemma confirm_valid_effect:
  assumes c: "confirmDepositOrder ctx ord True st = Some (r, st')"
    and agree: "ctx_agrees chain_of decodes ctx" and free: "oc_CostFee ord = 0" and ok: "order_ok decodes i ord"
    and inv: "assets_inv st"
  obtains fls ns cf status ast cs b where "r = Inr fls"
    "kv_get (dp_assets st) (oc_CollectFromCU ord) = Some ast"
    "\<And>s. amount_of cs s = amount_of (ia_AssetCoins ast) s + (if s = ob_Symbol ord then oc_Amount ord else 0)"
    "denoms_sorted cs"
    "\<And>s. free_total b s + (if s = chain_of (ob_Symbol ord) then cf else 0) = free_total (dp_bank st) s +
       (if s = ob_Symbol ord \<and> status = DepositItemStatusWaitCollect then oc_Amount ord else 0)"
    "st' = recorded i (confirmed_order ord ns cf) status b (ast\<lparr>ia_AssetCoins := cs\<rparr>) st"
proof -
  let ?ord = "ord\<lparr>oc_DepositStatus := DepositConfirmed\<rparr>"
  let ?wait = "\<exists>item \<in> set (GetDepositList st (ob_Symbol ord) (oc_CollectFromCU ord)).
    di_Status item = DepositItemStatusWaitCollect"
  obtain ast where ast: "GetCUIBCAsset st (oc_CollectFromCU ord) = Some ast"
    using c by (auto simp: confirmDepositOrder_def Let_def bind_Some_iff)
  then have a: "kv_get (dp_assets st) (oc_CollectFromCU ord) = Some ast"
    by (simp add: GetCUIBCAsset_def split: if_split_asm)
  then have srt: "denoms_sorted (ia_AssetCoins ast)"
    using inv by (auto simp: assets_inv_def)
  have "on_ok (deposit_terms ctx ?ord ast ?wait st) (\<lambda>(ord, collectAmt, depositItemStatus, flows).
      record_deposit ctx ast ord collectAmt depositItemStatus flows) = Some (r, st')"
    using c ast by (simp add: confirmDepositOrder_def Let_def)
  moreover obtain r1 st1 where d: "deposit_terms ctx ?ord ast ?wait st = Some (r1, st1)"
    using calculation by (auto simp: on_ok_def split: option.split_asm)
  moreover obtain ord' amt status fls b where e: "r1 = Inr (ord', amt, status, fls)" "st1 = st\<lparr>dp_bank := b\<rparr>"
    "terms_effect chain_of ?ord (dp_bank st) ord' amt status b"
    by (rule deposit_terms_effect [OF d agree]) (simp_all add: free)
  ultimately have rec: "record_deposit ctx ast ord' amt status fls (st\<lparr>dp_bank := b\<rparr>) = Some (r, st')" by simp
  obtain ns cf where o: "ord' = ?ord\<lparr>ob_Status := ns, oc_CostFee := cf\<rparr>"
    and law0: "\<And>s. free_total b s + (if s = chain_of (ob_Symbol ?ord) then cf else 0) +
       (if s = ob_Symbol ?ord \<and> status = DepositItemStatusWaitCollect then amt - oc_Amount ?ord else 0) =
       free_total (dp_bank st) s"
    using e(3) unfolding terms_effect_def by blast
  have law: "free_total b s + (if s = chain_of (ob_Symbol ord) then cf else 0) +
       (if s = ob_Symbol ord \<and> status = DepositItemStatusWaitCollect then amt - oc_Amount ord else 0) =
       free_total (dp_bank st) s" for s
    using law0 [of s] by (simp cong: if_cong)
  have o: "ord' = confirmed_order ord ns cf" by (simp add: o confirmed_order_def)
  have dec: "dc_decodes ctx = decodes" using agree by (simp add: ctx_agrees_def)
  have okS: "order_ok decodes i (confirmed_order ord ns cf)" using ok by simp
  obtain fls' cs b' where f0: "r = Inr fls'"
    "\<And>s. amount_of cs s = amount_of (ia_AssetCoins ast) s +
       (if s = ob_Symbol (confirmed_order ord ns cf) then oc_Amount (confirmed_order ord ns cf) else 0)"
    "denoms_sorted cs"
    "\<And>s. free_total b' s = free_total (dp_bank (st\<lparr>dp_bank := b\<rparr>)) s +
       (if s = ob_Symbol (confirmed_order ord ns cf) \<and> status = DepositItemStatusWaitCollect then amt else 0)"
    "st' = recorded i (confirmed_order ord ns cf) status b' (ast\<lparr>ia_AssetCoins := cs\<rparr>) (st\<lparr>dp_bank := b\<rparr>)"
    by (rule record_deposit_effect [OF rec [unfolded o] dec okS srt]) (rule that)
  have f: "r = Inr fls'"
    "\<And>s. amount_of cs s = amount_of (ia_AssetCoins ast) s + (if s = ob_Symbol ord then oc_Amount ord else 0)"
    "denoms_sorted cs"
    "\<And>s. free_total b' s = free_total b s + (if s = ob_Symbol ord \<and> status = DepositItemStatusWaitCollect then amt else 0)"
    "st' = recorded i (confirmed_order ord ns cf) status b' (ast\<lparr>ia_AssetCoins := cs\<rparr>) st"
    using f0 by (simp_all add: recorded_def)
  have "free_total b' s + (if s = chain_of (ob_Symbol ord) then cf else 0) = free_total (dp_bank st) s +
       (if s = ob_Symbol ord \<and> status = DepositItemStatusWaitCollect then oc_Amount ord else 0)" for s
    using law [of s] f(4) [of s]
    by (cases "s = ob_Symbol ord \<and> status = DepositItemStatusWaitCollect"; simp only: if_True if_False simp_thms; linarith)
  from that [OF f(1) a f(2,3) this f(5)] show thesis .
qed

section \<open>Deposits keep the invariant\<close>

lemma held_recorded:
  "kv_get (dp_deposits st) (order_key ord) = None \<Longrightarrow>
   held (recorded i ord status b ast st) a s =
     held st a s + (if a = oc_CollectFromCU ord \<and> s = ob_Symbol ord then oc_Amount ord else 0)"
  by (auto simp: held_def recorded_def new_item_def)

lemma waiting_recorded:
  "kv_get (dp_deposits st) (order_key ord) = None \<Longrightarrow>
   waiting (recorded i ord status b ast st) s =
     waiting st s + (if s = ob_Symbol ord \<and> status = DepositItemStatusWaitCollect then oc_Amount ord else 0)"
  by (auto simp: waiting_def recorded_def new_item_def)

lemma fees_recorded:
  "collect_at st i ord \<Longrightarrow> oc_CostFee ord = 0 \<Longrightarrow> ob_Symbol ord' = ob_Symbol ord \<Longrightarrow>
   fees chain_of (recorded i ord' status b ast st) s =
     fees chain_of st s + (if s = chain_of (ob_Symbol ord) then oc_CostFee ord' else 0)"
  by (auto simp: fees_def recorded_def collect_at_def)

lemma collect_at_recorded:
  "collect_at (recorded i ord' status b ast st) j x \<longleftrightarrow> (if j = i then x = ord' else collect_at st j x)"
  by (auto simp: collect_at_def recorded_def)

lemma recorded_other [simp]:
  "dp_evidence (recorded i ord status b ast st) = dp_evidence st"
  "dp_deposits (recorded i ord status b ast st) = kv_set (order_key ord) (new_item ord status) (dp_deposits st)"
  "dp_bank (recorded i ord status b ast st) = b"
  "dp_assets (recorded i ord status b ast st) = kv_set (ia_Address ast) ast (dp_assets st)"
  "kv_get (dp_orders (recorded i ord status b ast st)) j = (if j = i then Some (CollectOrder ord) else kv_get (dp_orders st) j)"
  "j \<noteq> i \<Longrightarrow> kv_get (dp_process (recorded i ord status b ast st)) (t, j) = kv_get (dp_process st) (t, j)"
  by (simp_all add: recorded_def)

lemmas dep_orders_invD = dep_orders_inv_def [THEN iffD1, THEN conjunct1, rule_format]
  dep_orders_inv_def [THEN iffD1, THEN conjunct2, THEN conjunct1, rule_format]
  dep_orders_inv_def [THEN iffD1, THEN conjunct2, THEN conjunct2, rule_format]

lemmas items_invD = items_inv_def [THEN iffD1, THEN conjunct1, rule_format]
  items_inv_def [THEN iffD1, THEN conjunct2, rule_format]

text \<open>The order of a first confirmation: nothing has been written for it yet.\<close>

lemma undecided_order:
  assumes "dep_orders_inv decodes st" and "collect_at st i ord" and "decision st i = None"
  shows "order_ok decodes i ord" "oc_CostFee ord = 0" "kv_get (dp_deposits st) (order_key ord) = None"
    "kv_get (dp_process st) (OrderTypeCollect, i) = Some ()"
  using dep_orders_invD(2) [OF assms(1,2)] assms(3) by blast+

lemma confirm_valid_keeps:
  assumes inv: "dep_inv chain_of decodes base st" and at: "collect_at st i ord" and und: "decision st i = None"
    and ev: "votes_ok ev" and box: "\<And>j. kv_get (ev_boxes ev) j \<noteq> None \<longleftrightarrow> j = i \<or> kv_get (ev_boxes (dp_evidence st)) j \<noteq> None"
    and ver: "\<And>j. verdict ev j = (if j = i then Some True else decision st j)"
    and agree: "ctx_agrees chain_of decodes ctx"
    and c: "confirmDepositOrder ctx ord True (st\<lparr>dp_evidence := ev\<rparr>) = Some (r, st')"
  shows "dep_inv chain_of decodes base st'"
proof -
  let ?st = "st\<lparr>dp_evidence := ev\<rparr>"
  have io: "dep_orders_inv decodes st" and ii: "items_inv st" and ia: "assets_inv st" and il: "ledger_inv chain_of base st"
    using inv by (simp_all add: dep_inv_def)
  note u = undecided_order [OF io at und]
  have ia': "assets_inv ?st" using ia by (simp add: assets_inv_def held_def)
  obtain fls ns cf status ast cs b where e: "r = Inr fls"
    "kv_get (dp_assets ?st) (oc_CollectFromCU ord) = Some ast"
    "\<And>s. amount_of cs s = amount_of (ia_AssetCoins ast) s + (if s = ob_Symbol ord then oc_Amount ord else 0)"
    "denoms_sorted cs"
    "\<And>s. free_total b s + (if s = chain_of (ob_Symbol ord) then cf else 0) = free_total (dp_bank ?st) s +
       (if s = ob_Symbol ord \<and> status = DepositItemStatusWaitCollect then oc_Amount ord else 0)"
    "st' = recorded i (confirmed_order ord ns cf) status b (ast\<lparr>ia_AssetCoins := cs\<rparr>) ?st"
    by (rule confirm_valid_effect [OF c agree u(2,1) ia']) (rule that)
  let ?ord = "confirmed_order ord ns cf"
  have none: "kv_get (dp_deposits ?st) (order_key ?ord) = None" using u(3) by simp
  have at': "collect_at st' j x \<longleftrightarrow> (if j = i then x = ?ord else collect_at st j x)" for j x
    unfolding e(6) collect_at_recorded by (simp add: collect_at_def)
  have dec': "decision st' j = (if j = i then Some True else decision st j)" for j by (simp add: e(6) ver)
  have dep': "kv_get (dp_deposits st') k = (if k = order_key ord then Some (new_item ?ord status)
      else kv_get (dp_deposits st) k)" for k by (simp add: e(6))
  have "dep_orders_inv decodes st'"
    unfolding dep_orders_inv_def
  proof (intro conjI allI impI)
    show "kv_get (ev_boxes (dp_evidence st')) j = None" if "kv_get (dp_orders st') j = None" for j
      using that dep_orders_invD(1) [OF io, of j] box [of j] by (simp add: e(6) split: if_split_asm)
  next
    fix j x assume x: "collect_at st' j x"
    show "order_ok decodes j x"
      using x u(1) dep_orders_invD(2) [OF io, of j x] by (cases "j = i") (simp_all add: at')
    show "kv_get (dp_process st') (OrderTypeCollect, j) = Some ()" "oc_CostFee x = 0"
      "kv_get (dp_deposits st') (order_key x) = None" if n: "decision st' j = None"
    proof -
      have j: "j \<noteq> i" "collect_at st j x" "decision st j = None" using n x by (auto simp: dec' at' split: if_split_asm)
      note v = undecided_order [OF io j(2,3)]
      show "kv_get (dp_process st') (OrderTypeCollect, j) = Some ()" "oc_CostFee x = 0"
        using v(2,4) j(1) by (simp_all add: e(6))
      have "order_key x \<noteq> order_key ord" using dep_orders_invD(3) [OF io j(2) at j(3) und] j(1) by auto
      then show "kv_get (dp_deposits st') (order_key x) = None" using v(3) by (simp add: dep')
    qed
    show "\<exists>it. kv_get (dp_deposits st') (order_key x) = Some it" if "decision st' j = Some True"
      using that x dep_orders_invD(2) [OF io, of j x] by (auto simp: dep' dec' at' split: if_split_asm)
  next
    fix j k x y assume "collect_at st' j x" "collect_at st' k y" "decision st' j = None" "decision st' k = None"
      "oc_Txhash x = oc_Txhash y" "oc_Index x = oc_Index y"
    then show "j = k" using dep_orders_invD(3) [OF io, of j x k y] by (simp add: dec' at' split: if_split_asm)
  qed
  moreover have "items_inv st'"
    unfolding items_inv_def
  proof (intro conjI allI impI)
    fix k it assume k: "kv_get (dp_deposits st') k = Some it"
    show "\<exists>j x. collect_at st' j x \<and> order_key x = k \<and> decision st' j = Some True \<and> oc_Amount x = di_Amount it"
    proof (cases "k = order_key ord")
      case True
      with k have "di_Amount it = oc_Amount ord" by (auto simp: dep' new_item_def)
      with True show ?thesis by (intro exI [of _ i] exI [of _ ?ord]) (simp add: at' dec')
    next
      case False
      then obtain j x where "collect_at st j x" "order_key x = k" "decision st j = Some True" "oc_Amount x = di_Amount it"
        using k items_invD(1) [OF ii, of k it] by (auto simp: dep')
      moreover have "j \<noteq> i" using calculation(3) und by auto
      ultimately show ?thesis by (intro exI [of _ j] exI [of _ x]) (simp add: at' dec')
    qed
  next
    fix j k x y
    assume a: "collect_at st' j x" "collect_at st' k y" "decision st' j = Some True" "decision st' k = Some True"
      "order_key x = order_key y"
    have other: False if "collect_at st m z" "decision st m = Some True" "order_key z = order_key ord" for m z
      using that u(3) dep_orders_invD(2) [OF io that(1)] by auto
    show "j = k"
      using a items_invD(2) [OF ii, of j x k y] other [of j x] other [of k y]
      by (auto simp: at' dec' split: if_split_asm)
  qed
  moreover have "assets_inv st'"
  proof -
    have addr: "ia_Address ast = oc_CollectFromCU ord" "\<And>s. amount_of (ia_AssetCoins ast) s = held st (oc_CollectFromCU ord) s"
      using ia e(2) by (simp_all add: assets_inv_def)
    have h: "held st' a s = held st a s + (if a = oc_CollectFromCU ord \<and> s = ob_Symbol ord then oc_Amount ord else 0)" for a s
      unfolding e(6) held_recorded [OF none] by (simp add: held_def)
    have kv: "kv_get (dp_assets st') a = (if a = oc_CollectFromCU ord then Some (ast\<lparr>ia_AssetCoins := cs\<rparr>)
        else kv_get (dp_assets st) a)" for a by (simp add: e(6) addr(1))
    show ?thesis
      unfolding assets_inv_def
    proof (intro conjI allI impI)
      fix a s assume "kv_get (dp_assets st') a = None"
      with ia show "held st' a s = 0" by (simp add: kv h assets_inv_def split: if_split_asm)
    next
      fix a ast' s assume x: "kv_get (dp_assets st') a = Some ast'"
      consider (this) "a = oc_CollectFromCU ord" "ast' = ast\<lparr>ia_AssetCoins := cs\<rparr>"
        | (other) "a \<noteq> oc_CollectFromCU ord" "kv_get (dp_assets st) a = Some ast'"
        using x by (auto simp: kv split: if_split_asm)
      then show "ia_Address ast' = a" "denoms_sorted (ia_AssetCoins ast')" "amount_of (ia_AssetCoins ast') s = held st' a s"
        using ia e(3,4) addr by (cases; simp add: h assets_inv_def)+
    qed
  qed
  moreover have "ledger_inv chain_of base st'"
    unfolding ledger_inv_def
  proof
    fix s
    have "fees chain_of st' s = fees chain_of st s + (if s = chain_of (ob_Symbol ord) then cf else 0)"
      unfolding e(6) by (subst fees_recorded [of _ _ ord]) (use at u(2) in \<open>simp_all add: collect_at_def fees_def\<close>)
    moreover have "waiting st' s = waiting st s +
        (if s = ob_Symbol ord \<and> status = DepositItemStatusWaitCollect then oc_Amount ord else 0)"
      unfolding e(6) waiting_recorded [OF none] by (simp add: waiting_def)
    moreover have "free_total (dp_bank st') s = free_total b s" "free_total (dp_bank ?st) s = free_total (dp_bank st) s"
      by (simp_all add: e(6))
    moreover have "free_total (dp_bank st) s + fees chain_of st s = base s + waiting st s"
      using il by (simp add: ledger_inv_def)
    ultimately show "free_total (dp_bank st') s + fees chain_of st' s = base s + waiting st' s"
      using e(5) [of s] by linarith
  qed
  moreover have "votes_ok (dp_evidence st')" using ev by (simp add: e(6))
  ultimately show ?thesis by (simp add: dep_inv_def)
qed

text \<open>A confirmation as invalid finishes the order.\<close>

lemma confirm_invalid_effect:
  assumes "confirmDepositOrder ctx ord False st = Some (r, st')" and "dc_decodes ctx = decodes" and "order_ok decodes i ord"
  shows "r = Inr []" and "st' = st\<lparr>dp_orders := kv_set i (CollectOrder (confirmed_order ord CrossStatusFinish (oc_CostFee ord))) (dp_orders st),
    dp_process := kv_delete (OrderTypeCollect, i) (dp_process st)\<rparr>"
proof -
  let ?ord = "confirmed_order ord CrossStatusFinish (oc_CostFee ord)"
  have o: "ord\<lparr>oc_DepositStatus := DepositConfirmed, ob_Status := CrossStatusFinish\<rparr> = ?ord" by (simp add: confirmed_order_def)
  have v: "IsValidAddr decodes (ob_CUAddress ?ord)" "ob_ID ?ord = i" "ob_OrderType ?ord = OrderTypeCollect"
    using assms(3) by (simp_all add: order_ok_def confirmed_order_def)
  show "r = Inr []" and "st' = st\<lparr>dp_orders := kv_set i (CollectOrder ?ord) (dp_orders st),
    dp_process := kv_delete (OrderTypeCollect, i) (dp_process st)\<rparr>"
    using assms(1) by (simp_all add: confirmDepositOrder_def o cross_SetOrder_valid [OF assms(2) v(1)] v(2,3) Terminated_def)
qed

lemma confirm_invalid_keeps:
  assumes inv: "dep_inv chain_of decodes base st" and at: "collect_at st i ord" and und: "decision st i = None"
    and ev: "votes_ok ev" and box: "\<And>j. kv_get (ev_boxes ev) j \<noteq> None \<longleftrightarrow> j = i \<or> kv_get (ev_boxes (dp_evidence st)) j \<noteq> None"
    and ver: "\<And>j. verdict ev j = (if j = i then Some False else decision st j)"
    and dec: "dc_decodes ctx = decodes"
    and c: "confirmDepositOrder ctx ord False (st\<lparr>dp_evidence := ev\<rparr>) = Some (r, st')"
  shows "dep_inv chain_of decodes base st'"
proof -
  let ?st = "st\<lparr>dp_evidence := ev\<rparr>"
  let ?ord = "confirmed_order ord CrossStatusFinish (oc_CostFee ord)"
  have io: "dep_orders_inv decodes st" and ii: "items_inv st" and ia: "assets_inv st" and il: "ledger_inv chain_of base st"
    using inv by (simp_all add: dep_inv_def)
  note u = undecided_order [OF io at und]
  note e = confirm_invalid_effect(2) [OF c dec u(1)]
  have at': "collect_at st' j x \<longleftrightarrow> (if j = i then x = ?ord else collect_at st j x)" for j x
    by (auto simp: e collect_at_def)
  have dec': "decision st' j = (if j = i then Some False else decision st j)" for j by (simp add: e ver)
  have dep': "dp_deposits st' = dp_deposits st" "dp_assets st' = dp_assets st" "dp_bank st' = dp_bank st" by (simp_all add: e)
  have pr: "j \<noteq> i \<Longrightarrow> kv_get (dp_process st') (t, j) = kv_get (dp_process st) (t, j)" for t j by (simp add: e)
  have "dep_orders_inv decodes st'"
    unfolding dep_orders_inv_def
  proof (intro conjI allI impI)
    show "kv_get (ev_boxes (dp_evidence st')) j = None" if "kv_get (dp_orders st') j = None" for j
      using that dep_orders_invD(1) [OF io, of j] box [of j] by (simp add: e split: if_split_asm)
  next
    fix j x assume x: "collect_at st' j x"
    show "order_ok decodes j x"
      using x u(1) dep_orders_invD(2) [OF io, of j x] by (cases "j = i") (simp_all add: at')
    show "kv_get (dp_process st') (OrderTypeCollect, j) = Some ()" "oc_CostFee x = 0"
      "kv_get (dp_deposits st') (order_key x) = None" if "decision st' j = None"
      using that x dep_orders_invD(2) [OF io, of j x] by (auto simp: dec' at' dep' pr split: if_split_asm)
    show "\<exists>it. kv_get (dp_deposits st') (order_key x) = Some it" if "decision st' j = Some True"
      using that x dep_orders_invD(2) [OF io, of j x] by (auto simp: dep' dec' at' split: if_split_asm)
  next
    fix j k x y assume "collect_at st' j x" "collect_at st' k y" "decision st' j = None" "decision st' k = None"
      "oc_Txhash x = oc_Txhash y" "oc_Index x = oc_Index y"
    then show "j = k" using dep_orders_invD(3) [OF io, of j x k y] by (simp add: dec' at' split: if_split_asm)
  qed
  moreover have "items_inv st'"
    unfolding items_inv_def
  proof (intro conjI allI impI)
    fix k it assume "kv_get (dp_deposits st') k = Some it"
    then obtain j x where "collect_at st j x" "order_key x = k" "decision st j = Some True" "oc_Amount x = di_Amount it"
      using items_invD(1) [OF ii, of k it] by (auto simp: dep')
    moreover have "j \<noteq> i" using calculation(3) und by auto
    ultimately show "\<exists>j x. collect_at st' j x \<and> order_key x = k \<and> decision st' j = Some True \<and> oc_Amount x = di_Amount it"
      by (intro exI [of _ j] exI [of _ x]) (simp add: at' dec')
  next
    fix j k x y
    assume "collect_at st' j x" "collect_at st' k y" "decision st' j = Some True" "decision st' k = Some True"
      "order_key x = order_key y"
    then show "j = k" using items_invD(2) [OF ii, of j x k y] by (auto simp: at' dec' split: if_split_asm)
  qed
  moreover have "assets_inv st'" using ia by (simp add: assets_inv_def held_def dep')
  moreover have "ledger_inv chain_of base st'"
    using il at by (simp add: ledger_inv_def waiting_def dep' fees_def) (simp add: e collect_at_def)
  moreover have "votes_ok (dp_evidence st')" using ev by (simp add: e)
  ultimately show ?thesis by (simp add: dep_inv_def)
qed

text \<open>A vote that decides nothing.\<close>

lemma vote_keeps:
  assumes inv: "dep_inv chain_of decodes base st" and at: "collect_at st i ord"
    and ev: "votes_ok ev" and box: "\<And>j. kv_get (ev_boxes ev) j \<noteq> None \<longleftrightarrow> j = i \<or> kv_get (ev_boxes (dp_evidence st)) j \<noteq> None"
    and ver: "\<And>j. verdict ev j = decision st j"
  shows "dep_inv chain_of decodes base (st\<lparr>dp_evidence := ev\<rparr>)"
proof -
  have io: "dep_orders_inv decodes st" and ii: "items_inv st" and ia: "assets_inv st" and il: "ledger_inv chain_of base st"
    using inv by (simp_all add: dep_inv_def)
  have "kv_get (ev_boxes ev) j = None" if "kv_get (dp_orders st) j = None" for j
    using that at dep_orders_invD(1) [OF io that] box [of j] by (auto simp: collect_at_def)
  then have "dep_orders_inv decodes (st\<lparr>dp_evidence := ev\<rparr>)"
    using io by (simp add: dep_orders_inv_def collect_at_def ver)
  moreover have "items_inv (st\<lparr>dp_evidence := ev\<rparr>)" using ii by (simp add: items_inv_def collect_at_def ver)
  moreover have "assets_inv (st\<lparr>dp_evidence := ev\<rparr>)" using ia by (simp add: assets_inv_def held_def)
  moreover have "ledger_inv chain_of base (st\<lparr>dp_evidence := ev\<rparr>)"
    using il by (simp add: ledger_inv_def waiting_def fees_def)
  ultimately show ?thesis using ev by (simp add: dep_inv_def)
qed

lemma process_keeps:
  assumes agree: "ctx_agrees chain_of decodes ctx"
  shows "processDepositOrderIDs ctx voter valid ids st = Some (r, st') \<Longrightarrow>
    dep_inv chain_of decodes base st \<Longrightarrow> dep_inv chain_of decodes base st'"
proof (induction ids arbitrary: st r)
  case (Cons i ids)
  have dec: "dc_decodes ctx = decodes" using agree by (simp add: ctx_agrees_def)
  show ?case
  proof (cases "\<exists>ord. collect_at st i ord \<and> ob_OrderType ord = OrderTypeCollect")
    case False
    then have "processDepositOrderIDs ctx voter valid ids st = Some (r, st')"
      using Cons.prems(1) by (auto simp: collect_at_def split: option.split_asm CrossOrder.split_asm)
    then show ?thesis using Cons.IH Cons.prems(2) by blast
  next
    case True
    then obtain ord where at: "collect_at st i ord" "ob_OrderType ord = OrderTypeCollect" by blast
    obtain first rest ev where v: "ev_Vote TxVote_JSON (dc_ev ctx) i voter (NewTxVote 0 valid)
        (ec_BlockHeight (dc_ev ctx)) (dp_evidence st) = ((first, rest), ev)" by (metis surj_pair)
    have ok: "votes_ok (dp_evidence st)" using Cons.prems(2) by (simp add: dep_inv_def)
    note vv = ev_Vote_verdict [OF ok v]
    show ?thesis
    proof (cases first)
      case False
      then have "processDepositOrderIDs ctx voter valid ids (st\<lparr>dp_evidence := ev\<rparr>) = Some (r, st')"
        using Cons.prems(1) at v by (simp add: collect_at_def Let_def split: prod.split_asm)
      moreover have "dep_inv chain_of decodes base (st\<lparr>dp_evidence := ev\<rparr>)"
        by (rule vote_keeps [OF Cons.prems(2) at(1) vv(1,2) vv(3)]) (use False in simp_all)
      ultimately show ?thesis using Cons.IH by blast
    next
      case True
      then obtain r1 st1 r2 where c: "confirmDepositOrder ctx ord valid (st\<lparr>dp_evidence := ev\<rparr>) = Some (r1, st1)"
        and rest: "processDepositOrderIDs ctx voter valid ids st1 = Some (r2, st')"
        using Cons.prems(1) at v
        by (fastforce simp: collect_at_def Let_def bind_Some_iff split: prod.split_asm)
      have "dep_inv chain_of decodes base st1"
      proof (cases valid)
        case v: True
        show ?thesis
          by (rule confirm_valid_keeps [OF Cons.prems(2) at(1) vv(4) [OF True] vv(1,2) _ agree, of r1 st1])
            (use vv(5) [OF True] c v in simp_all)
      next
        case v: False
        show ?thesis
          by (rule confirm_invalid_keeps [OF Cons.prems(2) at(1) vv(4) [OF True] vv(1,2) _ dec, of r1 st1])
            (use vv(5) [OF True] c v in simp_all)
      qed
      then show ?thesis using Cons.IH [OF rest] by blast
    qed
  qed
qed simp

lemma go_any_False: "go_any p xs = Some False \<Longrightarrow> x \<in> set xs \<Longrightarrow> p x = Some False"
  by (induction xs) (auto simp: bind_Some_iff split: if_split_asm)

lemma process_listed:
  "kv_get (dp_process st) (t, i) = Some () \<Longrightarrow> i \<in> set (GetProcessOrderListByType st t)"
proof -
  assume "kv_get (dp_process st) (t, i) = Some ()"
  then have "(t, i) \<in> fst ` set (kv_entries (dp_process st))" by (simp add: kv_keys_iff)
  then have "(t, i) \<in> set (filter (\<lambda>(t', _). t' = t) (map fst (kv_entries (dp_process st))))" by auto
  then have "snd (t, i) \<in> snd ` set (filter (\<lambda>(t', _). t' = t) (map fst (kv_entries (dp_process st))))" by (rule imageI)
  then show ?thesis by (simp add: GetProcessOrderListByType_def)
qed

definition fresh_order ::
  "DepContext \<Rightarrow> CUAddress \<Rightarrow> Symbol \<Rightarrow> string \<Rightarrow> string \<Rightarrow> uint64 \<Rightarrow> int \<Rightarrow> string \<Rightarrow> string \<Rightarrow> OrderCollect" where
  "fresh_order ctx cu symbol addr hash index amt i memo =
     empty_OrderCollect\<lparr>ob_CUAddress := cu, ob_ID := i, ob_OrderType := OrderTypeCollect, ob_Symbol := symbol,
       ob_Status := CrossStatusBegin, ob_Height := ec_BlockHeight (dc_ev ctx), oc_CollectFromCU := cu,
       oc_CollectFromAddress := addr, oc_Amount := amt, oc_Txhash := hash, oc_Index := index, oc_Memo := memo\<rparr>"

lemma open_deposit_keeps:
  assumes d: "open_deposit ctx cu symbol addr hash index amt i memo asset ast st = Some (r, st')"
    and inv: "dep_inv chain_of decodes base st" and dec: "dc_decodes ctx = decodes"
    and v: "IsValidAddr decodes cu" and h: "hash \<noteq> ''''"
  shows "dep_inv chain_of decodes base st'"
proof (cases "st' = st")
  case True
  then show ?thesis using inv by simp
next
  case False
  let ?ord = "fresh_order ctx cu symbol addr hash index amt i memo"
  have cu: "cu \<noteq> ''''" using v by (auto simp: IsValidAddr_def AddrLen_def split: if_split_asm)
  have n: "kv_get (dp_orders st) i = None" "kv_get (dp_deposits st) (cu, symbol, hash, index) = None"
    and g: "go_any (same_tx st hash index) (GetProcessOrderListByType st OrderTypeCollect) = Some False"
    using d False by (auto simp: open_deposit_def order_IsExist_def IsDepositExist_def bind_Some_iff split: if_split_asm)
  have "NewOrderCollect ctx cu i symbol cu addr amt 0 0 hash index memo st =
      (?ord, st\<lparr>dp_process := kv_set (OrderTypeCollect, i) () (dp_process st)\<rparr>)"
    using cu n(1) by (simp add: NewOrderCollect_def cross_NewOrder_def order_IsExist_def fresh_order_def
        empty_OrderCollect_def DepositUnconfirm_def)
  moreover have "ob_CUAddress ?ord = cu" "ob_ID ?ord = i" "ob_Status ?ord = CrossStatusBegin" by (simp_all add: fresh_order_def)
  moreover have "\<not> Terminated CrossStatusBegin" by (simp add: Terminated_def CrossStatusBegin_def CrossStatusFinish_def)
  ultimately have e: "st' = st\<lparr>dp_process := kv_set (OrderTypeCollect, i) () (dp_process st),
      dp_orders := kv_set i (CollectOrder ?ord) (dp_orders st)\<rparr>"
    using d n g v dec by (simp add: open_deposit_def order_IsExist_def IsDepositExist_def Let_def cross_SetOrder_def)
  have io: "dep_orders_inv decodes st" and ii: "items_inv st" and ia: "assets_inv st" and il: "ledger_inv chain_of base st"
    and vo: "votes_ok (dp_evidence st)" using inv by (simp_all add: dep_inv_def)
  have key: "order_key ?ord = (cu, symbol, hash, index)" and fee: "oc_CostFee ?ord = 0" and okO: "order_ok decodes i ?ord"
    using v h by (simp_all add: fresh_order_def empty_OrderCollect_def order_ok_def)
  have at': "collect_at st' j x \<longleftrightarrow> (if j = i then x = ?ord else collect_at st j x)" for j x
    by (auto simp: e collect_at_def)
  have und: "decision st i = None" using dep_orders_invD(1) [OF io n(1)] by (simp add: verdict_def)
  have same: "dp_evidence st' = dp_evidence st" "dp_deposits st' = dp_deposits st" "dp_assets st' = dp_assets st"
    "dp_bank st' = dp_bank st" by (simp_all add: e)
  have pr: "kv_get (dp_process st') (t, j) = (if t = OrderTypeCollect \<and> j = i then Some () else kv_get (dp_process st) (t, j))"
    for t j by (simp add: e)
  have distinct: "\<not> (oc_Txhash x = hash \<and> oc_Index x = index)"
    if "collect_at st j x" "decision st j = None" for j x
  proof -
    have "j \<in> set (GetProcessOrderListByType st OrderTypeCollect)"
      by (rule process_listed) (use undecided_order(4) [OF io that] in simp)
    from go_any_False [OF g this] that(1) show ?thesis by (simp add: same_tx_def collect_at_def)
  qed
  have "dep_orders_inv decodes st'"
    unfolding dep_orders_inv_def
  proof (intro conjI allI impI)
    show "kv_get (ev_boxes (dp_evidence st')) j = None" if "kv_get (dp_orders st') j = None" for j
      using that dep_orders_invD(1) [OF io, of j] by (simp add: e split: if_split_asm)
  next
    fix j x assume x: "collect_at st' j x"
    show "order_ok decodes j x" using x okO dep_orders_invD(2) [OF io, of j x] by (cases "j = i") (simp_all add: at')
    show "kv_get (dp_process st') (OrderTypeCollect, j) = Some ()" "oc_CostFee x = 0"
      "kv_get (dp_deposits st') (order_key x) = None" if "decision st' j = None"
      using that x dep_orders_invD(2) [OF io, of j x] n(2) key fee
      by (auto simp: at' same pr split: if_split_asm)
    show "\<exists>it. kv_get (dp_deposits st') (order_key x) = Some it" if "decision st' j = Some True"
      using that x dep_orders_invD(2) [OF io, of j x] und by (auto simp: same at' split: if_split_asm)
  next
    fix j k x y assume a: "collect_at st' j x" "collect_at st' k y" "decision st' j = None" "decision st' k = None"
      "oc_Txhash x = oc_Txhash y" "oc_Index x = oc_Index y"
    then show "j = k" using dep_orders_invD(3) [OF io, of j x k y] distinct [of j x] distinct [of k y] key
      by (auto simp: at' same split: if_split_asm)
  qed
  moreover have "items_inv st'"
    unfolding items_inv_def
  proof (intro conjI allI impI)
    fix k it assume "kv_get (dp_deposits st') k = Some it"
    then obtain j x where "collect_at st j x" "order_key x = k" "decision st j = Some True" "oc_Amount x = di_Amount it"
      using items_invD(1) [OF ii, of k it] by (auto simp: same)
    moreover have "j \<noteq> i" using calculation(3) und by auto
    ultimately show "\<exists>j x. collect_at st' j x \<and> order_key x = k \<and> decision st' j = Some True \<and> oc_Amount x = di_Amount it"
      by (intro exI [of _ j] exI [of _ x]) (simp add: at' same)
  next
    fix j k x y
    assume "collect_at st' j x" "collect_at st' k y" "decision st' j = Some True" "decision st' k = Some True"
      "order_key x = order_key y"
    then show "j = k" using items_invD(2) [OF ii, of j x k y] und by (auto simp: at' same split: if_split_asm)
  qed
  moreover have "assets_inv st'" using ia by (simp add: assets_inv_def held_def same)
  moreover have "ledger_inv chain_of base st'"
    using il n(1) fee by (simp add: ledger_inv_def waiting_def same fees_def) (simp add: e)
  ultimately show ?thesis using vo by (simp add: dep_inv_def same)
qed

text \<open>The assets of a unit may change as long as its coins stay.\<close>

lemma SetCUIBCAsset_keeps:
  assumes inv: "dep_inv chain_of decodes base st" and a: "ia_Address ast = a" "denoms_sorted (ia_AssetCoins ast)"
    "\<And>s. amount_of (ia_AssetCoins ast) s = held st a s"
  shows "dep_inv chain_of decodes base (SetCUIBCAsset ast st)"
  using inv a
  by (auto simp: dep_inv_def SetCUIBCAsset_def dep_orders_inv_def collect_at_def items_inv_def assets_inv_def held_def
      ledger_inv_def waiting_def fees_def)

lemma SetAssetAddress_parts:
  "SetAssetAddress denom addr epoch ast = Some (ok, ast') \<Longrightarrow>
   ia_Address ast' = ia_Address ast \<and> ia_AssetCoins ast' = ia_AssetCoins ast"
  by (auto simp: SetAssetAddress_def AddAsset_def bind_Some_iff split: option.split_asm prod.split_asm if_split_asm)

lemma deposit_asset_keeps:
  assumes d: "deposit_asset symbol chain addr ast st = Some (asset, ast', st')"
    and inv: "dep_inv chain_of decodes base st" and a: "kv_get (dp_assets st) a = Some ast"
  shows "dep_inv chain_of decodes base st'"
proof (cases "st' = st")
  case True
  then show ?thesis using inv by simp
next
  case False
  then obtain epoch ok where s: "SetAssetAddress symbol addr epoch ast = Some (ok, ast')" "st' = SetCUIBCAsset ast' st"
    using d by (auto simp: deposit_asset_def bind_Some_iff split: option.split_asm if_split_asm)
  have "ia_Address ast = a" "denoms_sorted (ia_AssetCoins ast)" "\<And>s. amount_of (ia_AssetCoins ast) s = held st a s"
    using inv a by (auto simp: dep_inv_def assets_inv_def)
  with SetAssetAddress_parts [OF s(1)] show ?thesis
    unfolding s(2) by (intro SetCUIBCAsset_keeps [OF inv, of _ a]) simp_all
qed

lemma accept_deposit_keeps:
  assumes d: "accept_deposit ctx to symbol chain addr hash index amt i memo st = Some (r, st')"
    and inv: "dep_inv chain_of decodes base st" and dec: "dc_decodes ctx = decodes"
    and v: "IsValidAddr decodes to" and h: "hash \<noteq> ''''"
  shows "dep_inv chain_of decodes base st'"
proof -
  have to: "to \<noteq> ''''" using v by (auto simp: IsValidAddr_def AddrLen_def split: if_split_asm)
  let ?get = "case GetCUIBCAsset st to of
      None \<Rightarrow> (let a = NewCUIBCAssetWithAddress CUTypeUser to in (a, SetCUIBCAsset a st))
    | Some a \<Rightarrow> (a, st)"
  obtain ast st1 where g: "?get = (ast, st1)" by (cases ?get)
  have new: "dep_inv chain_of decodes base (SetCUIBCAsset (NewCUIBCAssetWithAddress CUTypeUser to) st)"
    if "kv_get (dp_assets st) to = None"
    by (rule SetCUIBCAsset_keeps [OF inv, of _ to])
      (use that inv in \<open>simp_all add: NewCUIBCAssetWithAddress_def dep_inv_def assets_inv_def\<close>)
  have 1: "dep_inv chain_of decodes base st1" "kv_get (dp_assets st1) to = Some ast"
    using g inv new to
    by (auto simp: GetCUIBCAsset_def Let_def SetCUIBCAsset_def NewCUIBCAssetWithAddress_def split: option.split_asm)
  obtain asset ast2 st2 where a: "deposit_asset symbol chain addr ast st1 = Some (asset, ast2, st2)"
    and o: "(case asset of None \<Rightarrow> Some (Inl ErrInvalidTx, st2)
      | Some asset \<Rightarrow> open_deposit ctx to symbol addr hash index amt i memo asset ast2 st2) = Some (r, st')"
    using d unfolding accept_deposit_def g by (auto simp: bind_Some_iff)
  have "dep_inv chain_of decodes base st2" by (rule deposit_asset_keeps [OF a 1])
  with o show ?thesis by (cases asset) (auto intro: open_deposit_keeps [OF _ _ dec v h])
qed

lemma Deposit_cases:
  assumes "Deposit ctx from to symbol addr hash index amt i memo st = Some (r, st')"
  obtains "st' = st"
  | chain canonical where "accept_deposit ctx to symbol chain canonical hash index amt i memo st = Some (r, st')"
  using assms unfolding Deposit_def
  by (auto simp: Let_def split: if_split_asm option.split_asm prod.split_asm)

lemma Deposit_keeps:
  assumes d: "Deposit ctx from to symbol addr hash index amt i memo st = Some (r, st')"
    and inv: "dep_inv chain_of decodes base st" and dec: "dc_decodes ctx = decodes"
    and v: "IsValidAddr decodes to" and h: "hash \<noteq> ''''"
  shows "dep_inv chain_of decodes base st'"
  using d
proof (cases rule: Deposit_cases)
  case 1
  then show ?thesis using inv by simp
next
  case 2
  then show ?thesis by (rule accept_deposit_keeps [OF _ inv dec v h])
qed

section \<open>Runs\<close>

text \<open>The messages with their stateless checks, and the ends of blocks.\<close>

inductive dep_reach :: "(Symbol \<Rightarrow> Symbol) \<Rightarrow> (CUAddress \<Rightarrow> bool) \<Rightarrow> dep_state \<Rightarrow> dep_state \<Rightarrow> bool"
  for chain_of decodes st0 where
  start: "dep_reach chain_of decodes st0 st0"
| deposit: "dep_reach chain_of decodes st0 st \<Longrightarrow> ctx_agrees chain_of decodes ctx \<Longrightarrow>
    MsgDeposit_ValidateBasic ctx msg = None \<Longrightarrow> handleMsgDeposit ctx msg st = Some (r, st') \<Longrightarrow>
    dep_reach chain_of decodes st0 st'"
| confirm: "dep_reach chain_of decodes st0 st \<Longrightarrow> ctx_agrees chain_of decodes ctx \<Longrightarrow>
    MsgConfirmedDeposit_ValidateBasic ctx cmsg = None \<Longrightarrow> handleMsgConfirmedDeposit ctx cmsg st = Some (r, st') \<Longrightarrow>
    dep_reach chain_of decodes st0 st'"
| end_block: "dep_reach chain_of decodes st0 st \<Longrightarrow>
    RecordMisbehaviourVoter TxVote_JSON ectx (dp_evidence st) = Some ev \<Longrightarrow>
    dep_reach chain_of decodes st0 (st\<lparr>dp_evidence := ev\<rparr>)"

text \<open>A state before the first deposit: no items, no collect orders, no votes, no asset coins.\<close>

definition dep_start :: "dep_state \<Rightarrow> bool" where
  "dep_start st = (dp_deposits st = kv_empty \<and> dp_orders st = kv_empty \<and> ev_boxes (dp_evidence st) = kv_empty \<and>
     kv_all (\<lambda>a ast. ia_Address ast = a \<and> ia_AssetCoins ast = []) (dp_assets st))"

lemma dep_start_inv:
  assumes "dep_start st"
  shows "dep_inv chain_of decodes (\<lambda>s. free_total (dp_bank st) s) st"
  using assms
  by (auto simp: dep_start_def dep_inv_def votes_ok_def dep_orders_inv_def collect_at_def items_inv_def assets_inv_def
      held_def ledger_inv_def fees_def waiting_def kv_all_iff)

lemma Record_boxes:
  "RecordMisbehaviourVoter marshal ctx ev = Some ev' \<Longrightarrow> ev_boxes ev' = ev_boxes ev"
  by (auto simp: RecordMisbehaviourVoter_def bind_Some_iff Let_def record_votes_keeps split: if_split_asm)

lemma dep_reach_inv:
  assumes "dep_reach chain_of decodes st0 st" and "dep_start st0"
  shows "dep_inv chain_of decodes (\<lambda>s. free_total (dp_bank st0) s) st"
  using assms(1)
proof (induction rule: dep_reach.induct)
  case start
  show ?case by (rule dep_start_inv [OF assms(2)])
next
  case (deposit st ctx msg r st')
  have dec: "dc_decodes ctx = decodes" using deposit(2) by (simp add: ctx_agrees_def)
  have v: "IsValidAddr decodes (md_ToCU msg)" "md_Txhash msg \<noteq> ''''"
    using deposit(3) dec by (auto simp: MsgDeposit_ValidateBasic_def split: if_split_asm)
  show ?case
  proof (cases "dc_SendEnabled ctx")
    case True
    with deposit(4) show ?thesis
      by (auto simp: handleMsgDeposit_def intro: Deposit_keeps [OF _ deposit.IH dec v])
  next
    case False
    with deposit(4) deposit.IH show ?thesis by (simp add: handleMsgDeposit_def)
  qed
next
  case (confirm st ctx cmsg r st')
  show ?case
    using confirm(4) confirm.IH
    by (auto simp: handleMsgConfirmedDeposit_def ConfirmedDeposit_def bind_Some_iff split: if_split_asm
        dest!: process_keeps [OF confirm(2)])
next
  case (end_block st ectx ev)
  have b: "ev_boxes ev = ev_boxes (dp_evidence st)" by (rule Record_boxes [OF end_block(2)])
  then have "verdict ev = decision st" by (simp add: fun_eq_iff verdict_def)
  with end_block.IH b show ?case
    by (simp add: dep_inv_def votes_ok_def dep_orders_inv_def collect_at_def items_inv_def assets_inv_def held_def
        ledger_inv_def waiting_def fees_def)
qed

section \<open>What holds in every run\<close>


text \<open>
  C19. Over any run of deposits and confirmations the books agree.  In every token, what the accounts can
  spend and the collection fees paid on its chain add up to the initial balances and the items waiting for
  collection.  The asset coins of every unit are the sum of its items.
\<close>

theorem deposits_backed:
  assumes "dep_start st0" and "dep_reach chain_of decodes st0 st"
  shows "(\<forall>s. free_total (dp_bank st) s + fees chain_of st s = free_total (dp_bank st0) s + waiting st s) \<and>
    (\<forall>a ast s. kv_get (dp_assets st) a = Some ast \<longrightarrow> amount_of (ia_AssetCoins ast) s = held st a s)"
  using dep_reach_inv [OF assms(2,1)] by (simp add: dep_inv_def ledger_inv_def assets_inv_def)

section \<open>Samples\<close>

definition eth :: IBCToken where
  "eth = \<lparr>it_Symbol = ''eth'', it_Chain = ''eth'', it_SendEnabled = True, it_TokenType = AccountBased,
     it_DepositEnabled = True, it_DepositThreshold = 10, it_SysTransferNum = 3, it_GasLimit = 2, it_GasPrice = 1,
     it_NeedCollectFee = True\<rparr>"

definition erc :: IBCToken where
  "erc = eth\<lparr>it_Symbol := ''usdt''\<rparr>"

definition user_cu :: CUAddress where "user_cu = ''aaaaaaaaaaaaaaaaaaaa''"
definition key_node :: CUAddress where "key_node = ''kkkkkkkkkkkkkkkkkkkk''"

definition sample_dctx :: DepContext where
  "sample_dctx = \<lparr>dc_ev = (vote_ctx 7)\<lparr>ec_KeyNodeSet := [key_node]\<rparr>,
     dc_GetIBCToken = (\<lambda>s. if s = ''eth'' then Some eth else if s = ''usdt'' then Some erc else None),
     dc_SendEnabled = True, dc_ValidAddress = (\<lambda>_ _ a. (True, a)), dc_uuid = (\<lambda>_. True), dc_decodes = (\<lambda>_. True)\<rparr>"

definition sample_asset :: "Asset list \<Rightarrow> CUIBCAsset" where
  "sample_asset assets = (NewCUIBCAssetWithAddress CUTypeUser user_cu)\<lparr>ia_Assets := assets\<rparr>"

definition sample_dep :: "Asset list \<Rightarrow> dep_state" where
  "sample_dep assets = \<lparr>dp_bank = \<lparr>balances = kv_empty, holds = kv_empty\<rparr>,
     dp_cus = empty_cus\<lparr>cus_accounts := kv_set key_node (BaseAccount (NewBaseCU CUTypeUser key_node None 0)) kv_empty\<rparr>,
     dp_orders = kv_empty, dp_process = kv_empty, dp_assets = kv_set user_cu (sample_asset assets) kv_empty,
     dp_deposits = kv_empty, dp_evidence = empty_evidence\<rparr>"

definition sample_msg :: "Symbol \<Rightarrow> string \<Rightarrow> MsgDeposit" where
  "sample_msg symbol addr = \<lparr>md_FromCU = key_node, md_ToCU = user_cu, md_ToAddress = addr, md_Symbol = symbol,
     md_Amount = 100, md_Index = 0, md_Txhash = ''h'', md_OrderID = ''id'', md_Memo = ''''\<rparr>"

definition deposit_order :: "Symbol \<Rightarrow> string \<Rightarrow> OrderCollect" where
  "deposit_order symbol addr = fresh_order sample_dctx user_cu symbol addr ''h'' 0 100 ''id'' ''''"

lemmas sample_defs = sample_dctx_def sample_dep_def sample_asset_def sample_msg_def vote_ctx_def
  user_cu_def key_node_def eth_def erc_def NewCUIBCAssetWithAddress_def empty_cus_def AccountBased_def

lemmas dep_eval = handleMsgDeposit_def Deposit_def IsIllegalOrderID_def GetCU_def getCU_def NewBaseCU_def
  CUTypeUser_def CUTypeOp_def accept_deposit_def deposit_asset_def GetAssetByAddr_def GetCUIBCAsset_def SetCUIBCAsset_def
  open_deposit_def order_IsExist_def IsDepositExist_def GetProcessOrderListByType_def NewOrderCollect_def
  cross_NewOrder_def cross_SetOrder_def IsValidAddr_def AddrLen_def Terminated_def CrossStatusBegin_def
  CrossStatusFinish_def OrderTypeCollect_def OrderTypeDeposit_def DepositUnconfirm_def NewAsset_def

lemma sample_deposit:
  "handleMsgDeposit sample_dctx (sample_msg ''eth'' ''x'') (sample_dep [NewAsset ''eth'' ''x'' 1 True]) =
     Some (Inr [OrderFlow ''eth'' user_cu ''id'' 4 1, DepositFlow user_cu ''x'' ''eth'' ''h'' ''id'' '''' 0 100 False 1],
       (sample_dep [NewAsset ''eth'' ''x'' 1 True])\<lparr>dp_process := kv_set (3, ''id'') () kv_empty,
         dp_orders := kv_set ''id'' (CollectOrder (deposit_order ''eth'' ''x'')) kv_empty\<rparr>)"
  by (simp add: sample_defs dep_eval deposit_order_def fresh_order_def empty_OrderCollect_def cong: go_congs)

lemmas confirm_eval = handleMsgConfirmedDeposit_def ConfirmedDeposit_def IsActiveKeyNode_def ev_Vote_def
  VoteWithCustomBox_def Majority23_def NewVoteBox_def AddVote_def empty_evidence_def confirmDepositOrder_def
  deposit_terms_def GetGasRemained_def GetDepositList_def CollectFee_def record_deposit_def NewDepositItem_def
  SaveDeposit_def dep_bank_def AddAssetCoins_def DepositItemStatusWaitCollect_def DepositItemStatusConfirmed_def
  DepositItemStatusUnCollected_def DepositConfirmed_def UtxoBased_def Int_Mul_eq Int_Sub_eq Int_Add_eq

definition sample_state :: dep_state where
  "sample_state = snd (the (handleMsgDeposit sample_dctx (sample_msg ''eth'' ''x'') (sample_dep [NewAsset ''eth'' ''x'' 1 True])))"

definition sample_confirm :: MsgConfirmedDeposit where
  "sample_confirm = \<lparr>mc_From = key_node, mc_ValidOrderIDs = [''id''], mc_InvalidOrderIDs = []\<rparr>"

lemma sample_confirmed:
  "\<exists>r st. handleMsgConfirmedDeposit sample_dctx sample_confirm sample_state = Some (Inr r, st) \<and>
     kv_get (balances (dp_bank st)) (user_cu, ''eth'') = Some 98 \<and>
     map_option di_Amount (kv_get (dp_deposits st) (user_cu, ''eth'', ''h'', 0)) = Some 100 \<and>
     map_option ia_AssetCoins (kv_get (dp_assets st) user_cu) = Some [\<lparr>Denom = ''eth'', Amount = 100\<rparr>]"
  by (simp add: sample_state_def sample_deposit sample_confirm_def deposit_order_def fresh_order_def
      empty_OrderCollect_def sample_defs dep_eval confirm_eval go_eval Let_def cong: go_congs)

definition final_state :: dep_state where
  "final_state = snd (the (handleMsgConfirmedDeposit sample_dctx sample_confirm sample_state))"

lemma sample_reach:
  "dep_start (sample_dep [NewAsset ''eth'' ''x'' 1 True])"
  "dep_reach (\<lambda>_. ''eth'') (\<lambda>_. True) (sample_dep [NewAsset ''eth'' ''x'' 1 True]) final_state"
proof -
  let ?st0 = "sample_dep [NewAsset ''eth'' ''x'' 1 True]"
  show "dep_start ?st0"
    by (simp add: dep_start_def sample_defs empty_evidence_def kv_all_set)
  have agree: "ctx_agrees (\<lambda>_. ''eth'') (\<lambda>_. True) sample_dctx"
    by (simp add: ctx_agrees_def sample_defs split: if_split)
  have "dep_reach (\<lambda>_. ''eth'') (\<lambda>_. True) ?st0 sample_state"
  proof (rule dep_reach.deposit [OF dep_reach.start agree])
    show "MsgDeposit_ValidateBasic sample_dctx (sample_msg ''eth'' ''x'') = None"
      by (simp add: MsgDeposit_ValidateBasic_def sample_defs dep_eval go_eval)
    show "handleMsgDeposit sample_dctx (sample_msg ''eth'' ''x'') ?st0 =
        Some (fst (the (handleMsgDeposit sample_dctx (sample_msg ''eth'' ''x'') ?st0)), sample_state)"
      by (simp add: sample_state_def sample_deposit)
  qed
  then show "dep_reach (\<lambda>_. ''eth'') (\<lambda>_. True) ?st0 final_state"
  proof (rule dep_reach.confirm [OF _ agree])
    show "MsgConfirmedDeposit_ValidateBasic sample_dctx sample_confirm = None"
      by (simp add: MsgConfirmedDeposit_ValidateBasic_def IsIllegalOrderIDList_def sample_confirm_def sample_defs dep_eval)
    obtain r where "handleMsgConfirmedDeposit sample_dctx sample_confirm sample_state = Some (Inr r, final_state)"
      using sample_confirmed unfolding final_state_def by fastforce
    then show "handleMsgConfirmedDeposit sample_dctx sample_confirm sample_state =
        Some (fst (the (handleMsgConfirmedDeposit sample_dctx sample_confirm sample_state)), final_state)" by simp
  qed
qed

lemma final_item:
  "map_option di_Amount (kv_get (dp_deposits final_state) (user_cu, ''eth'', ''h'', 0)) = Some 100"
  "kv_get (balances (dp_bank final_state)) (user_cu, ''eth'') = Some 98"
  "map_option ia_AssetCoins (kv_get (dp_assets final_state) user_cu) = Some [\<lparr>Denom = ''eth'', Amount = 100\<rparr>]"
  using sample_confirmed unfolding final_state_def by auto


theorem deposits_backed_witness:
  "kv_get (balances (dp_bank final_state)) (user_cu, ''eth'') = Some 98 \<and>
   (\<forall>s. free_total (dp_bank final_state) s + fees (\<lambda>_. ''eth'') final_state s =
      free_total (dp_bank (sample_dep [NewAsset ''eth'' ''x'' 1 True])) s + waiting final_state s) \<and>
   held final_state user_cu ''eth'' = 100"
proof -
  note backed = deposits_backed [OF sample_reach]
  obtain ast where "kv_get (dp_assets final_state) user_cu = Some ast" "ia_AssetCoins ast = [\<lparr>Denom = ''eth'', Amount = 100\<rparr>]"
    using final_item(3) by auto
  with backed have "amount_of [\<lparr>Denom = ''eth'', Amount = 100\<rparr>] ''eth'' = held final_state user_cu ''eth''" by metis
  then have "held final_state user_cu ''eth'' = 100" by simp
  with final_item(2) backed show ?thesis by blast
qed

section \<open>Where the code goes wrong\<close>

text \<open>
  The subtraction of epochs in \<open>AddAsset\<close> is on 64-bit words: for an epoch before that of an asset it wraps
  around, and the asset of the later epoch is dropped as if it were old.
\<close>

lemma newer_looks_old:
  fixes epoch :: uint64
  assumes "3 \<le> epoch" and "epoch < e"
  shows "2 \<le> epoch - e"
proof -
  have "unat (epoch - e) = 2 ^ 64 + unat epoch - unat e"
    using assms(2) by (simp add: unat_sub_if' word_less_nat_alt not_le)
  moreover have "unat e < 2 ^ 64" using unsigned_less [of e] by simp
  moreover have "3 \<le> unat epoch" using assms(1) by (simp add: word_le_nat_alt)
  ultimately show ?thesis by (simp add: word_le_nat_alt)
qed

lemma drop_old_assets_newer:
  assumes "3 \<le> epoch"
  shows "drop_old_assets epoch assets used = Some (assets', used') \<Longrightarrow> asset \<in> set assets' \<Longrightarrow> as_Epoch asset \<le> epoch"
proof (induction assets arbitrary: used assets' used')
  case (Cons a assets)
  show ?case
  proof (cases "2 \<le> epoch - as_Epoch a")
    case True
    then obtain used1 where "drop_old_assets epoch assets used1 = Some (assets', used')"
      using Cons.prems(1) assms by (auto simp: bind_Some_iff split: if_split_asm)
    then show ?thesis using Cons.IH Cons.prems(2) by blast
  next
    case False
    then have "\<not> epoch < as_Epoch a" using newer_looks_old [OF assms] by blast
    moreover obtain rest where "drop_old_assets epoch assets used = Some (rest, used')" "assets' = a # rest"
      using Cons.prems(1) False by (auto simp: bind_Some_iff)
    ultimately show ?thesis using Cons.IH Cons.prems(2) by auto
  qed
qed simp

lemma AddAsset_drops_newer:
  assumes a: "AddAsset denom addr epoch ast = Some (True, ast')" and e: "3 \<le> epoch" and x: "x \<in> set (ia_Assets ast')"
  shows "as_Epoch x \<le> epoch"
proof -
  obtain assets used assets' used' where d: "drop_old_assets epoch assets used = Some (assets', used')"
    and s: "ia_Assets ast' = assets' @ [NewAsset denom addr epoch True]"
    using a by (auto simp: AddAsset_def bind_Some_iff split: prod.split_asm if_split_asm)
  show ?thesis
    using x drop_old_assets_newer [OF e d, of x] by (auto simp: s NewAsset_def)
qed

definition two_epochs :: "Asset list" where
  "two_epochs = [NewAsset ''eth'' ''old'' 4 True, NewAsset ''eth'' ''new'' 5 True]"

definition after_old :: dep_state where
  "after_old = (sample_dep [NewAsset ''eth'' ''old'' 4 True, NewAsset ''usdt'' ''old'' 4 True])
     \<lparr>dp_process := kv_set (3, ''id'') () kv_empty,
      dp_orders := kv_set ''id'' (CollectOrder (deposit_order ''usdt'' ''old'')) kv_empty\<rparr>"

lemma deposit_to_old:
  "\<exists>r. handleMsgDeposit sample_dctx (sample_msg ''usdt'' ''old'') (sample_dep two_epochs) = Some (Inr r, after_old)"
  by (simp add: two_epochs_def after_old_def sample_defs dep_eval SetAssetAddress_def AddAsset_def deposit_order_def
      fresh_order_def empty_OrderCollect_def cong: go_congs)

lemma deposit_to_new_refused:
  "handleMsgDeposit sample_dctx ((sample_msg ''eth'' ''new'')\<lparr>md_OrderID := ''id2'', md_Txhash := ''h2''\<rparr>) after_old =
     Some (Inl ErrInvalidTx, after_old)"
  by (simp add: after_old_def sample_defs dep_eval cong: go_congs)


text \<open>
  A deposit of the coin of a chain below the fee of its collection cannot be confirmed: the confirmation
  panics whenever no item of the unit waits for collection and the gas left at its address does not pay for
  one.  The transaction of the key node whose vote decides is then undone together with its vote, and the
  other orders of its message with it.
\<close>

theorem underfunded_deposit_panics:
  assumes "GetCUIBCAsset st (oc_CollectFromCU ord) = Some ast" and "ia_Type ast \<noteq> CUTypeOp"
    and "dc_GetIBCToken ctx (ob_Symbol ord) = Some t" and "it_Symbol t = it_Chain t"
    and "Int_Mul (it_GasPrice t) (it_GasLimit t) = Some gasFee"
    and "GetGasRemained ast (it_Chain t) (oc_CollectFromAddress ord) < gasFee"
    and "\<forall>item \<in> set (GetDepositList st (ob_Symbol ord) (oc_CollectFromCU ord)). di_Status item \<noteq> DepositItemStatusWaitCollect"
    and "CollectFee t = Some fee" and "oc_Amount ord < Amount fee"
  shows "confirmDepositOrder ctx ord True st = None"
proof -
  let ?ord = "ord\<lparr>oc_DepositStatus := DepositConfirmed\<rparr>"
  let ?rec = "\<lambda>(ord, collectAmt, depositItemStatus, flows). record_deposit ctx ast ord collectAmt depositItemStatus flows"
  have c: "confirmDepositOrder ctx ord True st = on_ok (deposit_terms ctx ?ord ast False st) ?rec"
    using assms(1,7) by (simp add: confirmDepositOrder_def Let_def)
  have "record_deposit ctx ast x amt DepositItemStatusWaitCollect fls st' = None" if "amt < 0" for x amt fls st'
    using that by (simp add: record_deposit_def Let_def NewCoin_def validate_def split: prod.split)
  moreover have "deposit_terms ctx ?ord ast False st = None \<or>
      (\<exists>x amt. amt < 0 \<and> deposit_terms ctx ?ord ast False st = Some (Inr (x, amt, DepositItemStatusWaitCollect, []), st))"
    using assms(2-6,8,9) by (simp add: deposit_terms_def Int_Sub_eq not_le)
  ultimately show ?thesis unfolding c by auto
qed

end
